(* ===== verification/Prelude.thy ===== *)
theory Prelude
  imports Main "HOL-Library.Word" "HOL-Library.List_Lexorder"
begin

text \<open>
  Shared vocabulary of the development: the names of the Rust scalar types, the error values of
  the storage layer, the result type, and the generic facts about lists and maps that every
  component uses.

  Rust scalars. \<open>u8\<close> and \<open>u64\<close> are machine words. \<open>usize\<close> values are lengths and counts
  and are \<open>nat\<close>; where the code adds two of them without a bound the wrap-around is written out.
  \<open>i64\<close> is \<open>int\<close>: every operation of the source that can leave the 64-bit range is a checked one
  and tests \<open>i64_range\<close> explicitly. A byte slice (\<open>&[u8]\<close>, \<open>Vec<u8>\<close> and the \<open>Bytes\<close> wrapper of
  storage/bytes.rs, which compares by content) is a list of bytes; the order on it is the
  lexicographic one, which is the order of Rust's slices.
\<close>

type_synonym u8 = "8 word"
type_synonym u64 = "64 word"
type_synonym usize = nat
type_synonym i64 = int
type_synonym f64 = "64 word"
type_synonym bytes = "u8 list"

text \<open>
  Error values: one constructor per message the storage layer returns, and \<open>Panic\<close> for a Rust
  panic (an out-of-range slice, an invalid range handed to a \<open>BTreeMap\<close>, \<open>unreachable!()\<close>).
\<close>

datatype rerr =
    WrongType         \<comment> \<open>WRONGTYPE Operation against a key holding the wrong kind of value\<close>
  | NotInteger        \<comment> \<open>value is not an integer or out of range\<close>
  | IncrOverflow      \<comment> \<open>increment would overflow\<close>
  | DecrOverflow      \<comment> \<open>decrement would overflow\<close>
  | HashNotInteger    \<comment> \<open>ERR hash value is not an integer or out of range\<close>
  | HashNotFloat      \<comment> \<open>ERR hash value is not a float\<close>
  | ZaddNxXx          \<comment> \<open>ERR NX and XX options at the same time are not compatible\<close>
  | ZaddGtLtNx        \<comment> \<open>ERR GT, LT, and/or NX options at the same time are not compatible\<close>
  | ZaddIncrPair      \<comment> \<open>ERR INCR option supports a single increment-element pair\<close>
  | InvalidMinRank    \<comment> \<open>invalid min rank\<close>
  | InvalidMaxRank    \<comment> \<open>invalid max rank\<close>
  | InvalidScore      \<comment> \<open>invalid score\<close>
  | InvalidLexBound   \<comment> \<open>invalid lex bound\<close>
  | Usage string      \<comment> \<open>the arguments do not decode: the command, or what is wrong\<close>
  | Panic             \<comment> \<open>the call panics\<close>

type_synonym 'a result = "rerr + 'a"

abbreviation Ok :: "'a \<Rightarrow> 'a result" where "Ok \<equiv> Inr"
abbreviation Err :: "rerr \<Rightarrow> 'a result" where "Err \<equiv> Inl"

datatype ordering = Less | Equal | Greater

fun flip_ord :: "ordering \<Rightarrow> ordering" where
  "flip_ord Less = Greater"
| "flip_ord Equal = Equal"
| "flip_ord Greater = Less"

lemma flip_ord_flip [simp]: "flip_ord (flip_ord x) = x"
  by (cases x) simp_all

lemma flip_ord_iffs [simp]:
  "flip_ord x = Less \<longleftrightarrow> x = Greater"
  "flip_ord x = Equal \<longleftrightarrow> x = Equal"
  "flip_ord x = Greater \<longleftrightarrow> x = Less"
  by (cases x; simp)+

text \<open>\<open>std::ops::Bound\<close>.\<close>

datatype 'a bound = Included 'a | Excluded 'a | Unbounded

named_theorems btree_simps \<open>what the operations of the ordered maps and sets return\<close>
named_theorems wf_intros \<open>every operation preserves the well-formedness invariant\<close>
named_theorems lookup_simps \<open>what a key holds after an operation\<close>

subsection \<open>Generic facts\<close>

lemma fold_push_front: "fold (#) xs acc = rev xs @ acc"
  by (induction xs arbitrary: acc) simp_all

lemma fold_push_back: "fold (\<lambda>x a. a @ [x]) xs acc = acc @ xs"
  by (induction xs arbitrary: acc) simp_all

lemma sorted_wrt_filter: "sorted_wrt r xs \<Longrightarrow> sorted_wrt r (filter p xs)"
  by (induction xs) auto

lemma sorted_wrt_imp_distinct:
  "sorted_wrt r xs \<Longrightarrow> (\<And>x. \<not> r x x) \<Longrightarrow> distinct xs"
  by (induction xs) auto

lemma filter_neq_id [simp]: "y \<notin> set ys \<Longrightarrow> filter (\<lambda>j. j \<noteq> y) ys = ys"
  by (induction ys) auto

lemma fold_map_upd_notin:
  "k \<notin> fst ` set ps \<Longrightarrow> fold (\<lambda>(k, v) m. m(k \<mapsto> v)) ps m k = m k"
  by (induction ps arbitrary: m) auto

lemma fold_map_upd_eq: "fold (\<lambda>(k, v) m. m(k \<mapsto> v)) ps m = m ++ map_of (rev ps)"
proof (induction ps arbitrary: m)
  case (Cons p ps)
  then show ?case by (cases p) (simp add: map_add_def fun_eq_iff split: option.splits)
qed simp

end
