(* ===== verification/Rust_Int.thy ===== *)
theory Rust_Int
  imports Prelude
begin

text \<open>
  The integer functions of the Rust standard library that the storage calls:
  \<open>i64::checked_add\<close>, \<open>checked_sub\<close>, \<open>checked_neg\<close>, \<open>i64::to_string\<close> and \<open>str::parse::<i64>\<close>.
  The source parses a byte string after \<open>from_utf8\<close> or \<open>from_utf8_lossy\<close>; the parser accepts ASCII
  signs and digits only, so a byte outside that alphabet makes the parse fail whichever way the
  bytes are decoded, and \<open>parse_i64\<close> works on the bytes.
\<close>

definition i64_range :: "int \<Rightarrow> bool" where
  "i64_range n \<longleftrightarrow> - (2 ^ 63) \<le> n \<and> n < 2 ^ 63"

text \<open>An \<open>i64\<close> is a 64-bit word read as two's complement.\<close>

lemma i64_range_sint [simp]: "i64_range (sint (n :: u64))"
  using sint_greater_eq [of n] sint_less [of n] by (simp add: i64_range_def)

definition checked_add :: "i64 \<Rightarrow> i64 \<Rightarrow> i64 option" where
  "checked_add a b = (if i64_range (a + b) then Some (a + b) else None)"

definition checked_sub :: "i64 \<Rightarrow> i64 \<Rightarrow> i64 option" where
  "checked_sub a b = (if i64_range (a - b) then Some (a - b) else None)"

definition checked_neg :: "i64 \<Rightarrow> i64 option" where
  "checked_neg a = (if i64_range (- a) then Some (- a) else None)"

definition digit_byte :: "nat \<Rightarrow> u8" where
  "digit_byte d = word_of_nat (48 + d)"

fun nat_to_string :: "nat \<Rightarrow> bytes" where
  "nat_to_string n =
     (if n < 10 then [digit_byte n] else nat_to_string (n div 10) @ [digit_byte (n mod 10)])"

declare nat_to_string.simps [simp del]

definition i64_to_string :: "i64 \<Rightarrow> bytes" where
  "i64_to_string n = (if n < 0 then 45 # nat_to_string (nat (- n)) else nat_to_string (nat n))"

definition byte_digit :: "u8 \<Rightarrow> nat option" where
  "byte_digit c = (if 48 \<le> c \<and> c \<le> 57 then Some (unat c - 48) else None)"

fun parse_digits :: "nat \<Rightarrow> bytes \<Rightarrow> nat option" where
  "parse_digits acc [] = Some acc"
| "parse_digits acc (c # cs) =
     (case byte_digit c of None \<Rightarrow> None | Some d \<Rightarrow> parse_digits (10 * acc + d) cs)"

definition parse_i64 :: "bytes \<Rightarrow> i64 option" where
  "parse_i64 bs =
     (let neg = (bs \<noteq> [] \<and> hd bs = 45);
          ds = (if bs \<noteq> [] \<and> (hd bs = 45 \<or> hd bs = 43) then tl bs else bs)
      in if ds = [] then None
         else case parse_digits 0 ds of
                None \<Rightarrow> None
              | Some n \<Rightarrow> (let v = (if neg then - int n else int n)
                          in if i64_range v then Some v else None))"

lemma byte_digit_digit_byte: "d < 10 \<Longrightarrow> byte_digit (digit_byte d) = Some d"
  by (auto simp: byte_digit_def digit_byte_def word_le_nat_alt unat_word_ariths unat_of_nat)

lemma digit_byte_not_sign: "d < 10 \<Longrightarrow> digit_byte d \<noteq> 45 \<and> digit_byte d \<noteq> 43"
  by (auto simp: digit_byte_def word_unat_eq_iff unat_word_ariths unat_of_nat)

lemma parse_digits_append:
  "parse_digits acc (xs @ ys) =
     (case parse_digits acc xs of None \<Rightarrow> None | Some a \<Rightarrow> parse_digits a ys)"
  by (induction xs arbitrary: acc) (auto split: option.splits)

lemma parse_nat_to_string: "parse_digits 0 (nat_to_string n) = Some n"
proof (induction n rule: nat_to_string.induct)
  case (1 n)
  then show ?case
    by (subst nat_to_string.simps)
      (auto simp: parse_digits_append byte_digit_digit_byte)
qed

lemma nat_to_string_head:
  "\<exists>c cs. nat_to_string n = c # cs \<and> c \<noteq> 45 \<and> c \<noteq> 43"
proof (induction n rule: nat_to_string.induct)
  case (1 n)
  show ?case
  proof (cases "n < 10")
    case True
    then show ?thesis by (subst nat_to_string.simps) (simp add: digit_byte_not_sign)
  next
    case False
    with 1 obtain c cs where "nat_to_string (n div 10) = c # cs" "c \<noteq> 45" "c \<noteq> 43" by blast
    with False show ?thesis by (subst nat_to_string.simps) simp
  qed
qed

lemma parse_i64_to_string: "i64_range n \<Longrightarrow> parse_i64 (i64_to_string n) = Some n"
proof -
  assume n: "i64_range n"
  obtain c cs where d: "nat_to_string (nat \<bar>n\<bar>) = c # cs" "c \<noteq> 45" "c \<noteq> 43"
    using nat_to_string_head by blast
  have p: "parse_digits 0 (c # cs) = Some (nat \<bar>n\<bar>)"
    using parse_nat_to_string [of "nat \<bar>n\<bar>"] d by simp
  show ?thesis
    using n d p by (cases "n < 0") (simp_all add: parse_i64_def i64_to_string_def Let_def)
qed

lemma parse_i64_range: "parse_i64 bs = Some n \<Longrightarrow> i64_range n"
  by (auto simp: parse_i64_def Let_def split: if_splits option.splits)

end
