(* ===== verification/BTree.thy ===== *)
theory BTree
  imports Prelude
begin

text \<open>
  The ordered containers of the Rust standard library that the storage uses:
  \<open>std::collections::BTreeMap\<close> and \<open>std::collections::BTreeSet\<close>. A map is the list of its entries
  in key order (what \<open>iter()\<close> yields), a set the list of its elements in order. Lookup and update
  are the usual partial-function ones; iteration order and range queries use the order.
  \<open>BTreeMap::range\<close> panics on an inverted range and on an empty range with both ends excluded;
  \<open>bm_range\<close> returns \<open>None\<close> there.
\<close>

section \<open>Ordered maps\<close>

type_synonym ('k, 'v) btree_map = "('k \<times> 'v) list"

abbreviation bm_new :: "('k, 'v) btree_map" where "bm_new \<equiv> []"

definition bm_get :: "('k, 'v) btree_map \<Rightarrow> 'k \<Rightarrow> 'v option" where
  "bm_get m k = map_of m k"

fun bm_insert :: "'k::linorder \<Rightarrow> 'v \<Rightarrow> ('k, 'v) btree_map \<Rightarrow> ('k, 'v) btree_map" where
  "bm_insert k v [] = [(k, v)]"
| "bm_insert k v (e # m) =
     (if fst e < k then e # bm_insert k v m
      else if k = fst e then (k, v) # m
      else (k, v) # e # m)"

definition bm_remove :: "'k \<Rightarrow> ('k, 'v) btree_map \<Rightarrow> ('k, 'v) btree_map" where
  "bm_remove k m = filter (\<lambda>e. fst e \<noteq> k) m"

definition bm_contains_key :: "('k, 'v) btree_map \<Rightarrow> 'k \<Rightarrow> bool" where
  "bm_contains_key m k \<longleftrightarrow> bm_get m k \<noteq> None"

definition bm_keys :: "('k, 'v) btree_map \<Rightarrow> 'k list" where
  "bm_keys m = map fst m"

definition bm_values :: "('k, 'v) btree_map \<Rightarrow> 'v list" where
  "bm_values m = map snd m"

fun above :: "'k::linorder bound \<Rightarrow> 'k \<Rightarrow> bool" where
  "above Unbounded x = True"
| "above (Included a) x = (a \<le> x)"
| "above (Excluded a) x = (a < x)"

fun below :: "'k::linorder bound \<Rightarrow> 'k \<Rightarrow> bool" where
  "below Unbounded x = True"
| "below (Included b) x = (x \<le> b)"
| "below (Excluded b) x = (x < b)"

text \<open>The ranges \<open>BTreeMap::range\<close> accepts.\<close>

fun range_ok :: "'k::linorder bound \<Rightarrow> 'k bound \<Rightarrow> bool" where
  "range_ok (Excluded a) (Excluded b) = (a < b)"
| "range_ok (Included a) (Included b) = (a \<le> b)"
| "range_ok (Included a) (Excluded b) = (a \<le> b)"
| "range_ok (Excluded a) (Included b) = (a \<le> b)"
| "range_ok _ _ = True"

definition bm_range ::
  "'k::linorder bound \<Rightarrow> 'k bound \<Rightarrow> ('k, 'v) btree_map \<Rightarrow> ('k, 'v) btree_map option" where
  "bm_range lo hi m =
     (if range_ok lo hi then Some (filter (\<lambda>e. above lo (fst e) \<and> below hi (fst e)) m) else None)"

text \<open>The two one-sided ranges, which no argument makes panic.\<close>

definition bm_after :: "'k::linorder \<Rightarrow> ('k, 'v) btree_map \<Rightarrow> ('k, 'v) btree_map" where
  "bm_after k m = the (bm_range (Excluded k) Unbounded m)"

definition bm_before :: "'k::linorder \<Rightarrow> ('k, 'v) btree_map \<Rightarrow> ('k, 'v) btree_map" where
  "bm_before k m = the (bm_range Unbounded (Excluded k) m)"

definition bm_sorted :: "('k::linorder, 'v) btree_map \<Rightarrow> bool" where
  "bm_sorted m \<longleftrightarrow> sorted_wrt (<) (map fst m)"

text \<open>The contract of an ordered map, against partial functions.\<close>

locale ordered_map =
  fixes get :: "'m \<Rightarrow> 'k \<Rightarrow> 'v option"
    and ins :: "'k \<Rightarrow> 'v \<Rightarrow> 'm \<Rightarrow> 'm"
    and rem :: "'k \<Rightarrow> 'm \<Rightarrow> 'm"
    and entries :: "'m \<Rightarrow> ('k \<times> 'v) list"
    and ok :: "'m \<Rightarrow> bool"
    and less :: "'k \<Rightarrow> 'k \<Rightarrow> bool"
  assumes get_ins: "get (ins k v m) = (get m)(k \<mapsto> v)"
    and get_rem: "get (rem k m) = (get m)(k := None)"
    and ok_ins: "ok m \<Longrightarrow> ok (ins k v m)"
    and ok_rem: "ok m \<Longrightarrow> ok (rem k m)"
    and entries_get: "ok m \<Longrightarrow> (k, v) \<in> set (entries m) \<longleftrightarrow> get m k = Some v"
    and entries_sorted: "ok m \<Longrightarrow> sorted_wrt less (map fst (entries m))"
    and less_irrefl: "\<not> less k k"
begin

lemma get_fold_ins: "get (fold (\<lambda>(k, v). ins k v) ps m) = get m ++ map_of (rev ps)"
proof (induction ps arbitrary: m)
  case (Cons p ps)
  then show ?case
    by (cases p) (simp add: get_ins map_add_def fun_eq_iff split: option.splits)
qed simp

lemma ok_fold_ins: "ok m \<Longrightarrow> ok (fold (\<lambda>(k, v). ins k v) ps m)"
  by (induction ps arbitrary: m) (auto intro: ok_ins)

lemma get_fold_rem: "get (fold rem ks m) = (get m) |` (- set ks)"
proof (induction ks arbitrary: m)
  case (Cons k ks)
  then show ?case by (auto simp: get_rem restrict_map_def fun_eq_iff)
qed (simp add: restrict_map_def)

lemma ok_fold_rem: "ok m \<Longrightarrow> ok (fold rem ks m)"
  by (induction ks arbitrary: m) (auto intro: ok_rem)

lemma dom_get: "ok m \<Longrightarrow> dom (get m) = fst ` set (entries m)"
  by (force simp: dom_def image_iff simp flip: entries_get)

lemma distinct_keys: "ok m \<Longrightarrow> distinct (map fst (entries m))"
  using entries_sorted less_irrefl by (blast intro: sorted_wrt_imp_distinct)

lemma entries_empty_iff: "ok m \<Longrightarrow> entries m = [] \<longleftrightarrow> get m = Map.empty"
  by (metis dom_eq_empty_conv dom_get image_is_empty set_empty)

end

lemma bm_get_insert: "bm_get (bm_insert k v m) = (bm_get m)(k \<mapsto> v)"
  by (induction m) (auto simp: bm_get_def fun_eq_iff)

lemma bm_get_remove: "bm_get (bm_remove k m) = (bm_get m)(k := None)"
  by (induction m) (auto simp: bm_get_def bm_remove_def fun_eq_iff)

lemma keys_bm_insert: "fst ` set (bm_insert k v m) = insert k (fst ` set m)"
  by (induction m) auto

lemma bm_sorted_insert: "bm_sorted m \<Longrightarrow> bm_sorted (bm_insert k v m)"
proof (induction m)
  case (Cons e m)
  have "\<forall>x \<in> fst ` set (bm_insert k v m). fst e < x" if "fst e < k"
    using Cons.prems that by (auto simp: keys_bm_insert bm_sorted_def)
  with Cons show ?case by (fastforce simp: bm_sorted_def not_less)
qed (simp add: bm_sorted_def)

lemma bm_sorted_filter: "bm_sorted m \<Longrightarrow> bm_sorted (filter p m)"
  unfolding bm_sorted_def by (induction m) auto

lemma bm_sorted_remove: "bm_sorted m \<Longrightarrow> bm_sorted (bm_remove k m)"
  by (simp add: bm_remove_def bm_sorted_filter)

lemma bm_sorted_distinct: "bm_sorted m \<Longrightarrow> distinct (map fst m)"
  unfolding bm_sorted_def by (rule sorted_wrt_imp_distinct) auto

lemma bm_sorted_Nil [simp]: "bm_sorted []"
  by (simp add: bm_sorted_def)

interpretation bm: ordered_map bm_get bm_insert bm_remove "\<lambda>m. m" bm_sorted "(<)"
proof
  show "bm_sorted m \<Longrightarrow> ((k, v) \<in> set m) = (bm_get m k = Some v)"
    for m :: "('k::linorder, 'v) btree_map" and k v
    by (simp add: bm_get_def bm_sorted_distinct)
qed (auto simp: bm_get_insert bm_get_remove bm_sorted_insert bm_sorted_remove
       simp flip: bm_sorted_def)

lemma bm_get_Nil [simp]: "bm_get [] = Map.empty"
  by (simp add: bm_get_def fun_eq_iff)

lemma bm_get_filter_key:
  "bm_get (filter (\<lambda>e. p (fst e)) m) k = (if p k then bm_get m k else None)"
  by (induction m) (auto simp: bm_get_def)

lemmas bm_gets [btree_simps] = bm_get_insert bm_get_remove bm.get_fold_ins bm.get_fold_rem bm_contains_key_def
lemmas bm_sorteds [wf_intros] = bm_sorted_insert bm_sorted_remove bm_sorted_filter bm.ok_fold_ins bm.ok_fold_rem

lemma bm_after_eq: "bm_after k m = filter (\<lambda>e. k < fst e) m"
  by (simp add: bm_after_def bm_range_def)

lemma bm_before_eq: "bm_before k m = filter (\<lambda>e. fst e < k) m"
  by (simp add: bm_before_def bm_range_def)

lemma bm_remove_eq_Nil: "bm_remove k m = [] \<longleftrightarrow> (\<forall>e \<in> set m. fst e = k)"
  by (auto simp: bm_remove_def filter_empty_conv)

lemma bm_sorted_unique:
  "bm_sorted m \<Longrightarrow> bm_sorted n \<Longrightarrow> bm_get m = bm_get n \<Longrightarrow> m = n"
  for m n :: "('k::linorder, 'v) btree_map"
proof -
  assume mn: "bm_sorted m" "bm_sorted n" "bm_get m = bm_get n"
  then have "set m = set n"
    by (auto simp: bm.entries_get)
  moreover have "inj_on fst (set m)"
    using mn(1) by (metis bm_sorted_distinct distinct_map)
  ultimately show "m = n"
    using mn bm_sorted_distinct unfolding bm_sorted_def
    by (intro map_sorted_distinct_set_unique [of fst]) (auto simp: strict_sorted_iff)
qed

lemma bm_insert_remove: "bm_sorted m \<Longrightarrow> bm_insert k v (bm_remove k m) = bm_insert k v m"
  by (rule bm_sorted_unique) (auto intro: bm_sorted_insert bm_sorted_remove simp: bm_get_insert bm_get_remove)

lemma bm_insert_twice: "bm_insert k v (bm_insert k w m) = bm_insert k v m"
  by (induction m) auto

lemma bm_rebuild: "bm_sorted m \<Longrightarrow> fold (\<lambda>(k, v). bm_insert k v) m [] = m"
proof (rule bm_sorted_unique)
  assume m: "bm_sorted m"
  then have "map_of (rev m) = map_of m"
    by (subst map_of_inject_set) (auto dest: bm_sorted_distinct simp flip: rev_map)
  then show "bm_get (fold (\<lambda>(k, v). bm_insert k v) m []) = bm_get m"
    by (simp add: bm.get_fold_ins bm_get_def fun_eq_iff map_add_def split: option.splits)
qed (auto intro: bm.ok_fold_ins)

section \<open>Ordered sets\<close>

type_synonym 'k btree_set = "'k list"

fun bs_insert :: "'k::linorder \<Rightarrow> 'k btree_set \<Rightarrow> 'k btree_set" where
  "bs_insert k [] = [k]"
| "bs_insert k (x # s) = (if x < k then x # bs_insert k s else if k = x then x # s else k # x # s)"

definition bs_remove :: "'k \<Rightarrow> 'k btree_set \<Rightarrow> 'k btree_set" where
  "bs_remove k s = filter (\<lambda>x. x \<noteq> k) s"

definition bs_contains :: "'k btree_set \<Rightarrow> 'k \<Rightarrow> bool" where
  "bs_contains s k \<longleftrightarrow> k \<in> set s"

text \<open>\<open>extend\<close> and \<open>collect\<close> into a set insert one element after the other.\<close>

definition bs_extend :: "'k::linorder list \<Rightarrow> 'k btree_set \<Rightarrow> 'k btree_set" where
  "bs_extend xs s = fold bs_insert xs s"

definition bs_intersection :: "'k btree_set \<Rightarrow> 'k btree_set \<Rightarrow> 'k list" where
  "bs_intersection s t = filter (\<lambda>x. x \<in> set t) s"

definition bs_difference :: "'k btree_set \<Rightarrow> 'k btree_set \<Rightarrow> 'k list" where
  "bs_difference s t = filter (\<lambda>x. x \<notin> set t) s"

definition bs_range :: "'k::linorder bound \<Rightarrow> 'k bound \<Rightarrow> 'k btree_set \<Rightarrow> 'k btree_set option" where
  "bs_range lo hi s = (if range_ok lo hi then Some (filter (\<lambda>x. above lo x \<and> below hi x) s) else None)"

definition bs_after :: "'k::linorder \<Rightarrow> 'k btree_set \<Rightarrow> 'k btree_set" where
  "bs_after k s = the (bs_range (Excluded k) Unbounded s)"

definition bs_before :: "'k::linorder \<Rightarrow> 'k btree_set \<Rightarrow> 'k btree_set" where
  "bs_before k s = the (bs_range Unbounded (Excluded k) s)"

abbreviation bs_sorted :: "'k::linorder btree_set \<Rightarrow> bool" where
  "bs_sorted \<equiv> sorted_wrt (<)"

locale ordered_set =
  fixes ins :: "'k \<Rightarrow> 's \<Rightarrow> 's"
    and rem :: "'k \<Rightarrow> 's \<Rightarrow> 's"
    and elems :: "'s \<Rightarrow> 'k list"
    and ok :: "'s \<Rightarrow> bool"
    and less :: "'k \<Rightarrow> 'k \<Rightarrow> bool"
  assumes elems_ins: "set (elems (ins k s)) = insert k (set (elems s))"
    and elems_rem: "set (elems (rem k s)) = set (elems s) - {k}"
    and ok_ins: "ok s \<Longrightarrow> ok (ins k s)"
    and ok_rem: "ok s \<Longrightarrow> ok (rem k s)"
    and elems_sorted: "ok s \<Longrightarrow> sorted_wrt less (elems s)"
    and less_irrefl: "\<not> less k k"
begin

lemma elems_fold_ins: "set (elems (fold ins xs s)) = set xs \<union> set (elems s)"
  by (induction xs arbitrary: s) (auto simp: elems_ins)

lemma ok_fold_ins: "ok s \<Longrightarrow> ok (fold ins xs s)"
  by (induction xs arbitrary: s) (auto intro: ok_ins)

lemma elems_fold_rem: "set (elems (fold rem xs s)) = set (elems s) - set xs"
  by (induction xs arbitrary: s) (auto simp: elems_rem)

lemma ok_fold_rem: "ok s \<Longrightarrow> ok (fold rem xs s)"
  by (induction xs arbitrary: s) (auto intro: ok_rem)

lemma distinct_elems: "ok s \<Longrightarrow> distinct (elems s)"
  using elems_sorted less_irrefl by (blast intro: sorted_wrt_imp_distinct)

lemma length_elems: "ok s \<Longrightarrow> length (elems s) = card (set (elems s))"
  by (simp add: distinct_elems distinct_card)

end

lemma set_bs_insert: "set (bs_insert k s) = insert k (set s)"
  by (induction s) auto

lemma bs_sorted_insert: "bs_sorted s \<Longrightarrow> bs_sorted (bs_insert k s)"
proof (induction s)
  case (Cons x s)
  then show ?case by (auto simp: set_bs_insert not_less intro: less_le_trans)
qed simp

lemma bs_sorted_remove: "bs_sorted s \<Longrightarrow> bs_sorted (bs_remove k s)"
  by (simp add: bs_remove_def sorted_wrt_filter)

interpretation bs: ordered_set bs_insert bs_remove "\<lambda>s. s" bs_sorted "(<)"
proof
  show "bs_sorted s \<Longrightarrow> bs_sorted (bs_remove k s)" for s :: "'k::linorder btree_set" and k
    by (rule bs_sorted_remove)
qed (auto simp: set_bs_insert bs_sorted_insert bs_remove_def)

lemma set_bs_extend: "set (bs_extend xs s) = set xs \<union> set s"
  by (simp add: bs_extend_def bs.elems_fold_ins)

lemma bs_sorted_extend: "bs_sorted s \<Longrightarrow> bs_sorted (bs_extend xs s)"
  by (simp add: bs_extend_def bs.ok_fold_ins)

lemmas bs_sorteds [wf_intros] = bs_sorted_insert bs_sorted_remove bs_sorted_extend bs.ok_fold_ins bs.ok_fold_rem

lemma bs_after_eq: "bs_after k s = filter (\<lambda>x. k < x) s"
  by (simp add: bs_after_def bs_range_def)

lemma bs_before_eq: "bs_before k s = filter (\<lambda>x. x < k) s"
  by (simp add: bs_before_def bs_range_def)

text \<open>A sorted list is determined by its elements, so extending by a sorted list of the same
  elements gives that list.\<close>

lemma bs_sorted_unique: "bs_sorted s \<Longrightarrow> bs_sorted t \<Longrightarrow> set s = set t \<Longrightarrow> s = t"
  for s t :: "'k::linorder btree_set"
  by (rule sorted_distinct_set_unique) (auto simp: strict_sorted_iff)

lemma bs_extend_sorted: "bs_sorted s \<Longrightarrow> bs_extend s [] = s"
  by (rule bs_sorted_unique) (auto simp: set_bs_extend intro: bs_sorted_extend)

end
