(* ===== verification/Cursor.thy ===== *)
theory Cursor
  imports BTree
begin

text \<open>
  The iteration commands. Keys, hash fields, set members and sorted-set members are each listed by four
  commands: \<open>first\<close> and \<open>last\<close> give the ends, \<open>next\<close> and \<open>prev\<close> continue after and before an element,
  which need not be present. The locale states what the four have in common, and that a client that pages
  with them sees every element exactly once.
\<close>

text \<open>A client that asks for the page after the last element it got, until a page is empty.\<close>

fun scan :: "('k \<Rightarrow> 'a list) \<Rightarrow> ('a \<Rightarrow> 'k) \<Rightarrow> nat \<Rightarrow> 'a list \<Rightarrow> 'a list" where
  "scan nxt key 0 page = page"
| "scan nxt key (Suc fuel) page =
     (if page = [] then [] else page @ scan nxt key fuel (nxt (key (last page))))"

locale ordered_cursor =
  fixes ok :: "'s \<Rightarrow> bool" and items :: "'s \<Rightarrow> 'a list" and key :: "'a \<Rightarrow> 'k::linorder"
    and firsts :: "'s \<Rightarrow> usize \<Rightarrow> 'a list" and lasts :: "'s \<Rightarrow> usize \<Rightarrow> 'a list"
    and nexts :: "'s \<Rightarrow> 'k \<Rightarrow> usize \<Rightarrow> 'a list" and prevs :: "'s \<Rightarrow> 'k \<Rightarrow> usize \<Rightarrow> 'a list"
  assumes sorted_items: "ok s \<Longrightarrow> sorted_wrt (<) (map key (items s))"
    and firsts: "firsts s n = take n (items s)"
    and lasts: "lasts s n = take n (rev (items s))"
    and nexts: "nexts s k n = take n (filter (\<lambda>x. k < key x) (items s))"
    and prevs: "prevs s k n = take n (rev (filter (\<lambda>x. key x < k) (items s)))"
begin

lemma split_sides:
  assumes "ok s" "items s = xs @ x # ys"
  shows "filter (\<lambda>y. key x < key y) (items s) = ys" "filter (\<lambda>y. key y < key x) (items s) = xs"
proof -
  have "\<forall>y \<in> set xs. key y < key x" "\<forall>y \<in> set ys. key x < key y"
    using sorted_items [OF assms(1)] by (auto simp: assms sorted_wrt_append)
  then show "filter (\<lambda>y. key x < key y) (items s) = ys" "filter (\<lambda>y. key y < key x) (items s) = xs"
    by (auto simp: assms filter_empty_conv filter_id_conv not_less_iff_gr_or_eq)
qed

text \<open>An element splits the listing into what \<open>prev\<close> gives, itself, and what \<open>next\<close> gives.\<close>

lemma neighbours:
  assumes "ok s" "x \<in> set (items s)"
  shows "items s = rev (prevs s (key x) (length (items s))) @ [x] @ nexts s (key x) (length (items s))"
proof -
  obtain xs ys where s: "items s = xs @ x # ys"
    using assms(2) by (meson split_list)
  show ?thesis
    by (simp add: nexts prevs split_sides [OF assms(1) s]) (simp add: s)
qed

lemma scan_suffix:
  assumes "ok s" "0 < n"
  shows "items s = pre @ ys \<Longrightarrow> length ys \<le> fuel \<Longrightarrow>
    scan (\<lambda>k. nexts s k n) key fuel (take n ys) = ys"
proof (induction fuel arbitrary: pre ys)
  case (Suc fuel)
  show ?case
  proof (cases "ys = []")
    case False
    let ?p = "take n ys"
    have p: "?p \<noteq> []" using assms False by auto
    have "items s = (pre @ butlast ?p) @ last ?p # drop n ys"
      using Suc.prems(1) append_butlast_last_id [OF p] append_take_drop_id [of n ys]
      by (metis append.assoc append_Cons append_Nil)
    from split_sides(1) [OF assms(1) this] have nx: "nexts s (key (last ?p)) n = take n (drop n ys)"
      by (simp add: nexts)
    have "items s = (pre @ ?p) @ drop n ys" "length (drop n ys) \<le> fuel"
      using Suc.prems assms False by auto
    from Suc.IH [OF this] show ?thesis
      using p by (simp add: nx)
  qed simp
qed simp

lemma scan_complete:
  "ok s \<Longrightarrow> 0 < n \<Longrightarrow> length (items s) \<le> fuel \<Longrightarrow>
     scan (\<lambda>k. nexts s k n) key fuel (firsts s n) = items s"
  using scan_suffix [of s n "[]" "items s" fuel] by (simp add: firsts)

lemma items_distinct: "ok s \<Longrightarrow> distinct (map key (items s))"
  by (rule sorted_wrt_imp_distinct [OF sorted_items]) simp_all

end

text \<open>The listing a reader returned; none when it failed.\<close>

fun listing :: "'a list result \<Rightarrow> 'a list" where
  "listing (Inr xs) = xs"
| "listing (Inl _) = []"

end
