(* ===== verification/F64.thy ===== *)
theory F64
  imports Rust_Int "HOL-Library.Log_Nat"
begin

text \<open>
  IEEE-754 binary64 numbers as bit patterns, with the arithmetic Rust's \<open>f64\<close> has: addition and
  multiplication, exact and then rounded to nearest, ties to even. A finite number is an integer
  multiple of $2^{-1074}$; \<open>f64_scaled\<close> is that integer. The total order is the one documented for
  the \<open>ordered-float\<close> crate: the numeric order, the two zeros equal, every NaN equal to every NaN and
  greater than any number.
\<close>

definition f64_mag :: "f64 \<Rightarrow> nat" where
  "f64_mag w = unat w mod 2 ^ 63"

definition f64_neg_bit :: "f64 \<Rightarrow> bool" where
  "f64_neg_bit w \<longleftrightarrow> 2 ^ 63 \<le> unat w"

definition f64_inf_mag :: nat where
  "f64_inf_mag = 2047 * 2 ^ 52"

definition f64_is_nan :: "f64 \<Rightarrow> bool" where
  "f64_is_nan w \<longleftrightarrow> f64_inf_mag < f64_mag w"

definition f64_is_inf :: "f64 \<Rightarrow> bool" where
  "f64_is_inf w \<longleftrightarrow> f64_mag w = f64_inf_mag"

definition f64_nan :: f64 where
  "f64_nan = word_of_nat (4095 * 2 ^ 51)"

definition f64_of_mag :: "bool \<Rightarrow> nat \<Rightarrow> f64" where
  "f64_of_mag neg m = word_of_nat (if neg then m + 2 ^ 63 else m)"

definition f64_scaled :: "f64 \<Rightarrow> int" where
  "f64_scaled w =
     (let e = f64_mag w div 2 ^ 52; m = f64_mag w mod 2 ^ 52;
          v = int (if e = 0 then m else (2 ^ 52 + m) * 2 ^ (e - 1))
      in if f64_neg_bit w then - v else v)"

text \<open>The magnitude bits of \<open>x * 2 ^ - (1074 + d)\<close>, rounded to nearest even.\<close>

definition f64_round_mag :: "nat \<Rightarrow> nat \<Rightarrow> nat" where
  "f64_round_mag d x =
     (let k = max (floorlog 2 x - 53) d;
          q = x div 2 ^ k; r = x mod 2 ^ k;
          q' = (if 2 * r > 2 ^ k \<or> (2 * r = 2 ^ k \<and> odd q) then q + 1 else q)
      in min ((k - d) * 2 ^ 52 + q') f64_inf_mag)"

definition f64_add :: "f64 \<Rightarrow> f64 \<Rightarrow> f64" where
  "f64_add a b =
     (if f64_is_nan a \<or> f64_is_nan b then f64_nan
      else if f64_is_inf a \<and> f64_is_inf b then (if f64_neg_bit a = f64_neg_bit b then a else f64_nan)
      else if f64_is_inf a then a
      else if f64_is_inf b then b
      else let s = f64_scaled a + f64_scaled b
           in if s = 0 then f64_of_mag (f64_neg_bit a \<and> f64_neg_bit b) 0
              else f64_of_mag (s < 0) (f64_round_mag 0 (nat \<bar>s\<bar>)))"

definition f64_mul :: "f64 \<Rightarrow> f64 \<Rightarrow> f64" where
  "f64_mul a b =
     (let neg = (f64_neg_bit a \<noteq> f64_neg_bit b)
      in if f64_is_nan a \<or> f64_is_nan b then f64_nan
         else if f64_is_inf a \<or> f64_is_inf b
         then (if f64_mag a = 0 \<or> f64_mag b = 0 then f64_nan else f64_of_mag neg f64_inf_mag)
         else f64_of_mag neg (f64_round_mag 1074 (nat \<bar>f64_scaled a * f64_scaled b\<bar>)))"

definition f64_zero :: f64 where "f64_zero = 0"

definition f64_one :: f64 where "f64_one = word_of_nat (1023 * 2 ^ 52)"

definition f64_rank :: "f64 \<Rightarrow> int" where
  "f64_rank w =
     (if f64_is_nan w then 2 ^ 63 else if f64_neg_bit w then - int (f64_mag w) else int (f64_mag w))"

definition f64_cmp :: "f64 \<Rightarrow> f64 \<Rightarrow> ordering" where
  "f64_cmp a b =
     (if f64_rank a < f64_rank b then Less else if f64_rank a = f64_rank b then Equal else Greater)"

text \<open>The comparison on integers, for evaluation.\<close>

lemma f64_rank_code [code]:
  "f64_rank w =
     (let u = uint w; m = u mod 2 ^ 63
      in if 2047 * 2 ^ 52 < m then 2 ^ 63 else if 2 ^ 63 \<le> u then - m else m)"
proof -
  have m: "uint w mod 2 ^ 63 = int (f64_mag w)"
    by (simp add: f64_mag_def zmod_int)
  have "int f64_inf_mag < int (f64_mag w) \<longleftrightarrow> f64_is_nan w" "int (2 ^ 63) \<le> int (unat w) \<longleftrightarrow> f64_neg_bit w"
    unfolding f64_is_nan_def f64_neg_bit_def by (simp_all only: of_nat_less_iff of_nat_le_iff)
  then show ?thesis
    unfolding f64_rank_def Let_def m by (simp add: f64_inf_mag_def)
qed

lemma f64_one_code [code]: "f64_one = 4607182418800017408"
  by (simp add: f64_one_def)

section \<open>\<open>str::parse::<f64>\<close>\<close>

text \<open>
  An optional sign, then \<open>inf\<close>, \<open>infinity\<close> or \<open>nan\<close> in any case, or digits with an optional point, at least
  one digit in all, and an optional exponent. The decimal number is rounded to nearest, ties to even:
  \<open>f64_of_ratio\<close> keeps two bits below the smallest subnormal, the last one set when the quotient is not
  exact, which is enough to round.
\<close>

definition f64_of_ratio :: "nat \<Rightarrow> nat \<Rightarrow> nat" where
  "f64_of_ratio p q =
     (let t = p * 2 ^ 1075 div q; sticky = (if p * 2 ^ 1075 mod q = 0 then 0 else 1)
      in f64_round_mag 2 (2 * t + sticky))"

definition is_digit :: "u8 \<Rightarrow> bool" where
  "is_digit c \<longleftrightarrow> 48 \<le> c \<and> c \<le> 57"

definition digits_value :: "bytes \<Rightarrow> nat" where
  "digits_value ds = fold (\<lambda>c n. 10 * n + (unat c - 48)) ds 0"

definition ascii_lower :: "u8 \<Rightarrow> u8" where
  "ascii_lower c = (if 65 \<le> c \<and> c \<le> 90 then c + 32 else c)"

text \<open>The exponent after the \<open>e\<close>: an optional sign and digits; \<open>Some 0\<close> when the text ends before it.\<close>

definition parse_exponent :: "bytes \<Rightarrow> int option" where
  "parse_exponent bs =
     (case bs of
        [] \<Rightarrow> Some 0
      | c # cs \<Rightarrow>
          if c = 101 \<or> c = 69 then
            (let neg = (cs \<noteq> [] \<and> hd cs = 45);
                 ds = (if cs \<noteq> [] \<and> (hd cs = 45 \<or> hd cs = 43) then tl cs else cs)
             in if ds \<noteq> [] \<and> list_all is_digit ds
                then Some (if neg then - int (digits_value ds) else int (digits_value ds))
                else None)
          else None)"

definition parse_decimal :: "bytes \<Rightarrow> nat option" where
  "parse_decimal bs =
     (let whole = takeWhile is_digit bs; r1 = dropWhile is_digit bs;
          point = (r1 \<noteq> [] \<and> hd r1 = 46);
          frac = (if point then takeWhile is_digit (tl r1) else []);
          r2 = (if point then dropWhile is_digit (tl r1) else r1)
      in if whole = [] \<and> frac = [] then None
         else case parse_exponent r2 of
                None \<Rightarrow> None
              | Some e \<Rightarrow>
                  (let n = digits_value (whole @ frac); k = e - int (length frac)
                   in Some (if k \<ge> 0 then f64_of_ratio (n * 10 ^ nat k) 1 else f64_of_ratio n (10 ^ nat (- k)))))"

definition parse_f64 :: "bytes \<Rightarrow> f64 option" where
  "parse_f64 bs =
     (let neg = (bs \<noteq> [] \<and> hd bs = 45);
          r = (if bs \<noteq> [] \<and> (hd bs = 45 \<or> hd bs = 43) then tl bs else bs);
          low = map ascii_lower r
      in if low = [105, 110, 102] \<or> low = [105, 110, 102, 105, 110, 105, 116, 121]
         then Some (f64_of_mag neg f64_inf_mag)
         else if low = [110, 97, 110] then Some (f64_of_mag neg (4095 * 2 ^ 51))
         else map_option (f64_of_mag neg) (parse_decimal r))"

section \<open>\<open>f64::to_string\<close>\<close>

text \<open>
  The shortest decimal digits that read back as the number, the closest of them when there are several, in
  plain notation without an exponent. For the finite number with magnitude \<open>m * 2 ^ - 1074\<close> and \<open>n\<close> digits the
  candidates are the two decimals around it, \<open>lo\<close> and \<open>lo + 1\<close> units of \<open>10 ^ e\<close>.
\<close>

definition decimal_ratio :: "nat \<Rightarrow> int \<Rightarrow> nat" where
  "decimal_ratio d e =
     (if e \<ge> 0 then f64_of_ratio (d * 10 ^ nat e) 1 else f64_of_ratio d (10 ^ nat (- e)))"

definition decimal_point :: "nat \<Rightarrow> int" where
  "decimal_point m =
     (if 2 ^ 1074 \<le> m then int (floorlog 10 (m div 2 ^ 1074)) else 1 - int (floorlog 10 ((2 ^ 1074 - 1) div m)))"

definition digits_at :: "nat \<Rightarrow> nat \<Rightarrow> nat \<Rightarrow> bool \<times> nat \<times> int" where
  "digits_at mag m n =
     (let e = decimal_point m - int n;
          num = (if e \<le> 0 then m * 10 ^ nat (- e) else m);
          den = (if e \<le> 0 then 2 ^ 1074 else 2 ^ 1074 * 10 ^ nat e);
          lo = num div den; r = num mod den;
          down = (decimal_ratio lo e = mag); up = (decimal_ratio (lo + 1) e = mag)
      in (down \<or> up, if up \<and> (\<not> down \<or> 2 * r \<ge> den) then lo + 1 else lo, e))"

primrec shortest_digits :: "nat \<Rightarrow> nat \<Rightarrow> nat \<Rightarrow> nat \<Rightarrow> nat \<times> int" where
  "shortest_digits mag m 0 n = snd (digits_at mag m n)"
| "shortest_digits mag m (Suc fuel) n =
     (case digits_at mag m n of
        (found, d, e) \<Rightarrow> if found then (d, e) else shortest_digits mag m fuel (n + 1))"

function strip_zeros :: "nat \<Rightarrow> int \<Rightarrow> nat \<times> int" where
  "strip_zeros d e = (if d \<noteq> 0 \<and> d mod 10 = 0 then strip_zeros (d div 10) (e + 1) else (d, e))"
  by auto
termination by (relation "measure fst") auto

declare strip_zeros.simps [simp del]

definition plain_decimal :: "bytes \<Rightarrow> int \<Rightarrow> bytes" where
  "plain_decimal ds e =
     (if e \<ge> 0 then ds @ replicate (nat e) 48
      else let k = nat (- e)
           in if k < length ds then take (length ds - k) ds @ [46] @ drop (length ds - k) ds
              else [48, 46] @ replicate (k - length ds) 48 @ ds)"

definition f64_to_string :: "f64 \<Rightarrow> bytes" where
  "f64_to_string w =
     (let sign = (if f64_neg_bit w then [45] else [])
      in if f64_is_nan w then [78, 97, 78]
         else if f64_is_inf w then sign @ [105, 110, 102]
         else if f64_mag w = 0 then sign @ [48]
         else case shortest_digits (f64_mag w) (nat \<bar>f64_scaled w\<bar>) 16 1 of
                (d0, e0) \<Rightarrow> (case strip_zeros d0 e0 of
                  (d, e) \<Rightarrow> sign @ plain_decimal (nat_to_string d) e))"

lemma f64_add_commute:
  "\<not> f64_is_inf a \<Longrightarrow> f64_add a b = f64_add b a"
  by (auto simp: f64_add_def Let_def add.commute conj_commute)

end
