(* ===== verification/Externals.thy ===== *)
theory Externals
  imports F64
begin

text \<open>
  The crates the storage is built on, whose code is not part of the repository. Each is a record of
  the functions the storage calls, an argument of every definition that uses it; a locale states
  what the storage relies on, which is the documented behaviour of the crate.

  \<^item> \<open>ordered-float\<close>: the order, sum and product of scores (\<open>score_ops\<close>, \<open>score_order\<close>);
  \<^item> \<open>im\<close>: the persistent vector that holds a list (\<open>vec_ops\<close>, \<open>im_vector\<close>).

  The contract of \<open>indexset\<close> needs the key order of storage/zset\_index.rs and is in theory
  \<open>ZSet_Index\<close>.
\<close>

section \<open>ordered-float\<close>

record score_ops =
  of_cmp :: "f64 \<Rightarrow> f64 \<Rightarrow> ordering"      \<comment> \<open>\<open>Ord::cmp\<close>; the comparison operators agree with it\<close>
  of_add :: "f64 \<Rightarrow> f64 \<Rightarrow> f64"
  of_mul :: "f64 \<Rightarrow> f64 \<Rightarrow> f64"
  of_sum :: "f64 list \<Rightarrow> f64"

definition sc_lt :: "score_ops \<Rightarrow> f64 \<Rightarrow> f64 \<Rightarrow> bool" where
  "sc_lt S a b \<longleftrightarrow> of_cmp S a b = Less"

definition sc_le :: "score_ops \<Rightarrow> f64 \<Rightarrow> f64 \<Rightarrow> bool" where
  "sc_le S a b \<longleftrightarrow> of_cmp S a b \<noteq> Greater"

definition sc_eq :: "score_ops \<Rightarrow> f64 \<Rightarrow> f64 \<Rightarrow> bool" where
  "sc_eq S a b \<longleftrightarrow> of_cmp S a b = Equal"

text \<open>\<open>Ord\<close> is a total order up to the equivalence \<open>sc_eq\<close>.\<close>

locale score_order =
  fixes S :: score_ops
  assumes cmp_flip: "of_cmp S b a = flip_ord (of_cmp S a b)"
    and cmp_trans: "of_cmp S a b \<noteq> Greater \<Longrightarrow> of_cmp S b c \<noteq> Greater \<Longrightarrow> of_cmp S a c \<noteq> Greater"
begin

lemma cmp_refl: "of_cmp S a a = Equal"
  using cmp_flip [of a a] by (cases "of_cmp S a a") auto

lemma sc_le_refl: "sc_le S a a"
  by (simp add: sc_le_def cmp_refl)

lemma sc_eq_refl: "sc_eq S a a"
  by (simp add: sc_eq_def cmp_refl)

lemma sc_le_trans: "sc_le S a b \<Longrightarrow> sc_le S b c \<Longrightarrow> sc_le S a c"
  unfolding sc_le_def by (rule cmp_trans)

lemma not_sc_le: "\<not> sc_le S a b \<longleftrightarrow> sc_lt S b a"
  by (metis cmp_flip flip_ord_iffs(3) sc_le_def sc_lt_def)

lemma sc_lt_le: "sc_lt S a b \<longleftrightarrow> sc_le S a b \<and> \<not> sc_le S b a"
  unfolding not_sc_le by (auto simp: sc_lt_def sc_le_def)

lemma sc_eq_le: "sc_eq S a b \<longleftrightarrow> sc_le S a b \<and> sc_le S b a"
proof -
  have "sc_le S b a \<longleftrightarrow> of_cmp S a b \<noteq> Less"
    by (metis not_sc_le sc_lt_def)
  then show ?thesis
    by (cases "of_cmp S a b") (auto simp: sc_eq_def sc_le_def)
qed

lemma sc_le_total: "sc_le S a b \<or> sc_le S b a"
  using not_sc_le sc_lt_le by blast

end

text \<open>The functions of the \<open>f64\<close> model, under the documented order.\<close>

definition f64_ops :: score_ops where
  "f64_ops = \<lparr>of_cmp = f64_cmp, of_add = f64_add, of_mul = f64_mul,
     of_sum = (\<lambda>xs. fold (\<lambda>x a. f64_add a x) xs f64_zero)\<rparr>"

interpretation f64: score_order f64_ops
  by unfold_locales (auto simp: f64_ops_def f64_cmp_def split: if_splits)

section \<open>im\<close>

record 'v vec_ops =
  vec_new :: 'v
  vec_iter :: "'v \<Rightarrow> bytes list"
  vec_len :: "'v \<Rightarrow> usize"
  vec_get :: "'v \<Rightarrow> usize \<Rightarrow> bytes option"
  vec_head :: "'v \<Rightarrow> bytes option"
  vec_push_front :: "'v \<Rightarrow> bytes \<Rightarrow> 'v"
  vec_push_back :: "'v \<Rightarrow> bytes \<Rightarrow> 'v"
  vec_pop_back :: "'v \<Rightarrow> bytes option \<times> 'v"
  vec_skip :: "'v \<Rightarrow> usize \<Rightarrow> 'v"
  vec_take :: "'v \<Rightarrow> usize \<Rightarrow> 'v"
  vec_insert :: "'v \<Rightarrow> usize \<Rightarrow> bytes \<Rightarrow> 'v"
  vec_update :: "'v \<Rightarrow> usize \<Rightarrow> bytes \<Rightarrow> 'v"
  vec_collect :: "bytes list \<Rightarrow> 'v"

text \<open>
  A vector is the sequence its iterator yields. \<open>skip\<close>, \<open>take\<close>, \<open>insert\<close> and \<open>update\<close> are specified
  where the crate does not panic: an index within the length.
\<close>

locale im_vector =
  fixes V :: "'v vec_ops"
  assumes iter_new: "vec_iter V (vec_new V) = []"
    and len_iter: "vec_len V v = length (vec_iter V v)"
    and get_iter: "vec_get V v i = (if i < length (vec_iter V v) then Some (vec_iter V v ! i) else None)"
    and head_iter: "vec_head V v = (case vec_iter V v of [] \<Rightarrow> None | x # _ \<Rightarrow> Some x)"
    and iter_push_front: "vec_iter V (vec_push_front V v x) = x # vec_iter V v"
    and iter_push_back: "vec_iter V (vec_push_back V v x) = vec_iter V v @ [x]"
    and pop_back_fst:
      "fst (vec_pop_back V v) = (if vec_iter V v = [] then None else Some (last (vec_iter V v)))"
    and pop_back_snd: "vec_iter V (snd (vec_pop_back V v)) = butlast (vec_iter V v)"
    and iter_skip: "n \<le> length (vec_iter V v) \<Longrightarrow> vec_iter V (vec_skip V v n) = drop n (vec_iter V v)"
    and iter_take: "n \<le> length (vec_iter V v) \<Longrightarrow> vec_iter V (vec_take V v n) = take n (vec_iter V v)"
    and iter_insert: "i \<le> length (vec_iter V v) \<Longrightarrow>
      vec_iter V (vec_insert V v i x) = take i (vec_iter V v) @ x # drop i (vec_iter V v)"
    and iter_update: "i < length (vec_iter V v) \<Longrightarrow>
      vec_iter V (vec_update V v i x) = (vec_iter V v)[i := x]"
    and iter_collect: "vec_iter V (vec_collect V xs) = xs"
begin

lemmas vec_simps = iter_new len_iter get_iter head_iter iter_push_front iter_push_back
  pop_back_fst pop_back_snd iter_skip iter_take iter_insert iter_update iter_collect

lemma iter_fold_push_front:
  "vec_iter V (fold (\<lambda>x v. vec_push_front V v x) xs v) = rev xs @ vec_iter V v"
  by (induction xs arbitrary: v) (simp_all add: vec_simps)

lemma iter_fold_push_back:
  "vec_iter V (fold (\<lambda>x v. vec_push_back V v x) xs v) = vec_iter V v @ xs"
  by (induction xs arbitrary: v) (simp_all add: vec_simps)

end

text \<open>The sequences themselves, with the same functions.\<close>

definition list_vec :: "bytes list vec_ops" where
  "list_vec = \<lparr>vec_new = [], vec_iter = (\<lambda>v. v), vec_len = length,
     vec_get = (\<lambda>v i. if i < length v then Some (v ! i) else None),
     vec_head = (\<lambda>v. case v of [] \<Rightarrow> None | x # _ \<Rightarrow> Some x),
     vec_push_front = (\<lambda>v x. x # v), vec_push_back = (\<lambda>v x. v @ [x]),
     vec_pop_back = (\<lambda>v. (if v = [] then None else Some (last v), butlast v)),
     vec_skip = (\<lambda>v n. drop n v), vec_take = (\<lambda>v n. take n v),
     vec_insert = (\<lambda>v i x. take i v @ x # drop i v), vec_update = (\<lambda>v i x. v[i := x]),
     vec_collect = (\<lambda>xs. xs)\<rparr>"

interpretation list_vec: im_vector list_vec
  by unfold_locales (auto simp: list_vec_def)

section \<open>rand\<close>

text \<open>
  The functions of the \<open>rand\<close> crate the storage calls: \<open>shuffle\<close> permutes, \<open>choose\<close> draws an element of a
  non-empty slice, \<open>sample\<close> draws different positions. The first argument of \<open>rand_choose\<close> numbers the draws.
\<close>

record 'a rand_ops =
  rand_shuffle :: "'a list \<Rightarrow> 'a list"
  rand_choose :: "nat \<Rightarrow> 'a list \<Rightarrow> 'a option"
  rand_sample :: "usize \<Rightarrow> 'a list \<Rightarrow> 'a list"

locale rand_source =
  fixes R :: "'a rand_ops"
  assumes shuffle_set: "set (rand_shuffle R xs) = set xs"
    and shuffle_length: "length (rand_shuffle R xs) = length xs"
    and choose_some: "xs \<noteq> [] \<Longrightarrow> \<exists>x \<in> set xs. rand_choose R i xs = Some x"
    and sample_set: "set (rand_sample R n xs) \<subseteq> set xs"
    and sample_length: "length (rand_sample R n xs) = min n (length xs)"
    and sample_distinct: "distinct xs \<Longrightarrow> distinct (rand_sample R n xs)"
begin

lemma shuffle_distinct: "distinct xs \<Longrightarrow> distinct (rand_shuffle R xs)"
  by (metis card_distinct distinct_card shuffle_length shuffle_set)

lemma choose_mem: "xs \<noteq> [] \<Longrightarrow> rand_choose R i xs \<noteq> None \<and> the (rand_choose R i xs) \<in> set xs"
  using choose_some [of xs i] by auto

end

text \<open>Drawing without randomness: the list as it is, its elements in turn, its first elements.\<close>

definition round_robin :: "'a rand_ops" where
  "round_robin = \<lparr>rand_shuffle = (\<lambda>xs. xs),
     rand_choose = (\<lambda>i xs. if xs = [] then None else Some (xs ! (i mod length xs))),
     rand_sample = (\<lambda>n xs. take n xs)\<rparr>"

interpretation round_robin: rand_source round_robin
  by unfold_locales (auto simp: round_robin_def dest: in_set_takeD)

text \<open>
  A positive count gives that many different members, or all of them; a negative count gives exactly its
  absolute value of members, repeats allowed; the call does not panic.
\<close>

definition random_sample :: "i64 \<Rightarrow> 'a list \<Rightarrow> 'a list \<Rightarrow> bool" where
  "random_sample count xs ys \<longleftrightarrow>
     set ys \<subseteq> set xs \<and>
     (if 0 \<le> count then distinct ys \<and> length ys = min (nat count) (length xs)
      else length ys = (if xs = [] then 0 else nat (- count)))"

context rand_source
begin

lemma sample_shuffle:
  "0 < count \<Longrightarrow> distinct xs \<Longrightarrow>
     random_sample count xs (take (min (nat count) (length xs)) (rand_shuffle R xs))"
  using set_take_subset [of "min (nat count) (length xs)" "rand_shuffle R xs"]
  by (auto simp: random_sample_def shuffle_set shuffle_length shuffle_distinct)

lemma sample_draws:
  assumes "count < 0" "xs \<noteq> []"
  shows "None \<notin> set (map (\<lambda>i. rand_choose R i xs) [0 ..< nat \<bar>count\<bar>])"
    and "random_sample count xs (map the (map (\<lambda>i. rand_choose R i xs) [0 ..< nat \<bar>count\<bar>]))"
  using assms choose_mem [OF assms(2)] by (auto simp: random_sample_def) (metis option.distinct(1))

end

end
