(* ===== verification/ZSet_Index.thy ===== *)
theory ZSet_Index
  imports Externals
begin

text \<open>
  storage/zset\_index.rs: the keys of a sorted set's index and their order, and the contract of the
  \<open>indexset::BTreeSet\<close> that holds them. The comparison of two keys is partial: the combinations the
  source marks \<open>unreachable!()\<close> are \<open>None\<close>.
\<close>

section \<open>Index keys\<close>

datatype ZSetIndexKey =
    Key f64 bytes
  | MinScoreKey f64
  | MaxScoreKey f64
  | Ref f64 bytes

definition create :: "f64 \<Rightarrow> bytes \<Rightarrow> ZSetIndexKey" where
  "create score data = Key score data"

definition min_score_key :: "f64 \<Rightarrow> ZSetIndexKey" where
  "min_score_key score = MinScoreKey score"

definition max_score_key :: "f64 \<Rightarrow> ZSetIndexKey" where
  "max_score_key score = MaxScoreKey score"

definition create_ref :: "f64 \<Rightarrow> bytes \<Rightarrow> ZSetIndexKey" where
  "create_ref score entry = Ref score entry"

fun unwrap_key :: "ZSetIndexKey \<Rightarrow> (f64 \<times> bytes) option" where
  "unwrap_key (Key score entry) = Some (score, entry)"
| "unwrap_key _ = None"

fun key_eq :: "score_ops \<Rightarrow> ZSetIndexKey \<Rightarrow> ZSetIndexKey \<Rightarrow> bool option" where
  "key_eq S (Key s1 e1) (Key s2 e2) = Some (sc_eq S s1 s2 \<and> e1 = e2)"
| "key_eq S (Key s1 e1) (Ref s2 e2) = Some (sc_eq S s1 s2 \<and> e1 = e2)"
| "key_eq S (Ref s1 e1) (Key s2 e2) = Some (sc_eq S s1 s2 \<and> e1 = e2)"
| "key_eq S (Key _ _) (MinScoreKey _) = Some False"
| "key_eq S (Key _ _) (MaxScoreKey _) = Some False"
| "key_eq S (MaxScoreKey _) (Key _ _) = Some False"
| "key_eq S (MinScoreKey _) (Key _ _) = Some False"
| "key_eq S _ _ = None"

definition bytes_cmp :: "bytes \<Rightarrow> bytes \<Rightarrow> ordering" where
  "bytes_cmp a b = (if a < b then Less else if a = b then Equal else Greater)"

fun or_else :: "ordering \<Rightarrow> ordering \<Rightarrow> ordering" where
  "or_else Equal other = other"
| "or_else o1 other = o1"

fun key_cmp :: "score_ops \<Rightarrow> ZSetIndexKey \<Rightarrow> ZSetIndexKey \<Rightarrow> ordering option" where
  "key_cmp S (MinScoreKey s1) (Key s2 _) = Some (or_else (of_cmp S s1 s2) Less)"
| "key_cmp S (Key s1 _) (MinScoreKey s2) = Some (or_else (of_cmp S s1 s2) Greater)"
| "key_cmp S (MaxScoreKey s1) (Key s2 _) = Some (or_else (of_cmp S s1 s2) Greater)"
| "key_cmp S (Key s1 _) (MaxScoreKey s2) = Some (or_else (of_cmp S s1 s2) Less)"
| "key_cmp S (Ref s1 e1) (Key s2 e2) = Some (or_else (of_cmp S s1 s2) (bytes_cmp e1 e2))"
| "key_cmp S (Key s1 e1) (Ref s2 e2) = Some (or_else (of_cmp S s1 s2) (bytes_cmp e1 e2))"
| "key_cmp S (Key s1 e1) (Key s2 e2) = Some (or_else (of_cmp S s1 s2) (bytes_cmp e1 e2))"
| "key_cmp S _ _ = None"

definition is_stored :: "ZSetIndexKey \<Rightarrow> bool" where
  "is_stored k \<longleftrightarrow> unwrap_key k \<noteq> None"

lemma is_stored_simps [simp]:
  "is_stored (Key s e)" "\<not> is_stored (MinScoreKey s)" "\<not> is_stored (MaxScoreKey s)"
  "\<not> is_stored (Ref s e)"
  by (simp_all add: is_stored_def)

lemma bytes_cmp_flip: "bytes_cmp b a = flip_ord (bytes_cmp a b)"
  by (auto simp: bytes_cmp_def)

lemma bytes_cmp_iffs [simp]:
  "bytes_cmp a b = Equal \<longleftrightarrow> a = b" "bytes_cmp a b = Less \<longleftrightarrow> a < b" "bytes_cmp a b = Greater \<longleftrightarrow> b < a"
  by (auto simp: bytes_cmp_def)

lemma or_else_iffs:
  "or_else a b = Equal \<longleftrightarrow> a = Equal \<and> b = Equal"
  "or_else a b = Less \<longleftrightarrow> a = Less \<or> (a = Equal \<and> b = Less)"
  "or_else a b = Greater \<longleftrightarrow> a = Greater \<or> (a = Equal \<and> b = Greater)"
  by (cases a; simp)+

text \<open>Comparing a stored key with any key never reaches \<open>unreachable!()\<close>.\<close>

lemma key_cmp_stored: "is_stored k \<Longrightarrow> key_cmp S k x \<noteq> None \<and> key_cmp S x k \<noteq> None"
  by (cases k; cases x) simp_all

lemma key_eq_stored: "is_stored k \<Longrightarrow> key_eq S k x \<noteq> None \<and> key_eq S x k \<noteq> None"
  by (cases k; cases x) simp_all

text \<open>Equality of keys is what the comparison calls equal.\<close>

lemma key_eq_cmp: "is_stored k \<Longrightarrow> key_eq S k x = Some (key_cmp S k x = Some Equal)"
  by (cases k; cases x) (auto simp: or_else_iffs sc_eq_def)

abbreviation key_less :: "score_ops \<Rightarrow> ZSetIndexKey \<Rightarrow> ZSetIndexKey \<Rightarrow> bool" where
  "key_less S a b \<equiv> key_cmp S a b = Some Less"

abbreviation key_same :: "score_ops \<Rightarrow> ZSetIndexKey \<Rightarrow> ZSetIndexKey \<Rightarrow> bool" where
  "key_same S a b \<equiv> key_cmp S a b = Some Equal"

context score_order
begin

lemma key_cmp_flip: "key_cmp S b a = map_option flip_ord (key_cmp S a b)"
proof -
  have or: "or_else (flip_ord p) (flip_ord q) = flip_ord (or_else p q)" for p q
    by (cases p) simp_all
  show ?thesis
  proof (cases a; cases b)
    fix s e s' e' assume "a = Key s e" "b = Key s' e'"
    then show ?thesis using cmp_flip [of s' s] or [of "of_cmp S s s'" "bytes_cmp e e'"]
      by (simp add: bytes_cmp_flip [of e' e])
  next
    fix s e s' e' assume "a = Key s e" "b = Ref s' e'"
    then show ?thesis using cmp_flip [of s' s] or [of "of_cmp S s s'" "bytes_cmp e e'"]
      by (simp add: bytes_cmp_flip [of e' e])
  next
    fix s e s' e' assume "a = Ref s e" "b = Key s' e'"
    then show ?thesis using cmp_flip [of s' s] or [of "of_cmp S s s'" "bytes_cmp e e'"]
      by (simp add: bytes_cmp_flip [of e' e])
  next
    fix s e s' assume "a = Key s e" "b = MinScoreKey s'"
    then show ?thesis using cmp_flip [of s' s] or [of "of_cmp S s s'" Greater] by simp
  next
    fix s s' e' assume "a = MinScoreKey s" "b = Key s' e'"
    then show ?thesis using cmp_flip [of s' s] or [of "of_cmp S s s'" Less] by simp
  next
    fix s e s' assume "a = Key s e" "b = MaxScoreKey s'"
    then show ?thesis using cmp_flip [of s' s] or [of "of_cmp S s s'" Less] by simp
  next
    fix s s' e' assume "a = MaxScoreKey s" "b = Key s' e'"
    then show ?thesis using cmp_flip [of s' s] or [of "of_cmp S s s'" Greater] by simp
  qed simp_all
qed

lemma key_less_Key: "key_less S (Key s e) (Key s' e') \<longleftrightarrow> sc_lt S s s' \<or> sc_eq S s s' \<and> e < e'"
  by (simp add: or_else_iffs sc_lt_def sc_eq_def)

lemma key_same_Ref: "key_same S (Key s e) (Ref s' e') \<longleftrightarrow> sc_eq S s s' \<and> e = e'"
  by (simp add: or_else_iffs sc_eq_def)

lemma key_less_min: "key_less S (Key s e) (MinScoreKey m) \<longleftrightarrow> \<not> sc_le S m s"
  by (simp add: or_else_iffs not_sc_le sc_lt_def)

lemma key_less_max: "key_less S (Key s e) (MaxScoreKey m) \<longleftrightarrow> sc_le S s m"
  by (cases "of_cmp S s m") (simp_all add: or_else_iffs sc_le_def)

lemma key_less_trans:
  assumes "is_stored a" "is_stored b" "is_stored c" "key_less S a b" "key_less S b c"
  shows "key_less S a c"
proof -
  obtain s1 e1 s2 e2 s3 e3 where k: "a = Key s1 e1" "b = Key s2 e2" "c = Key s3 e3"
    using assms(1-3) by (cases a; cases b; cases c) auto
  show ?thesis
    using assms(4,5) unfolding k key_less_Key sc_lt_le sc_eq_le
    by (meson less_trans sc_le_trans)
qed

lemma key_less_irrefl: "is_stored a \<Longrightarrow> \<not> key_less S a a"
  by (cases a) (auto simp: or_else_iffs cmp_refl)

lemma key_less_asym: "key_less S a b \<Longrightarrow> \<not> key_less S b a"
  using key_cmp_flip [of b a] by simp

end

section \<open>indexset\<close>

record 'i index_ops =
  ix_new :: 'i
  ix_iter :: "'i \<Rightarrow> ZSetIndexKey list"
  ix_insert :: "'i \<Rightarrow> ZSetIndexKey \<Rightarrow> 'i"
  ix_remove :: "'i \<Rightarrow> ZSetIndexKey \<Rightarrow> 'i"
  ix_rank :: "'i \<Rightarrow> ZSetIndexKey \<Rightarrow> usize"
  ix_range :: "'i \<Rightarrow> ZSetIndexKey bound \<Rightarrow> ZSetIndexKey bound \<Rightarrow> ZSetIndexKey list"
  ix_range_idx :: "'i \<Rightarrow> usize \<Rightarrow> usize \<Rightarrow> ZSetIndexKey list"   \<comment> \<open>\<open>range_idx(a..=b)\<close>\<close>
  ix_pop_first :: "'i \<Rightarrow> ZSetIndexKey option \<times> 'i"
  ix_pop_last :: "'i \<Rightarrow> ZSetIndexKey option \<times> 'i"

definition index_ok :: "score_ops \<Rightarrow> ZSetIndexKey list \<Rightarrow> bool" where
  "index_ok S ks \<longleftrightarrow> (\<forall>k \<in> set ks. is_stored k) \<and> sorted_wrt (key_less S) ks"

fun key_above :: "score_ops \<Rightarrow> ZSetIndexKey bound \<Rightarrow> ZSetIndexKey \<Rightarrow> bool" where
  "key_above S Unbounded k = True"
| "key_above S (Included b) k = (key_cmp S k b \<noteq> Some Less)"
| "key_above S (Excluded b) k = (key_cmp S k b = Some Greater)"

fun key_below :: "score_ops \<Rightarrow> ZSetIndexKey bound \<Rightarrow> ZSetIndexKey \<Rightarrow> bool" where
  "key_below S Unbounded k = True"
| "key_below S (Included b) k = (key_cmp S k b \<noteq> Some Greater)"
| "key_below S (Excluded b) k = (key_cmp S k b = Some Less)"

text \<open>The ranges the storage asks for, when they are not inverted.\<close>

fun score_range_ok :: "score_ops \<Rightarrow> ZSetIndexKey bound \<Rightarrow> ZSetIndexKey bound \<Rightarrow> bool" where
  "score_range_ok S Unbounded Unbounded = True"
| "score_range_ok S Unbounded (Included (MaxScoreKey b)) = True"
| "score_range_ok S (Included (MinScoreKey a)) Unbounded = True"
| "score_range_ok S (Included (MinScoreKey a)) (Included (MaxScoreKey b)) = sc_le S a b"
| "score_range_ok S _ _ = False"

text \<open>
  An ordered set with positions. A range query yields, in order, at least the elements within the
  bounds; it may yield more (a bound that is not an element may let neighbours through, as the
  source notes), so its clients filter.
\<close>

locale index_set = score_order S for S +
  fixes I :: "'i index_ops"
  assumes iter_new: "ix_iter I (ix_new I) = []"
    and iter_insert: "index_ok S (ix_iter I x) \<Longrightarrow> is_stored k \<Longrightarrow>
      ix_iter I (ix_insert I x k) =
        (if \<exists>j \<in> set (ix_iter I x). key_same S j k then ix_iter I x
         else filter (\<lambda>j. key_less S j k) (ix_iter I x) @ k #
              filter (\<lambda>j. \<not> key_less S j k) (ix_iter I x))"
    and iter_remove: "index_ok S (ix_iter I x) \<Longrightarrow>
      ix_iter I (ix_remove I x k) = filter (\<lambda>j. \<not> key_same S j k) (ix_iter I x)"
    and rank_iter: "index_ok S (ix_iter I x) \<Longrightarrow>
      ix_rank I x k = length (filter (\<lambda>j. key_less S j k) (ix_iter I x))"
    and range_sub: "index_ok S (ix_iter I x) \<Longrightarrow> score_range_ok S lo hi \<Longrightarrow>
      set (ix_range I x lo hi) \<subseteq> set (ix_iter I x)"
    and range_iter: "index_ok S (ix_iter I x) \<Longrightarrow> score_range_ok S lo hi \<Longrightarrow>
      filter (\<lambda>k. key_above S lo k \<and> key_below S hi k) (ix_range I x lo hi) =
      filter (\<lambda>k. key_above S lo k \<and> key_below S hi k) (ix_iter I x)"
    and range_idx_iter: "index_ok S (ix_iter I x) \<Longrightarrow> b < length (ix_iter I x) \<Longrightarrow>
      ix_range_idx I x a b = take (Suc b - a) (drop a (ix_iter I x))"
    and pop_first_iter: "index_ok S (ix_iter I x) \<Longrightarrow>
      fst (ix_pop_first I x) = (case ix_iter I x of [] \<Rightarrow> None | k # _ \<Rightarrow> Some k)"
    and iter_pop_first: "index_ok S (ix_iter I x) \<Longrightarrow>
      ix_iter I (snd (ix_pop_first I x)) = tl (ix_iter I x)"
    and pop_last_iter: "index_ok S (ix_iter I x) \<Longrightarrow>
      fst (ix_pop_last I x) = (if ix_iter I x = [] then None else Some (last (ix_iter I x)))"
    and iter_pop_last: "index_ok S (ix_iter I x) \<Longrightarrow>
      ix_iter I (snd (ix_pop_last I x)) = butlast (ix_iter I x)"

text \<open>The sorted lists of keys, with the same functions.\<close>

definition list_index :: "score_ops \<Rightarrow> ZSetIndexKey list index_ops" where
  "list_index S = \<lparr>ix_new = [], ix_iter = (\<lambda>x. x),
     ix_insert = (\<lambda>x k. if \<exists>j \<in> set x. key_same S j k then x
        else filter (\<lambda>j. key_less S j k) x @ k # filter (\<lambda>j. \<not> key_less S j k) x),
     ix_remove = (\<lambda>x k. filter (\<lambda>j. \<not> key_same S j k) x),
     ix_rank = (\<lambda>x k. length (filter (\<lambda>j. key_less S j k) x)),
     ix_range = (\<lambda>x lo hi. filter (\<lambda>k. key_above S lo k \<and> key_below S hi k) x),
     ix_range_idx = (\<lambda>x a b. take (Suc b - a) (drop a x)),
     ix_pop_first = (\<lambda>x. (case x of [] \<Rightarrow> None | k # _ \<Rightarrow> Some k, tl x)),
     ix_pop_last = (\<lambda>x. (if x = [] then None else Some (last x), butlast x))\<rparr>"

interpretation list_index: index_set f64_ops "list_index f64_ops"
  by unfold_locales (auto simp: list_index_def)

end
