(* ===== verification/Storage.thy ===== *)
theory Storage
  imports Cursor ZSet_Index
begin

text \<open>
  storage/types.rs and storage/mod.rs: the values a key can hold, the storage (a map of databases,
  each a map from keys to values), the key iteration commands, the well-formedness invariant and the
  abstract view of the storage against which the commands are specified.

  The type parameters \<open>'v\<close> and \<open>'i\<close> are the representations of \<open>im::Vector\<close> and
  \<open>indexset::BTreeSet\<close>. The Lua virtual machine of \<open>StorageInner\<close> is not part of the model: no
  command of the modelled files reads or writes it.
\<close>

section \<open>Values and storage\<close>

record 'i ZSet =
  index :: 'i
  entries :: "(bytes, f64) btree_map"

definition ZSet_new :: "'i index_ops \<Rightarrow> 'i ZSet" where
  "ZSet_new I = \<lparr>index = ix_new I, entries = bm_new\<rparr>"

definition ZSet_is_empty :: "'i ZSet \<Rightarrow> bool" where
  "ZSet_is_empty z \<longleftrightarrow> entries z = []"

definition ZSet_len :: "'i ZSet \<Rightarrow> usize" where
  "ZSet_len z = length (entries z)"

text \<open>The two insertions that every writer of a sorted set makes together, and the two removals.\<close>

definition zset_put :: "'i index_ops \<Rightarrow> bytes \<Rightarrow> f64 \<Rightarrow> 'i ZSet \<Rightarrow> 'i ZSet" where
  "zset_put I member score z =
     \<lparr>index = ix_insert I (index z) (create score member),
      entries = bm_insert member score (entries z)\<rparr>"

definition zset_drop :: "'i index_ops \<Rightarrow> bytes \<Rightarrow> f64 \<Rightarrow> 'i ZSet \<Rightarrow> 'i ZSet" where
  "zset_drop I member score z =
     \<lparr>index = ix_remove I (index z) (create_ref score member),
      entries = bm_remove member (entries z)\<rparr>"

text \<open>Cloning rebuilds the sorted set from its entries.\<close>

definition ZSet_clone :: "'i index_ops \<Rightarrow> 'i ZSet \<Rightarrow> 'i ZSet" where
  "ZSet_clone I z = fold (\<lambda>(member, score). zset_put I member score) (entries z) (ZSet_new I)"

datatype ZAddOption = NX | XX | GT | LT | CH | INCR

datatype HSetEXMode = FNX | FXX

datatype ('v, 'i) StorageValue =
    String bytes
  | Set "bytes btree_set"
  | List 'v
  | Hash "(bytes, bytes) btree_map"
  | ZSet "'i ZSet"

fun value_clone :: "'i index_ops \<Rightarrow> ('v, 'i) StorageValue \<Rightarrow> ('v, 'i) StorageValue" where
  "value_clone I (ZSet z) = ZSet (ZSet_clone I z)"
| "value_clone I v = v"

type_synonym ('v, 'i) db_map = "(bytes, ('v, 'i) StorageValue) btree_map"

record ('v, 'i) StorageInner =
  smap :: "(u64, ('v, 'i) db_map) btree_map"

definition StorageInner_new :: "('v, 'i) StorageInner" where
  "StorageInner_new = \<lparr>smap = bm_new\<rparr>"

text \<open>\<open>self.map.entry(db).or_default()\<close>, and writing the database back.\<close>

definition db_entry :: "('v, 'i) StorageInner \<Rightarrow> u64 \<Rightarrow> ('v, 'i) db_map" where
  "db_entry st db = (case bm_get (smap st) db of None \<Rightarrow> [] | Some m \<Rightarrow> m)"

definition put_db :: "('v, 'i) StorageInner \<Rightarrow> u64 \<Rightarrow> ('v, 'i) db_map \<Rightarrow> ('v, 'i) StorageInner" where
  "put_db st db m = st\<lparr>smap := bm_insert db m (smap st)\<rparr>"

type_synonym ('v, 'i, 'a) outcome = "'a result \<times> ('v, 'i) StorageInner"

section \<open>Key iteration\<close>

definition first :: "('v, 'i) StorageInner \<Rightarrow> u64 \<Rightarrow> usize \<Rightarrow> bytes list" where
  "first st db count =
     (if count = 0 then []
      else case bm_get (smap st) db of
             None \<Rightarrow> []
           | Some m \<Rightarrow> map fst (take count m))"

definition last_cmd :: "('v, 'i) StorageInner \<Rightarrow> u64 \<Rightarrow> usize \<Rightarrow> bytes list" where
  "last_cmd st db count =
     (if count = 0 then []
      else case bm_get (smap st) db of
             None \<Rightarrow> []
           | Some m \<Rightarrow> map fst (take count (rev m)))"

definition next_cmd :: "('v, 'i) StorageInner \<Rightarrow> u64 \<Rightarrow> bytes \<Rightarrow> usize \<Rightarrow> bytes list" where
  "next_cmd st db key count =
     (if count = 0 then []
      else case bm_get (smap st) db of
             None \<Rightarrow> []
           | Some m \<Rightarrow> map fst (take count (bm_after key m)))"

definition prev :: "('v, 'i) StorageInner \<Rightarrow> u64 \<Rightarrow> bytes \<Rightarrow> usize \<Rightarrow> bytes list" where
  "prev st db key count =
     (if count = 0 then []
      else case bm_get (smap st) db of
             None \<Rightarrow> []
           | Some m \<Rightarrow> map fst (take count (rev (bm_before key m))))"

section \<open>What a key holds\<close>

definition lookup :: "('v, 'i) StorageInner \<Rightarrow> u64 \<Rightarrow> bytes \<Rightarrow> ('v, 'i) StorageValue option" where
  "lookup st db key = (case bm_get (smap st) db of None \<Rightarrow> None | Some m \<Rightarrow> bm_get m key)"

lemma lookup_new [lookup_simps]: "lookup StorageInner_new db k = None"
  by (simp add: lookup_def StorageInner_new_def)

lemma lookup_put_db [lookup_simps]:
  "lookup (put_db st db m) db' k = (if db' = db then bm_get m k else lookup st db' k)"
  by (simp add: lookup_def put_db_def bm_get_insert)

lemma lookup_entry: "lookup st db k = bm_get (db_entry st db) k"
  by (simp add: lookup_def db_entry_def split: option.splits)

lemma get_entry [lookup_simps]: "bm_get (db_entry st db) k = lookup st db k"
  by (simp add: lookup_entry)

lemma lookup_None [lookup_simps]: "bm_get (smap st) db = None \<Longrightarrow> lookup st db k = None"
  by (simp add: lookup_def)

lemma lookup_Some [lookup_simps]: "bm_get (smap st) db = Some m \<Longrightarrow> lookup st db k = bm_get m k"
  by (simp add: lookup_def)

lemma db_entry_Some: "bm_get (smap st) db = Some m \<Longrightarrow> db_entry st db = m"
  by (simp add: db_entry_def)

section \<open>The invariant\<close>

text \<open>The index of a sorted set holds exactly the entries, in order of score and then member.\<close>

definition zset_ok :: "score_ops \<Rightarrow> 'i index_ops \<Rightarrow> 'i ZSet \<Rightarrow> bool" where
  "zset_ok S I z \<longleftrightarrow>
     bm_sorted (entries z) \<and> index_ok S (ix_iter I (index z)) \<and>
     set (ix_iter I (index z)) = (\<lambda>(m, s). Key s m) ` set (entries z)"

fun value_ok :: "score_ops \<Rightarrow> 'i index_ops \<Rightarrow> ('v, 'i) StorageValue \<Rightarrow> bool" where
  "value_ok S I (Set s) = bs_sorted s"
| "value_ok S I (Hash h) = bm_sorted h"
| "value_ok S I (ZSet z) = zset_ok S I z"
| "value_ok S I _ = True"

definition db_ok :: "score_ops \<Rightarrow> 'i index_ops \<Rightarrow> ('v, 'i) db_map \<Rightarrow> bool" where
  "db_ok S I m \<longleftrightarrow> bm_sorted m \<and> (\<forall>k v. bm_get m k = Some v \<longrightarrow> value_ok S I v)"

definition storage_ok :: "score_ops \<Rightarrow> 'i index_ops \<Rightarrow> ('v, 'i) StorageInner \<Rightarrow> bool" where
  "storage_ok S I st \<longleftrightarrow>
     bm_sorted (smap st) \<and> (\<forall>db m. bm_get (smap st) db = Some m \<longrightarrow> db_ok S I m)"

lemma storage_ok_new [wf_intros]: "storage_ok S I StorageInner_new"
  by (simp add: storage_ok_def StorageInner_new_def)

lemma db_ok_Nil [wf_intros]: "db_ok S I []"
  by (simp add: db_ok_def)

lemma db_ok_insert [wf_intros]: "db_ok S I m \<Longrightarrow> value_ok S I v \<Longrightarrow> db_ok S I (bm_insert k v m)"
  by (auto simp: db_ok_def bm_sorted_insert bm_get_insert)

lemma db_ok_remove [wf_intros]: "db_ok S I m \<Longrightarrow> db_ok S I (bm_remove k m)"
  by (auto simp: db_ok_def bm_sorted_remove bm_get_remove)

lemma db_ok_entry [wf_intros]: "storage_ok S I st \<Longrightarrow> db_ok S I (db_entry st db)"
  by (auto simp: storage_ok_def db_entry_def db_ok_Nil split: option.splits)

lemma db_ok_get: "storage_ok S I st \<Longrightarrow> bm_get (smap st) db = Some m \<Longrightarrow> db_ok S I m"
  by (simp add: storage_ok_def)

lemma value_ok_get: "db_ok S I m \<Longrightarrow> bm_get m k = Some v \<Longrightarrow> value_ok S I v"
  by (simp add: db_ok_def)

lemma value_ok_lookup: "storage_ok S I st \<Longrightarrow> lookup st db k = Some v \<Longrightarrow> value_ok S I v"
  by (auto simp: lookup_def split: option.splits intro: value_ok_get db_ok_get)

lemma storage_ok_put_db [wf_intros]:
  "storage_ok S I st \<Longrightarrow> db_ok S I m \<Longrightarrow> storage_ok S I (put_db st db m)"
  by (auto simp: storage_ok_def put_db_def bm_sorted_insert bm_get_insert)

text \<open>The keys of a database, in order: what iterating its map yields.\<close>

lemma db_keys_lookup:
  "storage_ok S I st \<Longrightarrow> bm_get (smap st) db = Some m \<Longrightarrow>
     k \<in> set (map fst m) \<longleftrightarrow> lookup st db k \<noteq> None"
  by (auto simp: lookup_def storage_ok_def db_ok_def dom_def simp flip: bm.dom_get)

interpretation key_cursor: ordered_cursor "storage_ok S I" "\<lambda>st. map fst (db_entry st db)" "\<lambda>k. k"
  "\<lambda>st n. first st db n" "\<lambda>st n. last_cmd st db n"
  "\<lambda>st k n. next_cmd st db k n" "\<lambda>st k n. prev st db k n"
  for S :: score_ops and I :: "'i index_ops" and db :: u64
proof
  fix st :: "('v, 'i) StorageInner"
  assume "storage_ok S I st"
  then show "sorted_wrt (<) (map (\<lambda>k. k) (map fst (db_entry st db)))"
    using db_ok_entry [of S I st db] by (simp add: db_ok_def bm_sorted_def)
qed (auto simp: first_def last_cmd_def next_cmd_def prev_def db_entry_def bm_after_eq bm_before_eq
       take_map rev_map filter_map comp_def split: option.splits)

section \<open>The abstract view\<close>

text \<open>
  What the storage promises to hold: a partial map from database and key to a value, where a set is a
  set, a hash a partial map, a list a sequence and a sorted set a partial map from members to scores.
\<close>

datatype avalue =
    AString bytes
  | ASet "bytes set"
  | AList "bytes list"
  | AHash "bytes \<rightharpoonup> bytes"
  | AZSet "bytes \<rightharpoonup> f64"

type_synonym keyspace = "u64 \<Rightarrow> bytes \<rightharpoonup> avalue"

fun abs_value :: "'v vec_ops \<Rightarrow> ('v, 'i) StorageValue \<Rightarrow> avalue" where
  "abs_value V (String b) = AString b"
| "abs_value V (Set s) = ASet (set s)"
| "abs_value V (List v) = AList (vec_iter V v)"
| "abs_value V (Hash h) = AHash (bm_get h)"
| "abs_value V (ZSet z) = AZSet (bm_get (entries z))"

definition abs_storage :: "'v vec_ops \<Rightarrow> ('v, 'i) StorageInner \<Rightarrow> keyspace" where
  "abs_storage V st db k = map_option (abs_value V) (lookup st db k)"

definition ks_update :: "u64 \<Rightarrow> bytes \<Rightarrow> avalue option \<Rightarrow> keyspace \<Rightarrow> keyspace" where
  "ks_update db k v K = K(db := (K db)(k := v))"

lemma ks_update_apply:
  "ks_update db k v K db' k' = (if db' = db \<and> k' = k then v else K db' k')"
  by (simp add: ks_update_def)

text \<open>
  The contract of a command that works on one key: it keeps the invariant, and its result and the
  value it leaves at its key are functions of the value it found there; no other key changes.
\<close>

type_synonym transformer = "avalue option \<Rightarrow> unit result \<times> avalue option"

locale key_command =
  fixes V :: "'v vec_ops" and S :: score_ops and I :: "'i index_ops"
    and cmd :: "('v, 'i) StorageInner \<Rightarrow> ('v, 'i, unit) outcome"
    and db :: u64 and key :: bytes and spec :: transformer
  assumes ok_cmd: "storage_ok S I st \<Longrightarrow> storage_ok S I (snd (cmd st))"
    and result_cmd: "storage_ok S I st \<Longrightarrow> fst (cmd st) = fst (spec (abs_storage V st db key))"
    and abs_cmd: "storage_ok S I st \<Longrightarrow>
      abs_storage V (snd (cmd st)) =
        ks_update db key (snd (spec (abs_storage V st db key))) (abs_storage V st)"
begin

lemma other_key:
  "storage_ok S I st \<Longrightarrow> (db', key') \<noteq> (db, key) \<Longrightarrow>
     abs_storage V (snd (cmd st)) db' key' = abs_storage V st db' key'"
  by (auto simp: abs_cmd ks_update_apply)

lemma this_key:
  "storage_ok S I st \<Longrightarrow>
     abs_storage V (snd (cmd st)) db key = snd (spec (abs_storage V st db key))"
  by (simp add: abs_cmd ks_update_apply)

end

text \<open>
  The contract of a command on the keyspace: it keeps the invariant, and its result and the keyspace it
  leaves are functions of the keyspace it found. A command on one key is such a command.
\<close>

type_synonym ks_transformer = "keyspace \<Rightarrow> unit result \<times> keyspace"

definition at_key :: "u64 \<Rightarrow> bytes \<Rightarrow> transformer \<Rightarrow> ks_transformer" where
  "at_key db key spec K = (fst (spec (K db key)), ks_update db key (snd (spec (K db key))) K)"

locale keyspace_command =
  fixes V :: "'v vec_ops" and S :: score_ops and I :: "'i index_ops"
    and cmd :: "('v, 'i) StorageInner \<Rightarrow> ('v, 'i, unit) outcome"
    and kspec :: ks_transformer
  assumes ok_kcmd: "storage_ok S I st \<Longrightarrow> storage_ok S I (snd (cmd st))"
    and refines: "storage_ok S I st \<Longrightarrow> map_prod id (abs_storage V) (cmd st) = kspec (abs_storage V st)"
begin

text \<open>Two storages with the same keyspace cannot be told apart by the command.\<close>

lemma respects_abs:
  "storage_ok S I st \<Longrightarrow> storage_ok S I st' \<Longrightarrow> abs_storage V st = abs_storage V st' \<Longrightarrow>
     fst (cmd st) = fst (cmd st') \<and> abs_storage V (snd (cmd st)) = abs_storage V (snd (cmd st'))"
  by (metis refines fst_map_prod snd_map_prod id_apply)

end

sublocale key_command \<subseteq> keyspace_command V S I cmd "at_key db key spec"
  by unfold_locales (simp_all add: ok_cmd at_key_def map_prod_def case_prod_beta result_cmd abs_cmd)

context key_command
begin

lemmas key_refines = refines
lemmas keyspace_command = keyspace_command_axioms

end

text \<open>
  How a command establishes the contract: by what it does to the value its key holds. The database it
  writes back differs from the one it read at its key only.
\<close>

lemma key_commandI:
  assumes "\<And>st. storage_ok S I st \<Longrightarrow> storage_ok S I (snd (cmd st))"
    and "\<And>st. storage_ok S I st \<Longrightarrow>
      fst (cmd st) = fst (spec (map_option (abs_value V) (lookup st db key)))"
    and "\<And>st. storage_ok S I st \<Longrightarrow>
      map_option (abs_value V) (lookup (snd (cmd st)) db key) =
        snd (spec (map_option (abs_value V) (lookup st db key)))"
    and "\<And>st db' k. storage_ok S I st \<Longrightarrow> (db', k) \<noteq> (db, key) \<Longrightarrow>
      lookup (snd (cmd st)) db' k = lookup st db' k"
  shows "key_command V S I cmd db key spec"
  using assms
  by unfold_locales (auto simp: abs_storage_def ks_update_apply fun_eq_iff)

lemma keyspace_commandI:
  assumes "\<And>st. storage_ok S I st \<Longrightarrow> storage_ok S I (snd (cmd st))"
    and "\<And>st. storage_ok S I st \<Longrightarrow> fst (cmd st) = fst (kspec (abs_storage V st))"
    and "\<And>st db k. storage_ok S I st \<Longrightarrow>
      map_option (abs_value V) (lookup (snd (cmd st)) db k) = snd (kspec (abs_storage V st)) db k"
  shows "keyspace_command V S I cmd kspec"
  using assms
  by unfold_locales (auto simp: abs_storage_def map_prod_def case_prod_beta prod_eq_iff fun_eq_iff)

end
