(* ===== verification/ZSet_Core.thy ===== *)
theory ZSet_Core
  imports Storage
begin

text \<open>
  The consistency of a sorted set's two structures: what the paired insertion and removal do to the
  entries and to the index, and that cloning a sorted set, which rebuilds it, gives the same entries.
\<close>

context index_set
begin

lemma zset_ok_new: "zset_ok S I (ZSet_new I)"
  by (simp add: zset_ok_def ZSet_new_def index_ok_def iter_new)

lemma index_mem_iff:
  "zset_ok S I z \<Longrightarrow> j \<in> set (ix_iter I (index z)) \<longleftrightarrow>
     (\<exists>m s. j = Key s m \<and> bm_get (entries z) m = Some s)"
  by (force simp: zset_ok_def simp flip: bm.entries_get)

lemma not_less_stored:
  assumes "is_stored j" "is_stored k" "\<not> key_less S j k" "\<not> key_same S j k"
  shows "key_less S k j"
proof -
  obtain c where c: "key_cmp S j k = Some c"
    using key_cmp_stored [OF assms(1)] by auto
  with assms(3,4) have "c = Greater" by (cases c) auto
  with c show ?thesis using key_cmp_flip [of k j] by simp
qed

lemma index_ok_insert:
  assumes "index_ok S ks" "is_stored k" "\<forall>j \<in> set ks. \<not> key_same S j k"
  shows "index_ok S (filter (\<lambda>j. key_less S j k) ks @ k # filter (\<lambda>j. \<not> key_less S j k) ks)"
proof -
  have st: "\<forall>j \<in> set ks. is_stored j" and so: "sorted_wrt (key_less S) ks"
    using assms(1) by (auto simp: index_ok_def)
  have gt: "key_less S k j" if "j \<in> set ks" "\<not> key_less S j k" for j
    using not_less_stored st assms that by blast
  have "key_less S i j" if "i \<in> set ks" "key_less S i k" "j \<in> set ks" "\<not> key_less S j k" for i j
    using key_less_trans [of i k j] gt that st assms(2) by blast
  then show ?thesis
    using st so gt assms(2)
    by (auto simp: index_ok_def sorted_wrt_append sorted_wrt_filter)
qed

lemma zset_ok_put:
  assumes z: "zset_ok S I z" and new: "bm_get (entries z) m = None"
  shows "zset_ok S I (zset_put I m s z)"
proof -
  let ?ks = "ix_iter I (index z)"
  have ok: "index_ok S ?ks" using z by (simp add: zset_ok_def)
  have fresh: "\<forall>j \<in> set ?ks. \<not> key_same S j (Key s m)"
    using z new by (auto simp: index_mem_iff or_else_iffs)
  have it: "ix_iter I (ix_insert I (index z) (Key s m)) =
      filter (\<lambda>j. key_less S j (Key s m)) ?ks @ Key s m # filter (\<lambda>j. \<not> key_less S j (Key s m)) ?ks"
    using iter_insert [OF ok, of "Key s m"] fresh by auto
  have en: "set (bm_insert m s (entries z)) = insert (m, s) (set (entries z))"
    using z new by (auto simp: zset_ok_def bm_sorted_insert bm.entries_get bm_get_insert split: if_splits)
  show ?thesis
    using z index_ok_insert [OF ok _ fresh] it en
    by (auto simp: zset_ok_def zset_put_def create_def bm_sorted_insert)
qed

lemma zset_ok_drop:
  assumes z: "zset_ok S I z" and old: "bm_get (entries z) m = Some s"
  shows "zset_ok S I (zset_drop I m s z)"
proof -
  let ?ks = "ix_iter I (index z)"
  have ok: "index_ok S ?ks" using z by (simp add: zset_ok_def)
  have it: "ix_iter I (ix_remove I (index z) (Ref s m)) = filter (\<lambda>j. \<not> key_same S j (Ref s m)) ?ks"
    by (rule iter_remove [OF ok])
  have "j \<in> set (filter (\<lambda>j. \<not> key_same S j (Ref s m)) ?ks) \<longleftrightarrow>
      (\<exists>m' s'. j = Key s' m' \<and> bm_get (bm_remove m (entries z)) m' = Some s')" for j
    using old by (cases j) (auto simp: index_mem_iff [OF z] bm_get_remove or_else_iffs cmp_refl)
  then have "set (filter (\<lambda>j. \<not> key_same S j (Ref s m)) ?ks) =
      (\<lambda>(m, s). Key s m) ` set (bm_remove m (entries z))"
    using z by (force simp: zset_ok_def bm_sorted_remove simp flip: bm.entries_get)
  moreover have "index_ok S (filter (\<lambda>j. \<not> key_same S j (Ref s m)) ?ks)"
    using ok by (simp add: index_ok_def sorted_wrt_filter)
  ultimately show ?thesis
    using z it by (simp add: zset_ok_def zset_drop_def create_ref_def bm_sorted_remove)
qed

lemma entries_put: "bm_get (entries (zset_put I m s z)) = (bm_get (entries z))(m \<mapsto> s)"
  by (simp add: zset_put_def bm_get_insert)

lemma entries_drop: "bm_get (entries (zset_drop I m s z)) = (bm_get (entries z))(m := None)"
  by (simp add: zset_drop_def bm_get_remove)

text \<open>Changing the score of a member: the index entry is removed, then both structures written.\<close>

lemma zset_ok_update:
  assumes z: "zset_ok S I z" and old: "bm_get (entries z) m = Some s"
  shows "zset_ok S I (zset_put I m s' (z\<lparr>index := ix_remove I (index z) (create_ref s m)\<rparr>))"
proof -
  have "zset_put I m s' (z\<lparr>index := ix_remove I (index z) (create_ref s m)\<rparr>) =
      zset_put I m s' (zset_drop I m s z)"
    using z by (simp add: zset_put_def zset_drop_def bm_insert_remove zset_ok_def)
  moreover have "bm_get (entries (zset_drop I m s z)) m = None"
    by (simp add: entries_drop)
  ultimately show ?thesis
    using zset_ok_put zset_ok_drop [OF assms] by simp
qed

text \<open>Building a sorted set from a list of pairs with distinct members.\<close>

lemma zset_ok_fold_put:
  "zset_ok S I z \<Longrightarrow> distinct (map fst ps) \<Longrightarrow> \<forall>p \<in> set ps. bm_get (entries z) (fst p) = None \<Longrightarrow>
     zset_ok S I (fold (\<lambda>(m, s). zset_put I m s) ps z)"
proof (induction ps arbitrary: z)
  case (Cons p ps)
  obtain m s where p: "p = (m, s)" by fastforce
  have "zset_ok S I (zset_put I m s z)"
    using Cons.prems p by (intro zset_ok_put) auto
  moreover have "\<forall>q \<in> set ps. bm_get (entries (zset_put I m s z)) (fst q) = None"
    using Cons.prems p by (auto simp: entries_put)
  ultimately show ?case
    using Cons.IH Cons.prems(2) p by simp
qed simp

lemma entries_fold_put:
  "bm_get (entries (fold (\<lambda>(m, s). zset_put I m s) ps z)) = bm_get (entries z) ++ map_of (rev ps)"
proof (induction ps arbitrary: z)
  case (Cons p ps)
  then show ?case
    by (cases p) (simp add: entries_put map_add_def fun_eq_iff split: option.splits)
qed simp

lemma zset_ok_build: "distinct (map fst ps) \<Longrightarrow> zset_ok S I (fold (\<lambda>(m, s). zset_put I m s) ps (ZSet_new I))"
  by (rule zset_ok_fold_put [OF zset_ok_new]) (simp_all add: ZSet_new_def)

lemma entries_build:
  "distinct (map fst ps) \<Longrightarrow>
     bm_get (entries (fold (\<lambda>(m, s). zset_put I m s) ps (ZSet_new I))) = map_of ps"
proof -
  assume d: "distinct (map fst ps)"
  then have "map_of (rev ps) = map_of ps"
    by (subst map_of_inject_set) (auto simp flip: rev_map)
  then show ?thesis
    unfolding entries_fold_put by (simp add: ZSet_new_def map_add_def fun_eq_iff split: option.splits)
qed

lemma zset_ok_clone: "zset_ok S I z \<Longrightarrow> zset_ok S I (ZSet_clone I z)"
  unfolding ZSet_clone_def
  by (rule zset_ok_build) (simp add: zset_ok_def bm_sorted_distinct)

lemma entries_clone: "zset_ok S I z \<Longrightarrow> entries (ZSet_clone I z) = entries z"
proof (rule bm_sorted_unique)
  assume z: "zset_ok S I z"
  then show "bm_get (entries (ZSet_clone I z)) = bm_get (entries z)"
    unfolding ZSet_clone_def
    by (subst entries_build) (auto simp: zset_ok_def bm_sorted_distinct bm_get_def fun_eq_iff)
  show "bm_sorted (entries (ZSet_clone I z))"
    using zset_ok_clone [OF z] by (simp add: zset_ok_def)
qed (simp add: zset_ok_def)

lemma value_ok_clone: "value_ok S I v \<Longrightarrow> value_ok S I (value_clone I v)"
  by (cases v) (simp_all add: zset_ok_clone)

lemma abs_value_clone: "value_ok S I v \<Longrightarrow> abs_value V (value_clone I v) = abs_value V v"
  by (cases v) (simp_all add: entries_clone)

end

end
