(* ===== verification/Sample.thy ===== *)
theory Sample
  imports ZSet_Core
begin

text \<open>
  A small storage with a value of every kind, on the reference vector and index: what the examples that
  follow each property are evaluated on. Database 0 holds the hash \<open>h\<close> with the fields \<open>f\<close> and \<open>g\<close>, the list
  \<open>l\<close> of \<open>a\<close>, \<open>b\<close> and \<open>c\<close>, the string \<open>n\<close> that reads 5, the sets \<open>s\<close> of \<open>x\<close> and \<open>y\<close> and \<open>t\<close> of \<open>y\<close>, and the
  sorted set \<open>z\<close> of \<open>b\<close> with score 0 and \<open>a\<close> and \<open>c\<close> with score 1.
\<close>

abbreviation f64_index :: "ZSetIndexKey list index_ops" where
  "f64_index \<equiv> list_index f64_ops"

definition sample_zset :: "ZSetIndexKey list ZSet" where
  "sample_zset = \<lparr>index = [Key f64_zero [98], Key f64_one [97], Key f64_one [99]],
     entries = [([97], f64_one), ([98], f64_zero), ([99], f64_one)]\<rparr>"

definition sample_db :: "(bytes list, ZSetIndexKey list) db_map" where
  "sample_db =
     [([104], Hash [([102], [118]), ([103], [119])]), ([108], List [[97], [98], [99]]), ([110], String [53]),
      ([115], Set [[120], [121]]), ([116], Set [[121]]), ([122], ZSet sample_zset)]"

definition sample :: "(bytes list, ZSetIndexKey list) StorageInner" where
  "sample = \<lparr>smap = [(0, sample_db)]\<rparr>"

lemma f64_sample_cmp [simp]:
  "of_cmp f64_ops f64_zero f64_zero = Equal" "of_cmp f64_ops f64_one f64_one = Equal"
  "of_cmp f64_ops f64_zero f64_one = Less" "of_cmp f64_ops f64_one f64_zero = Greater"
  by (simp_all add: f64_ops_def) code_simp+

lemma sample_scores [simp]:
  "sc_le f64_ops f64_zero f64_zero" "sc_le f64_ops f64_zero f64_one" "sc_le f64_ops f64_one f64_one"
  "\<not> sc_le f64_ops f64_one f64_zero" "sc_lt f64_ops f64_zero f64_one" "\<not> sc_lt f64_ops f64_one f64_zero"
  by (simp_all add: sc_le_def sc_lt_def)

lemma sample_zset_ok: "zset_ok f64_ops f64_index sample_zset"
  by (auto simp: zset_ok_def sample_zset_def bm_sorted_def index_ok_def list_index_def)

lemma sample_get [simp]:
  "bm_get (smap sample) 0 = Some sample_db"
  "db_entry sample 0 = sample_db"
  by (simp_all add: sample_def bm_get_def db_entry_def)

lemma sample_db_get [simp]:
  "bm_get sample_db [104] = Some (Hash [([102], [118]), ([103], [119])])"
  "bm_get sample_db [108] = Some (List [[97], [98], [99]])"
  "bm_get sample_db [110] = Some (String [53])"
  "bm_get sample_db [115] = Some (Set [[120], [121]])"
  "bm_get sample_db [116] = Some (Set [[121]])"
  "bm_get sample_db [122] = Some (ZSet sample_zset)"
  "bm_get sample_db [107] = None"
  by (simp_all add: sample_db_def bm_get_def)

lemma sample_db_ok: "db_ok f64_ops f64_index sample_db"
  unfolding db_ok_def
proof
  show "bm_sorted sample_db" by (simp add: sample_db_def bm_sorted_def)
  show "\<forall>k v. bm_get sample_db k = Some v \<longrightarrow> value_ok f64_ops f64_index v"
    using sample_zset_ok by (auto simp: sample_db_def bm_get_def bm_sorted_def)
qed

lemma sample_ok: "storage_ok f64_ops f64_index sample"
  using sample_db_ok by (auto simp: storage_ok_def sample_def bm_get_def bm_sorted_def split: if_splits)

lemma sample_lookup [simp]: "lookup sample 0 k = bm_get sample_db k"
  by (simp add: lookup_def)

lemma sample_abs [simp]:
  "abs_storage list_vec sample 0 [108] = Some (AList [[97], [98], [99]])"
  "abs_storage list_vec sample 0 [115] = Some (ASet {[120], [121]})"
  "abs_storage list_vec sample 0 [122] = Some (AZSet (bm_get (entries sample_zset)))"
  by (simp_all add: abs_storage_def list_vec_def)

lemma sample_zset_get [simp]:
  "bm_get (entries sample_zset) [97] = Some f64_one" "bm_get (entries sample_zset) [98] = Some f64_zero"
  "bm_get (entries sample_zset) [99] = Some f64_one"
  by (simp_all add: sample_zset_def bm_get_def)

end
