(* ===== verification/Strings.thy ===== *)
theory Strings
  imports Rust_Int Sample
begin

text \<open>
  storage/strings.rs: the string commands, the commands on whole keys (delete, rename, move, copy) and
  the commands on whole databases (flush, swap).
\<close>

section \<open>Strings\<close>

definition set_cmd ::
  "('v, 'i) StorageInner \<Rightarrow> u64 \<Rightarrow> bytes \<Rightarrow> bytes \<Rightarrow> ('v, 'i) StorageInner" where
  "set_cmd st db key v = put_db st db (bm_insert key (String v) (db_entry st db))"

definition mset ::
  "('v, 'i) StorageInner \<Rightarrow> u64 \<Rightarrow> (bytes \<times> bytes) list \<Rightarrow> ('v, 'i) StorageInner" where
  "mset st db pairs =
     put_db st db (fold (\<lambda>(key, v) m. bm_insert key (String v) m) pairs (db_entry st db))"

definition get :: "('v, 'i) StorageInner \<Rightarrow> u64 \<Rightarrow> bytes \<Rightarrow> bytes option result" where
  "get st db key =
     (case (case bm_get (smap st) db of None \<Rightarrow> None | Some m \<Rightarrow> bm_get m key) of
        Some (String v) \<Rightarrow> Ok (Some v)
      | Some _ \<Rightarrow> Err WrongType
      | None \<Rightarrow> Ok None)"

definition del :: "('v, 'i) StorageInner \<Rightarrow> u64 \<Rightarrow> bytes \<Rightarrow> ('v, 'i) StorageInner" where
  "del st db key =
     (case bm_get (smap st) db of None \<Rightarrow> st | Some m \<Rightarrow> put_db st db (bm_remove key m))"

definition pexpireat ::
  "('v, 'i) StorageInner \<Rightarrow> u64 \<Rightarrow> bytes \<Rightarrow> i64 \<Rightarrow> ('v, 'i, unit) outcome" where
  "pexpireat st db key timestamp_ms = (Ok (), st)"

definition append_cmd ::
  "('v, 'i) StorageInner \<Rightarrow> u64 \<Rightarrow> bytes \<Rightarrow> bytes \<Rightarrow> ('v, 'i, unit) outcome" where
  "append_cmd st db key v =
     (let m = db_entry st db
      in case bm_get m key of
           Some (String existing) \<Rightarrow> (Ok (), put_db st db (bm_insert key (String (existing @ v)) m))
         | Some _ \<Rightarrow> (Err WrongType, put_db st db m)
         | None \<Rightarrow> (Ok (), put_db st db (bm_insert key (String v) m)))"

text \<open>
  \<open>setrange\<close> adds two \<open>usize\<close> values. When the sum passes 2 ^ 64 the slice \<open>offset..end_pos\<close> is
  inverted and taking it panics.
\<close>

definition resize :: "bytes \<Rightarrow> usize \<Rightarrow> bytes" where
  "resize b n = take n b @ replicate (n - length b) 0"

definition overwrite :: "bytes \<Rightarrow> usize \<Rightarrow> bytes \<Rightarrow> bytes" where
  "overwrite b offset v = take offset b @ v @ drop (offset + length v) b"

definition setrange ::
  "('v, 'i) StorageInner \<Rightarrow> u64 \<Rightarrow> bytes \<Rightarrow> usize \<Rightarrow> bytes \<Rightarrow> ('v, 'i, unit) outcome" where
  "setrange st db key offset v =
     (let m = db_entry st db; end_pos = (offset + length v) mod 2 ^ 64
      in case bm_get m key of
           Some (String existing) \<Rightarrow>
             (let b = (if end_pos > length existing then resize existing end_pos else existing)
              in if end_pos < offset then (Err Panic, put_db st db m)
                 else (Ok (), put_db st db (bm_insert key (String (overwrite b offset v)) m)))
         | Some _ \<Rightarrow> (Err WrongType, put_db st db m)
         | None \<Rightarrow>
             if end_pos < offset then (Err Panic, put_db st db m)
             else (Ok (), put_db st db (bm_insert key (String (overwrite (replicate end_pos 0) offset v)) m)))"

section \<open>Counters\<close>

definition incr :: "('v, 'i) StorageInner \<Rightarrow> u64 \<Rightarrow> bytes \<Rightarrow> ('v, 'i, unit) outcome" where
  "incr st db key =
     (let m = db_entry st db
      in case bm_get m key of
           Some (String existing) \<Rightarrow>
             (case parse_i64 existing of
                None \<Rightarrow> (Err NotInteger, put_db st db m)
              | Some current \<Rightarrow>
                  (case checked_add current 1 of
                     None \<Rightarrow> (Err IncrOverflow, put_db st db m)
                   | Some n \<Rightarrow> (Ok (), put_db st db (bm_insert key (String (i64_to_string n)) m))))
         | Some _ \<Rightarrow> (Err WrongType, put_db st db m)
         | None \<Rightarrow> (Ok (), put_db st db (bm_insert key (String [49]) m)))"

definition incrby :: "('v, 'i) StorageInner \<Rightarrow> u64 \<Rightarrow> bytes \<Rightarrow> i64 \<Rightarrow> ('v, 'i, unit) outcome" where
  "incrby st db key increment =
     (let m = db_entry st db
      in case bm_get m key of
           Some (String existing) \<Rightarrow>
             (case parse_i64 existing of
                None \<Rightarrow> (Err NotInteger, put_db st db m)
              | Some current \<Rightarrow>
                  (case checked_add current increment of
                     None \<Rightarrow> (Err IncrOverflow, put_db st db m)
                   | Some n \<Rightarrow> (Ok (), put_db st db (bm_insert key (String (i64_to_string n)) m))))
         | Some _ \<Rightarrow> (Err WrongType, put_db st db m)
         | None \<Rightarrow> (Ok (), put_db st db (bm_insert key (String (i64_to_string increment)) m)))"

definition decr :: "('v, 'i) StorageInner \<Rightarrow> u64 \<Rightarrow> bytes \<Rightarrow> ('v, 'i, unit) outcome" where
  "decr st db key =
     (let m = db_entry st db
      in case bm_get m key of
           Some (String existing) \<Rightarrow>
             (case parse_i64 existing of
                None \<Rightarrow> (Err NotInteger, put_db st db m)
              | Some current \<Rightarrow>
                  (case checked_sub current 1 of
                     None \<Rightarrow> (Err DecrOverflow, put_db st db m)
                   | Some n \<Rightarrow> (Ok (), put_db st db (bm_insert key (String (i64_to_string n)) m))))
         | Some _ \<Rightarrow> (Err WrongType, put_db st db m)
         | None \<Rightarrow> (Ok (), put_db st db (bm_insert key (String [45, 49]) m)))"

definition decrby :: "('v, 'i) StorageInner \<Rightarrow> u64 \<Rightarrow> bytes \<Rightarrow> i64 \<Rightarrow> ('v, 'i, unit) outcome" where
  "decrby st db key decrement =
     (let m = db_entry st db
      in case bm_get m key of
           Some (String existing) \<Rightarrow>
             (case parse_i64 existing of
                None \<Rightarrow> (Err NotInteger, put_db st db m)
              | Some current \<Rightarrow>
                  (case checked_sub current decrement of
                     None \<Rightarrow> (Err DecrOverflow, put_db st db m)
                   | Some n \<Rightarrow> (Ok (), put_db st db (bm_insert key (String (i64_to_string n)) m))))
         | Some _ \<Rightarrow> (Err WrongType, put_db st db m)
         | None \<Rightarrow>
             (case checked_neg decrement of
                None \<Rightarrow> (Err DecrOverflow, put_db st db m)
              | Some n \<Rightarrow> (Ok (), put_db st db (bm_insert key (String (i64_to_string n)) m))))"

section \<open>Whole keys and whole databases\<close>

definition rename ::
  "('v, 'i) StorageInner \<Rightarrow> u64 \<Rightarrow> bytes \<Rightarrow> bytes \<Rightarrow> ('v, 'i, unit) outcome" where
  "rename st db old_key new_key =
     (case bm_get (smap st) db of
        None \<Rightarrow> (Ok (), st)
      | Some m \<Rightarrow>
          (case bm_get m old_key of
             None \<Rightarrow> (Ok (), st)
           | Some v \<Rightarrow> (Ok (), put_db st db (bm_insert new_key v (bm_remove old_key m)))))"

definition renamenx ::
  "('v, 'i) StorageInner \<Rightarrow> u64 \<Rightarrow> bytes \<Rightarrow> bytes \<Rightarrow> ('v, 'i, unit) outcome" where
  "renamenx st db old_key new_key =
     (case bm_get (smap st) db of
        None \<Rightarrow> (Ok (), st)
      | Some m \<Rightarrow>
          (if bm_contains_key m new_key then (Ok (), st)
           else case bm_get m old_key of
                  None \<Rightarrow> (Ok (), st)
                | Some v \<Rightarrow> (Ok (), put_db st db (bm_insert new_key v (bm_remove old_key m)))))"

definition move_key ::
  "('v, 'i) StorageInner \<Rightarrow> u64 \<Rightarrow> u64 \<Rightarrow> bytes \<Rightarrow> ('v, 'i, unit) outcome" where
  "move_key st source_db dest_db key =
     (case bm_get (smap st) source_db of
        None \<Rightarrow> (Ok (), st)
      | Some source_map \<Rightarrow>
          (case bm_get source_map key of
             None \<Rightarrow> (Ok (), st)
           | Some v \<Rightarrow>
               (let st1 = put_db st source_db (bm_remove key source_map)
                in (Ok (), put_db st1 dest_db (bm_insert key v (db_entry st1 dest_db))))))"

definition copy_key ::
  "'i index_ops \<Rightarrow> ('v, 'i) StorageInner \<Rightarrow> u64 \<Rightarrow> bytes \<Rightarrow> bytes \<Rightarrow> bool \<Rightarrow> ('v, 'i, unit) outcome" where
  "copy_key I st db source destination replace =
     (case bm_get (smap st) db of
        None \<Rightarrow> (Ok (), st)
      | Some m \<Rightarrow>
          (if \<not> replace \<and> bm_contains_key m destination then (Ok (), st)
           else case bm_get m source of
                  None \<Rightarrow> (Ok (), st)
                | Some v \<Rightarrow> (Ok (), put_db st db (bm_insert destination (value_clone I v) m))))"

definition clear :: "('v, 'i) StorageInner \<Rightarrow> ('v, 'i) StorageInner" where
  "clear st = st\<lparr>smap := []\<rparr>"

definition flushall :: "('v, 'i) StorageInner \<Rightarrow> ('v, 'i, unit) outcome" where
  "flushall st = (Ok (), st\<lparr>smap := []\<rparr>)"

definition flushdb :: "('v, 'i) StorageInner \<Rightarrow> u64 \<Rightarrow> ('v, 'i, unit) outcome" where
  "flushdb st db = (Ok (), st\<lparr>smap := bm_remove db (smap st)\<rparr>)"

definition swapdb :: "('v, 'i) StorageInner \<Rightarrow> u64 \<Rightarrow> u64 \<Rightarrow> ('v, 'i, unit) outcome" where
  "swapdb st db1 db2 =
     (let content1 = bm_get (smap st) db1;
          m1 = bm_remove db1 (smap st);
          content2 = bm_get m1 db2;
          m2 = bm_remove db2 m1;
          m3 = (case content1 of Some c1 \<Rightarrow> bm_insert db2 c1 m2 | None \<Rightarrow> m2);
          m4 = (case content2 of Some c2 \<Rightarrow> bm_insert db1 c2 m3 | None \<Rightarrow> m3)
      in (Ok (), st\<lparr>smap := m4\<rparr>))"

section \<open>Specifications\<close>

definition spec_set :: "bytes \<Rightarrow> transformer" where
  "spec_set v a = (Ok (), Some (AString v))"

definition spec_del :: transformer where
  "spec_del a = (Ok (), None)"

fun spec_append :: "bytes \<Rightarrow> transformer" where
  "spec_append v None = (Ok (), Some (AString v))"
| "spec_append v (Some (AString b)) = (Ok (), Some (AString (b @ v)))"
| "spec_append v a = (Err WrongType, a)"

text \<open>The string with \<open>v\<close> written at \<open>offset\<close>, zero bytes filling any gap before it.\<close>

definition patched :: "bytes \<Rightarrow> usize \<Rightarrow> bytes \<Rightarrow> bytes" where
  "patched b offset v =
     map (\<lambda>i. if offset \<le> i \<and> i < offset + length v then v ! (i - offset)
              else if i < length b then b ! i else 0)
       [0 ..< max (length b) (offset + length v)]"

fun spec_setrange :: "usize \<Rightarrow> bytes \<Rightarrow> transformer" where
  "spec_setrange offset v None = (Ok (), Some (AString (patched [] offset v)))"
| "spec_setrange offset v (Some (AString b)) = (Ok (), Some (AString (patched b offset v)))"
| "spec_setrange offset v a = (Err WrongType, a)"

text \<open>A counter: a string that holds a decimal 64-bit integer, an absent key counting as 0.\<close>

fun spec_counter :: "rerr \<Rightarrow> int \<Rightarrow> transformer" where
  "spec_counter e d None =
     (if i64_range d then (Ok (), Some (AString (i64_to_string d))) else (Err e, None))"
| "spec_counter e d (Some (AString b)) =
     (case parse_i64 b of
        None \<Rightarrow> (Err NotInteger, Some (AString b))
      | Some n \<Rightarrow> if i64_range (n + d) then (Ok (), Some (AString (i64_to_string (n + d))))
                  else (Err e, Some (AString b)))"
| "spec_counter e d a = (Err WrongType, a)"

lemma length_overwrite:
  "offset + length v \<le> length b \<Longrightarrow> length (overwrite b offset v) = length b"
  by (simp add: overwrite_def)

lemma overwrite_patched: "offset + length v \<le> length b \<Longrightarrow> overwrite b offset v = patched b offset v"
  by (rule nth_equalityI) (auto simp: overwrite_def patched_def nth_append)

lemma patched_resize:
  "length b < offset + length v \<Longrightarrow> patched (resize b (offset + length v)) offset v = patched b offset v"
  by (rule nth_equalityI) (auto simp: resize_def patched_def nth_append)

lemma patched_zeros: "patched (replicate (offset + length v) 0) offset v = patched [] offset v"
  by (rule nth_equalityI) (auto simp: patched_def)

lemma setrange_bytes:
  "overwrite (if offset + length v > length b then resize b (offset + length v) else b) offset v =
     patched b offset v"
proof (cases "offset + length v > length b")
  case True
  then show ?thesis
    using patched_resize [OF True] by (simp add: overwrite_patched resize_def)
qed (simp add: overwrite_patched)

lemmas cmd_simps = lookup_simps btree_simps checked_add_def checked_sub_def checked_neg_def Let_def

interpretation set_cmd: key_command V S I "\<lambda>st. (Ok (), set_cmd st db key v)" db key "spec_set v"
  for V S I db key v
  by (rule key_commandI) (auto simp: set_cmd_def spec_set_def cmd_simps intro!: wf_intros intro: db_ok_get)

interpretation del: key_command V S I "\<lambda>st. (Ok (), del st db key)" db key spec_del
  for V S I db key
  by (rule key_commandI)
    (auto simp: del_def spec_del_def cmd_simps split: option.splits intro!: wf_intros intro: db_ok_get)

interpretation append_cmd: key_command V S I "\<lambda>st. append_cmd st db key v" db key "spec_append v"
  for V S I db key v
  by (rule key_commandI)
    (auto simp: append_cmd_def cmd_simps split: option.splits StorageValue.splits intro!: wf_intros intro: db_ok_get)

lemma key_command_setrange:
  assumes "offset + length v < 2 ^ 64"
  shows "key_command V S I (\<lambda>st. setrange st db key offset v) db key (spec_setrange offset v)"
  using assms
  by (intro key_commandI)
    (auto simp: setrange_def cmd_simps setrange_bytes [simplified] overwrite_patched patched_zeros
      split: option.splits StorageValue.splits intro!: wf_intros intro: db_ok_get)

interpretation incrby: key_command V S I "\<lambda>st. incrby st db key (sint n)" db key
  "spec_counter IncrOverflow (sint n)"
  for V S I db key and n :: u64
  by (rule key_commandI)
    (auto simp: incrby_def cmd_simps split: option.splits StorageValue.splits intro!: wf_intros intro: db_ok_get)

interpretation decrby: key_command V S I "\<lambda>st. decrby st db key (sint n)" db key
  "spec_counter DecrOverflow (- sint n)"
  for V S I db key and n :: u64
  by (rule key_commandI)
    (auto simp: decrby_def cmd_simps split: option.splits StorageValue.splits
      intro!: wf_intros intro: db_ok_get)

lemma i64_to_string_one: "i64_to_string 1 = [49]" "i64_to_string (- 1) = [45, 49]"
  by (simp_all add: i64_to_string_def nat_to_string.simps digit_byte_def)

text \<open>\<open>incr\<close> and \<open>decr\<close> are \<open>incrby\<close> and \<open>decrby\<close> with 1.\<close>

lemma incr_incrby: "incr st db key = incrby st db key 1"
  by (simp add: incr_def incrby_def i64_to_string_one Let_def split: option.split StorageValue.split)

lemma decr_decrby: "decr st db key = decrby st db key 1"
  by (simp add: decr_def decrby_def i64_to_string_one checked_neg_def i64_range_def Let_def
      split: option.split StorageValue.split)

interpretation incr: key_command V S I "\<lambda>st. incr st db key" db key "spec_counter IncrOverflow 1"
  for V S I db key
  using incrby.key_command_axioms [of V S I db key 1] by (simp add: incr_incrby)

interpretation decr: key_command V S I "\<lambda>st. decr st db key" db key "spec_counter DecrOverflow (- 1)"
  for V S I db key
  using decrby.key_command_axioms [of V S I db key 1] by (simp add: decr_decrby)

section \<open>Whole keys and whole databases\<close>

lemma storage_ok_rename: "storage_ok S I st \<Longrightarrow> storage_ok S I (snd (rename st db a b))"
  by (auto simp: rename_def split: option.splits intro!: wf_intros intro: db_ok_get value_ok_get)

lemma storage_ok_renamenx: "storage_ok S I st \<Longrightarrow> storage_ok S I (snd (renamenx st db a b))"
  by (auto simp: renamenx_def split: option.splits intro!: wf_intros intro: db_ok_get value_ok_get)

lemma storage_ok_move_key: "storage_ok S I st \<Longrightarrow> storage_ok S I (snd (move_key st d e k))"
  by (auto simp: move_key_def Let_def split: option.splits intro!: wf_intros intro: db_ok_get value_ok_get)

lemma storage_ok_flushdb: "storage_ok S I st \<Longrightarrow> storage_ok S I (snd (flushdb st db))"
  by (auto simp: flushdb_def storage_ok_def bm_sorted_remove bm_get_remove)

lemma storage_ok_flushall: "storage_ok S I (snd (flushall st))"
  by (simp add: flushall_def storage_ok_def)

lemma storage_ok_clear: "storage_ok S I (clear st)"
  by (simp add: clear_def storage_ok_def)

lemma storage_ok_swapdb: "storage_ok S I st \<Longrightarrow> storage_ok S I (snd (swapdb st d e))"
  by (auto simp: swapdb_def Let_def storage_ok_def bm_sorted_remove bm_get_remove bm_sorted_insert
      bm_get_insert split: option.splits if_splits)

lemma fold_insert_String:
  "fold (\<lambda>(key, v) m. bm_insert key (String v) m) ps m =
     fold (\<lambda>(k, v). bm_insert k v) (map (\<lambda>(k, v). (k, String v)) ps) m"
  by (induction ps arbitrary: m) auto

lemma db_ok_fold_insert:
  "db_ok S I m \<Longrightarrow> \<forall>p \<in> set ps. value_ok S I (snd p) \<Longrightarrow>
     db_ok S I (fold (\<lambda>(k, v). bm_insert k v) ps m)"
  by (induction ps arbitrary: m) (auto simp: db_ok_insert)

lemma storage_ok_mset: "storage_ok S I st \<Longrightarrow> storage_ok S I (mset st db ps)"
  unfolding mset_def fold_insert_String
  by (auto intro!: wf_intros db_ok_fold_insert)

lemma lookup_mset:
  "lookup (mset st db ps) db' k =
     (if db' = db then (case map_of (rev ps) k of Some v \<Rightarrow> Some (String v) | None \<Rightarrow> lookup st db k)
      else lookup st db' k)"
  unfolding mset_def fold_insert_String
  by (simp add: lookup_simps bm.get_fold_ins map_add_def rev_map map_of_map split: option.splits)

lemma lookup_rename:
  "lookup (snd (rename st db a b)) db' k =
     (if db' = db \<and> lookup st db a \<noteq> None
      then (if k = b then lookup st db a else if k = a then None else lookup st db k)
      else lookup st db' k)"
  by (auto simp: rename_def lookup_simps btree_simps split: option.splits)

lemma lookup_renamenx:
  "lookup (snd (renamenx st db a b)) db' k =
     (if db' = db \<and> lookup st db a \<noteq> None \<and> lookup st db b = None
      then (if k = b then lookup st db a else if k = a then None else lookup st db k)
      else lookup st db' k)"
  by (auto simp: renamenx_def lookup_simps btree_simps split: option.splits)

lemma lookup_move_key:
  "lookup (snd (move_key st d e key)) db k =
     (if lookup st d key = None then lookup st db k
      else if db = e \<and> k = key then lookup st d key
      else if db = d \<and> k = key then None
      else lookup st db k)"
  by (auto simp: move_key_def Let_def lookup_simps btree_simps split: option.splits)

lemma lookup_copy_key:
  "lookup (snd (copy_key I st db a b replace)) db' k =
     (case lookup st db a of
        None \<Rightarrow> lookup st db' k
      | Some v \<Rightarrow>
          if db' = db \<and> k = b \<and> (replace \<or> lookup st db b = None) then Some (value_clone I v)
          else lookup st db' k)"
  by (auto simp: copy_key_def lookup_simps btree_simps split: option.splits)

lemma lookup_swapdb:
  "lookup (snd (swapdb st d e)) db k = lookup st (if db = d then e else if db = e then d else db) k"
  by (auto simp: swapdb_def Let_def lookup_def bm_get_insert bm_get_remove split: option.splits)

lemma lookup_flushdb: "lookup (snd (flushdb st d)) db k = (if db = d then None else lookup st db k)"
  by (simp add: flushdb_def lookup_def bm_get_remove)

lemma lookup_flushall: "lookup (snd (flushall st)) db k = None"
  by (simp add: flushall_def lookup_def)

context index_set
begin

lemma storage_ok_copy_key: "storage_ok S I st \<Longrightarrow> storage_ok S I (snd (copy_key I st db a b r))"
  by (auto simp: copy_key_def split: option.splits
      intro!: wf_intros value_ok_clone intro: db_ok_get value_ok_get)

end

lemma get_lookup:
  "get st db key =
     (case lookup st db key of None \<Rightarrow> Ok None | Some (String v) \<Rightarrow> Ok (Some v) | Some _ \<Rightarrow> Err WrongType)"
  by (simp add: get_def lookup_def split: option.splits)

section \<open>The keyspace after a command on several keys\<close>

text \<open>The commands on whole keys and databases always succeed.\<close>

lemma whole_key_results [simp]:
  "fst (rename st db a b) = Ok ()" "fst (renamenx st db a b) = Ok ()" "fst (move_key st d e k) = Ok ()"
  "fst (copy_key I st db a b r) = Ok ()" "fst (swapdb st d e) = Ok ()" "fst (flushdb st db) = Ok ()"
  "fst (flushall st) = Ok ()"
  by (simp_all add: rename_def renamenx_def move_key_def copy_key_def swapdb_def flushdb_def
      flushall_def Let_def split: option.splits)

definition spec_mset :: "u64 \<Rightarrow> (bytes \<times> bytes) list \<Rightarrow> ks_transformer" where
  "spec_mset db ps K =
     (Ok (), fold (\<lambda>(k, v) K. ks_update db k (Some (AString v)) K) ps K)"

definition spec_rename :: "u64 \<Rightarrow> bytes \<Rightarrow> bytes \<Rightarrow> ks_transformer" where
  "spec_rename db a b K =
     (Ok (), if K db a = None then K else ks_update db b (K db a) (ks_update db a None K))"

definition spec_renamenx :: "u64 \<Rightarrow> bytes \<Rightarrow> bytes \<Rightarrow> ks_transformer" where
  "spec_renamenx db a b K = (if K db b = None then spec_rename db a b K else (Ok (), K))"

definition spec_move :: "u64 \<Rightarrow> u64 \<Rightarrow> bytes \<Rightarrow> ks_transformer" where
  "spec_move d e k K =
     (Ok (), if K d k = None then K else ks_update e k (K d k) (ks_update d k None K))"

definition spec_copy :: "u64 \<Rightarrow> bytes \<Rightarrow> bytes \<Rightarrow> bool \<Rightarrow> ks_transformer" where
  "spec_copy db a b replace K =
     (Ok (), if K db a \<noteq> None \<and> (replace \<or> K db b = None) then ks_update db b (K db a) K else K)"

definition spec_swapdb :: "u64 \<Rightarrow> u64 \<Rightarrow> ks_transformer" where
  "spec_swapdb d e K = (Ok (), K(d := K e, e := K d))"

definition spec_flushdb :: "u64 \<Rightarrow> ks_transformer" where
  "spec_flushdb db K = (Ok (), K(db := Map.empty))"

definition spec_flushall :: ks_transformer where
  "spec_flushall K = (Ok (), \<lambda>_. Map.empty)"

lemma abs_lookup: "map_option (abs_value V) (lookup st db k) = abs_storage V st db k"
  by (simp add: abs_storage_def)

lemma abs_storage_None: "abs_storage V st db k = None \<longleftrightarrow> lookup st db k = None"
  by (simp add: abs_storage_def)

lemma spec_mset_result [simp]: "fst (spec_mset db ps K) = Ok ()"
  by (simp add: spec_mset_def)

lemma spec_mset_apply:
  "snd (spec_mset db ps K) db' k =
     (if db' = db then (case map_of (rev ps) k of Some v \<Rightarrow> Some (AString v) | None \<Rightarrow> K db k) else K db' k)"
proof -
  have "fold (\<lambda>(k, v) K. ks_update db k (Some (AString v)) K) ps K db' k =
    (if db' = db then (case map_of (rev ps) k of Some v \<Rightarrow> Some (AString v) | None \<Rightarrow> K db k) else K db' k)"
    by (induction ps arbitrary: K) (auto simp: ks_update_apply map_add_def split: option.splits)
  then show ?thesis by (simp add: spec_mset_def)
qed

interpretation mset: keyspace_command V S I "\<lambda>st. (Ok (), mset st db ps)" "spec_mset db ps"
  for V S I db ps
  by (rule keyspace_commandI)
    (auto simp: storage_ok_mset lookup_mset spec_mset_apply abs_lookup split: option.splits)

interpretation rename: keyspace_command V S I "\<lambda>st. rename st db a b" "spec_rename db a b"
  for V S I db a b
  by (rule keyspace_commandI)
    (auto simp: storage_ok_rename lookup_rename spec_rename_def abs_lookup ks_update_apply
      abs_storage_None)

interpretation renamenx: keyspace_command V S I "\<lambda>st. renamenx st db a b" "spec_renamenx db a b"
  for V S I db a b
  by (rule keyspace_commandI)
    (auto simp: storage_ok_renamenx lookup_renamenx spec_renamenx_def spec_rename_def abs_lookup
      ks_update_apply abs_storage_None)

interpretation move_key: keyspace_command V S I "\<lambda>st. move_key st d e k" "spec_move d e k"
  for V S I d e k
  by (rule keyspace_commandI)
    (auto simp: storage_ok_move_key lookup_move_key spec_move_def abs_lookup ks_update_apply
      abs_storage_None)

interpretation swapdb: keyspace_command V S I "\<lambda>st. swapdb st d e" "spec_swapdb d e"
  for V S I d e
  by (rule keyspace_commandI)
    (auto simp: storage_ok_swapdb lookup_swapdb spec_swapdb_def abs_lookup)

interpretation flushdb: keyspace_command V S I "\<lambda>st. flushdb st db" "spec_flushdb db"
  for V S I db
  by (rule keyspace_commandI)
    (auto simp: storage_ok_flushdb lookup_flushdb spec_flushdb_def abs_lookup)

interpretation flushall: keyspace_command V S I flushall spec_flushall
  for V S I
  by (rule keyspace_commandI)
    (auto simp: storage_ok_flushall lookup_flushall spec_flushall_def abs_lookup)

context index_set
begin

lemma copy_key_refines:
  fixes V :: "'v vec_ops"
  shows "keyspace_command V S I (\<lambda>st. copy_key I st db a b r) (spec_copy db a b r)"
proof (rule keyspace_commandI)
  fix st :: "('v, 'i) StorageInner" and db' k
  assume st: "storage_ok S I st"
  show "map_option (abs_value V) (lookup (snd (copy_key I st db a b r)) db' k) =
      snd (spec_copy db a b r (abs_storage V st)) db' k"
    using st
    by (auto simp: lookup_copy_key spec_copy_def abs_storage_def ks_update_apply
        abs_value_clone [OF value_ok_lookup] split: option.splits)
qed (auto simp: storage_ok_copy_key spec_copy_def)

end

section \<open>Properties\<close>

text \<open>
  C36. A counter that holds the decimal text of \<open>n\<close> is changed by exactly the increment, and the text of the
  new number is stored; when the sum does not fit 64 bits the command fails and the counter keeps its value.
\<close>

theorem counters_exact:
  assumes "get st db key = Ok (Some (i64_to_string n))" "i64_range n" "i64_range d"
  shows "fst (incrby st db key d) = (if i64_range (n + d) then Ok () else Err IncrOverflow) \<and>
    get (snd (incrby st db key d)) db key = Ok (Some (i64_to_string (if i64_range (n + d) then n + d else n))) \<and>
    fst (decrby st db key d) = (if i64_range (n - d) then Ok () else Err DecrOverflow) \<and>
    get (snd (decrby st db key d)) db key = Ok (Some (i64_to_string (if i64_range (n - d) then n - d else n)))"
  using assms
  by (auto simp: get_lookup incrby_def decrby_def cmd_simps parse_i64_to_string
      split: option.splits StorageValue.splits if_splits)

lemma sample_counter: "get sample 0 [110] = Ok (Some (i64_to_string 5))" "i64_range 5" "i64_range (2 ^ 63 - 1)"
  "\<not> i64_range (5 + (2 ^ 63 - 1))"
  by (simp_all add: get_def i64_range_def i64_to_string_def nat_to_string.simps digit_byte_def)

theorem counters_exact_witness:
  "fst (incrby sample 0 [110] (2 ^ 63 - 1)) = Err IncrOverflow \<and>
   get (snd (incrby sample 0 [110] (2 ^ 63 - 1))) 0 [110] = Ok (Some (i64_to_string 5))"
  using counters_exact [OF sample_counter(1-3)] sample_counter(4) by (simp only: if_False)



text \<open>
  Swapping two databases twice changes nothing, for any two databases, present or not, equal or not.
\<close>

lemma swapdb_involution:
  "lookup (snd (swapdb (snd (swapdb st d e)) d e)) db key = lookup st db key"
  by (simp add: lookup_swapdb)

end
