(* ===== verification/Hashes.thy ===== *)
theory Hashes
  imports Strings
begin

text \<open>
  storage/hashes.rs: the hash commands. A writer that creates the hash when the key is absent checks the
  type first, then gets or creates the hash (\<open>hash_entry\<close>: \<open>None\<close> for a key of another type).
  \<open>hrandfield\<close> takes the functions of the \<open>rand\<close> crate as an argument.
\<close>

fun hash_entry :: "('v, 'i) StorageValue option \<Rightarrow> (bytes, bytes) btree_map option" where
  "hash_entry None = Some bm_new"
| "hash_entry (Some (Hash h)) = Some h"
| "hash_entry (Some _) = None"

section \<open>Writers\<close>

definition hset ::
  "('v, 'i) StorageInner \<Rightarrow> u64 \<Rightarrow> bytes \<Rightarrow> bytes \<Rightarrow> bytes \<Rightarrow> ('v, 'i, unit) outcome" where
  "hset st db key field v =
     (let m = db_entry st db
      in case hash_entry (bm_get m key) of
           None \<Rightarrow> (Err WrongType, put_db st db m)
         | Some hash \<Rightarrow> (Ok (), put_db st db (bm_insert key (Hash (bm_insert field v hash)) m)))"

definition hmset ::
  "('v, 'i) StorageInner \<Rightarrow> u64 \<Rightarrow> bytes \<Rightarrow> (bytes \<times> bytes) list \<Rightarrow> ('v, 'i, unit) outcome" where
  "hmset st db key fs =
     (let m = db_entry st db
      in case hash_entry (bm_get m key) of
           None \<Rightarrow> (Err WrongType, put_db st db m)
         | Some hash \<Rightarrow>
             (Ok (), put_db st db
                (bm_insert key (Hash (fold (\<lambda>(field, v). bm_insert field v) fs hash)) m)))"

definition hdel ::
  "('v, 'i) StorageInner \<Rightarrow> u64 \<Rightarrow> bytes \<Rightarrow> bytes list \<Rightarrow> ('v, 'i, unit) outcome" where
  "hdel st db key fs =
     (case bm_get (smap st) db of
        None \<Rightarrow> (Ok (), st)
      | Some m \<Rightarrow>
          (case bm_get m key of
             None \<Rightarrow> (Ok (), st)
           | Some (Hash h) \<Rightarrow>
               (let hash = fold bm_remove fs h
                in (Ok (), put_db st db
                      (if hash = [] then bm_remove key m else bm_insert key (Hash hash) m)))
           | Some _ \<Rightarrow> (Err WrongType, st)))"

definition hsetnx ::
  "('v, 'i) StorageInner \<Rightarrow> u64 \<Rightarrow> bytes \<Rightarrow> bytes \<Rightarrow> bytes \<Rightarrow> ('v, 'i, unit) outcome" where
  "hsetnx st db key field v =
     (let m = db_entry st db
      in case hash_entry (bm_get m key) of
           None \<Rightarrow> (Err WrongType, put_db st db m)
         | Some hash \<Rightarrow>
             (Ok (), put_db st db
                (bm_insert key
                   (Hash (if \<not> bm_contains_key hash field then bm_insert field v hash else hash)) m)))"

definition hincrby ::
  "('v, 'i) StorageInner \<Rightarrow> u64 \<Rightarrow> bytes \<Rightarrow> bytes \<Rightarrow> i64 \<Rightarrow> ('v, 'i, unit) outcome" where
  "hincrby st db key field delta =
     (let m = db_entry st db
      in case hash_entry (bm_get m key) of
           None \<Rightarrow> (Err WrongType, put_db st db m)
         | Some hash \<Rightarrow>
             (case (case bm_get hash field of Some b \<Rightarrow> parse_i64 b | None \<Rightarrow> Some 0) of
                None \<Rightarrow> (Err HashNotInteger, put_db st db (bm_insert key (Hash hash) m))
              | Some current \<Rightarrow>
                  (case checked_add current delta of
                     None \<Rightarrow> (Err HashNotInteger, put_db st db (bm_insert key (Hash hash) m))
                   | Some n \<Rightarrow>
                       (Ok (), put_db st db
                          (bm_insert key (Hash (bm_insert field (i64_to_string n) hash)) m)))))"

definition hincrbyfloat ::
  "('v, 'i) StorageInner \<Rightarrow> u64 \<Rightarrow> bytes \<Rightarrow> bytes \<Rightarrow> f64 \<Rightarrow> ('v, 'i, unit) outcome" where
  "hincrbyfloat st db key field delta =
     (let m = db_entry st db
      in case hash_entry (bm_get m key) of
           None \<Rightarrow> (Err WrongType, put_db st db m)
         | Some hash \<Rightarrow>
             (case (case bm_get hash field of Some b \<Rightarrow> parse_f64 b | None \<Rightarrow> Some f64_zero) of
                None \<Rightarrow> (Err HashNotFloat, put_db st db (bm_insert key (Hash hash) m))
              | Some current_value \<Rightarrow>
                  (Ok (), put_db st db
                     (bm_insert key (Hash (bm_insert field (f64_to_string (f64_add current_value delta)) hash)) m))))"

definition hsetex ::
  "('v, 'i) StorageInner \<Rightarrow> u64 \<Rightarrow> bytes \<Rightarrow> HSetEXMode option \<Rightarrow> (bytes \<times> bytes) list \<Rightarrow>
     ('v, 'i, unit) outcome" where
  "hsetex st db key mode fs =
     (let m = db_entry st db
      in case hash_entry (bm_get m key) of
           None \<Rightarrow> (Err WrongType, put_db st db m)
         | Some hash \<Rightarrow>
             (let set_all = fold (\<lambda>(field, v). bm_insert field v) fs hash;
                  hash' = (case mode of
                      None \<Rightarrow> set_all
                    | Some FNX \<Rightarrow>
                        if list_all (\<lambda>(field, _). \<not> bm_contains_key hash field) fs
                        then set_all else hash
                    | Some FXX \<Rightarrow>
                        if list_all (\<lambda>(field, _). bm_contains_key hash field) fs
                        then set_all else hash)
              in (Ok (), put_db st db (bm_insert key (Hash hash') m))))"

section \<open>Readers\<close>

definition hget ::
  "('v, 'i) StorageInner \<Rightarrow> u64 \<Rightarrow> bytes \<Rightarrow> bytes \<Rightarrow> bytes option result" where
  "hget st db key field =
     (case bm_get (smap st) db of
        None \<Rightarrow> Ok None
      | Some m \<Rightarrow>
          (case bm_get m key of
             None \<Rightarrow> Ok None
           | Some (Hash hash) \<Rightarrow> Ok (bm_get hash field)
           | Some _ \<Rightarrow> Err WrongType))"

definition hmget ::
  "('v, 'i) StorageInner \<Rightarrow> u64 \<Rightarrow> bytes \<Rightarrow> bytes list \<Rightarrow> bytes option list result" where
  "hmget st db key fs =
     (case bm_get (smap st) db of
        None \<Rightarrow> Ok (replicate (length fs) None)
      | Some m \<Rightarrow>
          (case bm_get m key of
             None \<Rightarrow> Ok (replicate (length fs) None)
           | Some (Hash hash) \<Rightarrow> Ok (map (bm_get hash) fs)
           | Some _ \<Rightarrow> Err WrongType))"

definition hgetall :: "('v, 'i) StorageInner \<Rightarrow> u64 \<Rightarrow> bytes \<Rightarrow> (bytes \<times> bytes) list result" where
  "hgetall st db key =
     (case bm_get (smap st) db of
        None \<Rightarrow> Ok []
      | Some m \<Rightarrow>
          (case bm_get m key of
             None \<Rightarrow> Ok []
           | Some (Hash hash) \<Rightarrow> Ok hash
           | Some _ \<Rightarrow> Err WrongType))"

definition hkeys :: "('v, 'i) StorageInner \<Rightarrow> u64 \<Rightarrow> bytes \<Rightarrow> bytes list result" where
  "hkeys st db key =
     (case bm_get (smap st) db of
        None \<Rightarrow> Ok []
      | Some m \<Rightarrow>
          (case bm_get m key of
             None \<Rightarrow> Ok []
           | Some (Hash hash) \<Rightarrow> Ok (bm_keys hash)
           | Some _ \<Rightarrow> Err WrongType))"

definition hvals :: "('v, 'i) StorageInner \<Rightarrow> u64 \<Rightarrow> bytes \<Rightarrow> bytes list result" where
  "hvals st db key =
     (case bm_get (smap st) db of
        None \<Rightarrow> Ok []
      | Some m \<Rightarrow>
          (case bm_get m key of
             None \<Rightarrow> Ok []
           | Some (Hash hash) \<Rightarrow> Ok (bm_values hash)
           | Some _ \<Rightarrow> Err WrongType))"

definition hlen :: "('v, 'i) StorageInner \<Rightarrow> u64 \<Rightarrow> bytes \<Rightarrow> usize result" where
  "hlen st db key =
     (case bm_get (smap st) db of
        None \<Rightarrow> Ok 0
      | Some m \<Rightarrow>
          (case bm_get m key of
             None \<Rightarrow> Ok 0
           | Some (Hash hash) \<Rightarrow> Ok (length hash)
           | Some _ \<Rightarrow> Err WrongType))"

definition hexists :: "('v, 'i) StorageInner \<Rightarrow> u64 \<Rightarrow> bytes \<Rightarrow> bytes \<Rightarrow> bool result" where
  "hexists st db key field =
     (case bm_get (smap st) db of
        None \<Rightarrow> Ok False
      | Some m \<Rightarrow>
          (case bm_get m key of
             None \<Rightarrow> Ok False
           | Some (Hash hash) \<Rightarrow> Ok (bm_contains_key hash field)
           | Some _ \<Rightarrow> Err WrongType))"

definition hstrlen :: "('v, 'i) StorageInner \<Rightarrow> u64 \<Rightarrow> bytes \<Rightarrow> bytes \<Rightarrow> usize result" where
  "hstrlen st db key field =
     (case bm_get (smap st) db of
        None \<Rightarrow> Ok 0
      | Some m \<Rightarrow>
          (case bm_get m key of
             None \<Rightarrow> Ok 0
           | Some (Hash hash) \<Rightarrow> Ok (case bm_get hash field of Some v \<Rightarrow> length v | None \<Rightarrow> 0)
           | Some _ \<Rightarrow> Err WrongType))"

definition hfirst ::
  "('v, 'i) StorageInner \<Rightarrow> u64 \<Rightarrow> bytes \<Rightarrow> usize \<Rightarrow> (bytes \<times> bytes) list result" where
  "hfirst st db key count =
     (if count = 0 then Ok []
      else case bm_get (smap st) db of
             None \<Rightarrow> Ok []
           | Some m \<Rightarrow>
               (case bm_get m key of
                  None \<Rightarrow> Ok []
                | Some (Hash hash) \<Rightarrow> Ok (take count hash)
                | Some _ \<Rightarrow> Err WrongType))"

definition hlast ::
  "('v, 'i) StorageInner \<Rightarrow> u64 \<Rightarrow> bytes \<Rightarrow> usize \<Rightarrow> (bytes \<times> bytes) list result" where
  "hlast st db key count =
     (if count = 0 then Ok []
      else case bm_get (smap st) db of
             None \<Rightarrow> Ok []
           | Some m \<Rightarrow>
               (case bm_get m key of
                  None \<Rightarrow> Ok []
                | Some (Hash hash) \<Rightarrow> Ok (take count (rev hash))
                | Some _ \<Rightarrow> Err WrongType))"

definition hnext ::
  "('v, 'i) StorageInner \<Rightarrow> u64 \<Rightarrow> bytes \<Rightarrow> bytes \<Rightarrow> usize \<Rightarrow> (bytes \<times> bytes) list result" where
  "hnext st db key field count =
     (if count = 0 then Ok []
      else case bm_get (smap st) db of
             None \<Rightarrow> Ok []
           | Some m \<Rightarrow>
               (case bm_get m key of
                  None \<Rightarrow> Ok []
                | Some (Hash hash) \<Rightarrow> Ok (take count (bm_after field hash))
                | Some _ \<Rightarrow> Err WrongType))"

definition hprev ::
  "('v, 'i) StorageInner \<Rightarrow> u64 \<Rightarrow> bytes \<Rightarrow> bytes \<Rightarrow> usize \<Rightarrow> (bytes \<times> bytes) list result" where
  "hprev st db key field count =
     (if count = 0 then Ok []
      else case bm_get (smap st) db of
             None \<Rightarrow> Ok []
           | Some m \<Rightarrow>
               (case bm_get m key of
                  None \<Rightarrow> Ok []
                | Some (Hash hash) \<Rightarrow> Ok (take count (rev (bm_before field hash)))
                | Some _ \<Rightarrow> Err WrongType))"

definition hrandfield ::
  "(bytes \<times> bytes) rand_ops \<Rightarrow> ('v, 'i) StorageInner \<Rightarrow> u64 \<Rightarrow> bytes \<Rightarrow> i64 \<Rightarrow> bool \<Rightarrow>
     (bytes \<times> bytes option) list result" where
  "hrandfield R st db key count with_values =
     (let pick = (\<lambda>(field, v). (field, if with_values then Some v else None))
      in case bm_get (smap st) db of
           None \<Rightarrow> Ok []
         | Some m \<Rightarrow>
             (case bm_get m key of
                None \<Rightarrow> Ok []
              | Some (Hash hash) \<Rightarrow>
                  (if hash = [] then Ok []
                   else if count = 1
                   then (case rand_choose R 0 hash of Some fv \<Rightarrow> Ok [pick fv] | None \<Rightarrow> Ok [])
                   else if count > 1
                   then Ok (map pick (rand_sample R (min (nat count) (length hash)) hash))
                   else if count < 0
                   then Ok (map pick (List.map_filter (\<lambda>i. rand_choose R i hash) [0 ..< nat (- count)]))
                   else Ok [])
              | Some _ \<Rightarrow> Err WrongType))"

section \<open>Specifications\<close>

text \<open>A writer that creates the hash when the key is absent.\<close>

fun spec_hash :: "((bytes \<rightharpoonup> bytes) \<Rightarrow> unit result \<times> (bytes \<rightharpoonup> bytes)) \<Rightarrow> transformer" where
  "spec_hash f None = (case f Map.empty of (r, h) \<Rightarrow> (r, Some (AHash h)))"
| "spec_hash f (Some (AHash h)) = (case f h of (r, h') \<Rightarrow> (r, Some (AHash h')))"
| "spec_hash f a = (Err WrongType, a)"

definition spec_hset :: "bytes \<Rightarrow> bytes \<Rightarrow> transformer" where
  "spec_hset field v = spec_hash (\<lambda>h. (Ok (), h(field \<mapsto> v)))"

definition spec_hmset :: "(bytes \<times> bytes) list \<Rightarrow> transformer" where
  "spec_hmset fvs = spec_hash (\<lambda>h. (Ok (), h ++ map_of (rev fvs)))"

definition spec_hsetnx :: "bytes \<Rightarrow> bytes \<Rightarrow> transformer" where
  "spec_hsetnx field v = spec_hash (\<lambda>h. (Ok (), if field \<in> dom h then h else h(field \<mapsto> v)))"

definition spec_hincrby :: "bytes \<Rightarrow> int \<Rightarrow> transformer" where
  "spec_hincrby field d = spec_hash (\<lambda>h.
     case (case h field of None \<Rightarrow> Some 0 | Some b \<Rightarrow> parse_i64 b) of
       None \<Rightarrow> (Err HashNotInteger, h)
     | Some n \<Rightarrow> if i64_range (n + d) then (Ok (), h(field \<mapsto> i64_to_string (n + d)))
                 else (Err HashNotInteger, h))"

definition spec_hincrbyfloat :: "bytes \<Rightarrow> f64 \<Rightarrow> transformer" where
  "spec_hincrbyfloat field d = spec_hash (\<lambda>h.
     case (case h field of None \<Rightarrow> Some f64_zero | Some b \<Rightarrow> parse_f64 b) of
       None \<Rightarrow> (Err HashNotFloat, h)
     | Some x \<Rightarrow> (Ok (), h(field \<mapsto> f64_to_string (f64_add x d))))"

definition hsetex_applies :: "HSetEXMode option \<Rightarrow> bytes set \<Rightarrow> (bytes \<rightharpoonup> bytes) \<Rightarrow> bool" where
  "hsetex_applies mode fs h \<longleftrightarrow>
     (case mode of None \<Rightarrow> True | Some FNX \<Rightarrow> fs \<inter> dom h = {} | Some FXX \<Rightarrow> fs \<subseteq> dom h)"

definition spec_hsetex :: "HSetEXMode option \<Rightarrow> (bytes \<times> bytes) list \<Rightarrow> transformer" where
  "spec_hsetex mode fvs = spec_hash (\<lambda>h.
     (Ok (), if hsetex_applies mode (fst ` set fvs) h then h ++ map_of (rev fvs) else h))"

text \<open>A hash that loses its last field is deleted.\<close>

fun spec_hdel :: "bytes list \<Rightarrow> transformer" where
  "spec_hdel fs None = (Ok (), None)"
| "spec_hdel fs (Some (AHash h)) =
     (Ok (), if dom h \<subseteq> set fs then None else Some (AHash (h |` (- set fs))))"
| "spec_hdel fs a = (Err WrongType, a)"

lemma hash_entry_None: "hash_entry a = None \<longleftrightarrow> (\<exists>v. a = Some v \<and> (\<forall>h. v \<noteq> Hash h))"
  by (cases a rule: hash_entry.cases) auto

text \<open>
  One argument for every writer of this shape: it finds or creates the hash, runs \<open>g\<close> on it and stores
  what \<open>g\<close> returns.
\<close>

definition hash_writer ::
  "((bytes, bytes) btree_map \<Rightarrow> unit result \<times> (bytes, bytes) btree_map) \<Rightarrow> u64 \<Rightarrow> bytes \<Rightarrow>
     ('v, 'i) StorageInner \<Rightarrow> ('v, 'i, unit) outcome" where
  "hash_writer g db key st =
     (let m = db_entry st db
      in case hash_entry (bm_get m key) of
           None \<Rightarrow> (Err WrongType, put_db st db m)
         | Some hash \<Rightarrow> (case g hash of (r, hash') \<Rightarrow> (r, put_db st db (bm_insert key (Hash hash') m))))"

lemma key_command_hash_writer:
  fixes V :: "'v vec_ops" and I :: "'i index_ops"
  assumes sorted: "\<And>h. bm_sorted h \<Longrightarrow> bm_sorted (snd (g h))"
    and result: "\<And>h. bm_sorted h \<Longrightarrow> fst (g h) = fst (f (bm_get h))"
    and hash: "\<And>h. bm_sorted h \<Longrightarrow> bm_get (snd (g h)) = snd (f (bm_get h))"
  shows "key_command V S I (hash_writer g db key) db key (spec_hash f)"
proof (rule key_commandI)
  fix st :: "('v, 'i) StorageInner"
  assume st: "storage_ok S I st"
  have e: "\<And>h. hash_entry (lookup st db key) = Some h \<Longrightarrow> bm_sorted h"
    using st by (cases "lookup st db key" rule: hash_entry.cases) (auto dest: value_ok_lookup)
  show "storage_ok S I (snd (hash_writer g db key st))"
    using st e sorted
    by (force simp: hash_writer_def Let_def lookup_simps split: option.splits prod.splits
        intro!: wf_intros)
  show "fst (hash_writer g db key st) = fst (spec_hash f (map_option (abs_value V) (lookup st db key)))"
    using e result result [of "[]"]
    by (cases "lookup st db key" rule: hash_entry.cases)
      (simp_all add: hash_writer_def Let_def lookup_simps case_prod_beta)
  show "map_option (abs_value V) (lookup (snd (hash_writer g db key st)) db key) =
      snd (spec_hash f (map_option (abs_value V) (lookup st db key)))"
    using e hash hash [of "[]"]
    by (cases "lookup st db key" rule: hash_entry.cases)
      (simp_all add: hash_writer_def Let_def lookup_simps btree_simps case_prod_beta)
  show "lookup (snd (hash_writer g db key st)) db' k = lookup st db' k" if "(db', k) \<noteq> (db, key)" for db' k
    using that
    by (auto simp: hash_writer_def Let_def lookup_simps btree_simps split: option.splits prod.splits)
qed

lemma hash_commandI:
  assumes "\<And>st. cmd st = hash_writer g db key st"
    and "\<And>h. bm_sorted h \<Longrightarrow> bm_sorted (snd (g h))"
    and "\<And>h. bm_sorted h \<Longrightarrow> fst (g h) = fst (f (bm_get h))"
    and "\<And>h. bm_sorted h \<Longrightarrow> bm_get (snd (g h)) = snd (f (bm_get h))"
  shows "key_command V S I cmd db key (spec_hash f)"
proof -
  have "cmd = hash_writer g db key" using assms(1) by (rule ext)
  then show ?thesis using key_command_hash_writer assms(2-4) by metis
qed

interpretation hset: key_command V S I "\<lambda>st. hset st db key field v" db key "spec_hset field v"
  for V S I db key field v
  unfolding spec_hset_def
  by (rule hash_commandI [where g = "\<lambda>h. (Ok (), bm_insert field v h)"])
    (simp_all add: hset_def hash_writer_def btree_simps bm_sorted_insert Let_def split: option.split)

interpretation hmset: key_command V S I "\<lambda>st. hmset st db key fvs" db key "spec_hmset fvs"
  for V S I db key fvs
  unfolding spec_hmset_def
  by (rule hash_commandI [where g = "\<lambda>h. (Ok (), fold (\<lambda>(field, v). bm_insert field v) fvs h)"])
    (simp_all add: hmset_def hash_writer_def btree_simps bm.ok_fold_ins Let_def split: option.split)

interpretation hsetnx: key_command V S I "\<lambda>st. hsetnx st db key field v" db key "spec_hsetnx field v"
  for V S I db key field v
  unfolding spec_hsetnx_def
  by (rule hash_commandI
      [where g = "\<lambda>h. (Ok (), if \<not> bm_contains_key h field then bm_insert field v h else h)"])
    (auto simp: hsetnx_def hash_writer_def btree_simps bm_sorted_insert Let_def dom_def
      split: option.split)

interpretation hincrby: key_command V S I "\<lambda>st. hincrby st db key field (sint n)" db key
  "spec_hincrby field (sint n)"
  for V S I db key field and n :: u64
  unfolding spec_hincrby_def
  by (rule hash_commandI [where g = "\<lambda>h.
      case (case bm_get h field of Some b \<Rightarrow> parse_i64 b | None \<Rightarrow> Some 0) of
        None \<Rightarrow> (Err HashNotInteger, h)
      | Some current \<Rightarrow> (case checked_add current (sint n) of
          None \<Rightarrow> (Err HashNotInteger, h)
        | Some k \<Rightarrow> (Ok (), bm_insert field (i64_to_string k) h))"])
    (auto simp: hincrby_def hash_writer_def btree_simps bm_sorted_insert Let_def checked_add_def
      split: option.split)

interpretation hincrbyfloat: key_command V S I "\<lambda>st. hincrbyfloat st db key field d" db key
  "spec_hincrbyfloat field d"
  for V S I db key field d
  unfolding spec_hincrbyfloat_def
  by (rule hash_commandI [where g = "\<lambda>h.
      case (case bm_get h field of Some b \<Rightarrow> parse_f64 b | None \<Rightarrow> Some f64_zero) of
        None \<Rightarrow> (Err HashNotFloat, h)
      | Some x \<Rightarrow> (Ok (), bm_insert field (f64_to_string (f64_add x d)) h)"])
    (auto simp: hincrbyfloat_def hash_writer_def btree_simps bm_sorted_insert Let_def split: option.split)

lemma hsetex_applies_list:
  "hsetex_applies None (fst ` set fvs) (bm_get h)"
  "hsetex_applies (Some FNX) (fst ` set fvs) (bm_get h) \<longleftrightarrow>
     list_all (\<lambda>(field, _). \<not> bm_contains_key h field) fvs"
  "hsetex_applies (Some FXX) (fst ` set fvs) (bm_get h) \<longleftrightarrow>
     list_all (\<lambda>(field, _). bm_contains_key h field) fvs"
  by (force simp: hsetex_applies_def list_all_iff bm_contains_key_def dom_def)+

interpretation hsetex: key_command V S I "\<lambda>st. hsetex st db key mode fvs" db key "spec_hsetex mode fvs"
  for V S I db key mode fvs
  unfolding spec_hsetex_def
  by (rule hash_commandI [where g = "\<lambda>h. (Ok (), if hsetex_applies mode (fst ` set fvs) (bm_get h)
      then fold (\<lambda>(field, v). bm_insert field v) fvs h else h)"])
    (auto simp: hsetex_def hash_writer_def Let_def hsetex_applies_list btree_simps bm.ok_fold_ins
        split: option.splits HSetEXMode.splits)

lemma fold_bm_remove_Nil:
  "bm_sorted h \<Longrightarrow> fold bm_remove fs h = [] \<longleftrightarrow> dom (bm_get h) \<subseteq> set fs"
  by (subst bm.entries_empty_iff [OF bm.ok_fold_rem])
    (auto simp: bm.get_fold_rem restrict_map_def fun_eq_iff dom_def)

interpretation hdel: key_command V S I "\<lambda>st. hdel st db key fs" db key "spec_hdel fs"
  for V :: "'v vec_ops" and S and I :: "'i index_ops" and db key fs
proof (rule key_commandI)
  fix st :: "('v, 'i) StorageInner"
  assume st: "storage_ok S I st"
  have h: "bm_sorted h" if "lookup st db key = Some (Hash h)" for h
    using value_ok_lookup [OF st that] by simp
  show "storage_ok S I (snd (hdel st db key fs))"
    using st h by (auto simp: hdel_def Let_def lookup_simps split: option.splits StorageValue.splits
        intro!: wf_intros intro: db_ok_get bm.ok_fold_rem)
  show "fst (hdel st db key fs) = fst (spec_hdel fs (map_option (abs_value V) (lookup st db key)))"
    by (auto simp: hdel_def Let_def lookup_simps split: option.splits StorageValue.splits)
  show "map_option (abs_value V) (lookup (snd (hdel st db key fs)) db key) =
      snd (spec_hdel fs (map_option (abs_value V) (lookup st db key)))"
    using h by (auto simp: hdel_def Let_def lookup_simps btree_simps fold_bm_remove_Nil
        split: option.splits StorageValue.splits)
  show "lookup (snd (hdel st db key fs)) db' k = lookup st db' k" if "(db', k) \<noteq> (db, key)" for db' k
    using that by (auto simp: hdel_def Let_def lookup_simps btree_simps
        split: option.splits StorageValue.splits)
qed

section \<open>What readers return\<close>

text \<open>\<open>hgetall\<close> lists the hash in field order; the other readers are functions of that listing.\<close>

lemma hgetall_lookup:
  "hgetall st db key =
     (case lookup st db key of None \<Rightarrow> Ok [] | Some (Hash h) \<Rightarrow> Ok h | Some _ \<Rightarrow> Err WrongType)"
  by (simp add: hgetall_def lookup_def split: option.splits)

lemma hget_listing: "hget st db key field = map_sum id (\<lambda>ps. map_of ps field) (hgetall st db key)"
  by (simp add: hgetall_def hget_def bm_get_def split: option.split StorageValue.split)

lemma hmget_listing: "hmget st db key fs = map_sum id (\<lambda>ps. map (map_of ps) fs) (hgetall st db key)"
  by (simp add: hgetall_def hmget_def bm_get_def map_replicate_const split: option.split StorageValue.split)

lemma hkeys_listing: "hkeys st db key = map_sum id (map fst) (hgetall st db key)"
  by (simp add: hgetall_def hkeys_def bm_keys_def split: option.split StorageValue.split)

lemma hvals_listing: "hvals st db key = map_sum id (map snd) (hgetall st db key)"
  by (simp add: hgetall_def hvals_def bm_values_def split: option.split StorageValue.split)

lemma hlen_listing: "hlen st db key = map_sum id length (hgetall st db key)"
  by (simp add: hgetall_def hlen_def split: option.split StorageValue.split)

lemma hexists_listing:
  "hexists st db key field = map_sum id (\<lambda>ps. map_of ps field \<noteq> None) (hgetall st db key)"
  by (simp add: hgetall_def hexists_def bm_contains_key_def bm_get_def
      split: option.split StorageValue.split)

lemma hstrlen_listing:
  "hstrlen st db key field =
     map_sum id (\<lambda>ps. case map_of ps field of None \<Rightarrow> 0 | Some v \<Rightarrow> length v) (hgetall st db key)"
  by (auto simp: hgetall_def hstrlen_def bm_get_def split: option.split StorageValue.split)

interpretation hash_cursor: ordered_cursor "storage_ok S I" "\<lambda>st. listing (hgetall st db key)" fst
  "\<lambda>st n. listing (hfirst st db key n)" "\<lambda>st n. listing (hlast st db key n)"
  "\<lambda>st f n. listing (hnext st db key f n)" "\<lambda>st f n. listing (hprev st db key f n)"
  for S :: score_ops and I :: "'i index_ops" and db :: u64 and key :: bytes
proof
  fix st :: "('v, 'i) StorageInner"
  assume "storage_ok S I st"
  then show "sorted_wrt (<) (map fst (listing (hgetall st db key)))"
    by (auto simp: hgetall_lookup bm_sorted_def dest: value_ok_lookup
        split: option.splits StorageValue.splits)
qed (auto simp: hgetall_def hfirst_def hlast_def hnext_def hprev_def bm_after_eq bm_before_eq
       split: option.splits StorageValue.splits)

section \<open>Properties\<close>

text \<open>
  \<open>hmget\<close> reads back what a successful \<open>hmset\<close> wrote.
\<close>

lemma hmset_hmget:
  assumes "fst (hmset st db key fvs) = Ok ()" "distinct (map fst fvs)"
  shows "hmget (snd (hmset st db key fvs)) db key (map fst fvs) = Ok (map (Some \<circ> snd) fvs)"
proof -
  have "map_of (rev fvs) f = Some v" if "(f, v) \<in> set fvs" for f v
    using that assms(2) by (intro map_of_is_SomeI) (simp_all add: rev_map [symmetric])
  then show ?thesis
    using assms(1)
    by (auto simp: hmset_def hmget_listing hgetall_lookup cmd_simps map_add_def bm_get_def [symmetric]
        split: option.splits)
qed

lemma hmset_hmget_example:
  "hmget (snd (hmset sample 0 [104] [([102], [49]), ([105], [50])])) 0 [104] [[102], [105]] = Ok [Some [49], Some [50]]"
  using hmset_hmget [of sample 0 "[104]" "[([102], [49]), ([105], [50])]"] by (simp add: hmset_def)

lemma hash_entry_listing:
  "hgetall st db key = Ok ps \<Longrightarrow> hash_entry (lookup st db key) = Some ps"
  by (auto simp: hgetall_lookup split: option.splits StorageValue.splits)

text \<open>
  \<open>hsetex\<close> writes all its fields or none: with \<open>FNX\<close> only when none of them is present, with \<open>FXX\<close> only
  when all of them are; the other fields keep their values.
\<close>

lemma hsetex_all_or_nothing:
  assumes "hgetall st db key = Ok ps"
  shows "fst (hsetex st db key mode fvs) = Ok () \<and>
    hget (snd (hsetex st db key mode fvs)) db key f =
      Ok (if (case mode of None \<Rightarrow> True | Some FNX \<Rightarrow> fst ` set fvs \<inter> fst ` set ps = {}
              | Some FXX \<Rightarrow> fst ` set fvs \<subseteq> fst ` set ps)
          then (map_of ps ++ map_of (rev fvs)) f else map_of ps f)"
proof -
  have g: "bm_get ps = map_of ps" by (rule ext) (simp add: bm_get_def)
  have "hsetex_applies mode (fst ` set fvs) (bm_get ps) \<longleftrightarrow>
      (case mode of None \<Rightarrow> True | Some FNX \<Rightarrow> fst ` set fvs \<inter> fst ` set ps = {}
       | Some FXX \<Rightarrow> fst ` set fvs \<subseteq> fst ` set ps)"
    by (simp add: hsetex_applies_def g dom_map_of_conv_image_fst split: option.split HSetEXMode.split)
  then show ?thesis
    by (cases mode rule: option.exhaust; cases "the mode")
      (simp_all add: hsetex_def hget_listing hgetall_lookup cmd_simps hash_entry_listing [OF assms]
        hsetex_applies_list bm_get_def [symmetric] g [symmetric])
qed

lemma hsetex_all_or_nothing_example:
  "hget (snd (hsetex sample 0 [104] (Some FNX) [([105], [49]), ([102], [50])])) 0 [104] [105] = Ok None"
  using hsetex_all_or_nothing [of sample 0 "[104]" "[([102], [118]), ([103], [119])]" "Some FNX"
      "[([105], [49]), ([102], [50])]" "[105]"]
  by (simp add: hgetall_lookup)

text \<open>
  Paging through a hash yields the listing of \<open>hgetall\<close>, every field once.
\<close>

lemma hash_paging:
  assumes "storage_ok S I st" "0 < n" "hgetall st db key = Ok fvs" "length fvs \<le> fuel"
  shows "scan (\<lambda>f. listing (hnext st db key f n)) fst fuel (listing (hfirst st db key n)) = fvs \<and> distinct (map fst fvs)"
  using hash_cursor.scan_complete [of S I st n db key fuel] hash_cursor.items_distinct [of S I st db key] assms by simp

lemma hash_paging_example:
  "scan (\<lambda>f. listing (hnext sample 0 [104] f 1)) fst 2 (listing (hfirst sample 0 [104] 1)) = [([102], [118]), ([103], [119])]"
  using hash_paging [OF sample_ok, of 1 0 "[104]" "[([102], [118]), ([103], [119])]" 2] by (simp add: hgetall_lookup)

text \<open>A draw of a random source is never missing, so a negative count gives as many fields as it asks for.\<close>

lemma map_filter_draws:
  assumes "rand_source R" "xs \<noteq> []"
  shows "length (List.map_filter (\<lambda>i. rand_choose R i xs) is) = length is \<and>
    set (List.map_filter (\<lambda>i. rand_choose R i xs) is) \<subseteq> set xs"
proof (induction "is")
  case (Cons i "is")
  obtain x where "x \<in> set xs" "rand_choose R i xs = Some x"
    using rand_source.choose_some [OF assms] by blast
  with Cons show ?case by (simp add: map_filter_simps)
qed (simp add: map_filter_simps)

text \<open>
  \<open>hrandfield\<close> on a hash returns fields of the hash, with their values when asked for: different ones, as
  many as the count or all of them, for a count that is not negative, and exactly \<open>- count\<close> of them, repetitions
  allowed, for a negative one.
\<close>

lemma hrandfield_draws:
  assumes "rand_source R" "storage_ok S I st" "hgetall st db key = Ok fvs"
  shows "\<exists>ps. hrandfield R st db key count wv = Ok (map (\<lambda>(f, v). (f, if wv then Some v else None)) ps) \<and>
    set ps \<subseteq> set fvs \<and>
    (if count \<ge> 0 then distinct (map fst ps) \<and> length ps = min (nat count) (length fvs)
     else length ps = (if fvs = [] then 0 else nat (- count)))"
proof (cases "lookup st db key")
  case None
  then show ?thesis using assms(3)
    by (auto simp: hrandfield_def hgetall_lookup lookup_def Let_def split: option.splits)
next
  case (Some v)
  then have v: "v = Hash fvs" using assms(3) by (auto simp: hgetall_lookup split: StorageValue.splits)
  have sorted: "bm_sorted fvs" using value_ok_lookup [OF assms(2) Some] v by simp
  have d: "distinct (map fst ps)" if "distinct ps" "set ps \<subseteq> set fvs" for ps
    using that bm_sorted_distinct [OF sorted] by (auto simp: distinct_map intro: inj_on_subset)
  let ?c = "rand_choose R 0 fvs" and ?s = "rand_sample R (min (nat count) (length fvs)) fvs"
  note r = rand_source.sample_set [OF assms(1)] rand_source.sample_length [OF assms(1)]
    rand_source.sample_distinct [OF assms(1)]
  have "distinct fvs" using bm_sorted_distinct [OF sorted] by (simp add: distinct_map)
  then have s: "set ?s \<subseteq> set fvs" "length ?s = min (nat count) (length fvs)" "distinct (map fst ?s)"
    using r d by (auto simp: r)
  obtain m where m: "bm_get (smap st) db = Some m" "bm_get m key = Some (Hash fvs)"
    using Some v by (auto simp: lookup_def split: option.splits)
  consider "fvs = []" | "fvs \<noteq> []" "count = 1" | "fvs \<noteq> []" "count > 1" | "fvs \<noteq> []" "count < 0" | "fvs \<noteq> []" "count = 0"
    by linarith
  then show ?thesis
  proof cases
    case 2
    obtain x where "x \<in> set fvs" "?c = Some x" using rand_source.choose_some [OF assms(1) 2(1)] by blast
    then show ?thesis using 2 m by (intro exI [of _ "[x]"]) (auto simp: hrandfield_def Let_def Suc_leI split: prod.split)
  next
    case 3
    then show ?thesis using m s by (intro exI [of _ ?s]) (auto simp: hrandfield_def Let_def)
  next
    case 4
    then show ?thesis using m map_filter_draws [OF assms(1) 4(1), of "[0 ..< nat (- count)]"]
      by (intro exI [of _ "List.map_filter (\<lambda>i. rand_choose R i fvs) [0 ..< nat (- count)]"])
        (auto simp: hrandfield_def Let_def)
  qed (use m in \<open>auto simp: hrandfield_def Let_def\<close>)
qed

end
