(* ===== verification/Sets.thy ===== *)
theory Sets
  imports Strings
begin

text \<open>
  storage/sets.rs: the set commands. The loops over several source keys return at the first key of
  another type; the intersection stops at the first absent key. \<open>srandmember\<close> takes the functions of the
  \<open>rand\<close> crate it calls as an argument.
\<close>

fun set_entry :: "('v, 'i) StorageValue option \<Rightarrow> bytes btree_set option" where
  "set_entry None = Some []"
| "set_entry (Some (Set s)) = Some s"
| "set_entry (Some _) = None"

section \<open>Writers\<close>

definition sadd :: "('v, 'i) StorageInner \<Rightarrow> u64 \<Rightarrow> bytes \<Rightarrow> bytes list \<Rightarrow> ('v, 'i, unit) outcome" where
  "sadd st db key members =
     (let m = db_entry st db
      in case set_entry (bm_get m key) of
           None \<Rightarrow> (Err WrongType, put_db st db m)
         | Some s \<Rightarrow> (Ok (), put_db st db (bm_insert key (Set (fold bs_insert members s)) m)))"

definition srem :: "('v, 'i) StorageInner \<Rightarrow> u64 \<Rightarrow> bytes \<Rightarrow> bytes list \<Rightarrow> ('v, 'i, unit) outcome" where
  "srem st db key members =
     (case bm_get (smap st) db of
        None \<Rightarrow> (Ok (), st)
      | Some m \<Rightarrow>
          (case bm_get m key of
             None \<Rightarrow> (Ok (), st)
           | Some (Set s) \<Rightarrow>
               (let s' = fold bs_remove members s
                in (Ok (), put_db st db (if s' = [] then bm_remove key m else bm_insert key (Set s') m)))
           | Some _ \<Rightarrow> (Err WrongType, st)))"

definition smove ::
  "('v, 'i) StorageInner \<Rightarrow> u64 \<Rightarrow> bytes \<Rightarrow> bytes \<Rightarrow> bytes \<Rightarrow> ('v, 'i, unit) outcome" where
  "smove st db source_key dest_key member =
     (case bm_get (smap st) db of
        None \<Rightarrow> (Ok (), st)
      | Some m \<Rightarrow>
          (case bm_get m source_key of
             None \<Rightarrow> (Ok (), st)
           | Some (Set s) \<Rightarrow>
               (if \<not> bs_contains s member then (Ok (), st)
                else
                  let s' = bs_remove member s;
                      m1 = (if s' = [] then bm_remove source_key m else bm_insert source_key (Set s') m)
                  in case bm_get m1 dest_key of
                       Some (Set d) \<Rightarrow>
                         (Ok (), put_db st db (bm_insert dest_key (Set (bs_insert member d)) m1))
                     | Some _ \<Rightarrow> (Err WrongType, put_db st db m1)
                     | None \<Rightarrow> (Ok (), put_db st db (bm_insert dest_key (Set (bs_insert member [])) m1)))
           | Some _ \<Rightarrow> (Err WrongType, st)))"

fun union_loop ::
  "('v, 'i) db_map \<Rightarrow> bytes list \<Rightarrow> bytes btree_set \<Rightarrow> bytes btree_set result" where
  "union_loop m [] acc = Ok acc"
| "union_loop m (k # ks) acc =
     (case bm_get m k of
        None \<Rightarrow> union_loop m ks acc
      | Some (Set s) \<Rightarrow> union_loop m ks (bs_extend s acc)
      | Some _ \<Rightarrow> Err WrongType)"

definition first_operand :: "('v, 'i) db_map \<Rightarrow> bytes \<Rightarrow> bytes btree_set result" where
  "first_operand m k =
     (case bm_get m k of
        Some (Set s) \<Rightarrow> Ok (bs_extend s [])
      | Some _ \<Rightarrow> Err WrongType
      | None \<Rightarrow> Ok [])"

fun inter_loop ::
  "('v, 'i) db_map \<Rightarrow> bytes list \<Rightarrow> bytes btree_set \<Rightarrow> bytes btree_set result" where
  "inter_loop m [] acc = Ok acc"
| "inter_loop m (k # ks) acc =
     (case bm_get m k of
        Some (Set s) \<Rightarrow> inter_loop m ks (bs_extend (bs_intersection acc s) [])
      | Some _ \<Rightarrow> Err WrongType
      | None \<Rightarrow> Ok [])"

fun diff_loop ::
  "('v, 'i) db_map \<Rightarrow> bytes list \<Rightarrow> bytes btree_set \<Rightarrow> bytes btree_set result" where
  "diff_loop m [] acc = Ok acc"
| "diff_loop m (k # ks) acc =
     (case bm_get m k of
        Some (Set s) \<Rightarrow> diff_loop m ks (bs_extend (bs_difference acc s) [])
      | Some _ \<Rightarrow> Err WrongType
      | None \<Rightarrow> diff_loop m ks acc)"

definition sunionstore ::
  "('v, 'i) StorageInner \<Rightarrow> u64 \<Rightarrow> bytes \<Rightarrow> bytes list \<Rightarrow> ('v, 'i, unit) outcome" where
  "sunionstore st db dest_key source_keys =
     (let st1 = del st db dest_key
      in case (case bm_get (smap st1) db of None \<Rightarrow> Ok [] | Some m \<Rightarrow> union_loop m source_keys []) of
           Inl e \<Rightarrow> (Err e, st1)
         | Inr u \<Rightarrow>
             (Ok (), if u = [] then st1 else put_db st1 db (bm_insert dest_key (Set u) (db_entry st1 db))))"

definition sinterstore ::
  "('v, 'i) StorageInner \<Rightarrow> u64 \<Rightarrow> bytes \<Rightarrow> bytes list \<Rightarrow> ('v, 'i, unit) outcome" where
  "sinterstore st db dest_key source_keys =
     (let st1 = del st db dest_key
      in case source_keys of
           [] \<Rightarrow> (Ok (), st1)
         | k0 # ks \<Rightarrow>
             (case bm_get (smap st1) db of
                None \<Rightarrow> (Ok (), st1)
              | Some m \<Rightarrow>
                  (case first_operand m k0 of
                     Inl e \<Rightarrow> (Err e, st1)
                   | Inr s0 \<Rightarrow>
                       (case inter_loop m ks s0 of
                          Inl e \<Rightarrow> (Err e, st1)
                        | Inr i \<Rightarrow>
                            (Ok (), if i = [] then st1
                                    else put_db st1 db (bm_insert dest_key (Set i) (db_entry st1 db)))))))"

definition sdiffstore ::
  "('v, 'i) StorageInner \<Rightarrow> u64 \<Rightarrow> bytes \<Rightarrow> bytes list \<Rightarrow> ('v, 'i, unit) outcome" where
  "sdiffstore st db dest_key source_keys =
     (let st1 = del st db dest_key
      in case source_keys of
           [] \<Rightarrow> (Ok (), st1)
         | k0 # ks \<Rightarrow>
             (case bm_get (smap st1) db of
                None \<Rightarrow> (Ok (), st1)
              | Some m \<Rightarrow>
                  (case first_operand m k0 of
                     Inl e \<Rightarrow> (Err e, st1)
                   | Inr s0 \<Rightarrow>
                       (case diff_loop m ks s0 of
                          Inl e \<Rightarrow> (Err e, st1)
                        | Inr d \<Rightarrow>
                            (Ok (), if d = [] then st1
                                    else put_db st1 db (bm_insert dest_key (Set d) (db_entry st1 db)))))))"

section \<open>Readers\<close>

definition smembers :: "('v, 'i) StorageInner \<Rightarrow> u64 \<Rightarrow> bytes \<Rightarrow> bytes list result" where
  "smembers st db key =
     (case bm_get (smap st) db of
        None \<Rightarrow> Ok []
      | Some m \<Rightarrow>
          (case bm_get m key of
             None \<Rightarrow> Ok []
           | Some (Set s) \<Rightarrow> Ok s
           | Some _ \<Rightarrow> Err WrongType))"

definition sismember :: "('v, 'i) StorageInner \<Rightarrow> u64 \<Rightarrow> bytes \<Rightarrow> bytes \<Rightarrow> bool result" where
  "sismember st db key member =
     (case bm_get (smap st) db of
        None \<Rightarrow> Ok False
      | Some m \<Rightarrow>
          (case bm_get m key of
             None \<Rightarrow> Ok False
           | Some (Set s) \<Rightarrow> Ok (bs_contains s member)
           | Some _ \<Rightarrow> Err WrongType))"

definition scard :: "('v, 'i) StorageInner \<Rightarrow> u64 \<Rightarrow> bytes \<Rightarrow> usize result" where
  "scard st db key =
     (case bm_get (smap st) db of
        None \<Rightarrow> Ok 0
      | Some m \<Rightarrow>
          (case bm_get m key of
             None \<Rightarrow> Ok 0
           | Some (Set s) \<Rightarrow> Ok (length s)
           | Some _ \<Rightarrow> Err WrongType))"

definition sfirst :: "('v, 'i) StorageInner \<Rightarrow> u64 \<Rightarrow> bytes \<Rightarrow> usize \<Rightarrow> bytes list result" where
  "sfirst st db key count =
     (if count = 0 then Ok []
      else case bm_get (smap st) db of
             None \<Rightarrow> Ok []
           | Some m \<Rightarrow>
               (case bm_get m key of
                  None \<Rightarrow> Ok []
                | Some (Set s) \<Rightarrow> Ok (take count s)
                | Some _ \<Rightarrow> Err WrongType))"

definition slast :: "('v, 'i) StorageInner \<Rightarrow> u64 \<Rightarrow> bytes \<Rightarrow> usize \<Rightarrow> bytes list result" where
  "slast st db key count =
     (if count = 0 then Ok []
      else case bm_get (smap st) db of
             None \<Rightarrow> Ok []
           | Some m \<Rightarrow>
               (case bm_get m key of
                  None \<Rightarrow> Ok []
                | Some (Set s) \<Rightarrow> Ok (take count (rev s))
                | Some _ \<Rightarrow> Err WrongType))"

definition snext ::
  "('v, 'i) StorageInner \<Rightarrow> u64 \<Rightarrow> bytes \<Rightarrow> bytes \<Rightarrow> usize \<Rightarrow> bytes list result" where
  "snext st db key member count =
     (if count = 0 then Ok []
      else case bm_get (smap st) db of
             None \<Rightarrow> Ok []
           | Some m \<Rightarrow>
               (case bm_get m key of
                  None \<Rightarrow> Ok []
                | Some (Set s) \<Rightarrow> Ok (take count (bs_after member s))
                | Some _ \<Rightarrow> Err WrongType))"

definition sprev ::
  "('v, 'i) StorageInner \<Rightarrow> u64 \<Rightarrow> bytes \<Rightarrow> bytes \<Rightarrow> usize \<Rightarrow> bytes list result" where
  "sprev st db key member count =
     (if count = 0 then Ok []
      else case bm_get (smap st) db of
             None \<Rightarrow> Ok []
           | Some m \<Rightarrow>
               (case bm_get m key of
                  None \<Rightarrow> Ok []
                | Some (Set s) \<Rightarrow> Ok (take count (rev (bs_before member s)))
                | Some _ \<Rightarrow> Err WrongType))"

definition smismember ::
  "('v, 'i) StorageInner \<Rightarrow> u64 \<Rightarrow> bytes \<Rightarrow> bytes list \<Rightarrow> bool list result" where
  "smismember st db key members =
     (case bm_get (smap st) db of
        None \<Rightarrow> Ok (replicate (length members) False)
      | Some m \<Rightarrow>
          (case bm_get m key of
             None \<Rightarrow> Ok (replicate (length members) False)
           | Some (Set s) \<Rightarrow> Ok (map (bs_contains s) members)
           | Some _ \<Rightarrow> Err WrongType))"

definition srandmember ::
  "bytes rand_ops \<Rightarrow> ('v, 'i) StorageInner \<Rightarrow> u64 \<Rightarrow> bytes \<Rightarrow> i64 \<Rightarrow> bytes list result" where
  "srandmember R st db key count =
     (case bm_get (smap st) db of
        None \<Rightarrow> Ok []
      | Some m \<Rightarrow>
          (case bm_get m key of
             None \<Rightarrow> Ok []
           | Some (Set members) \<Rightarrow>
               (if count = 0 \<or> members = [] then Ok []
                else if count > 0
                then Ok (take (min (nat count) (length members)) (rand_shuffle R members))
                else
                  let draws = map (\<lambda>i. rand_choose R i members) [0 ..< nat \<bar>count\<bar>]
                  in if None \<in> set draws then Err Panic else Ok (map the draws))
           | Some _ \<Rightarrow> Err WrongType))"

definition sunion :: "('v, 'i) StorageInner \<Rightarrow> u64 \<Rightarrow> bytes list \<Rightarrow> bytes list result" where
  "sunion st db source_keys =
     (case bm_get (smap st) db of None \<Rightarrow> Ok [] | Some m \<Rightarrow> union_loop m source_keys [])"

definition sinter :: "('v, 'i) StorageInner \<Rightarrow> u64 \<Rightarrow> bytes list \<Rightarrow> bytes list result" where
  "sinter st db source_keys =
     (case source_keys of
        [] \<Rightarrow> Ok []
      | k0 # ks \<Rightarrow>
          (case bm_get (smap st) db of
             None \<Rightarrow> Ok []
           | Some m \<Rightarrow>
               (case first_operand m k0 of Inl e \<Rightarrow> Err e | Inr s0 \<Rightarrow> inter_loop m ks s0)))"

definition sdiff :: "('v, 'i) StorageInner \<Rightarrow> u64 \<Rightarrow> bytes list \<Rightarrow> bytes list result" where
  "sdiff st db source_keys =
     (case source_keys of
        [] \<Rightarrow> Ok []
      | k0 # ks \<Rightarrow>
          (case bm_get (smap st) db of
             None \<Rightarrow> Ok []
           | Some m \<Rightarrow>
               (case first_operand m k0 of Inl e \<Rightarrow> Err e | Inr s0 \<Rightarrow> diff_loop m ks s0)))"

definition sintercard :: "('v, 'i) StorageInner \<Rightarrow> u64 \<Rightarrow> bytes list \<Rightarrow> usize result" where
  "sintercard st db source_keys =
     (case source_keys of
        [] \<Rightarrow> Ok 0
      | k0 # ks \<Rightarrow>
          (case bm_get (smap st) db of
             None \<Rightarrow> Ok 0
           | Some m \<Rightarrow>
               (case first_operand m k0 of
                  Inl e \<Rightarrow> Err e
                | Inr s0 \<Rightarrow> (case inter_loop m ks s0 of Inl e \<Rightarrow> Err e | Inr i \<Rightarrow> Ok (length i)))))"

section \<open>Specifications\<close>

fun spec_sadd :: "bytes list \<Rightarrow> transformer" where
  "spec_sadd ms None = (Ok (), Some (ASet (set ms)))"
| "spec_sadd ms (Some (ASet s)) = (Ok (), Some (ASet (set ms \<union> s)))"
| "spec_sadd ms a = (Err WrongType, a)"

text \<open>A set that loses its last member is deleted.\<close>

definition aset :: "bytes set \<Rightarrow> avalue option" where
  "aset s = (if s = {} then None else Some (ASet s))"

fun spec_srem :: "bytes list \<Rightarrow> transformer" where
  "spec_srem ms None = (Ok (), None)"
| "spec_srem ms (Some (ASet s)) = (Ok (), aset (s - set ms))"
| "spec_srem ms a = (Err WrongType, a)"

definition spec_smove :: "u64 \<Rightarrow> bytes \<Rightarrow> bytes \<Rightarrow> bytes \<Rightarrow> ks_transformer" where
  "spec_smove db src dst x K =
     (case K db src of
        None \<Rightarrow> (Ok (), K)
      | Some (ASet s) \<Rightarrow>
          if x \<notin> s then (Ok (), K)
          else let K1 = ks_update db src (aset (s - {x})) K
               in (fst (spec_sadd [x] (K1 db dst)), ks_update db dst (snd (spec_sadd [x] (K1 db dst))) K1)
      | Some _ \<Rightarrow> (Err WrongType, K))"

text \<open>An operand of a set operation: an absent key is the empty set.\<close>

fun operand :: "avalue option \<Rightarrow> bytes set result" where
  "operand None = Ok {}"
| "operand (Some (ASet s)) = Ok s"
| "operand (Some _) = Err WrongType"

fun ks_union :: "avalue option list \<Rightarrow> bytes set \<Rightarrow> bytes set result" where
  "ks_union [] acc = Ok acc"
| "ks_union (a # as) acc = (case operand a of Inl e \<Rightarrow> Err e | Inr s \<Rightarrow> ks_union as (s \<union> acc))"

fun ks_inter :: "avalue option list \<Rightarrow> bytes set \<Rightarrow> bytes set result" where
  "ks_inter [] acc = Ok acc"
| "ks_inter (a # as) acc =
     (if a = None then Ok {} else case operand a of Inl e \<Rightarrow> Err e | Inr s \<Rightarrow> ks_inter as (acc \<inter> s))"

fun ks_diff :: "avalue option list \<Rightarrow> bytes set \<Rightarrow> bytes set result" where
  "ks_diff [] acc = Ok acc"
| "ks_diff (a # as) acc = (case operand a of Inl e \<Rightarrow> Err e | Inr s \<Rightarrow> ks_diff as (acc - s))"

definition spec_sunion :: "u64 \<Rightarrow> bytes list \<Rightarrow> keyspace \<Rightarrow> bytes set result" where
  "spec_sunion db ks K = ks_union (map (K db) ks) {}"

definition spec_sinter :: "u64 \<Rightarrow> bytes list \<Rightarrow> keyspace \<Rightarrow> bytes set result" where
  "spec_sinter db ks K =
     (case map (K db) ks of
        [] \<Rightarrow> Ok {}
      | a # as \<Rightarrow> (case operand a of Inl e \<Rightarrow> Err e | Inr s \<Rightarrow> ks_inter as s))"

definition spec_sdiff :: "u64 \<Rightarrow> bytes list \<Rightarrow> keyspace \<Rightarrow> bytes set result" where
  "spec_sdiff db ks K =
     (case map (K db) ks of
        [] \<Rightarrow> Ok {}
      | a # as \<Rightarrow> (case operand a of Inl e \<Rightarrow> Err e | Inr s \<Rightarrow> ks_diff as s))"

text \<open>
  The storing variants delete the destination before they read the sources, so a destination that is
  also a source counts as the empty set.
\<close>

definition spec_store ::
  "u64 \<Rightarrow> bytes \<Rightarrow> (keyspace \<Rightarrow> bytes set result) \<Rightarrow> ks_transformer" where
  "spec_store db dst f K =
     (let K1 = ks_update db dst None K
      in case f K1 of
           Inl e \<Rightarrow> (Err e, K1)
         | Inr s \<Rightarrow> (Ok (), ks_update db dst (aset s) K1))"

section \<open>The set operations compute union, intersection and difference\<close>

lemma operand_abs:
  "operand (map_option (abs_value V) v) =
     (case set_entry v of None \<Rightarrow> Err WrongType | Some s \<Rightarrow> Ok (set s))"
  by (cases v rule: set_entry.cases) simp_all

lemma union_loop_refines:
  "map_sum id set (union_loop m ks acc) = ks_union (map (map_option (abs_value V) \<circ> bm_get m) ks) (set acc)"
  by (induction ks arbitrary: acc)
    (auto simp: operand_abs set_bs_extend Un_commute split: option.split StorageValue.split)

lemma inter_loop_refines:
  "map_sum id set (inter_loop m ks acc) = ks_inter (map (map_option (abs_value V) \<circ> bm_get m) ks) (set acc)"
proof (induction ks arbitrary: acc)
  case (Cons k ks)
  have "set (bs_extend (bs_intersection acc s) []) = set acc \<inter> set s" for s
    by (auto simp: set_bs_extend bs_intersection_def)
  with Cons show ?case by (simp split: option.split StorageValue.split)
qed simp

lemma diff_loop_refines:
  "map_sum id set (diff_loop m ks acc) = ks_diff (map (map_option (abs_value V) \<circ> bm_get m) ks) (set acc)"
proof (induction ks arbitrary: acc)
  case (Cons k ks)
  have "set (bs_extend (bs_difference acc s) []) = set acc - set s" for s
    by (auto simp: set_bs_extend bs_difference_def)
  with Cons show ?case by (simp split: option.split StorageValue.split)
qed simp

lemma collect_sorted: "bs_sorted (bs_extend xs [])"
  by (simp add: bs_sorted_extend)

lemma union_loop_sorted: "bs_sorted acc \<Longrightarrow> union_loop m ks acc = Ok u \<Longrightarrow> bs_sorted u"
  by (induction ks arbitrary: acc) (auto split: option.splits StorageValue.splits intro: bs_sorted_extend)

lemma inter_loop_sorted: "bs_sorted acc \<Longrightarrow> inter_loop m ks acc = Ok u \<Longrightarrow> bs_sorted u"
  by (induction ks arbitrary: acc) (auto split: option.splits StorageValue.splits intro: collect_sorted)

lemma diff_loop_sorted: "bs_sorted acc \<Longrightarrow> diff_loop m ks acc = Ok u \<Longrightarrow> bs_sorted u"
  by (induction ks arbitrary: acc) (auto split: option.splits StorageValue.splits intro: collect_sorted)

lemma first_operand_refines:
  "map_sum id set (first_operand m k) = operand (map_option (abs_value V) (bm_get m k))"
  by (simp add: first_operand_def set_bs_extend split: option.split StorageValue.split)

lemma first_operand_sorted: "first_operand m k = Ok s \<Longrightarrow> bs_sorted s"
  by (auto simp: first_operand_def split: option.splits StorageValue.splits intro: bs_sorted_extend)

lemma operand_None_list: "ks_union (map (\<lambda>_. None) ks) acc = Ok acc" "ks_diff (map (\<lambda>_. None) ks) acc = Ok acc"
  by (induction ks) simp_all

lemma abs_db_None: "bm_get (smap st) db = None \<Longrightarrow> abs_storage V st db = Map.empty"
  by (simp add: abs_storage_def lookup_def fun_eq_iff)

lemma abs_db_Some: "bm_get (smap st) db = Some m \<Longrightarrow> abs_storage V st db = map_option (abs_value V) \<circ> bm_get m"
  by (simp add: abs_storage_def lookup_def fun_eq_iff)

lemma sunion_refines: "map_sum id set (sunion st db ks) = spec_sunion db ks (abs_storage V st)"
proof (cases "bm_get (smap st) db")
  case (Some m)
  then show ?thesis
    using union_loop_refines [of m ks "[]" V] by (simp add: sunion_def spec_sunion_def abs_db_Some)
qed (simp add: sunion_def spec_sunion_def abs_db_None operand_None_list)

lemma sunion_sorted: "sunion st db ks = Ok u \<Longrightarrow> bs_sorted u"
  by (auto simp: sunion_def split: option.splits dest: union_loop_sorted [rotated])

lemma sinter_refines: "map_sum id set (sinter st db ks) = spec_sinter db ks (abs_storage V st)"
proof (cases ks)
  case (Cons k ks')
  show ?thesis
  proof (cases "bm_get (smap st) db")
    case None
    then show ?thesis
      by (cases ks') (simp_all add: Cons sinter_def spec_sinter_def abs_db_None)
  next
    case (Some m)
    then show ?thesis
      using first_operand_refines [of m k V, symmetric]
      by (cases "first_operand m k")
        (simp_all add: Cons sinter_def spec_sinter_def abs_db_Some inter_loop_refines)
  qed
qed (simp add: sinter_def spec_sinter_def)

lemma sinter_sorted: "sinter st db ks = Ok u \<Longrightarrow> bs_sorted u"
  by (auto simp: sinter_def split: option.splits list.splits sum.splits
      dest: first_operand_sorted inter_loop_sorted [rotated])

lemma sdiff_refines: "map_sum id set (sdiff st db ks) = spec_sdiff db ks (abs_storage V st)"
proof (cases ks)
  case (Cons k ks')
  show ?thesis
  proof (cases "bm_get (smap st) db")
    case None
    then show ?thesis
      by (simp add: Cons sdiff_def spec_sdiff_def abs_db_None operand_None_list)
  next
    case (Some m)
    then show ?thesis
      using first_operand_refines [of m k V, symmetric]
      by (cases "first_operand m k")
        (simp_all add: Cons sdiff_def spec_sdiff_def abs_db_Some diff_loop_refines)
  qed
qed (simp add: sdiff_def spec_sdiff_def)

lemma sdiff_sorted: "sdiff st db ks = Ok u \<Longrightarrow> bs_sorted u"
  by (auto simp: sdiff_def split: option.splits list.splits sum.splits
      dest: first_operand_sorted diff_loop_sorted [rotated])

lemma sintercard_sinter: "sintercard st db ks = map_sum id length (sinter st db ks)"
  by (simp add: sintercard_def sinter_def split: option.split list.split sum.split)

text \<open>Without an operand of another type, the loops are the set operations.\<close>

lemma ks_union_sets:
  "\<forall>a \<in> set as. operand a \<noteq> Err WrongType \<Longrightarrow>
     ks_union as acc = Ok (acc \<union> (\<Union>a \<in> set as. projr (operand a)))"
proof (induction as arbitrary: acc)
  case (Cons a as)
  then show ?case by (cases a rule: operand.cases) auto
qed simp

lemma ks_inter_sets:
  "\<forall>a \<in> set as. operand a \<noteq> Err WrongType \<Longrightarrow>
     ks_inter as acc = Ok (acc \<inter> (\<Inter>a \<in> set as. projr (operand a)))"
proof (induction as arbitrary: acc)
  case (Cons a as)
  then show ?case by (cases a rule: operand.cases) auto
qed simp

lemma ks_diff_sets:
  "\<forall>a \<in> set as. operand a \<noteq> Err WrongType \<Longrightarrow>
     ks_diff as acc = Ok (acc - (\<Union>a \<in> set as. projr (operand a)))"
proof (induction as arbitrary: acc)
  case (Cons a as)
  then show ?case by (cases a rule: operand.cases) auto
qed simp

section \<open>Every writer implements its specification\<close>

interpretation sadd: key_command V S I "\<lambda>st. sadd st db key ms" db key "spec_sadd ms"
  for V :: "'v vec_ops" and S and I :: "'i index_ops" and db key ms
proof (rule key_commandI)
  fix st :: "('v, 'i) StorageInner"
  assume st: "storage_ok S I st"
  have e: "bs_sorted s" if "set_entry (lookup st db key) = Some s" for s
    using st that by (cases "lookup st db key" rule: set_entry.cases) (auto dest: value_ok_lookup)
  show "storage_ok S I (snd (sadd st db key ms))"
    using st e by (auto simp: sadd_def Let_def lookup_simps bs.ok_fold_ins split: option.splits intro!: wf_intros)
  show "fst (sadd st db key ms) = fst (spec_sadd ms (map_option (abs_value V) (lookup st db key)))"
    "map_option (abs_value V) (lookup (snd (sadd st db key ms)) db key) =
      snd (spec_sadd ms (map_option (abs_value V) (lookup st db key)))"
    by (cases "lookup st db key" rule: set_entry.cases;
        simp add: sadd_def Let_def lookup_simps btree_simps bs.elems_fold_ins)+
  show "lookup (snd (sadd st db key ms)) db' k = lookup st db' k" if "(db', k) \<noteq> (db, key)" for db' k
    using that by (auto simp: sadd_def Let_def lookup_simps btree_simps split: option.splits)
qed

lemma aset_set: "aset (set s) = (if s = [] then None else Some (ASet (set s)))"
  by (simp add: aset_def)

interpretation srem: key_command V S I "\<lambda>st. srem st db key ms" db key "spec_srem ms"
  for V :: "'v vec_ops" and S and I :: "'i index_ops" and db key ms
proof (rule key_commandI)
  fix st :: "('v, 'i) StorageInner"
  assume st: "storage_ok S I st"
  have s: "bs_sorted s" if "lookup st db key = Some (Set s)" for s
    using value_ok_lookup [OF st that] by simp
  show "storage_ok S I (snd (srem st db key ms))"
    using st s by (auto simp: srem_def Let_def lookup_simps split: option.splits StorageValue.splits
        intro!: wf_intros intro: db_ok_get bs.ok_fold_rem)
  show "fst (srem st db key ms) = fst (spec_srem ms (map_option (abs_value V) (lookup st db key)))"
    by (auto simp: srem_def Let_def lookup_simps split: option.splits StorageValue.splits)
  show "map_option (abs_value V) (lookup (snd (srem st db key ms)) db key) =
      snd (spec_srem ms (map_option (abs_value V) (lookup st db key)))"
    by (auto simp: srem_def Let_def lookup_simps btree_simps aset_set simp flip: bs.elems_fold_rem
        split: option.splits StorageValue.splits)
  show "lookup (snd (srem st db key ms)) db' k = lookup st db' k" if "(db', k) \<noteq> (db, key)" for db' k
    using that by (auto simp: srem_def Let_def lookup_simps btree_simps
        split: option.splits StorageValue.splits)
qed

text \<open>The storing variants: delete the destination, compute, store a non-empty result.\<close>

definition store_result ::
  "u64 \<Rightarrow> bytes \<Rightarrow> (('v, 'i) StorageInner \<Rightarrow> bytes list result) \<Rightarrow>
     ('v, 'i) StorageInner \<Rightarrow> ('v, 'i, unit) outcome" where
  "store_result db dst f st =
     (let st1 = del st db dst
      in case f st1 of
           Inl e \<Rightarrow> (Err e, st1)
         | Inr u \<Rightarrow>
             (Ok (), if u = [] then st1 else put_db st1 db (bm_insert dst (Set u) (db_entry st1 db))))"

lemma sunionstore_eq: "sunionstore st db dst ks = store_result db dst (\<lambda>st. sunion st db ks) st"
  by (simp add: sunionstore_def store_result_def sunion_def)

lemma sinterstore_eq: "sinterstore st db dst ks = store_result db dst (\<lambda>st. sinter st db ks) st"
  by (simp add: sinterstore_def store_result_def sinter_def Let_def
      split: list.split option.split sum.split)

lemma sdiffstore_eq: "sdiffstore st db dst ks = store_result db dst (\<lambda>st. sdiff st db ks) st"
  by (simp add: sdiffstore_def store_result_def sdiff_def Let_def
      split: list.split option.split sum.split)

lemma abs_put_key:
  "abs_storage V (put_db st db (bm_insert k v (db_entry st db))) =
     ks_update db k (Some (abs_value V v)) (abs_storage V st)"
  by (auto simp: abs_storage_def ks_update_def lookup_simps btree_simps fun_eq_iff)

lemma store_result_refines:
  fixes V :: "'v vec_ops" and I :: "'i index_ops"
  assumes cmd: "\<And>st. cmd st = store_result db dst f st"
    and refines: "\<And>st. map_sum id set (f st) = g (abs_storage V st)"
    and sorted: "\<And>st u. f st = Ok u \<Longrightarrow> bs_sorted u"
  shows "keyspace_command V S I cmd (spec_store db dst g)"
proof
  fix st :: "('v, 'i) StorageInner"
  assume st: "storage_ok S I st"
  let ?st1 = "del st db dst"
  have st1: "storage_ok S I ?st1" "abs_storage V ?st1 = ks_update db dst None (abs_storage V st)"
    using del.ok_cmd [OF st] del.abs_cmd [OF st] by (simp_all add: spec_del_def)
  show "storage_ok S I (snd (cmd st))"
    using st1(1) sorted
    by (auto simp: cmd store_result_def Let_def split: sum.splits intro!: wf_intros)
  have upd: "ks_update db dst None (ks_update db dst None K) = ks_update db dst None K" for K
    by (simp add: ks_update_def)
  show "map_prod id (abs_storage V) (cmd st) = spec_store db dst g (abs_storage V st)"
  proof (cases "f ?st1")
    case (Inl e)
    then have "g (abs_storage V ?st1) = Err e"
      using refines [of ?st1] by simp
    then show ?thesis
      using Inl by (simp add: cmd store_result_def spec_store_def Let_def flip: st1(2))
  next
    case (Inr u)
    then have g: "g (abs_storage V ?st1) = Ok (set u)"
      using refines [of ?st1] by simp
    have "ks_update db dst None (abs_storage V ?st1) = abs_storage V ?st1"
      by (simp add: st1(2) upd)
    with Inr g show ?thesis
      by (simp add: cmd store_result_def spec_store_def Let_def aset_set abs_put_key flip: st1(2))
  qed
qed

interpretation sunionstore: keyspace_command V S I "\<lambda>st. sunionstore st db dst ks"
  "spec_store db dst (spec_sunion db ks)"
  for V S I db dst ks
  by (rule store_result_refines [OF sunionstore_eq sunion_refines sunion_sorted])

interpretation sinterstore: keyspace_command V S I "\<lambda>st. sinterstore st db dst ks"
  "spec_store db dst (spec_sinter db ks)"
  for V S I db dst ks
  by (rule store_result_refines [OF sinterstore_eq sinter_refines sinter_sorted])

interpretation sdiffstore: keyspace_command V S I "\<lambda>st. sdiffstore st db dst ks"
  "spec_store db dst (spec_sdiff db ks)"
  for V S I db dst ks
  by (rule store_result_refines [OF sdiffstore_eq sdiff_refines sdiff_sorted])

text \<open>
  \<open>smove\<close> removes from the source as \<open>srem\<close> does and then adds to the destination as \<open>sadd\<close> does, both
  only when the member is present; the removal stays when the destination holds another type.
\<close>

lemma smove_eq:
  "smove st db src dst x =
     (case lookup st db src of
        None \<Rightarrow> (Ok (), st)
      | Some (Set s) \<Rightarrow>
          if x \<in> set s then sadd (snd (srem st db src [x])) db dst [x] else (Ok (), st)
      | Some _ \<Rightarrow> (Err WrongType, st))"
proof (cases "bm_get (smap st) db")
  case (Some m)
  have put: "put_db (put_db st db a) db b = put_db st db b" "db_entry (put_db st db a) db = a"
    for a b :: "('a, 'b) db_map"
    by (simp_all add: put_db_def bm_insert_twice db_entry_def bm_get_insert)
  show ?thesis
    by (simp add: smove_def srem_def sadd_def Some lookup_Some [OF Some] Let_def put bs_contains_def
        split: option.split StorageValue.split)
qed (simp add: smove_def lookup_None)

interpretation smove: keyspace_command V S I "\<lambda>st. smove st db src dst x" "spec_smove db src dst x"
  for V :: "'v vec_ops" and S and I :: "'i index_ops" and db src dst x
proof
  fix st :: "('v, 'i) StorageInner"
  assume st: "storage_ok S I st"
  show "storage_ok S I (snd (smove st db src dst x))"
    using st sadd.ok_cmd [OF srem.ok_cmd [OF st]]
    by (auto simp: smove_eq split: option.split StorageValue.split)
  have "map_prod id (abs_storage V) (sadd (snd (srem st db src [x])) db dst [x]) =
      at_key db dst (spec_sadd [x]) (snd (at_key db src (spec_srem [x]) (abs_storage V st)))"
    using srem.refines [OF st, of V db src "[x]"] sadd.refines [OF srem.ok_cmd [OF st], of V db src "[x]" db dst "[x]"]
    by (simp add: map_prod_def case_prod_beta prod_eq_iff)
  then show "map_prod id (abs_storage V) (smove st db src dst x) = spec_smove db src dst x (abs_storage V st)"
    by (auto simp: smove_eq spec_smove_def at_key_def Let_def abs_storage_def
        split: option.split StorageValue.split)
qed

section \<open>What readers return\<close>

text \<open>\<open>smembers\<close> lists the set in order; the other readers are functions of that listing.\<close>

lemma smembers_lookup:
  "smembers st db key =
     (case lookup st db key of None \<Rightarrow> Ok [] | Some (Set s) \<Rightarrow> Ok s | Some _ \<Rightarrow> Err WrongType)"
  by (simp add: smembers_def lookup_def split: option.splits)

lemma smembers_refines: "map_sum id set (smembers st db key) = operand (abs_storage V st db key)"
  by (simp add: smembers_lookup abs_storage_def split: option.split StorageValue.split)

lemma sismember_listing: "sismember st db key x = map_sum id (\<lambda>s. x \<in> set s) (smembers st db key)"
  by (simp add: smembers_def sismember_def bs_contains_def split: option.split StorageValue.split)

lemma scard_listing: "scard st db key = map_sum id length (smembers st db key)"
  by (simp add: smembers_def scard_def split: option.split StorageValue.split)

lemma smismember_listing:
  "smismember st db key xs = map_sum id (\<lambda>s. map (\<lambda>x. x \<in> set s) xs) (smembers st db key)"
  by (simp add: smembers_def smismember_def bs_contains_def map_replicate_const
      split: option.split StorageValue.split)

lemma smembers_sorted:
  assumes "storage_ok S I st" "smembers st db key = Ok s"
  shows "bs_sorted s"
  using assms by (auto simp: smembers_lookup dest: value_ok_lookup split: option.splits StorageValue.splits)

interpretation set_cursor: ordered_cursor "storage_ok S I" "\<lambda>st. listing (smembers st db key)" "\<lambda>x. x"
  "\<lambda>st n. listing (sfirst st db key n)" "\<lambda>st n. listing (slast st db key n)"
  "\<lambda>st x n. listing (snext st db key x n)" "\<lambda>st x n. listing (sprev st db key x n)"
  for S :: score_ops and I :: "'i index_ops" and db :: u64 and key :: bytes
proof
  fix st :: "('v, 'i) StorageInner"
  assume "storage_ok S I st"
  then show "sorted_wrt (<) (map (\<lambda>x. x) (listing (smembers st db key)))"
    by (auto simp: smembers_lookup dest: value_ok_lookup split: option.splits StorageValue.splits)
qed (auto simp: smembers_def sfirst_def slast_def snext_def sprev_def bs_after_eq bs_before_eq
       split: option.splits StorageValue.splits)

section \<open>Random members\<close>

lemma srandmember_sample:
  assumes "rand_source R" "storage_ok S I st" "smembers st db key = Ok xs"
  shows "\<exists>ys. srandmember R st db key count = Ok ys \<and> random_sample count xs ys"
proof (cases "lookup st db key")
  case None
  with assms(3) show ?thesis
    by (auto simp: srandmember_def smembers_lookup lookup_def random_sample_def split: option.splits)
next
  case (Some v)
  with assms(3) have v: "v = Set xs"
    by (auto simp: smembers_lookup split: StorageValue.splits)
  have d: "distinct xs"
    using smembers_sorted [OF assms(2,3)] by (rule sorted_wrt_imp_distinct) simp
  have e: "srandmember R st db key count =
      (if count = 0 \<or> xs = [] then Ok []
       else if count > 0 then Ok (take (min (nat count) (length xs)) (rand_shuffle R xs))
       else let draws = map (\<lambda>i. rand_choose R i xs) [0 ..< nat \<bar>count\<bar>]
            in if None \<in> set draws then Err Panic else Ok (map the draws))"
    using Some v by (auto simp: srandmember_def lookup_def split: option.splits)
  show ?thesis
    using rand_source.sample_shuffle [OF assms(1) _ d] rand_source.sample_draws [OF assms(1)]
    unfolding e Let_def
    by (cases "count < 0"; cases "count = 0"; cases "xs = []")
      (auto simp: random_sample_def simp del: set_map map_map)
qed

section \<open>Properties\<close>

abbreviation members_of :: "('v, 'i) StorageInner \<Rightarrow> u64 \<Rightarrow> bytes \<Rightarrow> bytes set" where
  "members_of st db key \<equiv> set (listing (smembers st db key))"

lemma members_operand:
  "smembers st db key \<noteq> Err WrongType \<Longrightarrow> operand (abs_storage V st db key) = Ok (members_of st db key)"
  using smembers_refines [of st db key V]
  by (cases "smembers st db key") (auto simp: smembers_lookup split: option.splits StorageValue.splits)

lemma members_aset: "abs_storage V st db key = aset X \<Longrightarrow> members_of st db key = X"
  using smembers_refines [of st db key V]
  by (cases "smembers st db key") (auto simp: aset_def split: if_splits)

lemma store_members:
  assumes "keyspace_command V S I cmd (spec_store db dst f)" "storage_ok S I st"
    "f (ks_update db dst None (abs_storage V st)) = Ok X"
  shows "fst (cmd st) = Ok () \<and> members_of (snd (cmd st)) db dst = X"
  using keyspace_command.refines [OF assms(1,2)] assms(3) members_aset [of V "snd (cmd st)" db dst X]
  by (cases "cmd st") (simp add: spec_store_def Let_def ks_update_apply)

text \<open>
  C32. With a destination that is not a source, and sources that are sets or absent, the three storing commands
  succeed and leave the union, the intersection and the difference of the sources at the destination.
\<close>

theorem stores_compute:
  fixes st :: "('v, 'i) StorageInner"
  assumes "storage_ok S I st" "dst \<notin> set (k # ks)" "\<forall>j \<in> set (k # ks). smembers st db j \<noteq> Err WrongType"
  shows "(fst (sunionstore st db dst (k # ks)) = Ok () \<and>
      members_of (snd (sunionstore st db dst (k # ks))) db dst = (\<Union>j \<in> set (k # ks). members_of st db j)) \<and>
    (fst (sinterstore st db dst (k # ks)) = Ok () \<and>
      members_of (snd (sinterstore st db dst (k # ks))) db dst = (\<Inter>j \<in> set (k # ks). members_of st db j)) \<and>
    (fst (sdiffstore st db dst (k # ks)) = Ok () \<and>
      members_of (snd (sdiffstore st db dst (k # ks))) db dst =
        members_of st db k - (\<Union>j \<in> set ks. members_of st db j))"
proof -
  let ?K = "ks_update db dst None (abs_storage (undefined :: 'v vec_ops) st)"
  have op: "operand (?K db j) = Ok (members_of st db j)" if "j \<in> set (k # ks)" for j
    using that assms by (auto simp: ks_update_apply members_operand)
  have ne: "\<forall>a \<in> set (map (?K db) ks). operand a \<noteq> Err WrongType" using op by auto
  have loops: "projr (operand (?K db j)) = members_of st db j" if "j \<in> set ks" for j
    using op that by simp
  have u: "spec_sunion db (k # ks) ?K = Ok (\<Union>j \<in> set (k # ks). members_of st db j)"
    using op [of k] loops by (simp add: spec_sunion_def ks_union_sets [OF ne] Un_commute)
  have i: "spec_sinter db (k # ks) ?K = Ok (\<Inter>j \<in> set (k # ks). members_of st db j)"
    using op [of k] loops by (simp add: spec_sinter_def ks_inter_sets [OF ne])
  have d: "spec_sdiff db (k # ks) ?K = Ok (members_of st db k - (\<Union>j \<in> set ks. members_of st db j))"
    using op [of k] loops by (simp add: spec_sdiff_def ks_diff_sets [OF ne])
  show ?thesis
    by (intro conjI [OF store_members conjI [OF store_members store_members]])
      (rule sunionstore.keyspace_command_axioms sinterstore.keyspace_command_axioms
        sdiffstore.keyspace_command_axioms assms(1) u i d)+
qed

theorem stores_compute_witness:
  "members_of (snd (sunionstore sample 0 [107] [[115], [116]])) 0 [107] = {[120], [121]} \<and>
   members_of (snd (sinterstore sample 0 [107] [[115], [116]])) 0 [107] = {[121]} \<and>
   members_of (snd (sdiffstore sample 0 [107] [[115], [116]])) 0 [107] = {[120]}"
  using stores_compute [OF sample_ok, of "[107]" "[115]" "[[116]]" 0] 
  by (simp add: smembers_lookup insert_commute insert_Diff_if)

lemma lookup_del: "lookup (del st db k) db k = None"
  by (auto simp: del_def lookup_simps btree_simps split: option.split)

lemma union_loop_absent:
  "bm_get m k = None \<Longrightarrow> union_loop m (filter (\<lambda>j. j \<noteq> k) ks) acc = union_loop m ks acc"
  by (induction ks arbitrary: acc) (auto split: option.split StorageValue.split)

lemma inter_loop_absent: "bm_get m k = None \<Longrightarrow> k \<in> set ks \<Longrightarrow> inter_loop m ks acc = Ok u \<Longrightarrow> u = []"
  by (induction ks arbitrary: acc) (auto split: option.splits StorageValue.splits)

lemma inter_loop_Nil: "inter_loop m ks [] = Ok u \<Longrightarrow> u = []"
  by (induction ks) (auto simp: bs_intersection_def bs_extend_def split: option.splits StorageValue.splits)

text \<open>
  C33. A destination that is also a source: its members are deleted before they are read, so the union leaves
  them out and the intersection is empty.
\<close>

theorem stores_ignore_destination:
  assumes "dst \<in> set ks"
  shows "sunionstore st db dst ks = sunionstore st db dst (filter (\<lambda>k. k \<noteq> dst) ks) \<and>
    lookup (snd (sinterstore st db dst ks)) db dst = None"
proof
  have absent: "bm_get m dst = None" if "bm_get (smap (del st db dst)) db = Some m" for m
    using that lookup_del [of st db dst] by (simp add: lookup_Some)
  show "sunionstore st db dst ks = sunionstore st db dst (filter (\<lambda>k. k \<noteq> dst) ks)"
    by (simp add: sunionstore_def Let_def union_loop_absent absent split: option.split)
  have "u = []" if "bm_get (smap (del st db dst)) db = Some m" "ks = k # ks'" "first_operand m k = Ok s0"
    "inter_loop m ks' s0 = Ok u" for m k ks' s0 u
    using that assms absent [OF that(1)] inter_loop_absent [of m dst ks' s0 u] inter_loop_Nil [of m ks' u]
    by (cases "k = dst") (auto simp: first_operand_def)
  then show "lookup (snd (sinterstore st db dst ks)) db dst = None"
    by (auto simp: sinterstore_def Let_def lookup_del split: list.split option.split sum.split)
qed

lemma get_put_db: "bm_get (smap (put_db st db m)) = (bm_get (smap st))(db \<mapsto> m)"
  by (simp add: put_db_def bm_get_insert)

theorem stores_ignore_destination_witness:
  "members_of (snd (sunionstore sample 0 [115] [[115], [116]])) 0 [115] = {[121]}"
proof -
  have "sunionstore sample 0 [115] [[115], [116]] = sunionstore sample 0 [115] [[116]]"
    using stores_ignore_destination [of "[115]" "[[115], [116]]" sample 0] by simp
  then show ?thesis
    by (simp add: sunionstore_def del_def smembers_lookup cmd_simps bs_extend_def get_put_db)
qed

text \<open>
  \<open>smove\<close> to a key of another type fails after the member has left the source: it is then in neither key.
\<close>

lemma smove_loses_member:
  assumes "src \<noteq> dst" "sismember st db src x = Ok True" "smembers st db dst = Err WrongType"
  shows "fst (smove st db src dst x) = Err WrongType \<and>
    members_of (snd (smove st db src dst x)) db src = members_of st db src - {x} \<and>
    lookup (snd (smove st db src dst x)) db dst = lookup st db dst"
proof -
  obtain s where s: "lookup st db src = Some (Set s)" "x \<in> set s"
    using assms(2) by (auto simp: sismember_listing smembers_lookup split: option.splits StorageValue.splits)
  obtain v where v: "lookup st db dst = Some v" "set_entry (Some v) = None"
    using assms(3) by (auto simp: smembers_lookup split: option.splits StorageValue.splits)
  have removed: "bs_remove x s = [] \<longleftrightarrow> set s - {x} = {}" "set (bs_remove x s) = set s - {x}"
    by (auto simp: bs_remove_def filter_empty_conv)
  obtain m where m: "bm_get (smap st) db = Some m" "bm_get m src = Some (Set s)" "bm_get m dst = Some v"
    using s v by (auto simp: lookup_def split: option.splits)
  show ?thesis
    using assms(1) s v m
    by (simp add: smove_eq srem_def sadd_def smembers_lookup cmd_simps removed get_put_db)
qed

lemma smove_loses_member_example:
  "fst (smove sample 0 [115] [110] [120]) = Err WrongType \<and>
   members_of (snd (smove sample 0 [115] [110] [120])) 0 [115] = {[121]}"
  using smove_loses_member [of "[115]" "[110]" sample 0 "[120]"] 
  by (simp add: sismember_listing smembers_lookup insert_Diff_if)

text \<open>
  \<open>srandmember\<close> never fails on a set: a count that is not negative gives that many different members, or
  all of them; a negative count gives exactly its absolute value of members, with repetitions.
\<close>

lemma srandmember_draws:
  assumes "rand_source R" "storage_ok S I st" "smembers st db key = Ok xs"
  shows "\<exists>ys. srandmember R st db key count = Ok ys \<and> set ys \<subseteq> set xs \<and>
    (if count \<ge> 0 then distinct ys \<and> length ys = min (nat count) (length xs)
     else length ys = (if xs = [] then 0 else nat (- count)))"
  using srandmember_sample [OF assms, of count] by (auto simp: random_sample_def)

lemma srandmember_draws_example:
  "\<exists>ys. srandmember round_robin sample 0 [115] (- 3) = Ok ys \<and> set ys \<subseteq> {[120], [121]} \<and> length ys = 3"
  using srandmember_draws [OF round_robin.rand_source_axioms sample_ok, of 0 "[115]" "[[120], [121]]" "- 3"]
  by (simp add: smembers_lookup)

text \<open>
  Paging through a set yields the listing of \<open>smembers\<close>, every member once.
\<close>

lemma set_paging:
  assumes "storage_ok S I st" "0 < n" "smembers st db key = Ok xs" "length xs \<le> fuel"
  shows "scan (\<lambda>x. listing (snext st db key x n)) (\<lambda>x. x) fuel (listing (sfirst st db key n)) = xs \<and> distinct xs"
  using set_cursor.scan_complete [of S I st n db key fuel] set_cursor.items_distinct [of S I st db key] assms by simp

lemma set_paging_example:
  "scan (\<lambda>x. listing (snext sample 0 [115] x 1)) (\<lambda>x. x) 2 (listing (sfirst sample 0 [115] 1)) = [[120], [121]]"
  using set_paging [OF sample_ok, of 1 0 "[115]" "[[120], [121]]" 2] by (simp add: smembers_lookup)

end
