(* ===== verification/Lists.thy ===== *)
theory Lists
  imports Strings
begin

text \<open>
  storage/lists.rs: the list commands, over the functions of \<open>im::Vector\<close> (the argument \<open>V\<close>). A writer
  that needs an existing list opens with the same three steps: an absent database or key is left alone,
  a value of another type is an error; \<open>list_mut\<close> is that prefix. Its continuation returns the list to
  store, or \<open>None\<close> where the source removes the key.
\<close>

definition list_mut ::
  "('v, 'i) StorageInner \<Rightarrow> u64 \<Rightarrow> bytes \<Rightarrow> ('v \<Rightarrow> unit result \<times> 'v option) \<Rightarrow> ('v, 'i, unit) outcome" where
  "list_mut st db key g =
     (case bm_get (smap st) db of
        None \<Rightarrow> (Ok (), st)
      | Some m \<Rightarrow>
          (case bm_get m key of
             None \<Rightarrow> (Ok (), st)
           | Some (List l) \<Rightarrow>
               (case g l of
                  (r, None) \<Rightarrow> (r, put_db st db (bm_remove key m))
                | (r, Some l') \<Rightarrow> (r, put_db st db (bm_insert key (List l') m)))
           | Some _ \<Rightarrow> (Err WrongType, st)))"

definition vec_is_empty :: "'v vec_ops \<Rightarrow> 'v \<Rightarrow> bool" where
  "vec_is_empty V l \<longleftrightarrow> vec_len V l = 0"

definition unless_empty :: "'v vec_ops \<Rightarrow> 'v \<Rightarrow> 'v option" where
  "unless_empty V l = (if vec_is_empty V l then None else Some l)"

fun list_entry :: "'v vec_ops \<Rightarrow> ('v, 'i) StorageValue option \<Rightarrow> 'v option" where
  "list_entry V None = Some (vec_new V)"
| "list_entry V (Some (List l)) = Some l"
| "list_entry V (Some _) = None"

section \<open>Pushing and popping\<close>

definition lpush ::
  "'v vec_ops \<Rightarrow> ('v, 'i) StorageInner \<Rightarrow> u64 \<Rightarrow> bytes \<Rightarrow> bytes list \<Rightarrow> ('v, 'i, unit) outcome" where
  "lpush V st db key values =
     (let m = db_entry st db
      in case list_entry V (bm_get m key) of
           None \<Rightarrow> (Err WrongType, put_db st db m)
         | Some l \<Rightarrow>
             (Ok (), put_db st db (bm_insert key (List (fold (\<lambda>x l. vec_push_front V l x) values l)) m)))"

definition rpush ::
  "'v vec_ops \<Rightarrow> ('v, 'i) StorageInner \<Rightarrow> u64 \<Rightarrow> bytes \<Rightarrow> bytes list \<Rightarrow> ('v, 'i, unit) outcome" where
  "rpush V st db key values =
     (let m = db_entry st db
      in case list_entry V (bm_get m key) of
           None \<Rightarrow> (Err WrongType, put_db st db m)
         | Some l \<Rightarrow>
             (Ok (), put_db st db (bm_insert key (List (fold (\<lambda>x l. vec_push_back V l x) values l)) m)))"

definition lpop :: "'v vec_ops \<Rightarrow> ('v, 'i) StorageInner \<Rightarrow> u64 \<Rightarrow> bytes \<Rightarrow> ('v, 'i, unit) outcome" where
  "lpop V st db key =
     list_mut st db key (\<lambda>l.
       let l' = (if \<not> vec_is_empty V l then vec_skip V l 1 else l) in (Ok (), unless_empty V l'))"

definition rpop :: "'v vec_ops \<Rightarrow> ('v, 'i) StorageInner \<Rightarrow> u64 \<Rightarrow> bytes \<Rightarrow> ('v, 'i, unit) outcome" where
  "rpop V st db key =
     list_mut st db key (\<lambda>l.
       let l' = (if \<not> vec_is_empty V l then snd (vec_pop_back V l) else l) in (Ok (), unless_empty V l'))"

definition lpushx ::
  "'v vec_ops \<Rightarrow> ('v, 'i) StorageInner \<Rightarrow> u64 \<Rightarrow> bytes \<Rightarrow> bytes list \<Rightarrow> ('v, 'i, unit) outcome" where
  "lpushx V st db key values =
     list_mut st db key (\<lambda>l. (Ok (), Some (fold (\<lambda>x l. vec_push_front V l x) values l)))"

definition rpushx ::
  "'v vec_ops \<Rightarrow> ('v, 'i) StorageInner \<Rightarrow> u64 \<Rightarrow> bytes \<Rightarrow> bytes list \<Rightarrow> ('v, 'i, unit) outcome" where
  "rpushx V st db key values =
     list_mut st db key (\<lambda>l. (Ok (), Some (fold (\<lambda>x l. vec_push_back V l x) values l)))"

definition lpop_count ::
  "'v vec_ops \<Rightarrow> ('v, 'i) StorageInner \<Rightarrow> u64 \<Rightarrow> bytes \<Rightarrow> usize \<Rightarrow> ('v, 'i, unit) outcome" where
  "lpop_count V st db key count =
     list_mut st db key (\<lambda>l.
       let to_remove = min count (vec_len V l)
       in (Ok (), unless_empty V (((\<lambda>l. vec_skip V l 1) ^^ to_remove) l)))"

definition rpop_count ::
  "'v vec_ops \<Rightarrow> ('v, 'i) StorageInner \<Rightarrow> u64 \<Rightarrow> bytes \<Rightarrow> usize \<Rightarrow> ('v, 'i, unit) outcome" where
  "rpop_count V st db key count =
     list_mut st db key (\<lambda>l.
       let to_remove = min count (vec_len V l)
       in (Ok (), unless_empty V (((\<lambda>l. snd (vec_pop_back V l)) ^^ to_remove) l)))"

section \<open>Editing\<close>

text \<open>
  The loop of \<open>lrem\<close>: \<open>removed\<close> counts the occurrences dropped so far. The negative count of the source
  is negated and cast to \<open>usize\<close>, which for the least \<open>i64\<close> gives $2^{63}$ as well.
\<close>

fun lrem_loop ::
  "('v \<Rightarrow> bytes \<Rightarrow> 'v) \<Rightarrow> usize \<Rightarrow> bytes \<Rightarrow> usize \<Rightarrow> 'v \<Rightarrow> bytes list \<Rightarrow> 'v" where
  "lrem_loop push max_remove value removed new_list [] = new_list"
| "lrem_loop push max_remove value removed new_list (item # items) =
     (if removed < max_remove \<and> item = value
      then lrem_loop push max_remove value (removed + 1) new_list items
      else lrem_loop push max_remove value removed (push new_list item) items)"

definition lrem ::
  "'v vec_ops \<Rightarrow> ('v, 'i) StorageInner \<Rightarrow> u64 \<Rightarrow> bytes \<Rightarrow> i64 \<Rightarrow> bytes \<Rightarrow> ('v, 'i, unit) outcome" where
  "lrem V st db key count value =
     list_mut st db key (\<lambda>l.
       let l' =
         (if count = 0 then vec_collect V (filter (\<lambda>v. v \<noteq> value) (vec_iter V l))
          else if count > 0
          then lrem_loop (vec_push_back V) (nat count) value 0 (vec_new V) (vec_iter V l)
          else lrem_loop (vec_push_front V) (nat (- count)) value 0 (vec_new V) (rev (vec_iter V l)))
       in (Ok (), unless_empty V l'))"

text \<open>The two index positions of \<open>ltrim\<close> and \<open>lrange\<close>, normalized as the source does.\<close>

definition range_pos :: "i64 \<Rightarrow> i64 \<Rightarrow> usize" where
  "range_pos len i = (if i < 0 then nat (max (len + i) 0) else nat (max (min i (len - 1)) 0))"

definition ltrim ::
  "'v vec_ops \<Rightarrow> ('v, 'i) StorageInner \<Rightarrow> u64 \<Rightarrow> bytes \<Rightarrow> i64 \<Rightarrow> i64 \<Rightarrow> ('v, 'i, unit) outcome" where
  "ltrim V st db key start stop =
     list_mut st db key (\<lambda>l.
       let len = int (vec_len V l)
       in if len = 0 then (Ok (), Some l)
          else
            let start_pos = range_pos len start; stop_pos = range_pos len stop
            in if start_pos > stop_pos \<or> start_pos \<ge> nat len then (Ok (), None)
               else let desired_len = stop_pos - start_pos + 1
                    in (Ok (), unless_empty V (vec_take V (vec_skip V l start_pos) desired_len)))"

definition linsert ::
  "'v vec_ops \<Rightarrow> ('v, 'i) StorageInner \<Rightarrow> u64 \<Rightarrow> bytes \<Rightarrow> bool \<Rightarrow> bytes \<Rightarrow> bytes \<Rightarrow> ('v, 'i, unit) outcome" where
  "linsert V st db key before pivot value =
     list_mut st db key (\<lambda>l.
       (Ok (), Some (case find (\<lambda>i. vec_get V l i = Some pivot) [0 ..< vec_len V l] of
          None \<Rightarrow> l
        | Some i \<Rightarrow> vec_insert V l (if before then i else i + 1) value)))"

definition lset ::
  "'v vec_ops \<Rightarrow> ('v, 'i) StorageInner \<Rightarrow> u64 \<Rightarrow> bytes \<Rightarrow> i64 \<Rightarrow> bytes \<Rightarrow> ('v, 'i, unit) outcome" where
  "lset V st db key idx value =
     list_mut st db key (\<lambda>l.
       let len = int (vec_len V l);
           pos = (if idx < 0 then len + idx else idx)
       in (Ok (), Some (if pos \<ge> 0 \<and> pos < len then vec_update V l (nat pos) value else l)))"

section \<open>Moving between lists\<close>

text \<open>The second half of \<open>rpoplpush\<close> and \<open>lmove\<close>: the destination is checked after the source has lost its element.\<close>

definition push_dest ::
  "'v vec_ops \<Rightarrow> ('v, 'i) StorageInner \<Rightarrow> u64 \<Rightarrow> bytes \<Rightarrow> bool \<Rightarrow> bytes \<Rightarrow> ('v, 'i, unit) outcome" where
  "push_dest V st db dest_key to_left popped =
     (let m = db_entry st db
      in case list_entry V (bm_get m dest_key) of
           None \<Rightarrow> (Err WrongType, put_db st db m)
         | Some d \<Rightarrow>
             (Ok (), put_db st db (bm_insert dest_key
                (List (if to_left then vec_push_front V d popped else vec_push_back V d popped)) m)))"

definition rpoplpush ::
  "'v vec_ops \<Rightarrow> ('v, 'i) StorageInner \<Rightarrow> u64 \<Rightarrow> bytes \<Rightarrow> bytes \<Rightarrow> ('v, 'i, unit) outcome" where
  "rpoplpush V st db source_key dest_key =
     (if source_key = dest_key then
        list_mut st db source_key (\<lambda>l.
          if \<not> vec_is_empty V l then
            (case vec_pop_back V l of
               (Some popped, l') \<Rightarrow> (Ok (), Some (vec_push_front V l' popped))
             | (None, l') \<Rightarrow> (Err Panic, Some l'))
          else (Ok (), Some l))
      else
        case bm_get (smap st) db of
          None \<Rightarrow> (Ok (), st)
        | Some m \<Rightarrow>
            (case bm_get m source_key of
               None \<Rightarrow> (Ok (), st)
             | Some (List l) \<Rightarrow>
                 (if vec_is_empty V l then (Ok (), st)
                  else
                    case vec_pop_back V l of
                      (None, l') \<Rightarrow> (Err Panic, st)
                    | (Some popped, l') \<Rightarrow>
                        let m1 = (if vec_is_empty V l' then bm_remove source_key m
                                  else bm_insert source_key (List l') m)
                        in push_dest V (put_db st db m1) db dest_key True popped)
             | Some _ \<Rightarrow> (Err WrongType, st)))"

text \<open>Taking an element off one end: \<open>head\<close> and \<open>skip(1)\<close>, or \<open>pop_back\<close>.\<close>

definition pop_end :: "'v vec_ops \<Rightarrow> bool \<Rightarrow> 'v \<Rightarrow> bytes option \<times> 'v" where
  "pop_end V from_left l = (if from_left then (vec_head V l, vec_skip V l 1) else vec_pop_back V l)"

definition lmove ::
  "'v vec_ops \<Rightarrow> ('v, 'i) StorageInner \<Rightarrow> u64 \<Rightarrow> bytes \<Rightarrow> bytes \<Rightarrow> bool \<Rightarrow> bool \<Rightarrow> ('v, 'i, unit) outcome" where
  "lmove V st db source_key dest_key from_left to_left =
     (if source_key = dest_key then
        list_mut st db source_key (\<lambda>l.
          if \<not> vec_is_empty V l then
            (case pop_end V from_left l of
               (Some popped, l') \<Rightarrow>
                 (Ok (), Some (if to_left then vec_push_front V l' popped else vec_push_back V l' popped))
             | (None, l') \<Rightarrow> (Err Panic, Some l'))
          else (Ok (), Some l))
      else
        case bm_get (smap st) db of
          None \<Rightarrow> (Ok (), st)
        | Some m \<Rightarrow>
            (case bm_get m source_key of
               None \<Rightarrow> (Ok (), st)
             | Some (List l) \<Rightarrow>
                 (if vec_is_empty V l then (Ok (), st)
                  else
                    case pop_end V from_left l of
                      (None, l') \<Rightarrow> (Err Panic, st)
                    | (Some popped, l') \<Rightarrow>
                        let m1 = (if vec_is_empty V l' then bm_remove source_key m
                                  else bm_insert source_key (List l') m)
                        in push_dest V (put_db st db m1) db dest_key to_left popped)
             | Some _ \<Rightarrow> (Err WrongType, st)))"

section \<open>Readers\<close>

definition llen :: "'v vec_ops \<Rightarrow> ('v, 'i) StorageInner \<Rightarrow> u64 \<Rightarrow> bytes \<Rightarrow> usize result" where
  "llen V st db key =
     (case bm_get (smap st) db of
        None \<Rightarrow> Ok 0
      | Some m \<Rightarrow>
          (case bm_get m key of
             None \<Rightarrow> Ok 0
           | Some (List l) \<Rightarrow> Ok (vec_len V l)
           | Some _ \<Rightarrow> Err WrongType))"

definition lrange ::
  "'v vec_ops \<Rightarrow> ('v, 'i) StorageInner \<Rightarrow> u64 \<Rightarrow> bytes \<Rightarrow> i64 \<Rightarrow> i64 \<Rightarrow> bytes list result" where
  "lrange V st db key start stop =
     (case bm_get (smap st) db of
        None \<Rightarrow> Ok []
      | Some m \<Rightarrow>
          (case bm_get m key of
             None \<Rightarrow> Ok []
           | Some (List l) \<Rightarrow>
               (let len = int (vec_len V l)
                in if len = 0 then Ok []
                   else
                     let start_pos = range_pos len start; stop_pos = range_pos len stop
                     in if start_pos > stop_pos \<or> start_pos \<ge> nat len then Ok []
                        else Ok (take (stop_pos - start_pos + 1) (drop start_pos (vec_iter V l))))
           | Some _ \<Rightarrow> Err WrongType))"

section \<open>Specifications\<close>

text \<open>A list that loses its last element is deleted.\<close>

definition alist :: "bytes list \<Rightarrow> avalue option" where
  "alist xs = (if xs = [] then None else Some (AList xs))"

fun spec_list_mut :: "(bytes list \<Rightarrow> avalue option) \<Rightarrow> transformer" where
  "spec_list_mut f None = (Ok (), None)"
| "spec_list_mut f (Some (AList xs)) = (Ok (), f xs)"
| "spec_list_mut f a = (Err WrongType, a)"

definition pushed :: "bool \<Rightarrow> bytes list \<Rightarrow> bytes list \<Rightarrow> bytes list" where
  "pushed left vs xs = (if left then rev vs @ xs else xs @ vs)"

fun spec_push :: "bool \<Rightarrow> bytes list \<Rightarrow> transformer" where
  "spec_push left vs None = (Ok (), Some (AList (pushed left vs [])))"
| "spec_push left vs (Some (AList xs)) = (Ok (), Some (AList (pushed left vs xs)))"
| "spec_push left vs a = (Err WrongType, a)"

fun remove_n :: "nat \<Rightarrow> 'a \<Rightarrow> 'a list \<Rightarrow> 'a list" where
  "remove_n n x [] = []"
| "remove_n n x (y # ys) =
     (if y = x \<and> 0 < n then remove_n (n - 1) x ys else y # remove_n n x ys)"

definition removed_list :: "i64 \<Rightarrow> bytes \<Rightarrow> bytes list \<Rightarrow> bytes list" where
  "removed_list count x xs =
     (if count = 0 then filter (\<lambda>y. y \<noteq> x) xs
      else if count > 0 then remove_n (nat count) x xs
      else rev (remove_n (nat (- count)) x (rev xs)))"

definition clamped_range :: "i64 \<Rightarrow> i64 \<Rightarrow> 'a list \<Rightarrow> 'a list" where
  "clamped_range start stop xs =
     (let n = int (length xs) in take (Suc (range_pos n stop) - range_pos n start) (drop (range_pos n start) xs))"

fun spec_linsert :: "bool \<Rightarrow> bytes \<Rightarrow> bytes \<Rightarrow> bytes list \<Rightarrow> bytes list" where
  "spec_linsert before pivot x [] = []"
| "spec_linsert before pivot x (y # ys) =
     (if y = pivot then (if before then x # y # ys else y # x # ys)
      else y # spec_linsert before pivot x ys)"

definition spec_lset :: "i64 \<Rightarrow> bytes \<Rightarrow> bytes list \<Rightarrow> bytes list" where
  "spec_lset i x xs =
     (let n = int (length xs); pos = (if i < 0 then n + i else i)
      in if 0 \<le> pos \<and> pos < n then xs[nat pos := x] else xs)"

definition spec_lmove :: "u64 \<Rightarrow> bytes \<Rightarrow> bytes \<Rightarrow> bool \<Rightarrow> bool \<Rightarrow> ks_transformer" where
  "spec_lmove db src dst from_left to_left K =
     (case K db src of
        None \<Rightarrow> (Ok (), K)
      | Some (AList xs) \<Rightarrow>
          if xs = [] then (Ok (), K)
          else let x = (if from_left then hd xs else last xs);
                   rest = (if from_left then tl xs else butlast xs)
               in if src = dst then (Ok (), ks_update db src (Some (AList (pushed to_left [x] rest))) K)
                  else at_key db dst (spec_push to_left [x]) (ks_update db src (alist rest) K)
      | Some _ \<Rightarrow> (Err WrongType, K))"

section \<open>The vector loops\<close>

lemma remove_n_loop:
  assumes "\<And>l x. f (push l x) = f l @ [x]"
  shows "removed \<le> n \<Longrightarrow> f (lrem_loop push n x removed l xs) = f l @ remove_n (n - removed) x xs"
  by (induction xs arbitrary: l removed) (auto simp: assms)

lemma range_pos_less: "0 < n \<Longrightarrow> int (range_pos (int n) i) < int n"
  by (auto simp: range_pos_def)

lemma find_pivot:
  "(case find (\<lambda>i. (if i < length xs then Some (xs ! i) else None) = Some p) [0 ..< length xs] of
      None \<Rightarrow> xs
    | Some i \<Rightarrow> take (if before then i else i + 1) xs @ v # drop (if before then i else i + 1) xs) =
   spec_linsert before p v xs"
proof (induction xs)
  case (Cons x xs)
  let ?f = "\<lambda>xs i. (if i < length xs then Some (xs ! i) else None) = Some p"
  have s: "find (?f (x # xs)) (map Suc ns) = map_option Suc (find (?f xs) ns)" for ns
    by (induction ns) auto
  have u: "[0 ..< length (x # xs)] = 0 # map Suc [0 ..< length xs]"
    by (simp add: upt_conv_Cons map_Suc_upt del: upt_Suc)
  show ?case
  proof (cases "x = p")
    case True
    then show ?thesis unfolding u by simp
  next
    case False
    then have "find (?f (x # xs)) (0 # map Suc [0 ..< length xs]) = map_option Suc (find (?f xs) [0 ..< length xs])"
      by (simp only: find.simps s) simp
    then show ?thesis
      unfolding u using Cons False by (auto split: option.splits if_splits)
  qed
qed simp

context im_vector
begin

lemma is_empty_iter: "vec_is_empty V l \<longleftrightarrow> vec_iter V l = []"
  by (simp add: vec_is_empty_def len_iter)

lemma unless_empty_iter:
  "map_option (\<lambda>l. AList (vec_iter V l)) (unless_empty V l) = alist (vec_iter V l)"
  by (simp add: unless_empty_def is_empty_iter alist_def)

lemma lrem_back:
  "vec_iter V (lrem_loop (vec_push_back V) n x 0 (vec_new V) xs) = remove_n n x xs"
  using remove_n_loop [of "vec_iter V" "vec_push_back V" 0 n x "vec_new V" xs] by (simp add: vec_simps)

lemma lrem_front:
  "vec_iter V (lrem_loop (vec_push_front V) n x 0 (vec_new V) xs) = rev (remove_n n x xs)"
  using remove_n_loop [of "\<lambda>l. rev (vec_iter V l)" "vec_push_front V" 0 n x "vec_new V" xs]
  by (simp add: vec_simps rev_swap)

lemma iter_skip_loop:
  "n \<le> length (vec_iter V l) \<Longrightarrow> vec_iter V (((\<lambda>l. vec_skip V l 1) ^^ n) l) = drop n (vec_iter V l)"
  by (induction n) (simp_all add: vec_simps)

lemma iter_pop_loop:
  "n \<le> length (vec_iter V l) \<Longrightarrow>
     vec_iter V (((\<lambda>l. snd (vec_pop_back V l)) ^^ n) l) = take (length (vec_iter V l) - n) (vec_iter V l)"
  by (induction n) (simp_all add: vec_simps butlast_take)

text \<open>Every writer that needs an existing list.\<close>

lemma list_mut_command:
  fixes I :: "'i index_ops"
  assumes "\<And>l. fst (g l) = Ok ()"
    and "\<And>l. map_option (\<lambda>l. AList (vec_iter V l)) (snd (g l)) = f (vec_iter V l)"
  shows "key_command V S I (\<lambda>st. list_mut st db key g) db key (spec_list_mut f)"
proof (rule key_commandI)
  fix st :: "('v, 'i) StorageInner"
  assume st: "storage_ok S I st"
  show "storage_ok S I (snd (list_mut st db key g))"
    using st by (auto simp: list_mut_def split: option.splits StorageValue.splits prod.splits
        intro!: wf_intros intro: db_ok_get)
  have g: "g l = (Ok (), snd (g l))" for l
    using assms(1) [of l] by (simp add: prod_eq_iff)
  show "fst (list_mut st db key g) = fst (spec_list_mut f (map_option (abs_value V) (lookup st db key)))"
    by (subst list_mut_def, subst g) (auto simp: lookup_def split: option.split StorageValue.split)
  show "map_option (abs_value V) (lookup (snd (list_mut st db key g)) db key) =
      snd (spec_list_mut f (map_option (abs_value V) (lookup st db key)))"
    by (subst list_mut_def, subst g)
      (auto simp: cmd_simps simp flip: assms(2) split: option.split StorageValue.split)
  show "lookup (snd (list_mut st db key g)) db' k = lookup st db' k" if "(db', k) \<noteq> (db, key)" for db' k
    using that by (auto simp: list_mut_def cmd_simps split: option.splits StorageValue.splits prod.splits)
qed

text \<open>The writers that create the list, and the second half of the moves.\<close>

lemma push_command:
  fixes I :: "'i index_ops"
  assumes cmd: "\<And>st. cmd st =
      (let m = db_entry st db
       in case list_entry V (bm_get m key) of
            None \<Rightarrow> (Err WrongType, put_db st db m)
          | Some l \<Rightarrow> (Ok (), put_db st db (bm_insert key (List (g l)) m)))"
    and g: "\<And>l. vec_iter V (g l) = pushed left vs (vec_iter V l)"
  shows "key_command V S I cmd db key (spec_push left vs)"
proof (rule key_commandI)
  fix st :: "('v, 'i) StorageInner"
  assume st: "storage_ok S I st"
  show "storage_ok S I (snd (cmd st))"
    using st by (auto simp: cmd Let_def lookup_simps split: option.splits intro!: wf_intros)
  have "fst (cmd st) = fst (spec_push left vs (map_option (abs_value V) (lookup st db key))) \<and>
      map_option (abs_value V) (lookup (snd (cmd st)) db key) =
        snd (spec_push left vs (map_option (abs_value V) (lookup st db key)))"
  proof (cases "lookup st db key")
    case (Some v)
    then show ?thesis by (cases v) (simp_all add: cmd cmd_simps g)
  qed (simp add: cmd cmd_simps g iter_new)
  then show "fst (cmd st) = fst (spec_push left vs (map_option (abs_value V) (lookup st db key)))"
    "map_option (abs_value V) (lookup (snd (cmd st)) db key) =
        snd (spec_push left vs (map_option (abs_value V) (lookup st db key)))"
    by simp_all
  show "lookup (snd (cmd st)) db' k = lookup st db' k" if "(db', k) \<noteq> (db, key)" for db' k
    using that by (auto simp: cmd cmd_simps split: option.splits)
qed

lemma lpush_refines: "key_command V S I (\<lambda>st. lpush V st db key vs) db key (spec_push True vs)"
  by (rule push_command [OF lpush_def]) (simp add: iter_fold_push_front pushed_def)

lemma rpush_refines: "key_command V S I (\<lambda>st. rpush V st db key vs) db key (spec_push False vs)"
  by (rule push_command [OF rpush_def]) (simp add: iter_fold_push_back pushed_def)

lemma push_dest_refines:
  "key_command V S I (\<lambda>st. push_dest V st db key left x) db key (spec_push left [x])"
  by (rule push_command [OF push_dest_def]) (simp add: vec_simps pushed_def)

lemma lpop_refines: "key_command V S I (\<lambda>st. lpop V st db key) db key (spec_list_mut (\<lambda>xs. alist (tl xs)))"
  unfolding lpop_def
  by (rule list_mut_command)
    (auto simp: unless_empty_iter is_empty_iter Let_def iter_skip Suc_le_eq drop_Suc)

lemma rpop_refines:
  "key_command V S I (\<lambda>st. rpop V st db key) db key (spec_list_mut (\<lambda>xs. alist (butlast xs)))"
  unfolding rpop_def
  by (rule list_mut_command) (simp_all add: unless_empty_iter is_empty_iter Let_def pop_back_snd)

lemma lpushx_refines:
  "key_command V S I (\<lambda>st. lpushx V st db key vs) db key
     (spec_list_mut (\<lambda>xs. Some (AList (pushed True vs xs))))"
  unfolding lpushx_def
  by (rule list_mut_command) (simp_all add: iter_fold_push_front pushed_def)

lemma rpushx_refines:
  "key_command V S I (\<lambda>st. rpushx V st db key vs) db key
     (spec_list_mut (\<lambda>xs. Some (AList (pushed False vs xs))))"
  unfolding rpushx_def
  by (rule list_mut_command) (simp_all add: iter_fold_push_back pushed_def)

lemma lpop_count_refines:
  "key_command V S I (\<lambda>st. lpop_count V st db key n) db key (spec_list_mut (\<lambda>xs. alist (drop n xs)))"
  unfolding lpop_count_def
  by (rule list_mut_command)
    (auto simp: unless_empty_iter Let_def iter_skip_loop [simplified] len_iter min_def)

lemma rpop_count_refines:
  "key_command V S I (\<lambda>st. rpop_count V st db key n) db key
     (spec_list_mut (\<lambda>xs. alist (take (length xs - n) xs)))"
  unfolding rpop_count_def
  by (rule list_mut_command) (auto simp: unless_empty_iter Let_def iter_pop_loop len_iter min_def)

lemma lrem_refines:
  "key_command V S I (\<lambda>st. lrem V st db key n x) db key
     (spec_list_mut (\<lambda>xs. alist (removed_list n x xs)))"
  unfolding lrem_def
  by (rule list_mut_command)
    (simp_all add: unless_empty_iter Let_def lrem_back lrem_front iter_collect removed_list_def)

lemma linsert_refines:
  "key_command V S I (\<lambda>st. linsert V st db key before p x) db key
     (spec_list_mut (\<lambda>xs. Some (AList (spec_linsert before p x xs))))"
  unfolding linsert_def
proof (rule list_mut_command)
  fix l
  let ?F = "find (\<lambda>i. (if i < length (vec_iter V l) then Some (vec_iter V l ! i) else None) = Some p)
    [0 ..< length (vec_iter V l)]"
  have e: "vec_iter V (case ?F of None \<Rightarrow> l | Some i \<Rightarrow> vec_insert V l (if before then i else i + 1) x) =
      spec_linsert before p x (vec_iter V l)"
  proof (cases ?F)
    case (Some i)
    then have "i < length (vec_iter V l)"
      by (auto simp: find_Some_iff)
    then show ?thesis
      unfolding find_pivot [symmetric] Some by (simp add: iter_insert)
  qed (simp only: find_pivot [symmetric] option.case)
  show "map_option (\<lambda>l. AList (vec_iter V l))
      (snd (Ok (), Some (case find (\<lambda>i. vec_get V l i = Some p) [0 ..< vec_len V l] of
          None \<Rightarrow> l | Some i \<Rightarrow> vec_insert V l (if before then i else i + 1) x))) =
      Some (AList (spec_linsert before p x (vec_iter V l)))"
    unfolding len_iter get_iter e [symmetric] by (simp only: snd_conv option.map)
qed simp

lemma lset_refines:
  "key_command V S I (\<lambda>st. lset V st db key i x) db key
     (spec_list_mut (\<lambda>xs. Some (AList (spec_lset i x xs))))"
  unfolding lset_def
  by (rule list_mut_command) (auto simp: Let_def len_iter iter_update spec_lset_def)

lemma ltrim_refines:
  "key_command V S I (\<lambda>st. ltrim V st db key i j) db key
     (spec_list_mut (\<lambda>xs. if xs = [] then Some (AList []) else alist (clamped_range i j xs)))"
  unfolding ltrim_def
proof (rule list_mut_command)
  fix l
  let ?n = "length (vec_iter V l)"
  show "map_option (\<lambda>l. AList (vec_iter V l)) (snd
      (let len = int (vec_len V l)
       in if len = 0 then (Ok (), Some l)
          else
            let start_pos = range_pos len i; stop_pos = range_pos len j
            in if start_pos > stop_pos \<or> start_pos \<ge> nat len then (Ok (), None)
               else let desired_len = stop_pos - start_pos + 1
                    in (Ok (), unless_empty V (vec_take V (vec_skip V l start_pos) desired_len)))) =
      (if vec_iter V l = [] then Some (AList []) else alist (clamped_range i j (vec_iter V l)))"
  proof (cases "vec_iter V l = []")
    case False
    then have p: "range_pos (int ?n) i < ?n" "range_pos (int ?n) j < ?n"
      using range_pos_less [of ?n i] range_pos_less [of ?n j] by auto
    show ?thesis
    proof (cases "range_pos (int ?n) i \<le> range_pos (int ?n) j")
      case True
      then have "vec_iter V (vec_take V (vec_skip V l (range_pos (int ?n) i))
          (Suc (range_pos (int ?n) j - range_pos (int ?n) i))) = clamped_range i j (vec_iter V l)"
        using p by (subst iter_take; simp add: iter_skip clamped_range_def Let_def Suc_diff_le)
      with True False p show ?thesis
        by (simp add: Let_def len_iter unless_empty_iter not_less not_le)
    qed (use False p in \<open>simp add: Let_def len_iter clamped_range_def alist_def\<close>)
  qed (simp add: Let_def len_iter)
qed (simp add: Let_def)

lemma pop_end_iter:
  assumes "vec_iter V l \<noteq> []"
  shows "fst (pop_end V left l) = Some (if left then hd (vec_iter V l) else last (vec_iter V l))"
    and "vec_iter V (snd (pop_end V left l)) = (if left then tl (vec_iter V l) else butlast (vec_iter V l))"
  using assms
  by (auto simp: pop_end_def head_iter pop_back_fst pop_back_snd iter_skip Suc_le_eq drop_Suc neq_Nil_conv)

text \<open>A move to another list is a pop of the source followed by a push to the destination.\<close>

lemma lmove_other:
  assumes "src \<noteq> dst" "lookup st db src = Some (List l)" "vec_iter V l \<noteq> []"
  shows "lmove V st db src dst fl tol =
    push_dest V (snd (list_mut st db src (\<lambda>_. (Ok (), unless_empty V (snd (pop_end V fl l))))))
      db dst tol (the (fst (pop_end V fl l)))"
proof -
  obtain m where m: "bm_get (smap st) db = Some m" "bm_get m src = Some (List l)"
    using assms(2) by (auto simp: lookup_def split: option.splits)
  obtain x l' where "pop_end V fl l = (Some x, l')"
    using pop_end_iter(1) [OF assms(3), of fl] by (cases "pop_end V fl l") auto
  then show ?thesis
    using assms(1,3) m
    by (simp add: lmove_def list_mut_def unless_empty_def is_empty_iter split: option.splits)
qed

lemma lmove_same:
  fixes I :: "'i index_ops"
  shows "key_command V S I (\<lambda>st. lmove V st db key key fl tol) db key
    (spec_list_mut (\<lambda>xs. Some (AList (if xs = [] then [] else
       pushed tol [if fl then hd xs else last xs] (if fl then tl xs else butlast xs)))))"
proof -
  let ?g = "\<lambda>l. if \<not> vec_is_empty V l then
      (case pop_end V fl l of
         (Some popped, l') \<Rightarrow> (Ok (), Some (if tol then vec_push_front V l' popped else vec_push_back V l' popped))
       | (None, l') \<Rightarrow> (Err Panic, Some l'))
    else (Ok (), Some l)"
  have "fst (?g l) = Ok () \<and> map_option (\<lambda>l. AList (vec_iter V l)) (snd (?g l)) =
      Some (AList (if vec_iter V l = [] then [] else
        pushed tol [if fl then hd (vec_iter V l) else last (vec_iter V l)]
          (if fl then tl (vec_iter V l) else butlast (vec_iter V l))))" for l
  proof (cases "vec_iter V l = []")
    case False
    with pop_end_iter [OF False, of fl] show ?thesis
      by (cases "pop_end V fl l") (auto simp: is_empty_iter vec_simps pushed_def)
  qed (simp add: is_empty_iter)
  then have "key_command V S I (\<lambda>st. list_mut st db key ?g) db key
    (spec_list_mut (\<lambda>xs. Some (AList (if xs = [] then [] else
       pushed tol [if fl then hd xs else last xs] (if fl then tl xs else butlast xs)))))"
    by (intro list_mut_command) blast+
  then show ?thesis by (simp add: lmove_def)
qed

lemma lmove_idle:
  assumes "src \<noteq> dst" "\<And>l. lookup st db src = Some (List l) \<Longrightarrow> vec_iter V l = []"
  shows "lmove V st db src dst fl tol =
    (case lookup st db src of None \<Rightarrow> Ok () | Some (List _) \<Rightarrow> Ok () | Some _ \<Rightarrow> Err WrongType, st)"
proof (cases "bm_get (smap st) db")
  case (Some m)
  show ?thesis
  proof (cases "bm_get m src")
    case (Some v)
    with \<open>bm_get (smap st) db = Some m\<close> assms show ?thesis
      by (cases v) (simp_all add: lmove_def lookup_def is_empty_iter)
  qed (use assms(1) Some in \<open>simp add: lmove_def lookup_def\<close>)
qed (use assms(1) in \<open>simp add: lmove_def lookup_def\<close>)

lemma lmove_refines:
  fixes I :: "'i index_ops"
  shows "keyspace_command V S I (\<lambda>st. lmove V st db src dst fl tol) (spec_lmove db src dst fl tol)"
proof -
  have "storage_ok S I (snd (lmove V st db src dst fl tol)) \<and>
    map_prod id (abs_storage V) (lmove V st db src dst fl tol) = spec_lmove db src dst fl tol (abs_storage V st)"
    if st: "storage_ok S I st" for st :: "('v, 'i) StorageInner"
  proof (cases "src = dst")
    case True
    have "map_prod id (abs_storage V) (lmove V st db src src fl tol) = at_key db src
      (spec_list_mut (\<lambda>xs. Some (AList (if xs = [] then [] else
        pushed tol [if fl then hd xs else last xs] (if fl then tl xs else butlast xs))))) (abs_storage V st)"
      by (rule key_command.key_refines [OF lmove_same st])
    then show ?thesis
      unfolding True using key_command.ok_cmd [OF lmove_same st]
      by (auto simp: spec_lmove_def at_key_def ks_update_def fun_eq_iff split: option.split avalue.split)
  next
    case other: False
    show ?thesis
    proof (cases "\<exists>l. lookup st db src = Some (List l) \<and> vec_iter V l \<noteq> []")
      case True
      then obtain l where l: "lookup st db src = Some (List l)" "vec_iter V l \<noteq> []" by blast
      let ?e = "pop_end V fl l" let ?xs = "vec_iter V l"
      let ?pop = "\<lambda>st :: ('v, 'i) StorageInner. list_mut st db src (\<lambda>_. (Ok (), unless_empty V (snd ?e)))"
      let ?rest = "if fl then tl ?xs else butlast ?xs" let ?x = "if fl then hd ?xs else last ?xs"
      have pop: "key_command V S I ?pop db src (spec_list_mut (\<lambda>_. alist ?rest))"
        by (rule list_mut_command) (simp_all add: unless_empty_iter pop_end_iter(2) [OF l(2)])
      have K: "abs_storage V st db src = Some (AList ?xs)"
        using l by (simp add: abs_storage_def)
      have "abs_storage V (snd (?pop st)) = ks_update db src (alist ?rest) (abs_storage V st)"
        using key_command.abs_cmd [OF pop st] K by simp
      with key_command.key_refines [OF push_dest_refines key_command.ok_cmd [OF pop st], of db dst tol ?x]
        key_command.ok_cmd [OF push_dest_refines key_command.ok_cmd [OF pop st], of db dst tol ?x]
      show ?thesis
        using other K l pop_end_iter(1) [OF l(2), of fl]
        by (simp add: lmove_other [OF other l] spec_lmove_def)
    next
      case False
      then show ?thesis
        using st lmove_idle [OF other, of st db fl tol]
        by (auto simp: spec_lmove_def abs_storage_def split: option.split StorageValue.split)
    qed
  qed
  then show ?thesis by unfold_locales blast+
qed

lemma rpoplpush_lmove: "rpoplpush V st db src dst = lmove V st db src dst False True"
  unfolding rpoplpush_def lmove_def pop_end_def by (simp only: if_False if_True)

lemma llen_refines:
  "llen V st db key =
     (case abs_storage V st db key of None \<Rightarrow> Ok 0 | Some (AList xs) \<Rightarrow> Ok (length xs) | Some _ \<Rightarrow> Err WrongType)"
  by (auto simp: llen_def abs_storage_def lookup_def len_iter split: option.splits StorageValue.split)

lemma lrange_refines:
  "lrange V st db key i j =
     (case abs_storage V st db key of
        None \<Rightarrow> Ok []
      | Some (AList xs) \<Rightarrow> Ok (clamped_range i j xs)
      | Some _ \<Rightarrow> Err WrongType)"
proof -
  have "(let len = int (vec_len V l)
      in if len = 0 then Ok []
         else let start_pos = range_pos len i; stop_pos = range_pos len j
              in if start_pos > stop_pos \<or> start_pos \<ge> nat len then Ok []
                 else Ok (take (stop_pos - start_pos + 1) (drop start_pos (vec_iter V l)))) =
      (Ok (clamped_range i j (vec_iter V l)) :: bytes list result)" for l
    by (cases "vec_iter V l = []")
      (auto simp: clamped_range_def len_iter Let_def Suc_diff_le not_less)
  then show ?thesis
    by (auto simp: lrange_def abs_storage_def lookup_def split: option.splits StorageValue.split)
qed

end

section \<open>The clamped range and the range Redis documents\<close>

text \<open>
  Redis takes a start past the end, and a stop before the beginning, as an empty range. The source clamps
  both to the nearest element instead; the two agree on every other pair of indices.
\<close>

definition redis_range :: "i64 \<Rightarrow> i64 \<Rightarrow> 'a list \<Rightarrow> 'a list" where
  "redis_range start stop xs =
     (let n = int (length xs);
          a = max 0 (if start < 0 then n + start else start);
          b = min (n - 1) (if stop < 0 then n + stop else stop)
      in if a > b then [] else take (nat (b - a + 1)) (drop (nat a) xs))"

lemma clamped_redis:
  assumes "start < int (length xs)" "- int (length xs) \<le> stop"
  shows "clamped_range start stop xs = redis_range start stop xs"
proof -
  let ?n = "int (length xs)"
  let ?a = "max 0 (if start < 0 then ?n + start else start)"
  let ?b = "min (?n - 1) (if stop < 0 then ?n + stop else stop)"
  have "xs = [] \<or> int (range_pos ?n start) = ?a \<and> int (range_pos ?n stop) = ?b"
    using assms by (auto simp: range_pos_def)
  then show ?thesis
  proof
    assume p: "int (range_pos ?n start) = ?a \<and> int (range_pos ?n stop) = ?b"
    then have "Suc (range_pos ?n stop) - range_pos ?n start = nat (?b - ?a + 1)" "range_pos ?n start = nat ?a"
      by linarith+
    then show ?thesis
      by (simp add: clamped_range_def redis_range_def Let_def)
  qed (simp add: clamped_range_def redis_range_def)
qed

lemma clamped_past_end:
  assumes "xs \<noteq> []" "int (length xs) \<le> start" "start \<le> stop"
  shows "clamped_range start stop xs = [last xs]" "redis_range start stop xs = []"
proof -
  have "range_pos (int (length xs)) start = length xs - 1" "range_pos (int (length xs)) stop = length xs - 1"
    using assms by (auto simp: range_pos_def)
  then show "clamped_range start stop xs = [last xs]"
    using assms(1) Cons_nth_drop_Suc [of "length xs - 1" xs]
    by (simp add: clamped_range_def last_conv_nth)
qed (use assms in \<open>auto simp: redis_range_def\<close>)

section \<open>Properties\<close>

abbreviation items_of :: "'v vec_ops \<Rightarrow> ('v, 'i) StorageInner \<Rightarrow> u64 \<Rightarrow> bytes \<Rightarrow> bytes list" where
  "items_of V st db key \<equiv> listing (lrange V st db key 0 (- 1))"

lemma clamped_all: "clamped_range 0 (- 1) xs = xs"
  by (simp add: clamped_range_def range_pos_def Let_def)

lemma remove_n_split:
  "\<exists>pre post. xs = pre @ post \<and> remove_n n x xs = filter (\<lambda>y. y \<noteq> x) pre @ post \<and>
     (count_list pre x = n \<or> post = [] \<and> count_list pre x < n)"
proof (induction xs arbitrary: n)
  case (Cons y ys)
  show ?case
  proof (cases "n = 0")
    case True
    have "remove_n 0 x ys = ys" by (induction ys) auto
    with True show ?thesis by (intro exI [of _ "[]"] exI [of _ "y # ys"]) simp
  next
    case False
    from Cons.IH [of "if y = x then n - 1 else n"] obtain pre post where
      "ys = pre @ post" "remove_n (if y = x then n - 1 else n) x ys = filter (\<lambda>y. y \<noteq> x) pre @ post"
      "count_list pre x = (if y = x then n - 1 else n) \<or> post = [] \<and> count_list pre x < (if y = x then n - 1 else n)"
      by blast
    with False show ?thesis by (intro exI [of _ "y # pre"] exI [of _ post]) (auto split: if_splits)
  qed
qed auto

context im_vector
begin

lemma items_list:
  "lrange V st db key 0 (- 1) = Ok xs \<longleftrightarrow>
     (case abs_storage V st db key of None \<Rightarrow> xs = [] | Some (AList ys) \<Rightarrow> xs = ys | Some _ \<Rightarrow> False)"
  by (auto simp: lrange_refines clamped_all split: option.split avalue.split)

lemma items_alist: "abs_storage V st db key = alist xs \<or> abs_storage V st db key = Some (AList xs) \<Longrightarrow> items_of V st db key = xs"
  by (auto simp: lrange_refines clamped_all alist_def split: if_splits)

lemma items_mut:
  assumes "key_command V S I cmd db key (spec_list_mut (\<lambda>xs. alist (f xs)))" "storage_ok S I st"
    "lrange V st db key 0 (- 1) = Ok xs" "f [] = []"
  shows "fst (cmd st) = Ok () \<and> items_of V (snd (cmd st)) db key = f xs"
  using key_command.result_cmd [OF assms(1,2)] key_command.this_key [OF assms(1,2)] assms(3,4)
    items_alist [of "snd (cmd st)" db key "f xs"]
  by (auto simp: items_list alist_def split: option.splits avalue.splits)

lemma items_push:
  assumes "key_command V S I cmd db key (spec_push left vs)" "storage_ok S I st"
    "lrange V st db key 0 (- 1) = Ok xs"
  shows "fst (cmd st) = Ok () \<and> lrange V (snd (cmd st)) db key 0 (- 1) = Ok (pushed left vs xs)"
  using key_command.result_cmd [OF assms(1,2)] key_command.this_key [OF assms(1,2)] assms(3)
  by (auto simp: items_list split: option.splits avalue.splits)

lemma lmove_items:
  assumes "storage_ok S I st" "src \<noteq> dst" "lrange V st db src 0 (- 1) = Ok xs" "lrange V st db dst 0 (- 1) = Ok ys"
    "xs \<noteq> []"
  shows "fst (lmove V st db src dst fl tol) = Ok () \<and>
    items_of V (snd (lmove V st db src dst fl tol)) db src = (if fl then tl xs else butlast xs) \<and>
    items_of V (snd (lmove V st db src dst fl tol)) db dst = pushed tol [if fl then hd xs else last xs] ys"
proof -
  have src: "abs_storage V st db src = Some (AList xs)"
    using assms(3,5) by (auto simp: items_list split: option.splits avalue.splits)
  obtain r st' where m: "lmove V st db src dst fl tol = (r, st')" by fastforce
  have st': "r = fst (spec_lmove db src dst fl tol (abs_storage V st))"
    "abs_storage V st' = snd (spec_lmove db src dst fl tol (abs_storage V st))"
    using keyspace_command.refines [OF lmove_refines assms(1), of db src dst fl tol] m by (metis fst_conv snd_conv map_prod_simp id_apply)+
  have "r = Ok () \<and> abs_storage V st' db src = alist (if fl then tl xs else butlast xs) \<and>
      abs_storage V st' db dst = Some (AList (pushed tol [if fl then hd xs else last xs] ys))"
    using src assms(2,4,5) unfolding st'
    by (auto simp: items_list spec_lmove_def at_key_def ks_update_apply Let_def split: option.splits avalue.splits)
  then show ?thesis by (auto simp: m intro!: items_alist)
qed

end

text \<open>
  C34. \<open>lrem\<close> drops the first \<open>n\<close> occurrences of the value for a positive count, the last \<open>- n\<close> for a negative one
  and all of them for 0, and keeps everything else in order.
\<close>

theorem lrem_removes:
  assumes "im_vector V" "storage_ok S I st" "lrange V st db key 0 (- 1) = Ok xs"
  shows "fst (lrem V st db key n x) = Ok () \<and>
    (\<exists>pre post. xs = pre @ post \<and>
       items_of V (snd (lrem V st db key n x)) db key =
         (if n = 0 then filter (\<lambda>y. y \<noteq> x) xs
          else if n > 0 then filter (\<lambda>y. y \<noteq> x) pre @ post
          else pre @ filter (\<lambda>y. y \<noteq> x) post) \<and>
       (n > 0 \<longrightarrow> count_list pre x = nat n \<or> post = [] \<and> count_list pre x < nat n) \<and>
       (n < 0 \<longrightarrow> count_list post x = nat (- n) \<or> pre = [] \<and> count_list post x < nat (- n)))"
proof -
  have m: "fst (lrem V st db key n x) = Ok () \<and> items_of V (snd (lrem V st db key n x)) db key = removed_list n x xs"
    by (rule im_vector.items_mut [OF assms(1) im_vector.lrem_refines [OF assms(1)] assms(2,3)])
      (simp add: removed_list_def)
  consider "n = 0" | "n > 0" | "n < 0" by linarith
  then show ?thesis
  proof cases
    case 2
    then show ?thesis using m remove_n_split [of xs "nat n" x] by (auto simp: removed_list_def)
  next
    case 3
    obtain pre post where p: "rev xs = pre @ post" "remove_n (nat (- n)) x (rev xs) = filter (\<lambda>y. y \<noteq> x) pre @ post"
      "count_list pre x = nat (- n) \<or> post = [] \<and> count_list pre x < nat (- n)"
      using remove_n_split [of "rev xs" "nat (- n)" x] by blast
    then have "xs = rev post @ rev pre" by (metis rev_append rev_rev_ident)
    with 3 m p show ?thesis
      by (intro conjI exI [of _ "rev post"] exI [of _ "rev pre"]) (auto simp: removed_list_def rev_filter count_list_rev)
  qed (use m in \<open>auto simp: removed_list_def\<close>)
qed

text \<open>
  \<open>lmove\<close> between two lists takes the element at the chosen end of the source and puts it at the chosen end of
  the destination, which may be absent; nothing is lost or duplicated.
\<close>

lemma lmove_moves:
  assumes "im_vector V" "storage_ok S I st" "src \<noteq> dst" "xs \<noteq> []"
    "lrange V st db src 0 (- 1) = Ok xs" "lrange V st db dst 0 (- 1) = Ok ys"
  shows "fst (lmove V st db src dst fl tol) = Ok () \<and>
    items_of V (snd (lmove V st db src dst fl tol)) db src = (if fl then tl xs else butlast xs) \<and>
    items_of V (snd (lmove V st db src dst fl tol)) db dst =
      (if tol then (if fl then hd xs else last xs) # ys else ys @ [if fl then hd xs else last xs])"
  using im_vector.lmove_items [OF assms(1-3,5,6,4)] by (simp add: pushed_def)

text \<open>
  \<open>rpoplpush\<close>, written out separately in the source, is \<open>lmove\<close> from the right end to the left end.
\<close>

lemma rpoplpush_is_lmove:
  assumes "im_vector V"
  shows "rpoplpush V st db src dst = lmove V st db src dst False True"
  by (rule im_vector.rpoplpush_lmove [OF assms])

text \<open>
  The pushes put the values in order, the left one reversed, and popping as many elements from the same end
  gives the old list back.
\<close>

lemma push_pop:
  assumes "im_vector V" "storage_ok S I st" "lrange V st db key 0 (- 1) = Ok xs"
  shows "items_of V (snd (lpush V st db key vs)) db key = rev vs @ xs \<and>
    items_of V (snd (lpop_count V (snd (lpush V st db key vs)) db key (length vs))) db key = xs \<and>
    items_of V (snd (rpush V st db key vs)) db key = xs @ vs \<and>
    items_of V (snd (rpop_count V (snd (rpush V st db key vs)) db key (length vs))) db key = xs"
proof -
  note l = im_vector.lpush_refines [OF assms(1)] and r = im_vector.rpush_refines [OF assms(1)]
  note lp = im_vector.items_push [OF assms(1) l assms(2,3), of vs]
  note rp = im_vector.items_push [OF assms(1) r assms(2,3), of vs]
  note lo = im_vector.items_mut [OF assms(1) im_vector.lpop_count_refines [OF assms(1)] key_command.ok_cmd [OF l assms(2), of db key vs] conjunct2 [OF lp], of "length vs"]
  note ro = im_vector.items_mut [OF assms(1) im_vector.rpop_count_refines [OF assms(1)] key_command.ok_cmd [OF r assms(2), of db key vs] conjunct2 [OF rp], of "length vs"]
  show ?thesis using lp rp lo ro by (simp add: pushed_def)
qed

lemma redis_range_Nil: "redis_range i j [] = []"
  by (simp add: redis_range_def Let_def)

text \<open>
  Within the list, \<open>lrange\<close> returns the range Redis documents, negative indices counting from the end.
\<close>

lemma lrange_redis:
  assumes "im_vector V" "lrange V st db key 0 (- 1) = Ok xs" "start < int (length xs)" "- int (length xs) \<le> stop"
  shows "lrange V st db key start stop = Ok (redis_range start stop xs)"
  using assms by (auto simp: im_vector.lrange_refines clamped_all clamped_redis redis_range_Nil split: option.splits avalue.splits)

text \<open>
  C35. A start past the end: the code clamps it to the last element and returns that, where the documented range
  is empty.
\<close>

theorem lrange_past_end:
  assumes "im_vector V" "lrange V st db key 0 (- 1) = Ok xs" "xs \<noteq> []" "int (length xs) \<le> start" "start \<le> stop"
  shows "lrange V st db key start stop = Ok [last xs] \<and> redis_range start stop xs = []"
  using assms by (auto simp: im_vector.lrange_refines clamped_all clamped_past_end split: option.splits avalue.splits)


lemma sample_list: "lrange list_vec sample 0 [108] 0 (- 1) = Ok [[97], [98], [99]]"
  "lrange list_vec sample 0 [107] 0 (- 1) = Ok []"
  by (simp_all add: list_vec.items_list) (simp add: abs_storage_def)

theorem lrem_removes_witness:
  "items_of list_vec (snd (lrem list_vec sample 0 [108] 1 [98])) 0 [108] = [[97], [99]]"
  using lrem_removes [OF list_vec.im_vector_axioms sample_ok sample_list(1), of 1 "[98]"]
  by (auto simp: Cons_eq_append_conv split: if_splits)

lemma lmove_moves_example:
  "items_of list_vec (snd (lmove list_vec sample 0 [108] [107] True True)) 0 [107] = [[97]]"
  using lmove_moves [OF list_vec.im_vector_axioms sample_ok _ _ sample_list, of True True] by simp

lemma push_pop_example:
  "items_of list_vec (snd (lpush list_vec sample 0 [107] [[49], [50]])) 0 [107] = [[50], [49]]"
  using push_pop [OF list_vec.im_vector_axioms sample_ok sample_list(2), of "[[49], [50]]"] by simp

lemma lrange_redis_example: "lrange list_vec sample 0 [108] (- 2) 5 = Ok [[98], [99]]"
  using lrange_redis [OF list_vec.im_vector_axioms sample_list(1), of "- 2" 5]
  by (simp add: redis_range_def)

theorem lrange_past_end_witness:
  "lrange list_vec sample 0 [108] 7 9 = Ok [[99]] \<and> redis_range 7 9 [[97], [98], [99 :: u8]] = []"
  using lrange_past_end [OF list_vec.im_vector_axioms sample_list(1), of 7 9] by simp

end
