(* ===== verification/ZSets.thy ===== *)
theory ZSets
  imports Lists
begin

text \<open>
  storage/zsets.rs, lines 1 to 883: the sorted-set commands other than the storing ones. A sorted set keeps
  the scores by member (\<open>entries\<close>) and an index ordered by score and member; every writer updates both.
  \<open>S\<close> are the functions on scores, \<open>I\<close> those of the index. \<open>zset_mut\<close> is the prefix of the writers that
  need an existing sorted set, and its continuation returns \<open>None\<close> where the source removes the key.
\<close>

definition zset_mut ::
  "('v, 'i) StorageInner \<Rightarrow> u64 \<Rightarrow> bytes \<Rightarrow> ('i ZSet \<Rightarrow> unit result \<times> 'i ZSet option) \<Rightarrow> ('v, 'i, unit) outcome" where
  "zset_mut st db key g =
     (case bm_get (smap st) db of
        None \<Rightarrow> (Ok (), st)
      | Some m \<Rightarrow>
          (case bm_get m key of
             None \<Rightarrow> (Ok (), st)
           | Some (ZSet z) \<Rightarrow>
               (case g z of
                  (r, None) \<Rightarrow> (r, put_db st db (bm_remove key m))
                | (r, Some z') \<Rightarrow> (r, put_db st db (bm_insert key (ZSet z') m)))
           | Some _ \<Rightarrow> (Err WrongType, st)))"

definition zset_unless_empty :: "'i ZSet \<Rightarrow> 'i ZSet option" where
  "zset_unless_empty z = (if ZSet_is_empty z then None else Some z)"

fun zset_entry :: "'i index_ops \<Rightarrow> ('v, 'i) StorageValue option \<Rightarrow> 'i ZSet option" where
  "zset_entry I None = Some (ZSet_new I)"
| "zset_entry I (Some (ZSet z)) = Some z"
| "zset_entry I (Some _) = None"

text \<open>A reader's access to its sorted set; \<open>absent\<close> is what it returns without one.\<close>

definition zset_read ::
  "('v, 'i) StorageInner \<Rightarrow> u64 \<Rightarrow> bytes \<Rightarrow> 'a \<Rightarrow> ('i ZSet \<Rightarrow> 'a result) \<Rightarrow> 'a result" where
  "zset_read st db key absent g =
     (case bm_get (smap st) db of
        None \<Rightarrow> Ok absent
      | Some m \<Rightarrow>
          (case bm_get m key of
             None \<Rightarrow> Ok absent
           | Some (ZSet z) \<Rightarrow> g z
           | Some _ \<Rightarrow> Err WrongType))"

text \<open>\<open>unwrap_key\<close> on every key of an iterator; it panics on a key that is not stored.\<close>

fun unwrap_keys :: "ZSetIndexKey list \<Rightarrow> (f64 \<times> bytes) list result" where
  "unwrap_keys [] = Ok []"
| "unwrap_keys (k # ks) =
     (case unwrap_key k of
        None \<Rightarrow> Err Panic
      | Some p \<Rightarrow> (case unwrap_keys ks of Inl e \<Rightarrow> Err e | Inr ps \<Rightarrow> Ok (p # ps)))"

section \<open>Adding and removing members\<close>

text \<open>One score-member pair of \<open>zadd\<close>; the options are the flags the source collects.\<close>

definition zadd_member ::
  "score_ops \<Rightarrow> 'i index_ops \<Rightarrow> ZAddOption list \<Rightarrow> f64 \<times> bytes \<Rightarrow> 'i ZSet \<Rightarrow> 'i ZSet" where
  "zadd_member S I options = (\<lambda>(score, member) zset.
     let nx = NX \<in> set options; xx = XX \<in> set options; gt = GT \<in> set options; lt = LT \<in> set options;
         incr = INCR \<in> set options;
         old_score = bm_get (entries zset) member;
         exists = (old_score \<noteq> None)
     in if nx \<and> exists then zset
        else if xx \<and> \<not> exists then zset
        else
          let final_score =
                (if incr then of_add S (case old_score of None \<Rightarrow> f64_zero | Some s \<Rightarrow> s) score else score)
          in case old_score of
               Some old \<Rightarrow>
                 (if gt \<and> sc_le S final_score old then zset
                  else if lt \<and> sc_le S old final_score then zset
                  else zset_put I member final_score
                         (zset\<lparr>index := ix_remove I (index zset) (create_ref old member)\<rparr>))
             | None \<Rightarrow> zset_put I member final_score zset)"

definition zadd ::
  "score_ops \<Rightarrow> 'i index_ops \<Rightarrow> ('v, 'i) StorageInner \<Rightarrow> u64 \<Rightarrow> bytes \<Rightarrow> (f64 \<times> bytes) list \<Rightarrow>
     ZAddOption list \<Rightarrow> ('v, 'i, unit) outcome" where
  "zadd S I st db key members options =
     (let nx = NX \<in> set options; xx = XX \<in> set options; gt = GT \<in> set options; lt = LT \<in> set options;
          incr = INCR \<in> set options
      in if nx \<and> xx then (Err ZaddNxXx, st)
         else if (gt \<or> lt) \<and> nx then (Err ZaddGtLtNx, st)
         else if incr \<and> length members \<noteq> 1 then (Err ZaddIncrPair, st)
         else
           let m = db_entry st db
           in case zset_entry I (bm_get m key) of
                None \<Rightarrow> (Err WrongType, put_db st db m)
              | Some zset \<Rightarrow>
                  (Ok (), put_db st db (bm_insert key (ZSet (fold (zadd_member S I options) members zset)) m)))"

definition zrem_member :: "'i index_ops \<Rightarrow> bytes \<Rightarrow> 'i ZSet \<Rightarrow> 'i ZSet" where
  "zrem_member I member zset =
     (case bm_get (entries zset) member of None \<Rightarrow> zset | Some score \<Rightarrow> zset_drop I member score zset)"

definition zrem ::
  "'i index_ops \<Rightarrow> ('v, 'i) StorageInner \<Rightarrow> u64 \<Rightarrow> bytes \<Rightarrow> bytes list \<Rightarrow> ('v, 'i, unit) outcome" where
  "zrem I st db key members =
     zset_mut st db key (\<lambda>zset. (Ok (), zset_unless_empty (fold (zrem_member I) members zset)))"

definition zincrby ::
  "score_ops \<Rightarrow> 'i index_ops \<Rightarrow> ('v, 'i) StorageInner \<Rightarrow> u64 \<Rightarrow> bytes \<Rightarrow> f64 \<Rightarrow> bytes \<Rightarrow>
     ('v, 'i, unit) outcome" where
  "zincrby S I st db key delta member =
     (let m = db_entry st db
      in case zset_entry I (bm_get m key) of
           None \<Rightarrow> (Err WrongType, put_db st db m)
         | Some zset \<Rightarrow>
             (let old_score = (case bm_get (entries zset) member of None \<Rightarrow> f64_zero | Some s \<Rightarrow> s);
                  new_score = of_add S old_score delta;
                  zset1 = (if \<not> sc_eq S old_score f64_zero \<or> bm_contains_key (entries zset) member
                           then zset\<lparr>index := ix_remove I (index zset) (create_ref old_score member)\<rparr>
                           else zset)
              in (Ok (), put_db st db (bm_insert key (ZSet (zset_put I member new_score zset1)) m))))"

text \<open>The loops of \<open>zpopmax\<close> and \<open>zpopmin\<close>, which differ in the function that pops the index.\<close>

fun zpop_loop ::
  "('i \<Rightarrow> ZSetIndexKey option \<times> 'i) \<Rightarrow> usize \<Rightarrow> 'i ZSet \<Rightarrow> unit result \<times> 'i ZSet" where
  "zpop_loop pop 0 zset = (Ok (), zset)"
| "zpop_loop pop (Suc count) zset =
     (case pop (index zset) of
        (None, ix) \<Rightarrow> (Ok (), zset\<lparr>index := ix\<rparr>)
      | (Some index_key, ix) \<Rightarrow>
          (case unwrap_key index_key of
             None \<Rightarrow> (Err Panic, zset\<lparr>index := ix\<rparr>)
           | Some (_, entry) \<Rightarrow>
               zpop_loop pop count \<lparr>index = ix, entries = bm_remove entry (entries zset)\<rparr>))"

definition zpopmax ::
  "'i index_ops \<Rightarrow> ('v, 'i) StorageInner \<Rightarrow> u64 \<Rightarrow> bytes \<Rightarrow> usize \<Rightarrow> ('v, 'i, unit) outcome" where
  "zpopmax I st db key count =
     zset_mut st db key (\<lambda>zset.
       case zpop_loop (ix_pop_last I) count zset of
         (Inl e, z) \<Rightarrow> (Err e, Some z)
       | (Inr _, z) \<Rightarrow> (Ok (), zset_unless_empty z))"

definition zpopmin ::
  "'i index_ops \<Rightarrow> ('v, 'i) StorageInner \<Rightarrow> u64 \<Rightarrow> bytes \<Rightarrow> usize \<Rightarrow> ('v, 'i, unit) outcome" where
  "zpopmin I st db key count =
     zset_mut st db key (\<lambda>zset.
       case zpop_loop (ix_pop_first I) count zset of
         (Inl e, z) \<Rightarrow> (Err e, Some z)
       | (Inr _, z) \<Rightarrow> (Ok (), zset_unless_empty z))"

section \<open>Removing ranges\<close>

text \<open>The loop that removes collected members from both structures.\<close>

definition remove_collected :: "'i index_ops \<Rightarrow> (bytes \<times> f64) list \<Rightarrow> 'i ZSet \<Rightarrow> 'i ZSet" where
  "remove_collected I members_to_remove zset =
     fold (\<lambda>(member, score). zset_drop I member score) members_to_remove zset"

definition zremrangebyrank ::
  "'i index_ops \<Rightarrow> ('v, 'i) StorageInner \<Rightarrow> u64 \<Rightarrow> bytes \<Rightarrow> i64 \<Rightarrow> i64 \<Rightarrow> ('v, 'i, unit) outcome" where
  "zremrangebyrank I st db key start stop =
     zset_mut st db key (\<lambda>zset.
       let len = int (ZSet_len zset)
       in if len = 0 then (Ok (), Some zset)
          else
            let start_pos = range_pos len start; stop_pos = range_pos len stop
            in if start_pos > stop_pos then (Ok (), Some zset)
               else
                 case unwrap_keys (ix_range_idx I (index zset) start_pos stop_pos) of
                   Inl e \<Rightarrow> (Err e, Some zset)
                 | Inr ps \<Rightarrow>
                     (Ok (), zset_unless_empty (remove_collected I (map (\<lambda>(score, entry). (entry, score)) ps) zset)))"

text \<open>The keys that bound a range of scores in the index.\<close>

fun min_bound_key :: "f64 bound \<Rightarrow> ZSetIndexKey bound" where
  "min_bound_key Unbounded = Unbounded"
| "min_bound_key (Included score) = Included (min_score_key score)"
| "min_bound_key (Excluded score) = Included (min_score_key score)"

fun max_bound_key :: "f64 bound \<Rightarrow> ZSetIndexKey bound" where
  "max_bound_key Unbounded = Unbounded"
| "max_bound_key (Included score) = Included (max_score_key score)"
| "max_bound_key (Excluded score) = Included (max_score_key score)"

fun score_above :: "score_ops \<Rightarrow> f64 bound \<Rightarrow> f64 \<Rightarrow> bool" where
  "score_above S Unbounded s = True"
| "score_above S (Included min_score) s = sc_le S min_score s"
| "score_above S (Excluded min_score) s = sc_lt S min_score s"

fun score_below :: "score_ops \<Rightarrow> f64 bound \<Rightarrow> f64 \<Rightarrow> bool" where
  "score_below S Unbounded s = True"
| "score_below S (Included max_score) s = sc_le S s max_score"
| "score_below S (Excluded max_score) s = sc_lt S s max_score"

definition score_in_range :: "score_ops \<Rightarrow> f64 \<Rightarrow> f64 bound \<Rightarrow> f64 bound \<Rightarrow> bool" where
  "score_in_range S score min_score max_score \<longleftrightarrow> score_above S min_score score \<and> score_below S max_score score"

text \<open>The query: the index range, then the filter by score.\<close>

definition collect_by_score ::
  "score_ops \<Rightarrow> 'i index_ops \<Rightarrow> f64 bound \<Rightarrow> f64 bound \<Rightarrow> 'i ZSet \<Rightarrow> (bytes \<times> f64) list result" where
  "collect_by_score S I min_bound max_bound zset =
     (case unwrap_keys (ix_range I (index zset) (min_bound_key min_bound) (max_bound_key max_bound)) of
        Inl e \<Rightarrow> Err e
      | Inr ps \<Rightarrow> Ok (map (\<lambda>(s, entry). (entry, s)) (filter (\<lambda>(s, _). score_in_range S s min_bound max_bound) ps)))"

definition zremrangebyscore ::
  "score_ops \<Rightarrow> 'i index_ops \<Rightarrow> ('v, 'i) StorageInner \<Rightarrow> u64 \<Rightarrow> bytes \<Rightarrow> f64 bound \<Rightarrow> f64 bound \<Rightarrow>
     ('v, 'i, unit) outcome" where
  "zremrangebyscore S I st db key min_bound max_bound =
     zset_mut st db key (\<lambda>zset.
       case collect_by_score S I min_bound max_bound zset of
         Inl e \<Rightarrow> (Err e, Some zset)
       | Inr members_to_remove \<Rightarrow> (Ok (), zset_unless_empty (remove_collected I members_to_remove zset)))"

definition zremrangebylex ::
  "'i index_ops \<Rightarrow> ('v, 'i) StorageInner \<Rightarrow> u64 \<Rightarrow> bytes \<Rightarrow> bytes bound \<Rightarrow> bytes bound \<Rightarrow>
     ('v, 'i, unit) outcome" where
  "zremrangebylex I st db key min_bound max_bound =
     zset_mut st db key (\<lambda>zset.
       case bm_range min_bound max_bound (entries zset) of
         None \<Rightarrow> (Err Panic, Some zset)
       | Some members_to_remove \<Rightarrow> (Ok (), zset_unless_empty (remove_collected I members_to_remove zset)))"

section \<open>Readers\<close>

definition zscore :: "('v, 'i) StorageInner \<Rightarrow> u64 \<Rightarrow> bytes \<Rightarrow> bytes \<Rightarrow> f64 option result" where
  "zscore st db key member = zset_read st db key None (\<lambda>zset. Ok (bm_get (entries zset) member))"

definition zcard :: "('v, 'i) StorageInner \<Rightarrow> u64 \<Rightarrow> bytes \<Rightarrow> usize result" where
  "zcard st db key = zset_read st db key 0 (\<lambda>zset. Ok (ZSet_len zset))"

definition zrange ::
  "'i index_ops \<Rightarrow> ('v, 'i) StorageInner \<Rightarrow> u64 \<Rightarrow> bytes \<Rightarrow> i64 \<Rightarrow> i64 \<Rightarrow> bool \<Rightarrow> (bytes \<times> f64 option) list result" where
  "zrange I st db key start stop with_scores =
     zset_read st db key [] (\<lambda>zset.
       let len = int (ZSet_len zset)
       in if len = 0 then Ok []
          else
            let start_pos = range_pos len start; stop_pos = range_pos len stop
            in if start_pos > stop_pos \<or> start_pos \<ge> nat len then Ok []
               else
                 case unwrap_keys (ix_range_idx I (index zset) start_pos stop_pos) of
                   Inl e \<Rightarrow> Err e
                 | Inr ps \<Rightarrow> Ok (map (\<lambda>(score, entry). (entry, if with_scores then Some score else None)) ps))"

definition zrangebyscore ::
  "score_ops \<Rightarrow> 'i index_ops \<Rightarrow> ('v, 'i) StorageInner \<Rightarrow> u64 \<Rightarrow> bytes \<Rightarrow> f64 \<Rightarrow> f64 \<Rightarrow> bool \<Rightarrow>
     (bytes \<times> f64 option) list result" where
  "zrangebyscore S I st db key min_score max_score with_scores =
     zset_read st db key [] (\<lambda>zset.
       case unwrap_keys (ix_range I (index zset) (Included (min_score_key min_score)) (Included (max_score_key max_score))) of
         Inl e \<Rightarrow> Err e
       | Inr ps \<Rightarrow>
           Ok (map (\<lambda>(s, entry). (entry, if with_scores then Some s else None))
                 (filter (\<lambda>(s, _). sc_le S min_score s \<and> sc_le S s max_score) ps)))"

definition zrank ::
  "'i index_ops \<Rightarrow> ('v, 'i) StorageInner \<Rightarrow> u64 \<Rightarrow> bytes \<Rightarrow> bytes \<Rightarrow> usize option result" where
  "zrank I st db key member =
     zset_read st db key None (\<lambda>zset.
       case bm_get (entries zset) member of
         None \<Rightarrow> Ok None
       | Some score \<Rightarrow> Ok (Some (ix_rank I (index zset) (create_ref score member))))"

text \<open>The subtraction of the source is on \<open>usize\<close>: it panics below zero.\<close>

definition zrevrank ::
  "'i index_ops \<Rightarrow> ('v, 'i) StorageInner \<Rightarrow> u64 \<Rightarrow> bytes \<Rightarrow> bytes \<Rightarrow> usize option result" where
  "zrevrank I st db key member =
     zset_read st db key None (\<lambda>zset.
       case bm_get (entries zset) member of
         None \<Rightarrow> Ok None
       | Some score \<Rightarrow>
           (let rank = ix_rank I (index zset) (create_ref score member)
            in if ZSet_len zset < 1 + rank then Err Panic else Ok (Some (ZSet_len zset - 1 - rank))))"

definition zcount ::
  "'i index_ops \<Rightarrow> ('v, 'i) StorageInner \<Rightarrow> u64 \<Rightarrow> bytes \<Rightarrow> f64 \<Rightarrow> f64 \<Rightarrow> usize result" where
  "zcount I st db key min_score max_score =
     zset_read st db key 0 (\<lambda>zset.
       let min_rank = ix_rank I (index zset) (min_score_key min_score);
           max_rank = ix_rank I (index zset) (max_score_key max_score)
       in if max_rank < min_rank then Ok 0 else Ok (max_rank - min_rank))"

definition zfirst :: "('v, 'i) StorageInner \<Rightarrow> u64 \<Rightarrow> bytes \<Rightarrow> usize \<Rightarrow> (f64 \<times> bytes) list result" where
  "zfirst st db key count =
     (if count = 0 then Ok []
      else zset_read st db key [] (\<lambda>zset. Ok (map (\<lambda>(member, score). (score, member)) (take count (entries zset)))))"

definition zlast :: "('v, 'i) StorageInner \<Rightarrow> u64 \<Rightarrow> bytes \<Rightarrow> usize \<Rightarrow> (f64 \<times> bytes) list result" where
  "zlast st db key count =
     (if count = 0 then Ok []
      else zset_read st db key [] (\<lambda>zset.
             Ok (map (\<lambda>(member, score). (score, member)) (take count (rev (entries zset))))))"

definition znext ::
  "('v, 'i) StorageInner \<Rightarrow> u64 \<Rightarrow> bytes \<Rightarrow> bytes \<Rightarrow> usize \<Rightarrow> (f64 \<times> bytes) list result" where
  "znext st db key member count =
     (if count = 0 then Ok []
      else zset_read st db key [] (\<lambda>zset.
             Ok (map (\<lambda>(entry, score). (score, entry)) (take count (bm_after member (entries zset))))))"

definition zprev ::
  "('v, 'i) StorageInner \<Rightarrow> u64 \<Rightarrow> bytes \<Rightarrow> bytes \<Rightarrow> usize \<Rightarrow> (f64 \<times> bytes) list result" where
  "zprev st db key member count =
     (if count = 0 then Ok []
      else zset_read st db key [] (\<lambda>zset.
             Ok (map (\<lambda>(entry, score). (score, entry)) (take count (rev (bm_before member (entries zset)))))))"

section \<open>Specifications\<close>

text \<open>
  The order of a sorted set, by score and then by member, and the position of a member in it. Both are
  functions of the map from members to scores alone.
\<close>

definition z_before :: "score_ops \<Rightarrow> f64 \<times> bytes \<Rightarrow> f64 \<times> bytes \<Rightarrow> bool" where
  "z_before S = (\<lambda>(s, x) (s', x'). sc_lt S s s' \<or> sc_eq S s s' \<and> x < x')"

definition z_rank :: "score_ops \<Rightarrow> (bytes \<rightharpoonup> f64) \<Rightarrow> bytes \<Rightarrow> nat" where
  "z_rank S m x = card {y \<in> dom m. z_before S (the (m y), y) (the (m x), x)}"

definition z_ranking :: "score_ops \<Rightarrow> (bytes \<rightharpoonup> f64) \<Rightarrow> (f64 \<times> bytes) list \<Rightarrow> bool" where
  "z_ranking S m ps \<longleftrightarrow> sorted_wrt (z_before S) ps \<and> set ps = {(s, x). m x = Some s}"

text \<open>A sorted set that loses its last member is deleted.\<close>

definition azset :: "(bytes \<rightharpoonup> f64) \<Rightarrow> avalue option" where
  "azset m = (if m = Map.empty then None else Some (AZSet m))"

fun spec_zset_mut :: "((bytes \<rightharpoonup> f64) \<Rightarrow> unit result \<times> avalue option) \<Rightarrow> transformer" where
  "spec_zset_mut f None = (Ok (), None)"
| "spec_zset_mut f (Some (AZSet m)) = f m"
| "spec_zset_mut f a = (Err WrongType, a)"

fun spec_zset_new :: "((bytes \<rightharpoonup> f64) \<Rightarrow> (bytes \<rightharpoonup> f64)) \<Rightarrow> transformer" where
  "spec_zset_new f None = (Ok (), Some (AZSet (f Map.empty)))"
| "spec_zset_new f (Some (AZSet m)) = (Ok (), Some (AZSet (f m)))"
| "spec_zset_new f a = (Err WrongType, a)"

text \<open>Whether \<open>zadd\<close> writes a member, given its old score and the score it would get.\<close>

definition zadd_writes :: "score_ops \<Rightarrow> ZAddOption set \<Rightarrow> f64 option \<Rightarrow> f64 \<Rightarrow> bool" where
  "zadd_writes S opts old new =
     (case old of
        None \<Rightarrow> XX \<notin> opts
      | Some o1 \<Rightarrow> NX \<notin> opts \<and> (GT \<in> opts \<longrightarrow> sc_lt S o1 new) \<and> (LT \<in> opts \<longrightarrow> sc_lt S new o1))"

definition zadd_pair ::
  "score_ops \<Rightarrow> ZAddOption set \<Rightarrow> f64 \<times> bytes \<Rightarrow> (bytes \<rightharpoonup> f64) \<Rightarrow> (bytes \<rightharpoonup> f64)" where
  "zadd_pair S opts = (\<lambda>(score, x) m.
     let new = (if INCR \<in> opts then of_add S (case m x of None \<Rightarrow> f64_zero | Some s \<Rightarrow> s) score else score)
     in if zadd_writes S opts (m x) new then m(x \<mapsto> new) else m)"

definition zadd_error :: "ZAddOption set \<Rightarrow> nat \<Rightarrow> rerr option" where
  "zadd_error opts n =
     (if NX \<in> opts \<and> XX \<in> opts then Some ZaddNxXx
      else if NX \<in> opts \<and> (GT \<in> opts \<or> LT \<in> opts) then Some ZaddGtLtNx
      else if INCR \<in> opts \<and> n \<noteq> 1 then Some ZaddIncrPair
      else None)"

definition spec_zadd :: "score_ops \<Rightarrow> (f64 \<times> bytes) list \<Rightarrow> ZAddOption set \<Rightarrow> transformer" where
  "spec_zadd S pairs opts a =
     (case zadd_error opts (length pairs) of
        Some e \<Rightarrow> (Err e, a)
      | None \<Rightarrow> spec_zset_new (fold (zadd_pair S opts) pairs) a)"

definition spec_zincrby :: "score_ops \<Rightarrow> f64 \<Rightarrow> bytes \<Rightarrow> transformer" where
  "spec_zincrby S delta x =
     spec_zset_new (\<lambda>m. m(x \<mapsto> of_add S (case m x of None \<Rightarrow> f64_zero | Some s \<Rightarrow> s) delta))"

definition spec_zrem :: "bytes list \<Rightarrow> transformer" where
  "spec_zrem xs = spec_zset_mut (\<lambda>m. (Ok (), azset (m |` (- set xs))))"

definition spec_zpopmin :: "score_ops \<Rightarrow> nat \<Rightarrow> transformer" where
  "spec_zpopmin S n = spec_zset_mut (\<lambda>m. (Ok (), azset (m |` {x. n \<le> z_rank S m x})))"

definition spec_zpopmax :: "score_ops \<Rightarrow> nat \<Rightarrow> transformer" where
  "spec_zpopmax S n = spec_zset_mut (\<lambda>m. (Ok (), azset (m |` {x. z_rank S m x + n < card (dom m)})))"

definition spec_zremrangebyrank :: "score_ops \<Rightarrow> i64 \<Rightarrow> i64 \<Rightarrow> transformer" where
  "spec_zremrangebyrank S start stop = spec_zset_mut (\<lambda>m.
     let n = int (card (dom m)); a = range_pos n start; b = range_pos n stop
     in (Ok (), if n = 0 then Some (AZSet m) else azset (m |` {x. \<not> (a \<le> z_rank S m x \<and> z_rank S m x \<le> b)})))"

definition spec_zremrangebyscore :: "score_ops \<Rightarrow> f64 bound \<Rightarrow> f64 bound \<Rightarrow> transformer" where
  "spec_zremrangebyscore S lo hi = spec_zset_mut (\<lambda>m.
     (Ok (), azset (m |` {x. \<not> (\<exists>s. m x = Some s \<and> score_in_range S s lo hi)})))"

definition spec_zremrangebylex :: "bytes bound \<Rightarrow> bytes bound \<Rightarrow> transformer" where
  "spec_zremrangebylex lo hi = spec_zset_mut (\<lambda>m.
     if range_ok lo hi then (Ok (), azset (m |` {x. \<not> (above lo x \<and> below hi x)}))
     else (Err Panic, Some (AZSet m)))"

section \<open>Order and position\<close>

lemma filter_sorted_take:
  assumes "sorted_wrt r xs" "\<And>x y. r x y \<Longrightarrow> \<not> r y x" "i < length xs"
  shows "filter (\<lambda>y. r y (xs ! i)) xs = take i xs"
proof -
  have irrefl: "\<not> r x x" for x using assms(2) by blast
  have "\<forall>y \<in> set (take i xs). r y (xs ! i)"
    using assms(1,3) by (auto simp: in_set_conv_nth sorted_wrt_iff_nth_less)
  moreover have "\<forall>y \<in> set (drop i xs). \<not> r y (xs ! i)"
  proof
    fix y assume "y \<in> set (drop i xs)"
    then obtain k where "k < length (drop i xs)" "y = drop i xs ! k"
      by (auto simp: in_set_conv_nth)
    then obtain j where "i \<le> j" "j < length xs" "y = xs ! j"
      by (intro that [of "i + k"]) auto
    then show "\<not> r y (xs ! i)"
      using assms irrefl by (cases "i = j") (auto simp: sorted_wrt_iff_nth_less)
  qed
  ultimately have "filter (\<lambda>y. r y (xs ! i)) (take i xs @ drop i xs) = take i xs @ []"
    unfolding filter_append by (intro arg_cong2 [of _ _ _ _ append]) (auto simp: filter_id_conv)
  then show ?thesis by (simp only: append_take_drop_id append_Nil2)
qed

lemma zset_read_lookup:
  "zset_read st db key a g =
     (case lookup st db key of None \<Rightarrow> Ok a | Some (ZSet z) \<Rightarrow> g z | Some _ \<Rightarrow> Err WrongType)"
  by (simp add: zset_read_def lookup_def split: option.split)

lemma unwrap_keys_stored: "\<forall>k \<in> set ks. is_stored k \<Longrightarrow> unwrap_keys ks = Ok (map (the \<circ> unwrap_key) ks)"
  by (induction ks) (auto simp: is_stored_def)

context index_set
begin

lemma z_before_key: "key_less S (Key s x) (Key s' x') \<longleftrightarrow> z_before S (s, x) (s', x')"
  by (simp add: key_less_Key z_before_def del: key_cmp.simps)

lemma key_less_Ref: "is_stored k \<Longrightarrow> key_less S k (Ref s x) \<longleftrightarrow> key_less S k (Key s x)"
  by (cases k) simp_all

lemma z_index_distinct: "zset_ok S I z \<Longrightarrow> distinct (ix_iter I (index z))"
proof -
  assume "zset_ok S I z"
  then have "sorted_wrt (key_less S) (ix_iter I (index z))"
    by (simp add: zset_ok_def index_ok_def)
  then show ?thesis
    by (rule sorted_wrt_imp_distinct) (use key_less_asym in blast)
qed

text \<open>Counting in the index is counting members.\<close>

lemma z_count:
  assumes z: "zset_ok S I z"
  shows "length (filter (\<lambda>k. P (the (unwrap_key k))) (ix_iter I (index z))) =
    card {x. \<exists>s. bm_get (entries z) x = Some s \<and> P (s, x)}"
proof -
  let ?ks = "ix_iter I (index z)" let ?f = "\<lambda>x. Key (the (bm_get (entries z) x)) x"
  have "length (filter (\<lambda>k. P (the (unwrap_key k))) ?ks) = card (set (filter (\<lambda>k. P (the (unwrap_key k))) ?ks))"
    by (simp add: distinct_card distinct_filter z_index_distinct [OF z] del: set_filter)
  also have "set (filter (\<lambda>k. P (the (unwrap_key k))) ?ks) =
      ?f ` {x. \<exists>s. bm_get (entries z) x = Some s \<and> P (s, x)}"
    by (auto simp: index_mem_iff [OF z] image_iff)
  also have "card \<dots> = card {x. \<exists>s. bm_get (entries z) x = Some s \<and> P (s, x)}"
    by (rule card_image) (auto simp: inj_on_def)
  finally show ?thesis .
qed

lemma z_length:
  assumes z: "zset_ok S I z"
  shows "length (ix_iter I (index z)) = card (dom (bm_get (entries z)))" "ZSet_len z = card (dom (bm_get (entries z)))"
proof -
  show "length (ix_iter I (index z)) = card (dom (bm_get (entries z)))"
    using z_count [OF z, of "\<lambda>_. True"] by (simp add: dom_def)
  have "bm_sorted (entries z)" using z by (simp add: zset_ok_def)
  from bm.dom_get [OF this] bm_sorted_distinct [OF this]
  show "ZSet_len z = card (dom (bm_get (entries z)))"
    by (metis ZSet_len_def distinct_card length_map set_map)
qed

lemma z_rank_filter:
  assumes z: "zset_ok S I z" and x: "bm_get (entries z) x = Some s"
  shows "length (filter (\<lambda>k. key_less S k (Key s x)) (ix_iter I (index z))) = z_rank S (bm_get (entries z)) x"
proof -
  have "filter (\<lambda>k. key_less S k (Key s x)) (ix_iter I (index z)) =
      filter (\<lambda>k. z_before S (the (unwrap_key k)) (s, x)) (ix_iter I (index z))"
    by (rule filter_cong) (auto simp: index_mem_iff [OF z] z_before_key simp del: key_cmp.simps)
  then show ?thesis
    using z_count [OF z, of "\<lambda>p. z_before S p (s, x)"] x
    by (simp add: z_rank_def) (rule arg_cong [of _ _ card]; auto)
qed

lemma z_rank_nth:
  assumes z: "zset_ok S I z" and i: "i < length (ix_iter I (index z))" "ix_iter I (index z) ! i = Key s x"
  shows "z_rank S (bm_get (entries z)) x = i"
proof -
  have x: "bm_get (entries z) x = Some s"
    using index_mem_iff [OF z, of "Key s x"] nth_mem [OF i(1)] i(2) by auto
  have "filter (\<lambda>k. key_less S k (ix_iter I (index z) ! i)) (ix_iter I (index z)) = take i (ix_iter I (index z))"
    using z i(1) key_less_asym by (intro filter_sorted_take) (auto simp: zset_ok_def index_ok_def)
  then show ?thesis
    using z_rank_filter [OF z x] i by simp
qed

text \<open>A slice of the index holds the members whose rank is in it.\<close>

lemma z_slice:
  assumes z: "zset_ok S I z"
  shows "Key s x \<in> set (take n (drop a (ix_iter I (index z)))) \<longleftrightarrow>
    bm_get (entries z) x = Some s \<and> a \<le> z_rank S (bm_get (entries z)) x \<and> z_rank S (bm_get (entries z)) x < a + n"
proof -
  let ?ks = "ix_iter I (index z)"
  have "Key s x \<in> set (take n (drop a ?ks)) \<longleftrightarrow> (\<exists>i < length ?ks. a \<le> i \<and> i < a + n \<and> ?ks ! i = Key s x)"
  proof
    assume "Key s x \<in> set (take n (drop a ?ks))"
    then obtain j where "j < length (take n (drop a ?ks))" "take n (drop a ?ks) ! j = Key s x"
      by (auto simp: in_set_conv_nth)
    then show "\<exists>i < length ?ks. a \<le> i \<and> i < a + n \<and> ?ks ! i = Key s x"
      by (intro exI [of _ "a + j"]) auto
  next
    assume "\<exists>i < length ?ks. a \<le> i \<and> i < a + n \<and> ?ks ! i = Key s x"
    then obtain i where "i < length ?ks" "a \<le> i" "i < a + n" "?ks ! i = Key s x" by blast
    then show "Key s x \<in> set (take n (drop a ?ks))"
      by (auto simp: in_set_conv_nth intro!: exI [of _ "i - a"])
  qed
  also have "\<dots> \<longleftrightarrow> bm_get (entries z) x = Some s \<and> a \<le> z_rank S (bm_get (entries z)) x \<and>
      z_rank S (bm_get (entries z)) x < a + n"
    using index_mem_iff [OF z, of "Key s x"] z_rank_nth [OF z] by (auto simp: in_set_conv_nth)
  finally show ?thesis .
qed

lemma z_rank_less:
  assumes "zset_ok S I z" "bm_get (entries z) x = Some s"
  shows "z_rank S (bm_get (entries z)) x < card (dom (bm_get (entries z)))"
proof -
  obtain i where "i < length (ix_iter I (index z))" "ix_iter I (index z) ! i = Key s x"
    using index_mem_iff [OF assms(1), of "Key s x"] assms(2) by (auto simp: in_set_conv_nth)
  then show ?thesis
    using z_rank_nth [OF assms(1)] z_length(1) [OF assms(1)] by metis
qed

lemma z_ranking_index:
  assumes z: "zset_ok S I z"
  shows "z_ranking S (bm_get (entries z)) (map (the \<circ> unwrap_key) (ix_iter I (index z)))"
proof -
  have st: "\<forall>k \<in> set (ix_iter I (index z)). is_stored k" and so: "sorted_wrt (key_less S) (ix_iter I (index z))"
    using z by (auto simp: zset_ok_def index_ok_def)
  have "sorted_wrt (\<lambda>k k'. z_before S (the (unwrap_key k)) (the (unwrap_key k'))) (ix_iter I (index z))"
  proof (rule sorted_wrt_mono_rel [OF _ so])
    fix k k' assume "k \<in> set (ix_iter I (index z))" "k' \<in> set (ix_iter I (index z))" "key_less S k k'"
    then show "z_before S (the (unwrap_key k)) (the (unwrap_key k'))"
      using index_mem_iff [OF z] z_before_key by auto
  qed
  moreover have "set (map (the \<circ> unwrap_key) (ix_iter I (index z))) = {(s, x). bm_get (entries z) x = Some s}"
    by (force simp: index_mem_iff [OF z] image_iff)
  ultimately show ?thesis
    by (simp add: z_ranking_def sorted_wrt_map comp_def)
qed

section \<open>Every writer implements its specification\<close>

lemma zset_mut_command:
  fixes V :: "'v vec_ops"
  assumes ok: "\<And>z z'. zset_ok S I z \<Longrightarrow> snd (g z) = Some z' \<Longrightarrow> zset_ok S I z'"
    and result: "\<And>z. zset_ok S I z \<Longrightarrow> fst (g z) = fst (f (bm_get (entries z)))"
    and abs: "\<And>z. zset_ok S I z \<Longrightarrow>
      map_option (\<lambda>z. AZSet (bm_get (entries z))) (snd (g z)) = snd (f (bm_get (entries z)))"
  shows "key_command V S I (\<lambda>st. zset_mut st db key g) db key (spec_zset_mut f)"
proof (rule key_commandI)
  fix st :: "('v, 'i) StorageInner"
  assume st: "storage_ok S I st"
  have z: "zset_ok S I z" if "lookup st db key = Some (ZSet z)" for z
    using value_ok_lookup [OF st that] by simp
  show "storage_ok S I (snd (zset_mut st db key g))"
    using st z ok
    by (force simp: zset_mut_def lookup_def split: option.splits StorageValue.splits prod.splits
        intro!: wf_intros intro: db_ok_get)
  have g: "(case g z of (r, None) \<Rightarrow> (r, a) | (r, Some z') \<Rightarrow> (r, h z')) =
      (fst (g z), case snd (g z) of None \<Rightarrow> a | Some z' \<Rightarrow> h z')" for z a and h :: "'i ZSet \<Rightarrow> ('v, 'i) StorageInner"
    by (cases "g z") (simp split: option.split)
  show "fst (zset_mut st db key g) = fst (spec_zset_mut f (map_option (abs_value V) (lookup st db key)))"
    using z result
    by (auto simp: zset_mut_def g lookup_def split: option.split StorageValue.split)
  show "map_option (abs_value V) (lookup (snd (zset_mut st db key g)) db key) =
      snd (spec_zset_mut f (map_option (abs_value V) (lookup st db key)))"
    using z
    by (auto simp: zset_mut_def g cmd_simps simp flip: abs split: option.split StorageValue.split)
  show "lookup (snd (zset_mut st db key g)) db' k = lookup st db' k" if "(db', k) \<noteq> (db, key)" for db' k
    using that by (auto simp: zset_mut_def cmd_simps split: option.splits StorageValue.splits prod.splits)
qed

lemma zset_new_command:
  fixes V :: "'v vec_ops"
  assumes cmd: "\<And>st. cmd st =
      (let m = db_entry st db
       in case zset_entry I (bm_get m key) of
            None \<Rightarrow> (Err WrongType, put_db st db m)
          | Some z \<Rightarrow> (Ok (), put_db st db (bm_insert key (ZSet (g z)) m)))"
    and ok: "\<And>z. zset_ok S I z \<Longrightarrow> zset_ok S I (g z)"
    and abs: "\<And>z. zset_ok S I z \<Longrightarrow> bm_get (entries (g z)) = f (bm_get (entries z))"
  shows "key_command V S I cmd db key (spec_zset_new f)"
proof (rule key_commandI)
  fix st :: "('v, 'i) StorageInner"
  assume st: "storage_ok S I st"
  have z: "zset_ok S I z" if "zset_entry I (lookup st db key) = Some z" for z
    using st that zset_ok_new
    by (cases "(I, lookup st db key)" rule: zset_entry.cases) (auto dest: value_ok_lookup)
  show "storage_ok S I (snd (cmd st))"
    using st z ok by (auto simp: cmd Let_def lookup_simps split: option.splits intro!: wf_intros)
  have new: "bm_get (entries (g (ZSet_new I))) = f Map.empty"
    using abs [OF zset_ok_new] by (simp add: ZSet_new_def)
  have "fst (cmd st) = fst (spec_zset_new f (map_option (abs_value V) (lookup st db key))) \<and>
      map_option (abs_value V) (lookup (snd (cmd st)) db key) =
        snd (spec_zset_new f (map_option (abs_value V) (lookup st db key)))"
  proof (cases "lookup st db key")
    case (Some v)
    then show ?thesis using z abs by (cases v) (simp_all add: cmd cmd_simps)
  qed (simp add: cmd cmd_simps new)
  then show "fst (cmd st) = fst (spec_zset_new f (map_option (abs_value V) (lookup st db key)))"
    "map_option (abs_value V) (lookup (snd (cmd st)) db key) =
        snd (spec_zset_new f (map_option (abs_value V) (lookup st db key)))"
    by simp_all
  show "lookup (snd (cmd st)) db' k = lookup st db' k" if "(db', k) \<noteq> (db, key)" for db' k
    using that by (auto simp: cmd cmd_simps split: option.splits)
qed

text \<open>Adding one member: the index entry of the old score goes, the two structures get the new one.\<close>

lemma zadd_member_ok:
  assumes "zset_ok S I z"
  shows "zset_ok S I (zadd_member S I opts p z)"
    and "bm_get (entries (zadd_member S I opts p z)) = zadd_pair S (set opts) p (bm_get (entries z))"
proof -
  obtain score x where p: "p = (score, x)" by fastforce
  show "zset_ok S I (zadd_member S I opts p z)"
    using assms zset_ok_put [OF assms] zset_ok_update [OF assms]
    by (auto simp: p zadd_member_def Let_def split: option.split)
  show "bm_get (entries (zadd_member S I opts p z)) = zadd_pair S (set opts) p (bm_get (entries z))"
    by (auto simp: p zadd_member_def zadd_pair_def zadd_writes_def Let_def entries_put
        simp flip: not_sc_le split: option.split)
qed

lemma zadd_members_ok:
  "zset_ok S I z \<Longrightarrow> zset_ok S I (fold (zadd_member S I opts) ps z) \<and>
     bm_get (entries (fold (zadd_member S I opts) ps z)) = fold (zadd_pair S (set opts)) ps (bm_get (entries z))"
  by (induction ps arbitrary: z) (simp_all add: zadd_member_ok)

lemma zadd_refines: "key_command V S I (\<lambda>st. zadd S I st db key ps opts) db key (spec_zadd S ps (set opts))"
proof (cases "zadd_error (set opts) (length ps)")
  case None
  then have c: "\<not> (NX \<in> set opts \<and> XX \<in> set opts)" "\<not> ((GT \<in> set opts \<or> LT \<in> set opts) \<and> NX \<in> set opts)"
    "\<not> (INCR \<in> set opts \<and> length ps \<noteq> 1)"
    by (auto simp: zadd_error_def split: if_splits)
  have "key_command V S I (\<lambda>st. zadd S I st db key ps opts) db key
      (spec_zset_new (fold (zadd_pair S (set opts)) ps))"
    unfolding zadd_def Let_def if_not_P [OF c(1)] if_not_P [OF c(2)] if_not_P [OF c(3)]
    by (rule zset_new_command [where g = "fold (zadd_member S I opts) ps"])
      (simp_all add: zadd_members_ok Let_def)
  moreover have "spec_zadd S ps (set opts) = spec_zset_new (fold (zadd_pair S (set opts)) ps)"
    by (simp add: fun_eq_iff spec_zadd_def None)
  ultimately show ?thesis by simp
next
  case (Some e)
  then have "zadd S I st db key ps opts = (Err e, st)" for st :: "('a, 'i) StorageInner"
    by (auto simp: zadd_def zadd_error_def Let_def split: if_splits)
  then show ?thesis
    by (intro key_commandI) (simp_all add: spec_zadd_def Some)
qed

lemma zincrby_refines:
  "key_command V S I (\<lambda>st. zincrby S I st db key d x) db key (spec_zincrby S d x)"
  unfolding spec_zincrby_def
proof (rule zset_new_command)
  let ?old = "\<lambda>z. case bm_get (entries z) x of None \<Rightarrow> f64_zero | Some s \<Rightarrow> s"
  let ?g = "\<lambda>z. zset_put I x (of_add S (?old z) d)
    (if \<not> sc_eq S (?old z) f64_zero \<or> bm_contains_key (entries z) x
     then z\<lparr>index := ix_remove I (index z) (create_ref (?old z) x)\<rparr> else z)"
  show "zincrby S I st db key d x =
    (let m = db_entry st db
     in case zset_entry I (bm_get m key) of
          None \<Rightarrow> (Err WrongType, put_db st db m)
        | Some z \<Rightarrow> (Ok (), put_db st db (bm_insert key (ZSet (?g z)) m)))" for st :: "('a, 'i) StorageInner"
    by (simp add: zincrby_def Let_def split: option.split)
  show "zset_ok S I (?g z)" if "zset_ok S I z" for z
    using zset_ok_put [OF that] zset_ok_update [OF that]
    by (cases "bm_get (entries z) x") (simp_all add: sc_eq_refl bm_contains_key_def)
  show "bm_get (entries (?g z)) = (bm_get (entries z))(x \<mapsto> of_add S (?old z) d)" for z
    by (simp add: entries_put)
qed

text \<open>Removing members.\<close>

lemma unless_empty_abs:
  assumes "zset_ok S I z"
  shows "map_option (\<lambda>z. AZSet (bm_get (entries z))) (zset_unless_empty z) = azset (bm_get (entries z))"
proof -
  have "entries z = [] \<longleftrightarrow> bm_get (entries z) = Map.empty"
    using assms by (intro bm.entries_empty_iff) (simp add: zset_ok_def)
  then show ?thesis
    by (simp add: zset_unless_empty_def azset_def ZSet_is_empty_def)
qed

lemma unless_empty_ok: "zset_ok S I z \<Longrightarrow> zset_unless_empty z = Some z' \<Longrightarrow> zset_ok S I z'"
  by (simp add: zset_unless_empty_def split: if_splits)

lemma zrem_members_ok:
  "zset_ok S I z \<Longrightarrow> zset_ok S I (fold (zrem_member I) xs z) \<and>
     bm_get (entries (fold (zrem_member I) xs z)) = bm_get (entries z) |` (- set xs)"
proof (induction xs arbitrary: z)
  case (Cons x xs)
  have "zset_ok S I (zrem_member I x z)" "bm_get (entries (zrem_member I x z)) = (bm_get (entries z))(x := None)"
    using zset_ok_drop [OF Cons.prems] Cons.prems
    by (auto simp: zrem_member_def entries_drop fun_eq_iff split: option.split)
  with Cons.IH show ?case
    by (auto simp: restrict_map_def fun_eq_iff)
qed (simp add: restrict_map_def)

lemma zrem_refines: "key_command V S I (\<lambda>st. zrem I st db key xs) db key (spec_zrem xs)"
  unfolding zrem_def spec_zrem_def
  by (rule zset_mut_command) (auto simp: zrem_members_ok unless_empty_abs dest: unless_empty_ok [rotated])

lemma remove_collected_ok:
  "zset_ok S I z \<Longrightarrow> distinct (map fst ps) \<Longrightarrow> \<forall>(x, s) \<in> set ps. bm_get (entries z) x = Some s \<Longrightarrow>
     zset_ok S I (remove_collected I ps z) \<and>
     bm_get (entries (remove_collected I ps z)) = bm_get (entries z) |` (- fst ` set ps)"
proof (induction ps arbitrary: z)
  case (Cons p ps)
  obtain x s where p: "p = (x, s)" by fastforce
  have "zset_ok S I (zset_drop I x s z)"
    using Cons.prems p by (intro zset_ok_drop) auto
  moreover have "\<forall>(y, t) \<in> set ps. bm_get (entries (zset_drop I x s z)) y = Some t"
    using Cons.prems p by (force simp: entries_drop)
  ultimately show ?case
    using Cons.IH Cons.prems(2) p
    by (auto simp: remove_collected_def entries_drop restrict_map_def fun_eq_iff)
qed (simp add: remove_collected_def restrict_map_def)

text \<open>Removing what a query on the index collected.\<close>

lemma remove_query:
  assumes z: "zset_ok S I z" and sub: "set ks \<subseteq> set (ix_iter I (index z))" and dist: "distinct ks"
  defines "ps \<equiv> map (\<lambda>(s, x). (x, s)) (map (the \<circ> unwrap_key) ks)"
  shows "zset_ok S I (remove_collected I ps z)"
    and "bm_get (entries (remove_collected I ps z)) =
      bm_get (entries z) |` {x. \<not> (\<exists>s. bm_get (entries z) x = Some s \<and> Key s x \<in> set ks)}"
proof -
  have mem: "(x, s) \<in> set ps \<longleftrightarrow> Key s x \<in> set ks" for x s
    using sub index_mem_iff [OF z] by (force simp: ps_def image_iff)
  have entry: "bm_get (entries z) x = Some s" if "(x, s) \<in> set ps" for x s
    using that mem sub index_mem_iff [OF z] by blast
  have form: "\<exists>x s. k = Key s x \<and> bm_get (entries z) x = Some s" if "k \<in> set ks" for k
    using that sub index_mem_iff [OF z] by blast
  have "inj_on (\<lambda>k. fst ((\<lambda>(s, x). (x, s)) ((the \<circ> unwrap_key) k))) (set ks)"
  proof (rule inj_onI)
    fix k k'
    assume "k \<in> set ks" "k' \<in> set ks"
      "fst ((\<lambda>(s, x). (x, s)) ((the \<circ> unwrap_key) k)) = fst ((\<lambda>(s, x). (x, s)) ((the \<circ> unwrap_key) k'))"
    then show "k = k'"
      using form [of k] form [of k'] by auto
  qed
  then have d: "distinct (map fst ps)"
    using dist by (simp add: ps_def distinct_map comp_def)
  have e: "\<forall>(x, s) \<in> set ps. bm_get (entries z) x = Some s"
    using entry by auto
  show "zset_ok S I (remove_collected I ps z)"
    using remove_collected_ok [OF z d e] by simp
  have "fst ` set ps = {x. \<exists>s. bm_get (entries z) x = Some s \<and> Key s x \<in> set ks}"
    using mem entry by force
  moreover have "- {x. \<exists>s. bm_get (entries z) x = Some s \<and> Key s x \<in> set ks} =
      {x. \<not> (\<exists>s. bm_get (entries z) x = Some s \<and> Key s x \<in> set ks)}"
    by auto
  ultimately show "bm_get (entries (remove_collected I ps z)) =
      bm_get (entries z) |` {x. \<not> (\<exists>s. bm_get (entries z) x = Some s \<and> Key s x \<in> set ks)}"
    using remove_collected_ok [OF z d e] by simp
qed

lemma restrict_cong: "(\<And>x s. m x = Some s \<Longrightarrow> x \<in> A \<longleftrightarrow> x \<in> B) \<Longrightarrow> m |` A = m |` B"
  by (rule ext) (metis not_Some_eq restrict_map_def)

lemma range_idx_index:
  assumes z: "zset_ok S I z" and b: "b < card (dom (bm_get (entries z)))" "a \<le> b"
  shows "unwrap_keys (ix_range_idx I (index z) a b) =
      Ok (map (the \<circ> unwrap_key) (take (Suc b - a) (drop a (ix_iter I (index z)))))"
proof -
  have "ix_range_idx I (index z) a b = take (Suc b - a) (drop a (ix_iter I (index z)))"
    using z b z_length(1) [OF z] by (intro range_idx_iter) (simp_all add: zset_ok_def)
  moreover have "\<forall>k \<in> set (take (Suc b - a) (drop a (ix_iter I (index z)))). is_stored k"
    using z by (auto simp: zset_ok_def index_ok_def dest: in_set_takeD in_set_dropD)
  ultimately show ?thesis by (simp add: unwrap_keys_stored)
qed

lemma zremrangebyrank_refines:
  "key_command V S I (\<lambda>st. zremrangebyrank I st db key i j) db key (spec_zremrangebyrank S i j)"
  unfolding zremrangebyrank_def spec_zremrangebyrank_def
proof (rule zset_mut_command)
  fix z assume z: "zset_ok S I z"
  let ?m = "bm_get (entries z)"
  let ?n = "card (dom ?m)" let ?a = "range_pos (int ?n) i" let ?b = "range_pos (int ?n) j"
  let ?ks = "take (Suc ?b - ?a) (drop ?a (ix_iter I (index z)))"
  let ?z' = "remove_collected I (map (\<lambda>(s, x). (x, s)) (map (the \<circ> unwrap_key) ?ks)) z"
  let ?g = "let len = int (ZSet_len z)
     in if len = 0 then (Ok (), Some z)
        else
          let start_pos = range_pos len i; stop_pos = range_pos len j
          in if start_pos > stop_pos then (Ok (), Some z)
             else
               case unwrap_keys (ix_range_idx I (index z) start_pos stop_pos) of
                 Inl e \<Rightarrow> (Err e, Some z)
               | Inr ps \<Rightarrow> (Ok (), zset_unless_empty (remove_collected I (map (\<lambda>(score, entry). (entry, score)) ps) z))"
  have g: "?g = (if ?n = 0 \<or> ?a > ?b then (Ok (), Some z) else (Ok (), zset_unless_empty ?z'))"
    using range_pos_less [of ?n j] range_idx_index [OF z, of ?b ?a]
    by (auto simp: z_length(2) [OF z] Let_def simp del: map_map)
  have ok: "zset_ok S I ?z'"
    and abs: "bm_get (entries ?z') = ?m |` {x. \<not> (\<exists>s. ?m x = Some s \<and> Key s x \<in> set ?ks)}"
    using remove_query [OF z, of ?ks] z_index_distinct [OF z]
    by (auto dest: in_set_takeD in_set_dropD simp del: map_map)
  show "zset_ok S I z''" if "snd ?g = Some z''" for z''
    using that z ok unfolding g by (auto split: if_splits dest: unless_empty_ok [rotated])
  let ?f = "let n = int ?n; a = range_pos n i; b = range_pos n j
     in (Ok (), if n = 0 then Some (AZSet ?m) else azset (?m |` {x. \<not> (a \<le> z_rank S ?m x \<and> z_rank S ?m x \<le> b)}))"
  show "fst ?g = fst ?f"
    unfolding g by (simp add: Let_def)
  have sel: "?m |` {x. \<not> (\<exists>s. ?m x = Some s \<and> Key s x \<in> set ?ks)} =
      ?m |` {x. \<not> (?a \<le> z_rank S ?m x \<and> z_rank S ?m x \<le> ?b)}"
    by (rule restrict_cong) (auto simp: z_slice [OF z])
  have "?n \<noteq> 0 \<Longrightarrow> ?m \<noteq> Map.empty"
    by auto
  moreover have "?m |` {x. \<not> (?a \<le> z_rank S ?m x \<and> z_rank S ?m x \<le> ?b)} = ?m" if "?a > ?b"
    using that by (intro ext) (simp add: restrict_map_def)
  moreover note unless_empty_abs [OF ok, unfolded abs sel]
  ultimately show "map_option (\<lambda>z. AZSet (bm_get (entries z))) (snd ?g) = snd ?f"
    unfolding g by (cases "?n = 0"; cases "?a > ?b") (simp_all add: Let_def azset_def del: map_map card_eq_0_iff)
qed

text \<open>
  A query by score: the index may let neighbours of the bounds through, the filter drops them, so the
  result is exactly the members in range, in order. The bounds must not be inverted, where the behaviour
  of the index is not specified.
\<close>

lemma in_range_bounds:
  "score_in_range S s lo hi \<Longrightarrow>
     key_above S (min_bound_key lo) (Key s x) \<and> key_below S (max_bound_key hi) (Key s x)"
proof -
  assume r: "score_in_range S s lo hi"
  have "sc_le S a s \<Longrightarrow> key_cmp S (Key s x) (MinScoreKey a) \<noteq> Some Less" for a
    by (simp add: key_less_min del: key_cmp.simps)
  moreover have "sc_le S s b \<Longrightarrow> key_cmp S (Key s x) (MaxScoreKey b) \<noteq> Some Greater" for b
    by (auto simp: sc_le_def or_else_iffs)
  ultimately show ?thesis
    using r
    by (cases lo; cases hi)
      (auto simp: score_in_range_def min_score_key_def max_score_key_def sc_lt_le simp del: key_cmp.simps)
qed

lemma range_by_score:
  assumes z: "zset_ok S I z" and r: "score_range_ok S (min_bound_key lo) (max_bound_key hi)"
  shows "filter (\<lambda>k. score_in_range S (fst (the (unwrap_key k))) lo hi)
        (ix_range I (index z) (min_bound_key lo) (max_bound_key hi)) =
      filter (\<lambda>k. score_in_range S (fst (the (unwrap_key k))) lo hi) (ix_iter I (index z))"
    and "\<forall>k \<in> set (ix_range I (index z) (min_bound_key lo) (max_bound_key hi)). is_stored k"
proof -
  let ?in = "\<lambda>k. score_in_range S (fst (the (unwrap_key k))) lo hi"
  let ?b = "\<lambda>k. key_above S (min_bound_key lo) k \<and> key_below S (max_bound_key hi) k"
  let ?r = "ix_range I (index z) (min_bound_key lo) (max_bound_key hi)"
  have ok: "index_ok S (ix_iter I (index z))" using z by (simp add: zset_ok_def)
  have sub: "set ?r \<subseteq> set (ix_iter I (index z))" by (rule range_sub [OF ok r])
  then show st: "\<forall>k \<in> set ?r. is_stored k" using ok by (auto simp: index_ok_def)
  have b: "?in k \<Longrightarrow> ?b k" if "is_stored k" for k
    using that in_range_bounds by (cases k) auto
  have f: "filter ?in ks = filter ?in (filter ?b ks)" if "\<forall>k \<in> set ks. is_stored k" for ks
    unfolding filter_filter using that b by (intro filter_cong) auto
  have "\<forall>k \<in> set (ix_iter I (index z)). is_stored k" using ok by (simp add: index_ok_def)
  from f [OF this] f [OF st] show "filter ?in ?r = filter ?in (ix_iter I (index z))"
    unfolding range_iter [OF ok r] by (rule trans [OF _ sym, rotated])
qed

lemma collect_by_score_index:
  assumes "zset_ok S I z" "score_range_ok S (min_bound_key lo) (max_bound_key hi)"
  shows "collect_by_score S I lo hi z = Ok (map (\<lambda>(s, x). (x, s)) (map (the \<circ> unwrap_key)
    (filter (\<lambda>k. score_in_range S (fst (the (unwrap_key k))) lo hi) (ix_iter I (index z)))))"
  unfolding range_by_score(1) [OF assms, symmetric]
  by (simp add: collect_by_score_def unwrap_keys_stored range_by_score(2) [OF assms] filter_map
      case_prod_beta comp_def)

lemma zremrangebyscore_refines:
  assumes r: "score_range_ok S (min_bound_key lo) (max_bound_key hi)"
  shows "key_command V S I (\<lambda>st. zremrangebyscore S I st db key lo hi) db key (spec_zremrangebyscore S lo hi)"
  unfolding zremrangebyscore_def spec_zremrangebyscore_def
proof (rule zset_mut_command)
  fix z assume z: "zset_ok S I z"
  let ?m = "bm_get (entries z)"
  let ?ks = "filter (\<lambda>k. score_in_range S (fst (the (unwrap_key k))) lo hi) (ix_iter I (index z))"
  let ?z' = "remove_collected I (map (\<lambda>(s, x). (x, s)) (map (the \<circ> unwrap_key) ?ks)) z"
  have ok: "zset_ok S I ?z'"
    and abs: "bm_get (entries ?z') = ?m |` {x. \<not> (\<exists>s. ?m x = Some s \<and> Key s x \<in> set ?ks)}"
    using remove_query [OF z, of ?ks] z_index_distinct [OF z] by (auto simp del: map_map)
  let ?g = "case collect_by_score S I lo hi z of
      Inl e \<Rightarrow> (Err e, Some z) | Inr ps \<Rightarrow> (Ok (), zset_unless_empty (remove_collected I ps z))"
  have g: "?g = (Ok (), zset_unless_empty ?z')"
    unfolding collect_by_score_index [OF z r] by (simp only: sum.case)
  show "zset_ok S I z''" if "snd ?g = Some z''" for z''
    using that ok unfolding g by (auto dest: unless_empty_ok [rotated])
  have "{x. \<not> (\<exists>s. ?m x = Some s \<and> Key s x \<in> set ?ks)} =
      {x. \<not> (\<exists>s. ?m x = Some s \<and> score_in_range S s lo hi)}"
    using index_mem_iff [OF z] by auto
  then show "map_option (\<lambda>z. AZSet (bm_get (entries z))) (snd ?g) =
      snd (Ok (), azset (?m |` {x. \<not> (\<exists>s. ?m x = Some s \<and> score_in_range S s lo hi)}))"
    unfolding g using unless_empty_abs [OF ok, unfolded abs] by (simp only: snd_conv)
  show "fst ?g = fst (Ok (), azset (?m |` {x. \<not> (\<exists>s. ?m x = Some s \<and> score_in_range S s lo hi)}))"
    unfolding g by simp
qed

lemma zremrangebylex_refines:
  "key_command V S I (\<lambda>st. zremrangebylex I st db key lo hi) db key (spec_zremrangebylex lo hi)"
  unfolding zremrangebylex_def spec_zremrangebylex_def
proof (rule zset_mut_command)
  fix z assume z: "zset_ok S I z"
  let ?m = "bm_get (entries z)"
  let ?ps = "filter (\<lambda>e. above lo (fst e) \<and> below hi (fst e)) (entries z)"
  let ?g = "case bm_range lo hi (entries z) of
      None \<Rightarrow> (Err Panic, Some z) | Some ps \<Rightarrow> (Ok (), zset_unless_empty (remove_collected I ps z))"
  let ?f = "if range_ok lo hi then (Ok (), azset (?m |` {x. \<not> (above lo x \<and> below hi x)}))
     else (Err Panic, Some (AZSet ?m))"
  have s: "bm_sorted (entries z)" using z by (simp add: zset_ok_def)
  have "zset_ok S I (remove_collected I ?ps z) \<and>
      bm_get (entries (remove_collected I ?ps z)) = ?m |` (- fst ` set ?ps)"
    using bm.entries_get [OF s] bm_sorted_distinct [OF bm_sorted_filter [OF s]]
    by (intro remove_collected_ok [OF z]) auto
  moreover have "?m |` (- fst ` set ?ps) = ?m |` {x. \<not> (above lo x \<and> below hi x)}"
    by (rule restrict_cong) (force simp flip: bm.entries_get [OF s])
  ultimately have ok: "zset_ok S I (remove_collected I ?ps z)"
    and abs: "bm_get (entries (remove_collected I ?ps z)) = ?m |` {x. \<not> (above lo x \<and> below hi x)}"
    by simp_all
  show "zset_ok S I z''" if "snd ?g = Some z''" for z''
    using that z ok by (auto simp: bm_range_def split: if_splits dest: unless_empty_ok [rotated])
  show "fst ?g = fst ?f" by (simp add: bm_range_def)
  show "map_option (\<lambda>z. AZSet (bm_get (entries z))) (snd ?g) = snd ?f"
    using unless_empty_abs [OF ok, unfolded abs] by (simp add: bm_range_def)
qed

text \<open>Popping from one end of the index.\<close>

lemma zpop_step:
  assumes z: "zset_ok S I z" and k: "k \<in> set (ix_iter I (index z))"
    and ix: "ix_iter I ix = filter (\<lambda>j. j \<noteq> k) (ix_iter I (index z))"
  shows "zset_ok S I \<lparr>index = ix, entries = bm_remove (snd (the (unwrap_key k))) (entries z)\<rparr>"
proof -
  obtain s x where "k = Key s x" "bm_get (entries z) x = Some s"
    using k index_mem_iff [OF z] by blast
  moreover have "index_ok S (ix_iter I ix)"
    using z by (simp add: ix index_ok_def zset_ok_def sorted_wrt_filter)
  moreover have "set (filter (\<lambda>j. j \<noteq> Key s x) (ix_iter I (index z))) =
      (\<lambda>(m, s). Key s m) ` set (bm_remove x (entries z))"
    using z \<open>bm_get (entries z) x = Some s\<close>
    by (force simp: zset_ok_def bm_remove_def bm.entries_get image_iff)
  ultimately show ?thesis
    using z by (simp add: zset_ok_def ix bm_sorted_remove)
qed

lemma zpop_loop_index:
  assumes pop: "\<And>x. index_ok S (ix_iter I x) \<Longrightarrow> ix_iter I x \<noteq> [] \<Longrightarrow>
      fst (pop x) = Some (pick (ix_iter I x)) \<and> ix_iter I (snd (pop x)) = rest (ix_iter I x)"
    and pop0: "\<And>x. ix_iter I x = [] \<Longrightarrow> fst (pop x) = None \<and> ix_iter I (snd (pop x)) = []"
    and pick: "\<And>ks. ks \<noteq> [] \<Longrightarrow> pick ks \<in> set ks"
    and rest: "\<And>ks. distinct ks \<Longrightarrow> ks \<noteq> [] \<Longrightarrow> rest ks = filter (\<lambda>j. j \<noteq> pick ks) ks"
    and rest0: "rest [] = []"
  shows "zset_ok S I z \<Longrightarrow> \<exists>z'. zpop_loop pop n z = (Ok (), z') \<and> zset_ok S I z' \<and>
    ix_iter I (index z') = (rest ^^ n) (ix_iter I (index z))"
proof (induction n arbitrary: z)
  case (Suc n)
  let ?ks = "ix_iter I (index z)"
  have ok: "index_ok S ?ks" using Suc.prems by (simp add: zset_ok_def)
  show ?case
  proof (cases "?ks = []")
    case True
    have "(rest ^^ k) [] = []" for k by (induction k) (simp_all add: rest0)
    then show ?thesis
      using pop0 [OF True] True Suc.prems
      by (cases "pop (index z)") (auto simp: zset_ok_def rest0 simp flip: funpow_swap1)
  next
    case False
    let ?k = "pick ?ks"
    obtain ix where k: "?k \<in> set ?ks" "pop (index z) = (Some ?k, ix)" "ix_iter I ix = rest ?ks"
      using pop [OF ok False] pick [OF False] by (cases "pop (index z)") auto
    obtain s x where sx: "?k = Key s x" using k(1) index_mem_iff [OF Suc.prems] by blast
    let ?z = "\<lparr>index = ix, entries = bm_remove x (entries z)\<rparr>"
    have "zset_ok S I ?z"
      using zpop_step [OF Suc.prems k(1), of ix] rest [OF z_index_distinct [OF Suc.prems] False] k(3) sx by simp
    from Suc.IH [OF this] obtain z' where "zpop_loop pop n ?z = (Ok (), z')" "zset_ok S I z'"
      "ix_iter I (index z') = (rest ^^ n) (rest ?ks)"
      using k(3) by auto
    moreover from this have "zpop_loop pop (Suc n) z = (Ok (), z')"
      using k(2) sx by simp
    ultimately show ?thesis
      by (auto simp: bm_remove_def funpow_swap1)
  qed
qed simp

lemma map_eq_Some_iff: "(\<And>x s. f x = Some s \<longleftrightarrow> g x = Some s) \<Longrightarrow> f = g"
  by (rule ext) (metis not_Some_eq)

lemma zpop_command:
  assumes loop: "\<And>z. zset_ok S I z \<Longrightarrow> \<exists>z'. zpop_loop pop n z = (Ok (), z') \<and> zset_ok S I z' \<and>
      bm_get (entries z') = bm_get (entries z) |` A (bm_get (entries z))"
  shows "key_command V S I (\<lambda>st. zset_mut st db key (\<lambda>zset.
      case zpop_loop pop n zset of
        (Inl e, z) \<Rightarrow> (Err e, Some z)
      | (Inr _, z) \<Rightarrow> (Ok (), zset_unless_empty z))) db key
    (spec_zset_mut (\<lambda>m. (Ok (), azset (m |` A m))))"
proof (rule zset_mut_command)
  fix z assume z: "zset_ok S I z"
  let ?g = "case zpop_loop pop n z of
      (Inl e, z) \<Rightarrow> (Err e, Some z) | (Inr _, z) \<Rightarrow> (Ok (), zset_unless_empty z)"
  obtain z' where z': "zpop_loop pop n z = (Ok (), z')" "zset_ok S I z'"
    "bm_get (entries z') = bm_get (entries z) |` A (bm_get (entries z))"
    using loop [OF z] by blast
  show "zset_ok S I z''" if "snd ?g = Some z''" for z''
    using that z' by (auto dest: unless_empty_ok [rotated])
  show "fst ?g = fst (Ok (), azset (bm_get (entries z) |` A (bm_get (entries z))))"
    by (simp add: z')
  show "map_option (\<lambda>z. AZSet (bm_get (entries z))) (snd ?g) =
      snd (Ok (), azset (bm_get (entries z) |` A (bm_get (entries z))))"
    using unless_empty_abs [OF z'(2)] by (simp add: z')
qed

lemma tl_funpow: "(tl ^^ n) xs = drop n xs"
  by (induction n) (simp_all add: drop_Suc tl_drop)

lemma zpopmin_refines: "key_command V S I (\<lambda>st. zpopmin I st db key n) db key (spec_zpopmin S n)"
  unfolding zpopmin_def spec_zpopmin_def
proof (rule zpop_command)
  fix z assume z: "zset_ok S I z"
  have "\<exists>z'. zpop_loop (ix_pop_first I) n z = (Ok (), z') \<and> zset_ok S I z' \<and>
      ix_iter I (index z') = (tl ^^ n) (ix_iter I (index z))"
    by (rule zpop_loop_index [where pick = hd, OF _ _ _ _ _ z])
      (auto simp: pop_first_iter iter_pop_first index_ok_def neq_Nil_conv filter_id_conv)
  then obtain z' where z': "zpop_loop (ix_pop_first I) n z = (Ok (), z')" "zset_ok S I z'"
    "ix_iter I (index z') = drop n (ix_iter I (index z))"
    by (auto simp: tl_funpow)
  have "bm_get (entries z') = bm_get (entries z) |` {x. n \<le> z_rank S (bm_get (entries z)) x}"
  proof (rule map_eq_Some_iff)
    fix x s
    have "bm_get (entries z') x = Some s \<longleftrightarrow> Key s x \<in> set (take (length (ix_iter I (index z))) (drop n (ix_iter I (index z))))"
      using index_mem_iff [OF z'(2), of "Key s x"] z'(3) by simp
    then show "bm_get (entries z') x = Some s \<longleftrightarrow>
        (bm_get (entries z) |` {x. n \<le> z_rank S (bm_get (entries z)) x}) x = Some s"
      using z_rank_less [OF z, of x s] z_length(1) [OF z] unfolding z_slice [OF z]
      by (auto simp: restrict_map_def split: if_splits)
  qed
  with z' show "\<exists>z'. zpop_loop (ix_pop_first I) n z = (Ok (), z') \<and> zset_ok S I z' \<and>
      bm_get (entries z') = bm_get (entries z) |` {x. n \<le> z_rank S (bm_get (entries z)) x}"
    by blast
qed

lemma butlast_power: "(butlast ^^ n) xs = take (length xs - n) xs"
  by (induction n) (simp_all add: butlast_take)

lemma zpopmax_refines: "key_command V S I (\<lambda>st. zpopmax I st db key n) db key (spec_zpopmax S n)"
  unfolding zpopmax_def spec_zpopmax_def
proof (rule zpop_command)
  fix z assume z: "zset_ok S I z"
  let ?m = "bm_get (entries z)"
  have b: "butlast ks = filter (\<lambda>j. j \<noteq> last ks) ks" if "distinct ks" "ks \<noteq> []" for ks :: "ZSetIndexKey list"
    using that by (cases ks rule: rev_cases) (auto simp: filter_id_conv)
  have "\<exists>z'. zpop_loop (ix_pop_last I) n z = (Ok (), z') \<and> zset_ok S I z' \<and>
      ix_iter I (index z') = (butlast ^^ n) (ix_iter I (index z))"
    by (rule zpop_loop_index [where pick = last, OF _ _ _ b _ z])
      (auto simp: pop_last_iter iter_pop_last index_ok_def)
  then obtain z' where z': "zpop_loop (ix_pop_last I) n z = (Ok (), z')" "zset_ok S I z'"
    "ix_iter I (index z') = take (card (dom ?m) - n) (ix_iter I (index z))"
    by (auto simp: butlast_power z_length(1) [OF z])
  have "bm_get (entries z') = ?m |` {x. z_rank S ?m x + n < card (dom ?m)}"
  proof (rule map_eq_Some_iff)
    fix x s
    have "bm_get (entries z') x = Some s \<longleftrightarrow> Key s x \<in> set (take (card (dom ?m) - n) (drop 0 (ix_iter I (index z))))"
      using index_mem_iff [OF z'(2), of "Key s x"] z'(3) by simp
    then show "bm_get (entries z') x = Some s \<longleftrightarrow>
        (?m |` {x. z_rank S ?m x + n < card (dom ?m)}) x = Some s"
      unfolding z_slice [OF z] by (auto simp: restrict_map_def)
  qed
  with z' show "\<exists>z'. zpop_loop (ix_pop_last I) n z = (Ok (), z') \<and> zset_ok S I z' \<and>
      bm_get (entries z') = ?m |` {x. z_rank S ?m x + n < card (dom ?m)}"
    by blast
qed

section \<open>What readers return\<close>

text \<open>A reader is a function \<open>f\<close> of the map from members to scores.\<close>

lemma zset_read_abs:
  assumes "storage_ok S I st" "\<And>z. zset_ok S I z \<Longrightarrow> g z = f (bm_get (entries z))"
  shows "zset_read st db key a g =
    (case abs_storage V st db key of None \<Rightarrow> Ok a | Some (AZSet m) \<Rightarrow> f m | Some _ \<Rightarrow> Err WrongType)"
  using value_ok_lookup [OF assms(1), of db key] assms(2)
  by (auto simp: zset_read_lookup abs_storage_def split: option.split StorageValue.split)

lemma ix_rank_index:
  assumes z: "zset_ok S I z" and x: "bm_get (entries z) x = Some s"
  shows "ix_rank I (index z) (create_ref s x) = z_rank S (bm_get (entries z)) x"
proof -
  have "filter (\<lambda>k. key_less S k (Ref s x)) (ix_iter I (index z)) =
      filter (\<lambda>k. key_less S k (Key s x)) (ix_iter I (index z))"
    using z by (intro filter_cong) (auto simp: zset_ok_def index_ok_def key_less_Ref)
  then show ?thesis
    using z z_rank_filter [OF z x] by (simp add: rank_iter zset_ok_def create_ref_def)
qed

lemma zrank_abs:
  "storage_ok S I st \<Longrightarrow> zrank I st db key x =
     (case abs_storage V st db key of
        None \<Rightarrow> Ok None
      | Some (AZSet m) \<Rightarrow> Ok (if x \<in> dom m then Some (z_rank S m x) else None)
      | Some _ \<Rightarrow> Err WrongType)"
  unfolding zrank_def
proof (rule zset_read_abs)
  fix z assume z: "zset_ok S I z"
  have "ix_rank I (index z) (create_ref s x) = z_rank S (bm_get (entries z)) x"
    if "bm_get (entries z) x = Some s" for s
    by (rule ix_rank_index [OF z that])
  then show "(case bm_get (entries z) x of
        None \<Rightarrow> Ok None | Some s \<Rightarrow> Ok (Some (ix_rank I (index z) (create_ref s x)))) =
      Ok (if x \<in> dom (bm_get (entries z)) then Some (z_rank S (bm_get (entries z)) x) else None)"
    by (auto simp: dom_def split: option.split)
qed

lemma zscore_abs:
  "storage_ok S I st \<Longrightarrow> zscore st db key x =
     (case abs_storage V st db key of None \<Rightarrow> Ok None | Some (AZSet m) \<Rightarrow> Ok (m x) | Some _ \<Rightarrow> Err WrongType)"
  unfolding zscore_def by (rule zset_read_abs) simp_all

lemma zcard_abs:
  "storage_ok S I st \<Longrightarrow> zcard st db key =
     (case abs_storage V st db key of None \<Rightarrow> Ok 0 | Some (AZSet m) \<Rightarrow> Ok (card (dom m)) | Some _ \<Rightarrow> Err WrongType)"
  unfolding zcard_def by (rule zset_read_abs) (simp_all add: z_length(2))

lemma zrevrank_abs:
  "storage_ok S I st \<Longrightarrow> zrevrank I st db key x =
     (case abs_storage V st db key of
        None \<Rightarrow> Ok None
      | Some (AZSet m) \<Rightarrow> Ok (if x \<in> dom m then Some (card (dom m) - 1 - z_rank S m x) else None)
      | Some _ \<Rightarrow> Err WrongType)"
  unfolding zrevrank_def
proof (rule zset_read_abs)
  fix z assume z: "zset_ok S I z"
  have "ix_rank I (index z) (create_ref s x) = z_rank S (bm_get (entries z)) x"
    if "bm_get (entries z) x = Some s" for s
    by (rule ix_rank_index [OF z that])
  then show "(case bm_get (entries z) x of
        None \<Rightarrow> Ok None
      | Some s \<Rightarrow> (let rank = ix_rank I (index z) (create_ref s x)
          in if ZSet_len z < 1 + rank then Err Panic else Ok (Some (ZSet_len z - 1 - rank)))) =
      Ok (if x \<in> dom (bm_get (entries z))
          then Some (card (dom (bm_get (entries z))) - 1 - z_rank S (bm_get (entries z)) x) else None)"
    using z_rank_less [OF z, of x] by (auto simp: dom_def z_length(2) [OF z] split: option.split)
qed

text \<open>Two ranks bound the members in a range of scores.\<close>

lemma zcount_abs:
  "storage_ok S I st \<Longrightarrow> zcount I st db key lo hi =
     (case abs_storage V st db key of
        None \<Rightarrow> Ok 0
      | Some (AZSet m) \<Rightarrow> Ok (card {x. \<exists>s. m x = Some s \<and> sc_le S lo s \<and> sc_le S s hi})
      | Some _ \<Rightarrow> Err WrongType)"
  unfolding zcount_def
proof (rule zset_read_abs)
  fix z assume z: "zset_ok S I z"
  let ?m = "bm_get (entries z)"
  have ok: "index_ok S (ix_iter I (index z))" using z by (simp add: zset_ok_def)
  let ?lt = "{x. \<exists>s. ?m x = Some s \<and> \<not> sc_le S lo s}" let ?le = "{x. \<exists>s. ?m x = Some s \<and> sc_le S s hi}"
  have f: "filter (\<lambda>k. key_less S k (MinScoreKey lo)) (ix_iter I (index z)) =
        filter (\<lambda>k. \<not> sc_le S lo (fst (the (unwrap_key k)))) (ix_iter I (index z))"
    "filter (\<lambda>k. key_less S k (MaxScoreKey hi)) (ix_iter I (index z)) =
        filter (\<lambda>k. sc_le S (fst (the (unwrap_key k))) hi) (ix_iter I (index z))"
    using index_mem_iff [OF z] by (auto intro!: filter_cong simp: key_less_min key_less_max simp del: key_cmp.simps)
  have r: "ix_rank I (index z) (min_score_key lo) = card ?lt" "ix_rank I (index z) (max_score_key hi) = card ?le"
    using z_count [OF z, of "\<lambda>p. \<not> sc_le S lo (fst p)"] z_count [OF z, of "\<lambda>p. sc_le S (fst p) hi"]
    by (simp_all add: rank_iter [OF ok] f min_score_key_def max_score_key_def del: key_cmp.simps)
  have fin: "finite (dom ?m)"
    using z bm.dom_get [of "entries z"] by (simp add: zset_ok_def)
  have sub: "?lt \<subseteq> dom ?m" "?le \<subseteq> dom ?m" by auto
  have mid: "{x. \<exists>s. ?m x = Some s \<and> sc_le S lo s \<and> sc_le S s hi} = ?le - ?lt" by auto
  have "card (?le - ?lt) = card ?le - card ?lt"
  proof (cases "sc_le S lo hi")
    case True
    then have "?lt \<subseteq> ?le" using sc_le_trans sc_le_total by blast
    then show ?thesis using fin sub by (intro card_Diff_subset) (auto intro: finite_subset)
  next
    case False
    then have "?le \<subseteq> ?lt" using sc_le_trans by blast
    then show ?thesis using fin sub card_mono [of ?lt ?le] by (auto simp: Diff_eq_empty_iff [THEN iffD2] intro: finite_subset)
  qed
  then show "(let min_rank = ix_rank I (index z) (min_score_key lo); max_rank = ix_rank I (index z) (max_score_key hi)
      in if max_rank < min_rank then Ok 0 else Ok (max_rank - min_rank)) =
    Ok (card {x. \<exists>s. ?m x = Some s \<and> sc_le S lo s \<and> sc_le S s hi})"
    unfolding mid by (simp add: r Let_def)
qed

text \<open>The ranking of a map is unique, so the readers that list members are determined by it.\<close>

lemma z_ranking_unique:
  assumes "zset_ok S I z" "z_ranking S (bm_get (entries z)) ps"
  shows "map (the \<circ> unwrap_key) (ix_iter I (index z)) = ps"
proof -
  have tr: "z_before S p q \<Longrightarrow> \<not> z_before S q p" for p q
    using key_less_asym z_before_key by (cases p; cases q) blast
  have uniq: "sorted_wrt (z_before S) ps \<Longrightarrow> sorted_wrt (z_before S) qs \<Longrightarrow> set ps = set qs \<Longrightarrow> ps = qs" for ps qs
  proof (induction ps arbitrary: qs)
    case (Cons p ps)
    then obtain q qs' where qs: "qs = q # qs'" by (cases qs) auto
    have "p = q"
    proof (rule ccontr)
      assume "p \<noteq> q"
      then have "z_before S q p" "z_before S p q" using Cons.prems qs by auto
      with tr show False by blast
    qed
    moreover have "p \<notin> set ps" "q \<notin> set qs'" using Cons.prems tr [of p p] tr [of q q] qs by auto
    ultimately have "set ps = set qs'" using Cons.prems(3) qs by (simp add: insert_ident)
    with Cons.IH Cons.prems(1,2) \<open>p = q\<close> qs show ?case by simp
  qed auto
  show ?thesis
    using assms(2) z_ranking_index [OF assms(1)] unfolding z_ranking_def by (intro uniq) auto
qed

lemma zrange_abs:
  assumes st: "storage_ok S I st" and m: "abs_storage V st db key = Some (AZSet m)" and ps: "z_ranking S m ps"
  shows "zrange I st db key i j ws =
    Ok (map (\<lambda>(s, x). (x, if ws then Some s else None)) (clamped_range i j ps))"
proof -
  obtain z where l: "lookup st db key = Some (ZSet z)" and mz: "m = bm_get (entries z)"
    using m by (auto simp: abs_storage_def elim: abs_value.elims)
  have z: "zset_ok S I z" using value_ok_lookup [OF st l] by simp
  let ?n = "card (dom m)" let ?ks = "ix_iter I (index z)"
  have p: "map (the \<circ> unwrap_key) ?ks = ps" using z_ranking_unique [OF z] ps mz by simp
  have n: "length ps = ?n" "ZSet_len z = ?n" using z_length [OF z] by (simp_all add: mz flip: p)
  show ?thesis
  proof (cases "?n = 0")
    case False
    have b: "range_pos (int ?n) i < ?n" "range_pos (int ?n) j < ?n"
      using False range_pos_less [of ?n] by auto
    show ?thesis
    proof (cases "range_pos (int ?n) j < range_pos (int ?n) i")
      case True
      with False n l show ?thesis
        by (simp add: zrange_def zset_read_lookup clamped_range_def)
    next
      case le: False
      have "map (the \<circ> unwrap_key) (take a (drop b ?ks)) = take a (drop b ps)" for a b
        by (simp add: take_map drop_map flip: p)
      with range_idx_index [OF z, of "range_pos (int ?n) j" "range_pos (int ?n) i"]
      have "unwrap_keys (ix_range_idx I (index z) (range_pos (int ?n) i) (range_pos (int ?n) j)) = Ok (clamped_range i j ps)"
        using b le by (simp add: clamped_range_def Let_def n(1) flip: mz)
      with False n l b le show ?thesis
        by (simp add: zrange_def zset_read_lookup)
    qed
  qed (use n l in \<open>simp add: zrange_def zset_read_lookup clamped_range_def\<close>)
qed

lemma zrangebyscore_abs:
  assumes st: "storage_ok S I st" and m: "abs_storage V st db key = Some (AZSet m)" and ps: "z_ranking S m ps"
    and r: "sc_le S lo hi"
  shows "zrangebyscore S I st db key lo hi ws =
    Ok (map (\<lambda>(s, x). (x, if ws then Some s else None)) (filter (\<lambda>(s, x). sc_le S lo s \<and> sc_le S s hi) ps))"
proof -
  obtain z where l: "lookup st db key = Some (ZSet z)" and mz: "m = bm_get (entries z)"
    using m by (auto simp: abs_storage_def elim: abs_value.elims)
  have z: "zset_ok S I z" using value_ok_lookup [OF st l] by simp
  let ?r = "ix_range I (index z) (Included (MinScoreKey lo)) (Included (MaxScoreKey hi))"
  have p: "map (the \<circ> unwrap_key) (ix_iter I (index z)) = ps" using z_ranking_unique [OF z] ps mz by simp
  have q: "filter (\<lambda>k. sc_le S lo (fst (the (unwrap_key k))) \<and> sc_le S (fst (the (unwrap_key k))) hi) ?r =
      filter (\<lambda>k. sc_le S lo (fst (the (unwrap_key k))) \<and> sc_le S (fst (the (unwrap_key k))) hi) (ix_iter I (index z))"
    "unwrap_keys ?r = Ok (map (the \<circ> unwrap_key) ?r)"
    using range_by_score [OF z, of "Included lo" "Included hi"] r
    by (simp_all add: score_in_range_def min_score_key_def max_score_key_def unwrap_keys_stored)
  show ?thesis
    using l q
    by (simp add: zrangebyscore_def zset_read_lookup min_score_key_def max_score_key_def filter_map
        case_prod_beta comp_def flip: p)
qed

end

interpretation zset_cursor: ordered_cursor "storage_ok S I"
  "\<lambda>st. listing (zset_read st db key [] (\<lambda>z. Ok (map (\<lambda>(x, s). (s, x)) (entries z))))" snd
  "\<lambda>st n. listing (zfirst st db key n)" "\<lambda>st n. listing (zlast st db key n)"
  "\<lambda>st x n. listing (znext st db key x n)" "\<lambda>st x n. listing (zprev st db key x n)"
  for S :: score_ops and I :: "'i index_ops" and db :: u64 and key :: bytes
proof
  fix st :: "('v, 'i) StorageInner"
  assume st: "storage_ok S I st"
  show "sorted_wrt (<) (map snd (listing (zset_read st db key [] (\<lambda>z. Ok (map (\<lambda>(x, s). (s, x)) (entries z))))))"
  proof (cases "\<exists>z. lookup st db key = Some (ZSet z)")
    case True
    then obtain z where l: "lookup st db key = Some (ZSet z)" by blast
    have "bm_sorted (entries z)" using value_ok_lookup [OF st l] by (simp add: zset_ok_def)
    with l show ?thesis
      by (simp add: zset_read_lookup bm_sorted_def case_prod_beta comp_def)
  qed (auto simp: zset_read_lookup split: option.split StorageValue.split)
qed (auto simp: zfirst_def zlast_def znext_def zprev_def zset_read_lookup bm_after_eq bm_before_eq
       take_map rev_map filter_map comp_def case_prod_beta split: option.splits StorageValue.splits)

section \<open>Properties\<close>

text \<open>The ranking the index of a sorted set holds, and the map from members to scores.\<close>

fun zset_operand :: "avalue option \<Rightarrow> bool" where
  "zset_operand None = True"
| "zset_operand (Some (AZSet m)) = True"
| "zset_operand (Some _) = False"

fun zscores :: "avalue option \<Rightarrow> (bytes \<rightharpoonup> f64)" where
  "zscores (Some (AZSet m)) = m"
| "zscores _ = Map.empty"

fun z_list :: "'i index_ops \<Rightarrow> ('v, 'i) StorageValue option \<Rightarrow> (f64 \<times> bytes) list" where
  "z_list I (Some (ZSet z)) = map (the \<circ> unwrap_key) (ix_iter I (index z))"
| "z_list I _ = []"



lemma clamped_range_Nil: "clamped_range i j [] = []"
  by (simp add: clamped_range_def)

lemma clamped_one: "r < length xs \<Longrightarrow> clamped_range (int r) (int r) xs = [xs ! r]"
  by (simp add: clamped_range_def range_pos_def Let_def Suc_diff_le take_Suc_conv_app_nth Cons_nth_drop_Suc [symmetric])



context index_set
begin

lemma z_operand_card: "storage_ok S I st \<Longrightarrow> zcard st db key = Ok n \<Longrightarrow> zset_operand (abs_storage V st db key)"
  by (auto simp: zcard_abs [where V = V] split: option.splits avalue.splits)

lemma z_ranking_list:
  fixes V :: "'v vec_ops"
  assumes "storage_ok S I st" "zset_operand (abs_storage V st db key)"
  shows "z_ranking S (zscores (abs_storage V st db key)) (z_list I (lookup st db key))"
    and "length (z_list I (lookup st db key)) = card (dom (zscores (abs_storage V st db key)))"
proof -
  have "z_ranking S (zscores (abs_storage V st db key)) (z_list I (lookup st db key)) \<and>
    length (z_list I (lookup st db key)) = card (dom (zscores (abs_storage V st db key)))"
  proof (cases "lookup st db key")
    case None
    then show ?thesis by (simp add: abs_storage_def z_ranking_def)
  next
    case (Some v)
    then obtain z where z: "v = ZSet z" using assms(2) by (cases v) (auto simp: abs_storage_def)
    then have "zset_ok S I z" using value_ok_lookup [OF assms(1) Some] by simp
    then show ?thesis by (simp add: Some z abs_storage_def z_ranking_index z_length)
  qed
  then show "z_ranking S (zscores (abs_storage V st db key)) (z_list I (lookup st db key))"
    "length (z_list I (lookup st db key)) = card (dom (zscores (abs_storage V st db key)))" by blast+
qed

lemma zreaders:
  fixes V :: "'v vec_ops"
  assumes "storage_ok S I st" "zset_operand (abs_storage V st db key)"
  shows "zrange I st db key i j ws =
      Ok (map (\<lambda>(s, x). (x, if ws then Some s else None)) (clamped_range i j (z_list I (lookup st db key))))"
    and "zscore st db key x = Ok (zscores (abs_storage V st db key) x)"
    and "zcard st db key = Ok (card (dom (zscores (abs_storage V st db key))))"
    and "zrank I st db key x =
      Ok (if x \<in> dom (zscores (abs_storage V st db key)) then Some (z_rank S (zscores (abs_storage V st db key)) x) else None)"
    and "zrevrank I st db key x =
      Ok (if x \<in> dom (zscores (abs_storage V st db key))
          then Some (card (dom (zscores (abs_storage V st db key))) - 1 - z_rank S (zscores (abs_storage V st db key)) x) else None)"
    and "zcount I st db key lo hi =
      Ok (card {x. \<exists>s. zscores (abs_storage V st db key) x = Some s \<and> sc_le S lo s \<and> sc_le S s hi})"
proof -
  have k: "abs_storage V st db key = None \<or> (\<exists>m. abs_storage V st db key = Some (AZSet m))"
    using assms(2) by (auto elim: zset_operand.elims)
  show "zrange I st db key i j ws =
      Ok (map (\<lambda>(s, x). (x, if ws then Some s else None)) (clamped_range i j (z_list I (lookup st db key))))"
  proof (cases "abs_storage V st db key")
    case None
    then have "lookup st db key = None" by (simp add: abs_storage_def)
    then show ?thesis by (simp add: zrange_def zset_read_lookup clamped_range_Nil)
  next
    case (Some a)
    then obtain m where "a = AZSet m" using assms(2) by (cases a) auto
    with Some show ?thesis
      using zrange_abs [OF assms(1), of V db key m] z_ranking_list [OF assms] by simp
  qed
  show "zscore st db key x = Ok (zscores (abs_storage V st db key) x)"
    "zcard st db key = Ok (card (dom (zscores (abs_storage V st db key))))"
    "zrank I st db key x =
      Ok (if x \<in> dom (zscores (abs_storage V st db key)) then Some (z_rank S (zscores (abs_storage V st db key)) x) else None)"
    "zrevrank I st db key x =
      Ok (if x \<in> dom (zscores (abs_storage V st db key))
          then Some (card (dom (zscores (abs_storage V st db key))) - 1 - z_rank S (zscores (abs_storage V st db key)) x) else None)"
    "zcount I st db key lo hi =
      Ok (card {x. \<exists>s. zscores (abs_storage V st db key) x = Some s \<and> sc_le S lo s \<and> sc_le S s hi})"
    using k by (elim disjE exE; simp add: zscore_abs [OF assms(1), where V = V] zcard_abs [OF assms(1), where V = V]
        zrank_abs [OF assms(1), where V = V] zrevrank_abs [OF assms(1), where V = V] zcount_abs [OF assms(1), where V = V])+
qed

lemma z_rank_list:
  fixes V :: "'v vec_ops"
  assumes "storage_ok S I st" "zset_operand (abs_storage V st db key)" "zscores (abs_storage V st db key) x = Some s"
  shows "z_rank S (zscores (abs_storage V st db key)) x < length (z_list I (lookup st db key))"
    and "z_list I (lookup st db key) ! z_rank S (zscores (abs_storage V st db key)) x = (s, x)"
proof -
  obtain z where z: "lookup st db key = Some (ZSet z)"
    using assms(2,3) by (cases "lookup st db key"; cases "the (lookup st db key)") (auto simp: abs_storage_def)
  have ok: "zset_ok S I z" using value_ok_lookup [OF assms(1) z] by simp
  have x: "bm_get (entries z) x = Some s" using assms(3) z by (simp add: abs_storage_def)
  then have "Key s x \<in> set (ix_iter I (index z))" using index_mem_iff [OF ok] by blast
  then obtain i where i: "i < length (ix_iter I (index z))" "ix_iter I (index z) ! i = Key s x"
    by (meson in_set_conv_nth)
  with z_rank_nth [OF ok i] z
  show "z_rank S (zscores (abs_storage V st db key)) x < length (z_list I (lookup st db key))"
    "z_list I (lookup st db key) ! z_rank S (zscores (abs_storage V st db key)) x = (s, x)"
    by (simp_all add: abs_storage_def)
qed

lemma z_list_slice:
  fixes V :: "'v vec_ops"
  assumes "storage_ok S I st" "zset_operand (abs_storage V st db key)"
  shows "(s, x) \<in> set (take n (drop a (z_list I (lookup st db key)))) \<longleftrightarrow>
    zscores (abs_storage V st db key) x = Some s \<and> a \<le> z_rank S (zscores (abs_storage V st db key)) x \<and>
    z_rank S (zscores (abs_storage V st db key)) x < a + n"
proof (cases "lookup st db key")
  case (Some v)
  then obtain z where z: "v = ZSet z" using assms(2) by (cases v) (auto simp: abs_storage_def)
  have ok: "zset_ok S I z" using value_ok_lookup [OF assms(1) Some] z by simp
  let ?ks = "take n (drop a (ix_iter I (index z)))"
  have "the (unwrap_key k) = (s, x) \<longleftrightarrow> k = Key s x" if "k \<in> set ?ks" for k
  proof -
    have "k \<in> set (ix_iter I (index z))" using that by (meson in_set_takeD in_set_dropD)
    with ok have "is_stored k" by (auto simp: zset_ok_def index_ok_def)
    then show ?thesis by (cases k) auto
  qed
  then have "(s, x) \<in> (the \<circ> unwrap_key) ` set ?ks \<longleftrightarrow> Key s x \<in> set ?ks"
    by (force simp: image_iff)
  then show ?thesis
    by (simp add: Some z abs_storage_def drop_map take_map z_slice [OF ok])
qed (simp add: abs_storage_def)

lemma z_list_unique:
  fixes V :: "'v vec_ops"
  assumes "storage_ok S I st" "zset_operand (abs_storage V st db key)" "z_ranking S (zscores (abs_storage V st db key)) ps"
  shows "z_list I (lookup st db key) = ps"
proof (cases "lookup st db key")
  case None
  then show ?thesis using assms(3) by (simp add: abs_storage_def z_ranking_def)
next
  case (Some v)
  then obtain z where z: "v = ZSet z" using assms(2) by (cases v) (auto simp: abs_storage_def)
  have "zset_ok S I z" using value_ok_lookup [OF assms(1) Some] z by simp
  then show ?thesis using z_ranking_unique [of z ps] assms(3) by (simp add: Some z abs_storage_def)
qed

text \<open>A command that keeps the members of one slice of the ranking.\<close>

lemma z_kept:
  fixes V :: "'v vec_ops"
  assumes cmd: "key_command V S I cmd db key (spec_zset_mut (\<lambda>m. (Ok (), azset (m |` A m))))"
    and st: "storage_ok S I st" and k: "zset_operand (abs_storage V st db key)"
    and A: "\<And>x s. zscores (abs_storage V st db key) x = Some s \<Longrightarrow>
      x \<in> A (zscores (abs_storage V st db key)) \<longleftrightarrow>
        a \<le> z_rank S (zscores (abs_storage V st db key)) x \<and> z_rank S (zscores (abs_storage V st db key)) x < a + n"
  shows "zset_operand (abs_storage V (snd (cmd st)) db key)"
    and "z_list I (lookup (snd (cmd st)) db key) = take n (drop a (z_list I (lookup st db key)))"
proof -
  let ?m = "zscores (abs_storage V st db key)"
  let ?ps = "take n (drop a (z_list I (lookup st db key)))"
  have ab: "abs_storage V (snd (cmd st)) db key = azset (?m |` A ?m)"
    using key_command.this_key [OF cmd st] k by (auto simp: azset_def elim: zset_operand.elims)
  show k': "zset_operand (abs_storage V (snd (cmd st)) db key)" unfolding ab by (simp add: azset_def)
  have m': "zscores (abs_storage V (snd (cmd st)) db key) = ?m |` A ?m" unfolding ab by (simp add: azset_def)
  have "sorted_wrt (z_before S) ?ps"
    using z_ranking_list(1) [OF st k] by (simp add: z_ranking_def sorted_wrt_take sorted_wrt_drop)
  moreover have "(s, x) \<in> set ?ps \<longleftrightarrow> (?m |` A ?m) x = Some s" for s x
    using A by (auto simp: z_list_slice [OF st k] restrict_map_def)
  ultimately have "z_ranking S (?m |` A ?m) ?ps" by (auto simp: z_ranking_def)
  then show "z_list I (lookup (snd (cmd st)) db key) = ?ps"
    using z_list_unique [OF key_command.ok_cmd [OF cmd st] k'] by (simp add: m')
qed

lemma zrange_order:
  assumes "storage_ok S I st" "zcard st db key = Ok n"
  shows "\<exists>ps. zrange I st db key 0 (- 1) True = Ok (map (\<lambda>(s, x). (x, Some s)) ps) \<and> length ps = n \<and>
    sorted_wrt (z_before S) ps \<and> (\<forall>s x. (s, x) \<in> set ps \<longleftrightarrow> zscore st db key x = Ok (Some s))"
proof -
  note k = z_operand_card [OF assms, of undefined]
  note r = z_ranking_list [OF assms(1) k] and rd = zreaders [OF assms(1) k]
  have "length (z_list I (lookup st db key)) = n" using r(2) rd(3) assms(2) by simp
  then show ?thesis
    using r(1) by (intro exI [of _ "z_list I (lookup st db key)"]) (auto simp: rd clamped_all z_ranking_def)
qed

lemma zrank_consistent:
  assumes "storage_ok S I st" "zcard st db key = Ok n" "zrank I st db key x = Ok (Some r)"
  shows "r < n \<and> zrange I st db key (int r) (int r) False = Ok [(x, None)] \<and>
    zrevrank I st db key x = Ok (Some (n - 1 - r))"
proof -
  note k = z_operand_card [OF assms(1,2), of undefined]
  note r = z_ranking_list [OF assms(1) k] and rd = zreaders [OF assms(1) k]
  obtain s where "zscores (abs_storage undefined st db key) x = Some s"
    using assms(3) by (auto simp: rd split: if_splits)
  with z_rank_list [OF assms(1) k this] show ?thesis
    using assms(2,3) r(2) by (auto simp: rd clamped_one split: if_splits)
qed

lemma z_operand_range: "storage_ok S I st \<Longrightarrow> zrange I st db key i j ws = Ok ps \<Longrightarrow> zset_operand (abs_storage V st db key)"
  by (auto simp: abs_storage_def zrange_def zset_read_lookup split: option.splits StorageValue.splits)

lemma zrangebyscore_list:
  fixes V :: "'v vec_ops"
  assumes "storage_ok S I st" "zset_operand (abs_storage V st db key)" "sc_le S lo hi"
  shows "zrangebyscore S I st db key lo hi ws =
    Ok (map (\<lambda>(s, x). (x, if ws then Some s else None))
          (filter (\<lambda>(s, x). sc_le S lo s \<and> sc_le S s hi) (z_list I (lookup st db key))))"
proof (cases "abs_storage V st db key")
  case None
  then have "lookup st db key = None" by (simp add: abs_storage_def)
  then show ?thesis by (simp add: zrangebyscore_def zset_read_lookup)
next
  case (Some a)
  then obtain m where "a = AZSet m" using assms(2) by (cases a) auto
  with Some show ?thesis
    using zrangebyscore_abs [OF assms(1), of V db key m] z_ranking_list [OF assms(1,2)] assms(3) by simp
qed

lemma zcount_lists:
  assumes "storage_ok S I st" "zcard st db key = Ok n" "sc_le S lo hi"
  shows "\<exists>ps. zrangebyscore S I st db key lo hi True = Ok (map (\<lambda>(s, x). (x, Some s)) ps) \<and>
    zcount I st db key lo hi = Ok (length ps) \<and> sorted_wrt (z_before S) ps \<and>
    (\<forall>s x. (s, x) \<in> set ps \<longleftrightarrow> zscore st db key x = Ok (Some s) \<and> sc_le S lo s \<and> sc_le S s hi)"
proof -
  note k = z_operand_card [OF assms(1,2), of undefined]
  note r = z_ranking_list(1) [OF assms(1) k] and rd = zreaders [OF assms(1) k]
  let ?m = "zscores (abs_storage undefined st db key)"
  let ?ps = "filter (\<lambda>(s, x). sc_le S lo s \<and> sc_le S s hi) (z_list I (lookup st db key))"
  have ps: "sorted_wrt (z_before S) ?ps" "set ?ps = {(s, x). ?m x = Some s \<and> sc_le S lo s \<and> sc_le S s hi}"
    using r by (auto simp: z_ranking_def sorted_wrt_filter)
  have "\<not> z_before S p p" for p :: "f64 \<times> bytes"
    by (auto simp: z_before_def sc_lt_le split: prod.split)
  then have "distinct ?ps" using sorted_wrt_imp_distinct [OF ps(1)] by blast
  then have "length ?ps = card (set ?ps)" by (rule distinct_card [symmetric])
  also have "\<dots> = card (snd ` set ?ps)"
    unfolding ps(2) by (rule card_image [symmetric]) (auto simp: inj_on_def)
  also have "snd ` set ?ps = {x. \<exists>s. ?m x = Some s \<and> sc_le S lo s \<and> sc_le S s hi}"
    unfolding ps(2) by force
  finally show ?thesis
    using ps by (intro exI [of _ ?ps]) (auto simp: zrangebyscore_list [OF assms(1) k assms(3)] rd)
qed

lemma zpop_ends:
  fixes st :: "('v, 'i) StorageInner"
  assumes "storage_ok S I st" "zrange I st db key 0 (- 1) True = Ok ps"
  shows "zrange I (snd (zpopmin I st db key n)) db key 0 (- 1) True = Ok (drop n ps)"
    and "zrange I (snd (zpopmax I st db key n)) db key 0 (- 1) True = Ok (take (length ps - n) ps)"
proof -
  note k = z_operand_range [OF assms, of undefined]
  note len = z_ranking_list(2) [OF assms(1) k]
  let ?l = "z_list I (lookup st db key)"
  have ps: "ps = map (\<lambda>(s, x). (x, Some s)) ?l"
    using assms(2) zreaders(1) [OF assms(1) k, of 0 "- 1" True] by (simp add: clamped_all)
  note rank = z_rank_list(1) [OF assms(1) k]
  note pmin = zpopmin_refines [where V = undefined, of db key n, unfolded spec_zpopmin_def]
  note pmax = zpopmax_refines [where V = undefined, of db key n, unfolded spec_zpopmax_def]
  have "z_list I (lookup (snd (zpopmin I st db key n)) db key) = take (length ?l) (drop n ?l)"
    "zset_operand (abs_storage undefined (snd (zpopmin I st db key n)) db key)"
    using z_kept [OF pmin assms(1) k, of n "length ?l"] rank by (simp_all add: trans_less_add2)
  then show "zrange I (snd (zpopmin I st db key n)) db key 0 (- 1) True = Ok (drop n ps)"
    using zreaders(1) [OF key_command.ok_cmd [OF pmin assms(1)]] by (simp add: clamped_all ps drop_map)
  have "z_list I (lookup (snd (zpopmax I st db key n)) db key) = take (length ?l - n) (drop 0 ?l)"
    "zset_operand (abs_storage undefined (snd (zpopmax I st db key n)) db key)"
    using z_kept [OF pmax assms(1) k, of 0 "length ?l - n"] rank by (simp_all add: len less_diff_conv)
  then show "zrange I (snd (zpopmax I st db key n)) db key 0 (- 1) True = Ok (take (length ps - n) ps)"
    using zreaders(1) [OF key_command.ok_cmd [OF pmax assms(1)]] by (simp add: clamped_all ps take_map)
qed

end


text \<open>
  The whole range of a sorted set lists every member once with the score \<open>zscore\<close> reports, ordered by score
  and then by member.
\<close>

lemma zrange_lists_in_order:
  assumes "index_set S I" "storage_ok S I st" "zcard st db key = Ok n"
  shows "\<exists>ps. zrange I st db key 0 (- 1) True = Ok (map (\<lambda>(s, x). (x, Some s)) ps) \<and> length ps = n \<and>
    sorted_wrt (\<lambda>(s, x) (s', x'). sc_lt S s s' \<or> sc_eq S s s' \<and> x < x') ps \<and>
    (\<forall>s x. (s, x) \<in> set ps \<longleftrightarrow> zscore st db key x = Ok (Some s))"
  using index_set.zrange_order [OF assms] unfolding z_before_def .

lemma sample_card: "zcard sample 0 [122] = Ok 3"
  by (simp add: zcard_def zset_read_lookup ZSet_len_def sample_zset_def)

lemma zrange_lists_in_order_example:
  "\<exists>ps. zrange f64_index sample 0 [122] 0 (- 1) True = Ok (map (\<lambda>(s, x). (x, Some s)) ps) \<and> length ps = 3"
  using zrange_lists_in_order [OF list_index.index_set_axioms sample_ok sample_card] by blast

text \<open>
  C24. The rank of a member is its position in the range listing, and the reverse rank is the position from the end.
\<close>

theorem zrank_is_position:
  assumes "index_set S I" "storage_ok S I st" "zcard st db key = Ok n" "zrank I st db key x = Ok (Some r)"
  shows "r < n \<and> zrange I st db key (int r) (int r) False = Ok [(x, None)] \<and>
    zrevrank I st db key x = Ok (Some (n - 1 - r))"
  by (rule index_set.zrank_consistent [OF assms])

lemma sample_rank: "zrank f64_index sample 0 [122] [97] = Ok (Some 1)"
  by (simp add: zrank_def zset_read_lookup list_index_def create_ref_def) (simp add: sample_zset_def)

theorem zrank_is_position_witness:
  "zrange f64_index sample 0 [122] 1 1 False = Ok [([97], None)] \<and> zrevrank f64_index sample 0 [122] [97] = Ok (Some 1)"
  using zrank_is_position [OF list_index.index_set_axioms sample_ok sample_card sample_rank] by simp

text \<open>
  C25. \<open>zcount\<close>, which subtracts two ranks, is the number of members \<open>zrangebyscore\<close> lists, and those are the
  members whose score is within the bounds, in order.
\<close>

theorem zcount_counts_range:
  assumes "index_set S I" "storage_ok S I st" "zcard st db key = Ok n" "sc_le S lo hi"
  shows "\<exists>ps. zrangebyscore S I st db key lo hi True = Ok (map (\<lambda>(s, x). (x, Some s)) ps) \<and>
    zcount I st db key lo hi = Ok (length ps) \<and>
    sorted_wrt (\<lambda>(s, x) (s', x'). sc_lt S s s' \<or> sc_eq S s s' \<and> x < x') ps \<and>
    (\<forall>s x. (s, x) \<in> set ps \<longleftrightarrow> zscore st db key x = Ok (Some s) \<and> sc_le S lo s \<and> sc_le S s hi)"
  using index_set.zcount_lists [OF assms] unfolding z_before_def .

theorem zcount_counts_range_witness:
  "\<exists>ps. zrangebyscore f64_ops f64_index sample 0 [122] f64_one f64_one True = Ok (map (\<lambda>(s, x). (x, Some s)) ps) \<and>
     zcount f64_index sample 0 [122] f64_one f64_one = Ok (length ps)"
  using zcount_counts_range [OF list_index.index_set_axioms sample_ok sample_card, of f64_one f64_one] by auto

text \<open>
  C26. \<open>zpopmin\<close> removes the \<open>n\<close> first members of the ranking and \<open>zpopmax\<close> the \<open>n\<close> last, none when \<open>n\<close> is 0.
\<close>

theorem zpop_takes_ends:
  assumes "index_set S I" "storage_ok S I st" "zrange I st db key 0 (- 1) True = Ok ps"
  shows "zrange I (snd (zpopmin I st db key n)) db key 0 (- 1) True = Ok (drop n ps) \<and>
    zrange I (snd (zpopmax I st db key n)) db key 0 (- 1) True = Ok (take (length ps - n) ps)"
  using index_set.zpop_ends [OF assms] by blast

lemma sample_range: "zrange f64_index sample 0 [122] 0 (- 1) True = Ok [([98], Some f64_zero), ([97], Some f64_one), ([99], Some f64_one)]"
  by (simp add: zrange_def zset_read_lookup sample_zset_def ZSet_len_def range_pos_def list_index_def)

theorem zpop_takes_ends_witness:
  "zrange f64_index (snd (zpopmin f64_index sample 0 [122] 2)) 0 [122] 0 (- 1) True = Ok [([99], Some f64_one)] \<and>
   zrange f64_index (snd (zpopmax f64_index sample 0 [122] 0)) 0 [122] 0 (- 1) True = zrange f64_index sample 0 [122] 0 (- 1) True"
  using zpop_takes_ends [OF list_index.index_set_axioms sample_ok sample_range, of 2]
    zpop_takes_ends [OF list_index.index_set_axioms sample_ok sample_range, of 0] by (simp add: sample_range)

text \<open>
  C27. The score of a member after \<open>zadd\<close>, for every admissible combination of options: \<open>NX\<close> never updates, \<open>XX\<close>
  never creates, \<open>GT\<close> and \<open>LT\<close> update only upwards and downwards, \<open>INCR\<close> adds to the old score.
\<close>

theorem zadd_score:
  assumes "index_set S I" "storage_ok S I st" "zscore st db key x = Ok old" "zadd_error (set opts) 1 = None"
  shows "fst (zadd S I st db key [(score, x)] opts) = Ok () \<and>
    zscore (snd (zadd S I st db key [(score, x)] opts)) db key x =
      (let new = (if INCR \<in> set opts then of_add S (case old of None \<Rightarrow> f64_zero | Some s \<Rightarrow> s) score else score)
       in Ok (case old of
                None \<Rightarrow> if XX \<in> set opts then None else Some new
              | Some s \<Rightarrow>
                  if NX \<in> set opts \<or> GT \<in> set opts \<and> \<not> sc_lt S s new \<or> LT \<in> set opts \<and> \<not> sc_lt S new s
                  then Some s else Some new))"
proof -
  note r = index_set.zadd_refines [OF assms(1), where V = undefined, of db key "[(score, x)]" opts]
  note old = index_set.zscore_abs [OF assms(1,2), where V = undefined, of db key x]
  have k: "abs_storage undefined st db key = None \<and> old = None \<or> (\<exists>m. abs_storage undefined st db key = Some (AZSet m) \<and> m x = old)"
    using assms(3) old by (auto split: option.splits avalue.splits)
  show ?thesis
    unfolding index_set.zscore_abs [OF assms(1) key_command.ok_cmd [OF r assms(2)], where V = undefined]
      key_command.this_key [OF r assms(2)] key_command.result_cmd [OF r assms(2)]
    using k assms(4)
    by (elim disjE conjE exE; cases old; auto simp: spec_zadd_def zadd_pair_def zadd_writes_def Let_def)
qed

lemma sample_score: "zscore sample 0 [122] [97] = Ok (Some f64_one)"
  by (simp add: zscore_def zset_read_lookup)

theorem zadd_score_witness:
  "zscore (snd (zadd f64_ops f64_index sample 0 [122] [(f64_zero, [97])] [GT])) 0 [122] [97] = Ok (Some f64_one)"
  using zadd_score [OF list_index.index_set_axioms sample_ok, of 0 "[122]" "[97]" "Some f64_one" "[GT]" f64_zero]
  by (simp add: sample_score zadd_error_def)

text \<open>
  C38. \<open>zremrangebylex\<close> with a lower bound above the upper one panics on a sorted set that has a member.
\<close>

theorem zremrangebylex_inverted:
  assumes "zscore st db key x = Ok (Some s)" "b < a"
  shows "fst (zremrangebylex I st db key (Included a) (Included b)) = Err Panic"
proof -
  obtain z where "lookup st db key = Some (ZSet z)"
    using assms(1) by (auto simp: zscore_def zset_read_lookup split: option.splits StorageValue.splits)
  then show ?thesis
    using assms(2) by (auto simp: zremrangebylex_def zset_mut_def lookup_def bm_range_def split: option.splits)
qed

theorem zremrangebylex_inverted_witness:
  "fst (zremrangebylex f64_index sample 0 [122] (Included [98]) (Included [97])) = Err Panic"
  by (rule zremrangebylex_inverted [of sample 0 "[122]" "[97]" f64_one]) (simp_all add: zscore_def zset_read_lookup)

text \<open>
  Paging through a sorted set yields every member once, with its score.
\<close>

lemma zset_paging:
  assumes "storage_ok S I st" "0 < n" "zcard st db key = Ok c" "c \<le> fuel"
  shows "distinct (map snd (scan (\<lambda>x. listing (znext st db key x n)) snd fuel (listing (zfirst st db key n)))) \<and>
    set (scan (\<lambda>x. listing (znext st db key x n)) snd fuel (listing (zfirst st db key n))) =
      {(s, x). zscore st db key x = Ok (Some s)}"
proof -
  let ?items = "listing (zset_read st db key [] (\<lambda>z. Ok (map (\<lambda>(x, s). (s, x)) (entries z))))"
  have "length ?items = c" using assms(3)
    by (auto simp: zcard_def zset_read_lookup ZSet_len_def split: option.splits StorageValue.splits)
  moreover have "set ?items = {(s, x). zscore st db key x = Ok (Some s)}"
  proof (cases "lookup st db key")
    case (Some v)
    show ?thesis
    proof (cases v)
      case (ZSet z)
      have "bm_sorted (entries z)" using value_ok_lookup [OF assms(1) Some] ZSet by (simp add: zset_ok_def)
      then have "(x, s) \<in> set (entries z) \<longleftrightarrow> bm_get (entries z) x = Some s" for x s
        by (simp add: bm_get_def bm_sorted_distinct)
      then show ?thesis using Some ZSet by (auto simp: zscore_def zset_read_lookup image_iff)
    qed (simp_all add: Some zscore_def zset_read_lookup)
  qed (simp add: zscore_def zset_read_lookup)
  ultimately show ?thesis
    using zset_cursor.scan_complete [of S I st n db key fuel] zset_cursor.items_distinct [of S I st db key] assms by simp
qed

lemma zset_paging_example:
  "set (scan (\<lambda>x. listing (znext sample 0 [122] x 2)) snd 3 (listing (zfirst sample 0 [122] 2))) =
      {(s, x). zscore sample 0 [122] x = Ok (Some s)}"
  using zset_paging [OF sample_ok, of 2 0 "[122]" 3 3] by (simp add: sample_card)

end
