(* ===== verification/ZSet_Stores.thy ===== *)
theory ZSet_Stores
  imports ZSets
begin

text \<open>
  storage/zsets.rs, lines 885 to 1386: the commands that compute a sorted set and store it under a
  destination key. All of them delete the destination first and then read the sources.

  The source collects the scores of a member in a \<open>HashMap\<close> and builds the new sorted set by iterating
  over it in an unspecified order. The model iterates in member order; \<open>build_order\<close> shows that the
  entries and the order of the index do not depend on it.
\<close>

datatype Aggregate = Sum | Min | Max

text \<open>\<open>Iterator::min\<close> and \<open>Iterator::max\<close>: the first minimum, the last maximum, none of an empty iterator.\<close>

fun iter_min :: "score_ops \<Rightarrow> f64 list \<Rightarrow> f64 option" where
  "iter_min S [] = None"
| "iter_min S (x # xs) = Some (fold (\<lambda>y acc. if of_cmp S acc y = Greater then y else acc) xs x)"

fun iter_max :: "score_ops \<Rightarrow> f64 list \<Rightarrow> f64 option" where
  "iter_max S [] = None"
| "iter_max S (x # xs) = Some (fold (\<lambda>y acc. if of_cmp S acc y = Greater then acc else y) xs x)"

fun aggregate_scores :: "score_ops \<Rightarrow> Aggregate \<Rightarrow> f64 list \<Rightarrow> f64 option" where
  "aggregate_scores S Sum scores = Some (of_sum S scores)"
| "aggregate_scores S Min scores = iter_min S scores"
| "aggregate_scores S Max scores = iter_max S scores"

text \<open>The final scores; a panic of \<open>unwrap\<close> on an empty list of scores is \<open>None\<close>.\<close>

fun final_scores :: "score_ops \<Rightarrow> Aggregate \<Rightarrow> (bytes \<times> f64 list) list \<Rightarrow> (bytes \<times> f64) list option" where
  "final_scores S agg [] = Some []"
| "final_scores S agg ((member, scores) # ps) =
     (case aggregate_scores S agg scores of
        None \<Rightarrow> None
      | Some score \<Rightarrow> map_option (\<lambda>qs. (member, score) # qs) (final_scores S agg ps))"

definition build_zset :: "'i index_ops \<Rightarrow> (bytes \<times> f64) list \<Rightarrow> 'i ZSet" where
  "build_zset I ps = fold (\<lambda>(member, score). zset_put I member score) ps (ZSet_new I)"

definition store_zset ::
  "'i index_ops \<Rightarrow> ('v, 'i) StorageInner \<Rightarrow> u64 \<Rightarrow> bytes \<Rightarrow> (bytes \<times> f64) list \<Rightarrow> ('v, 'i) StorageInner" where
  "store_zset I st db dest_key ps =
     put_db st db (bm_insert dest_key (ZSet (build_zset I ps)) (db_entry st db))"

definition weights_or_default :: "f64 list \<Rightarrow> bytes list \<Rightarrow> f64 list" where
  "weights_or_default weights source_keys =
     (if weights = [] then replicate (length source_keys) f64_one else weights)"

definition weight :: "f64 list \<Rightarrow> nat \<Rightarrow> f64" where
  "weight weights i = (if i < length weights then weights ! i else f64_one)"

section \<open>Union, intersection, difference\<close>

definition push_score :: "bytes \<Rightarrow> f64 \<Rightarrow> (bytes, f64 list) btree_map \<Rightarrow> (bytes, f64 list) btree_map" where
  "push_score member score acc =
     bm_insert member ((case bm_get acc member of None \<Rightarrow> [] | Some l \<Rightarrow> l) @ [score]) acc"

fun zunion_loop ::
  "score_ops \<Rightarrow> f64 list \<Rightarrow> ('v, 'i) db_map \<Rightarrow> nat \<Rightarrow> bytes list \<Rightarrow> (bytes, f64 list) btree_map \<Rightarrow>
     (bytes, f64 list) btree_map result" where
  "zunion_loop S weights m i [] acc = Ok acc"
| "zunion_loop S weights m i (k # ks) acc =
     (case bm_get m k of
        Some (ZSet z) \<Rightarrow>
          zunion_loop S weights m (i + 1) ks
            (fold (\<lambda>(member, score). push_score member (of_mul S score (weight weights i))) (entries z) acc)
      | Some _ \<Rightarrow> Err WrongType
      | None \<Rightarrow> zunion_loop S weights m (i + 1) ks acc)"

definition zunionstore ::
  "score_ops \<Rightarrow> 'i index_ops \<Rightarrow> ('v, 'i) StorageInner \<Rightarrow> u64 \<Rightarrow> bytes \<Rightarrow> bytes list \<Rightarrow> f64 list \<Rightarrow> Aggregate \<Rightarrow>
     ('v, 'i, unit) outcome" where
  "zunionstore S I st db dest_key source_keys weights aggregate =
     (let st1 = del st db dest_key
      in if source_keys = [] then (Ok (), st1)
         else case bm_get (smap st1) db of
                None \<Rightarrow> (Ok (), st1)
              | Some m \<Rightarrow>
                  (case zunion_loop S (weights_or_default weights source_keys) m 0 source_keys [] of
                     Inl e \<Rightarrow> (Err e, st1)
                   | Inr union_map \<Rightarrow>
                       if union_map = [] then (Ok (), st1)
                       else case final_scores S aggregate union_map of
                              None \<Rightarrow> (Err Panic, st1)
                            | Some ps \<Rightarrow> (Ok (), store_zset I st1 db dest_key ps)))"

definition retain_scored ::
  "score_ops \<Rightarrow> f64 \<Rightarrow> (bytes, f64) btree_map \<Rightarrow> (bytes, f64 list) btree_map \<Rightarrow> (bytes, f64 list) btree_map" where
  "retain_scored S w es acc =
     List.map_filter (\<lambda>(member, scores).
       case bm_get es member of None \<Rightarrow> None | Some score \<Rightarrow> Some (member, scores @ [of_mul S score w])) acc"

fun zinter_loop ::
  "score_ops \<Rightarrow> f64 list \<Rightarrow> ('v, 'i) db_map \<Rightarrow> nat \<Rightarrow> bytes list \<Rightarrow> (bytes, f64 list) btree_map \<Rightarrow>
     (bytes, f64 list) btree_map result" where
  "zinter_loop S weights m i [] acc = Ok acc"
| "zinter_loop S weights m i (k # ks) acc =
     (case bm_get m k of
        Some (ZSet z) \<Rightarrow>
          (let acc' = retain_scored S (weight weights i) (entries z) acc
           in if acc' = [] then Ok [] else zinter_loop S weights m (i + 1) ks acc')
      | Some _ \<Rightarrow> Err WrongType
      | None \<Rightarrow> Ok [])"

definition zinterstore ::
  "score_ops \<Rightarrow> 'i index_ops \<Rightarrow> ('v, 'i) StorageInner \<Rightarrow> u64 \<Rightarrow> bytes \<Rightarrow> bytes list \<Rightarrow> f64 list \<Rightarrow> Aggregate \<Rightarrow>
     ('v, 'i, unit) outcome" where
  "zinterstore S I st db dest_key source_keys weights aggregate =
     (let st1 = del st db dest_key
      in case source_keys of
           [] \<Rightarrow> (Ok (), st1)
         | k0 # ks \<Rightarrow>
             (case bm_get (smap st1) db of
                None \<Rightarrow> (Ok (), st1)
              | Some m \<Rightarrow>
                  (let ws = weights_or_default weights source_keys
                   in case bm_get m k0 of
                        None \<Rightarrow> (Ok (), st1)
                      | Some (ZSet z0) \<Rightarrow>
                          (case zinter_loop S ws m 1 ks
                                  (map (\<lambda>(member, score). (member, [of_mul S score (weight ws 0)])) (entries z0)) of
                             Inl e \<Rightarrow> (Err e, st1)
                           | Inr inter_map \<Rightarrow>
                               if inter_map = [] then (Ok (), st1)
                               else case final_scores S aggregate inter_map of
                                      None \<Rightarrow> (Err Panic, st1)
                                    | Some ps \<Rightarrow> (Ok (), store_zset I st1 db dest_key ps))
                      | Some _ \<Rightarrow> (Err WrongType, st1))))"

fun zdiff_loop ::
  "('v, 'i) db_map \<Rightarrow> bytes list \<Rightarrow> (bytes, f64) btree_map \<Rightarrow> (bytes, f64) btree_map result" where
  "zdiff_loop m [] acc = Ok acc"
| "zdiff_loop m (k # ks) acc =
     (case bm_get m k of
        Some (ZSet z) \<Rightarrow> zdiff_loop m ks (fold bm_remove (bm_keys (entries z)) acc)
      | Some _ \<Rightarrow> Err WrongType
      | None \<Rightarrow> zdiff_loop m ks acc)"

definition zdiffstore ::
  "'i index_ops \<Rightarrow> ('v, 'i) StorageInner \<Rightarrow> u64 \<Rightarrow> bytes \<Rightarrow> bytes list \<Rightarrow> ('v, 'i, unit) outcome" where
  "zdiffstore I st db dest_key source_keys =
     (let st1 = del st db dest_key
      in case source_keys of
           [] \<Rightarrow> (Ok (), st1)
         | k0 # ks \<Rightarrow>
             (case bm_get (smap st1) db of
                None \<Rightarrow> (Ok (), st1)
              | Some m \<Rightarrow>
                  (case bm_get m k0 of
                     None \<Rightarrow> (Ok (), st1)
                   | Some (ZSet z0) \<Rightarrow>
                       (case zdiff_loop m ks (entries z0) of
                          Inl e \<Rightarrow> (Err e, st1)
                        | Inr diff_map \<Rightarrow>
                            (Ok (), if diff_map = [] then st1 else store_zset I st1 db dest_key diff_map))
                   | Some _ \<Rightarrow> (Err WrongType, st1))))"

section \<open>Storing a range\<close>

definition apply_limit :: "'a list \<Rightarrow> (i64 \<times> i64) option \<Rightarrow> 'a list" where
  "apply_limit items limit =
     (case limit of
        Some (offset, count) \<Rightarrow> take (nat (max count 0)) (drop (nat (max offset 0)) items)
      | None \<Rightarrow> items)"

definition parse_score_bound :: "bytes \<Rightarrow> f64 bound result" where
  "parse_score_bound s =
     (if s = [45, 105, 110, 102] \<or> s = [43, 105, 110, 102] then Ok Unbounded
      else if s \<noteq> [] \<and> hd s = 40
      then (case parse_f64 (tl s) of None \<Rightarrow> Err InvalidScore | Some score \<Rightarrow> Ok (Excluded score))
      else (case parse_f64 s of None \<Rightarrow> Err InvalidScore | Some score \<Rightarrow> Ok (Included score)))"

definition parse_lex_bound :: "bytes \<Rightarrow> bytes bound result" where
  "parse_lex_bound s =
     (if s = [45] \<or> s = [43] then Ok Unbounded
      else if s \<noteq> [] \<and> hd s = 91 then Ok (Included (tl s))
      else if s \<noteq> [] \<and> hd s = 40 then Ok (Excluded (tl s))
      else Err InvalidLexBound)"

text \<open>The three ways to select members of the source: by member, by score, by rank.\<close>

definition range_by_lex :: "'i ZSet \<Rightarrow> bytes \<Rightarrow> bytes \<Rightarrow> bool \<Rightarrow> (bytes \<times> f64) list result" where
  "range_by_lex z min_str max_str rv =
     (case parse_lex_bound min_str of
        Inl e \<Rightarrow> Err e
      | Inr min_bound \<Rightarrow>
          (case parse_lex_bound max_str of
             Inl e \<Rightarrow> Err e
           | Inr max_bound \<Rightarrow>
               (case bm_range min_bound max_bound (entries z) of
                  None \<Rightarrow> Err Panic
                | Some collected \<Rightarrow> Ok (if rv then rev collected else collected))))"

definition range_by_bounds ::
  "score_ops \<Rightarrow> 'i index_ops \<Rightarrow> 'i ZSet \<Rightarrow> bytes \<Rightarrow> bytes \<Rightarrow> bool \<Rightarrow> (bytes \<times> f64) list result" where
  "range_by_bounds S I z min_str max_str rv =
     (case parse_score_bound min_str of
        Inl e \<Rightarrow> Err e
      | Inr min_bound \<Rightarrow>
          (case parse_score_bound max_str of
             Inl e \<Rightarrow> Err e
           | Inr max_bound \<Rightarrow>
               map_sum id (\<lambda>collected. if rv then rev collected else collected)
                 (collect_by_score S I min_bound max_bound z)))"

definition range_by_rank ::
  "'i index_ops \<Rightarrow> 'i ZSet \<Rightarrow> bytes \<Rightarrow> bytes \<Rightarrow> bool \<Rightarrow> (bytes \<times> f64) list result" where
  "range_by_rank I z min_str max_str rv =
     (case parse_i64 min_str of
        None \<Rightarrow> Err InvalidMinRank
      | Some min_rank \<Rightarrow>
          (case parse_i64 max_str of
             None \<Rightarrow> Err InvalidMaxRank
           | Some max_rank \<Rightarrow>
               (let len = int (ZSet_len z);
                    start = (if min_rank < 0 then nat (max (len + min_rank) 0) else nat (min min_rank len));
                    stop = (if max_rank < 0 then nat (max (len + max_rank) 0) else nat (min max_rank (len - 1)))
                in if start \<le> stop \<and> start < ZSet_len z
                   then case unwrap_keys (if rv then rev (ix_range_idx I (index z) start stop)
                                          else ix_range_idx I (index z) start stop) of
                          Inl e \<Rightarrow> Err e
                        | Inr ps \<Rightarrow> Ok (map (\<lambda>(score, entry). (entry, score)) ps)
                   else Ok [])))"

definition zrangestore ::
  "score_ops \<Rightarrow> 'i index_ops \<Rightarrow> ('v, 'i) StorageInner \<Rightarrow> u64 \<Rightarrow> bytes \<Rightarrow> bytes \<Rightarrow> bytes \<Rightarrow> bytes \<Rightarrow>
     bool \<Rightarrow> bool \<Rightarrow> bool \<Rightarrow> (i64 \<times> i64) option \<Rightarrow> ('v, 'i, unit) outcome" where
  "zrangestore S I st db dest_key source_key min_str max_str by_score by_lex rv limit =
     (let st1 = del st db dest_key
      in case bm_get (smap st1) db of
           None \<Rightarrow> (Ok (), st1)
         | Some m \<Rightarrow>
             (case bm_get m source_key of
                None \<Rightarrow> (Ok (), st1)
              | Some (ZSet z) \<Rightarrow>
                  (if ZSet_is_empty z then (Ok (), st1)
                   else
                     case (if by_lex then range_by_lex z min_str max_str rv
                           else if by_score then range_by_bounds S I z min_str max_str rv
                           else range_by_rank I z min_str max_str rv) of
                       Inl e \<Rightarrow> (Err e, st1)
                     | Inr collected \<Rightarrow>
                         (let ps = apply_limit collected limit
                          in (Ok (), if ZSet_is_empty (build_zset I ps) then st1
                                     else store_zset I st1 db dest_key ps)))
              | Some _ \<Rightarrow> (Err WrongType, st1)))"

section \<open>Specifications\<close>

text \<open>The weighted scores of a member, in the order of the sources; \<open>i\<close> is the position of the first.\<close>

fun contributions :: "score_ops \<Rightarrow> f64 list \<Rightarrow> nat \<Rightarrow> avalue option list \<Rightarrow> bytes \<Rightarrow> f64 list" where
  "contributions S ws i [] x = []"
| "contributions S ws i (a # as) x =
     (case zscores a x of None \<Rightarrow> [] | Some s \<Rightarrow> [of_mul S s (weight ws i)]) @ contributions S ws (i + 1) as x"

definition spec_zunion ::
  "score_ops \<Rightarrow> f64 list \<Rightarrow> Aggregate \<Rightarrow> u64 \<Rightarrow> bytes list \<Rightarrow> keyspace \<Rightarrow> (bytes \<rightharpoonup> f64) result" where
  "spec_zunion S ws agg db ks K =
     (let as = map (K db) ks
      in if list_all zset_operand as
         then Ok (\<lambda>x. case contributions S ws 0 as x of [] \<Rightarrow> None | l \<Rightarrow> aggregate_scores S agg l)
         else Err WrongType)"

text \<open>
  The intersection looks at its sources until the result is known to be empty: only up to there does a
  source of another type count. \<open>X\<close> are the members common to the sources before.
\<close>

fun zinter_error :: "bytes set \<Rightarrow> avalue option list \<Rightarrow> bool" where
  "zinter_error X [] = False"
| "zinter_error X (None # as) = False"
| "zinter_error X (Some (AZSet m) # as) = (X \<inter> dom m \<noteq> {} \<and> zinter_error (X \<inter> dom m) as)"
| "zinter_error X (Some _ # as) = True"

definition spec_zinter ::
  "score_ops \<Rightarrow> f64 list \<Rightarrow> Aggregate \<Rightarrow> u64 \<Rightarrow> bytes list \<Rightarrow> keyspace \<Rightarrow> (bytes \<rightharpoonup> f64) result" where
  "spec_zinter S ws agg db ks K =
     (case map (K db) ks of
        [] \<Rightarrow> Ok Map.empty
      | a # as \<Rightarrow>
          if \<not> zset_operand a \<or> a \<noteq> None \<and> zinter_error (dom (zscores a)) as then Err WrongType
          else Ok (\<lambda>x. if \<forall>b \<in> set (a # as). x \<in> dom (zscores b)
                       then aggregate_scores S agg (contributions S ws 0 (a # as) x) else None))"

definition spec_zdiff :: "u64 \<Rightarrow> bytes list \<Rightarrow> keyspace \<Rightarrow> (bytes \<rightharpoonup> f64) result" where
  "spec_zdiff db ks K =
     (case map (K db) ks of
        [] \<Rightarrow> Ok Map.empty
      | a # as \<Rightarrow>
          if \<not> zset_operand a \<or> a \<noteq> None \<and> \<not> list_all zset_operand as then Err WrongType
          else Ok (zscores a |` (- (\<Union>b \<in> set as. dom (zscores b)))))"

definition spec_zstore :: "u64 \<Rightarrow> bytes \<Rightarrow> (keyspace \<Rightarrow> (bytes \<rightharpoonup> f64) result) \<Rightarrow> ks_transformer" where
  "spec_zstore db dst f K =
     (let K1 = ks_update db dst None K
      in case f K1 of
           Inl e \<Rightarrow> (Err e, K1)
         | Inr m \<Rightarrow> (Ok (), ks_update db dst (azset m) K1))"

section \<open>Collecting scores\<close>

lemma weight_default: "weight (weights_or_default ws ks) i = weight ws i"
  by (simp add: weight_def weights_or_default_def)

lemma contributions_default: "contributions S (weights_or_default ws ks) i as x = contributions S ws i as x"
  by (induction as arbitrary: i) (simp_all add: weight_default split: option.split)

definition scores_at :: "(bytes, f64 list) btree_map \<Rightarrow> bytes \<Rightarrow> f64 list" where
  "scores_at acc x = (case bm_get acc x of None \<Rightarrow> [] | Some l \<Rightarrow> l)"

text \<open>Sorted, and no member without a score.\<close>

definition scores_ok :: "(bytes, f64 list) btree_map \<Rightarrow> bool" where
  "scores_ok acc \<longleftrightarrow> bm_sorted acc \<and> (\<forall>x l. bm_get acc x = Some l \<longrightarrow> l \<noteq> [])"

lemma scores_ok_get: "scores_ok acc \<Longrightarrow> bm_get acc x = (case scores_at acc x of [] \<Rightarrow> None | l \<Rightarrow> Some l)"
  by (auto simp: scores_ok_def scores_at_def split: option.split list.split)

lemma push_score_ok:
  "scores_ok acc \<Longrightarrow> scores_ok (push_score y s acc)"
  "scores_at (push_score y s acc) x = (if x = y then scores_at acc x @ [s] else scores_at acc x)"
  by (auto simp: scores_ok_def push_score_def bm_sorted_insert bm_get_insert scores_at_def split: option.split)

lemma fold_push_scores:
  "distinct (map fst es) \<Longrightarrow> scores_ok acc \<Longrightarrow>
     scores_ok (fold (\<lambda>(y, s). push_score y (f s)) es acc) \<and>
     scores_at (fold (\<lambda>(y, s). push_score y (f s)) es acc) x =
       scores_at acc x @ (case map_of es x of None \<Rightarrow> [] | Some s \<Rightarrow> [f s])"
proof (induction es arbitrary: acc)
  case (Cons e es)
  obtain y s where e: "e = (y, s)" by fastforce
  have "map_of es y = None" using Cons.prems e by (simp add: map_of_eq_None_iff)
  with Cons e show ?case
    by (auto simp: push_score_ok)
qed simp

definition zsets_ok :: "('v, 'i) db_map \<Rightarrow> bool" where
  "zsets_ok m \<longleftrightarrow> (\<forall>k z. bm_get m k = Some (ZSet z) \<longrightarrow> bm_sorted (entries z))"

lemma zsets_okI: "db_ok S I m \<Longrightarrow> zsets_ok m"
  by (auto simp: zsets_ok_def zset_ok_def dest: value_ok_get)

abbreviation abs_db :: "'v vec_ops \<Rightarrow> ('v, 'i) db_map \<Rightarrow> bytes \<Rightarrow> avalue option" where
  "abs_db V m k \<equiv> map_option (abs_value V) (bm_get m k)"

lemma zunion_loop_abs:
  assumes m: "zsets_ok m"
  shows "scores_ok acc \<Longrightarrow>
    (case zunion_loop S ws m i ks acc of
       Inl e \<Rightarrow> e = WrongType \<and> \<not> list_all zset_operand (map (abs_db V m) ks)
     | Inr r \<Rightarrow> list_all zset_operand (map (abs_db V m) ks) \<and> scores_ok r \<and>
         (\<forall>x. scores_at r x = scores_at acc x @ contributions S ws i (map (abs_db V m) ks) x))"
proof (induction ks arbitrary: i acc)
  case (Cons k ks)
  show ?case
  proof (cases "bm_get m k")
    case None
    with Cons.IH [OF Cons.prems, of "i + 1"] show ?thesis by (simp split: sum.splits)
  next
    case (Some v)
    show ?thesis
    proof (cases v)
      case (ZSet z)
      let ?acc = "fold (\<lambda>(y, s). push_score y (of_mul S s (weight ws i))) (entries z) acc"
      have d: "distinct (map fst (entries z))"
        using m Some ZSet by (simp add: zsets_ok_def bm_sorted_distinct)
      note f = fold_push_scores [OF d Cons.prems, of "\<lambda>s. of_mul S s (weight ws i)"]
      have "scores_ok ?acc" using f by simp
      from Cons.IH [OF this, of "i + 1"] show ?thesis
        using f Some ZSet by (auto simp: bm_get_def split: sum.splits)
    qed (use Some in simp_all)
  qed
qed simp

lemma bm_get_retain:
  "bm_get (retain_scored S w es acc) x =
     (case bm_get acc x of None \<Rightarrow> None
      | Some l \<Rightarrow> (case bm_get es x of None \<Rightarrow> None | Some s \<Rightarrow> Some (l @ [of_mul S s w])))"
  by (induction acc) (auto simp: retain_scored_def List.map_filter_simps bm_get_def split: option.split)

lemma retain_sorted: "bm_sorted acc \<Longrightarrow> bm_sorted (retain_scored S w es acc)"
proof -
  have "map fst (retain_scored S w es acc) = filter (\<lambda>x. bm_get es x \<noteq> None) (map fst acc)"
    by (induction acc) (auto simp: retain_scored_def List.map_filter_simps split: option.splits)
  then show "bm_sorted acc \<Longrightarrow> bm_sorted (retain_scored S w es acc)"
    unfolding bm_sorted_def by (simp add: sorted_wrt_filter)
qed

lemma retain_ok: "scores_ok acc \<Longrightarrow> scores_ok (retain_scored S w es acc)"
  by (auto simp: scores_ok_def retain_sorted bm_get_retain split: option.splits)

lemma zinter_loop_abs:
  "scores_ok acc \<Longrightarrow>
    (case zinter_loop S ws m i ks acc of
       Inl e \<Rightarrow> e = WrongType \<and> zinter_error (dom (bm_get acc)) (map (abs_db V m) ks)
     | Inr r \<Rightarrow> \<not> zinter_error (dom (bm_get acc)) (map (abs_db V m) ks) \<and> scores_ok r \<and>
         (\<forall>x. bm_get r x =
           (if \<forall>a \<in> set (map (abs_db V m) ks). x \<in> dom (zscores a)
            then map_option (\<lambda>l. l @ contributions S ws i (map (abs_db V m) ks) x) (bm_get acc x) else None)))"
proof (induction ks arbitrary: i acc)
  case Nil
  then show ?case by (simp add: option.map_ident)
next
  case (Cons k ks)
  show ?case
  proof (cases "bm_get m k")
    case None
    then show ?thesis by (simp add: scores_ok_def)
  next
    case (Some v)
    show ?thesis
    proof (cases v)
      case (ZSet z)
      let ?acc = "retain_scored S (weight ws i) (entries z) acc"
      have ok: "scores_ok ?acc" by (rule retain_ok [OF Cons.prems])
      have dom: "dom (bm_get ?acc) = dom (bm_get acc) \<inter> dom (bm_get (entries z))"
        by (auto simp: dom_def bm_get_retain split: option.splits)
      have empty: "?acc = [] \<longleftrightarrow> dom (bm_get acc) \<inter> dom (bm_get (entries z)) = {}"
        using bm.entries_empty_iff [of ?acc] ok dom by (auto simp: scores_ok_def)
      show ?thesis
      proof (cases "?acc = []")
        case True
        then have "dom (bm_get acc) \<inter> dom (bm_get (entries z)) = {}" using empty by blast
        then have "x \<in> dom (bm_get (entries z)) \<Longrightarrow> bm_get acc x = None" for x by auto
        with True \<open>dom (bm_get acc) \<inter> dom (bm_get (entries z)) = {}\<close> Some ZSet show ?thesis
          by (simp add: scores_ok_def)
      next
        case False
        have "dom (bm_get acc) \<inter> dom (bm_get (entries z)) \<noteq> {}" using empty False by blast
        with Cons.IH [OF ok, of "i + 1"] False Some ZSet show ?thesis
          unfolding dom by (auto simp: bm_get_retain split: sum.splits option.splits)
      qed
    qed (use Some in simp_all)
  qed
qed

lemma zdiff_loop_abs:
  assumes m: "zsets_ok m"
  shows "bm_sorted acc \<Longrightarrow>
    (case zdiff_loop m ks acc of
       Inl e \<Rightarrow> e = WrongType \<and> \<not> list_all zset_operand (map (abs_db V m) ks)
     | Inr r \<Rightarrow> list_all zset_operand (map (abs_db V m) ks) \<and> bm_sorted r \<and>
         bm_get r = bm_get acc |` (- (\<Union>b \<in> set (map (abs_db V m) ks). dom (zscores b))))"
proof (induction ks arbitrary: acc)
  case Nil
  then show ?case by (simp add: restrict_map_def)
next
  case (Cons k ks)
  show ?case
  proof (cases "bm_get m k")
    case None
    with Cons.IH [OF Cons.prems] show ?thesis by (simp split: sum.splits)
  next
    case (Some v)
    show ?thesis
    proof (cases v)
      case (ZSet z)
      have "set (bm_keys (entries z)) = dom (bm_get (entries z))"
        using m Some ZSet by (simp add: zsets_ok_def bm_keys_def bm.dom_get)
      then show ?thesis
        using Cons.IH [OF bm.ok_fold_rem [OF Cons.prems], of "bm_keys (entries z)"] Some ZSet
        by (auto simp: bm.get_fold_rem Int_ac split: sum.splits)
    qed (use Some in simp_all)
  qed
qed

section \<open>Every store implements its specification\<close>

lemma aggregate_some: "l \<noteq> [] \<Longrightarrow> aggregate_scores S agg l \<noteq> None"
  by (cases agg; cases l) simp_all

lemma final_scores_map:
  "\<forall>p \<in> set ps. snd p \<noteq> [] \<Longrightarrow>
     final_scores S agg ps = Some (map (\<lambda>(x, l). (x, the (aggregate_scores S agg l))) ps)"
proof (induction ps)
  case (Cons p ps)
  then show ?case
    using aggregate_some [of "snd p" S agg] by (cases p) auto
qed simp

lemma final_scores_ok:
  assumes "scores_ok r"
  shows "\<exists>ps. final_scores S agg r = Some ps \<and> map fst ps = map fst r \<and>
    map_of ps = (\<lambda>x. case bm_get r x of None \<Rightarrow> None | Some l \<Rightarrow> aggregate_scores S agg l)"
proof -
  have ne: "\<forall>p \<in> set r. snd p \<noteq> []"
    using assms by (auto simp: scores_ok_def bm.entries_get)
  have "aggregate_scores S agg l = Some (the (aggregate_scores S agg l))" if "bm_get r x = Some l" for x l
    using that assms aggregate_some [of l S agg] by (auto simp: scores_ok_def)
  then have "map_of (map (\<lambda>(x, l). (x, the (aggregate_scores S agg l))) r) =
      (\<lambda>x. case bm_get r x of None \<Rightarrow> None | Some l \<Rightarrow> aggregate_scores S agg l)"
    by (auto simp: map_of_map fun_eq_iff bm_get_def split: option.split)
  then show ?thesis
    by (auto simp: final_scores_map [OF ne])
qed

text \<open>The shape of every store, with the selection \<open>f\<close> of members and scores.\<close>

definition zstore_result ::
  "'i index_ops \<Rightarrow> u64 \<Rightarrow> bytes \<Rightarrow> (('v, 'i) StorageInner \<Rightarrow> (bytes \<times> f64) list result) \<Rightarrow>
     ('v, 'i) StorageInner \<Rightarrow> ('v, 'i, unit) outcome" where
  "zstore_result I db dst f st =
     (let st1 = del st db dst
      in case f st1 of
           Inl e \<Rightarrow> (Err e, st1)
         | Inr ps \<Rightarrow> (Ok (), if ps = [] then st1 else store_zset I st1 db dst ps))"

lemma ks_update_same: "ks_update db k (K db k) K = K"
  by (simp add: ks_update_def)

lemma abs_put_dest:
  "abs_storage V (put_db st db (bm_insert k v (db_entry st db))) =
     ks_update db k (Some (abs_value V v)) (abs_storage V st)"
  by (auto simp: abs_storage_def ks_update_def lookup_simps btree_simps fun_eq_iff)

context index_set
begin

lemma build_ok:
  "distinct (map fst ps) \<Longrightarrow> zset_ok S I (build_zset I ps)"
  "distinct (map fst ps) \<Longrightarrow> bm_get (entries (build_zset I ps)) = map_of ps"
  unfolding build_zset_def by (simp_all add: zset_ok_build entries_build)

lemma build_empty: "distinct (map fst ps) \<Longrightarrow> ZSet_is_empty (build_zset I ps) \<longleftrightarrow> ps = []"
  using bm.entries_empty_iff [of "entries (build_zset I ps)"] build_ok [of ps]
  by (simp add: ZSet_is_empty_def zset_ok_def)

text \<open>The order in which a sorted set is built does not show.\<close>

lemma build_order:
  assumes "distinct (map fst ps)" "distinct (map fst qs)" "set ps = set qs"
  shows "entries (build_zset I ps) = entries (build_zset I qs)"
    and "ix_iter I (index (build_zset I ps)) = ix_iter I (index (build_zset I qs))"
proof -
  have m: "map_of ps = map_of qs"
    using assms by (intro map_of_inject_set [THEN iffD2])
  then show e: "entries (build_zset I ps) = entries (build_zset I qs)"
    using build_ok [OF assms(1)] build_ok [OF assms(2)] by (intro bm_sorted_unique) (simp_all add: zset_ok_def)
  have st: "\<forall>k \<in> set (ix_iter I (index (build_zset I rs))). k = Key (fst (the (unwrap_key k))) (snd (the (unwrap_key k)))"
    if "distinct (map fst rs)" for rs
    using index_mem_iff [OF build_ok(1) [OF that]] by auto
  have "map (the \<circ> unwrap_key) (ix_iter I (index (build_zset I ps))) =
      map (the \<circ> unwrap_key) (ix_iter I (index (build_zset I qs)))"
    using z_ranking_index [OF build_ok(1) [OF assms(2)]]
    by (intro z_ranking_unique [OF build_ok(1) [OF assms(1)]]) (simp only: e)
  then have "map ((\<lambda>p. Key (fst p) (snd p)) \<circ> (the \<circ> unwrap_key)) (ix_iter I (index (build_zset I ps))) =
      map ((\<lambda>p. Key (fst p) (snd p)) \<circ> (the \<circ> unwrap_key)) (ix_iter I (index (build_zset I qs)))"
    unfolding map_map [symmetric] by (simp only: map_map)
  moreover have "map ((\<lambda>p. Key (fst p) (snd p)) \<circ> (the \<circ> unwrap_key)) (ix_iter I (index (build_zset I rs))) =
      ix_iter I (index (build_zset I rs))" if "distinct (map fst rs)" for rs
    using st [OF that] by (intro map_idI) auto
  ultimately show "ix_iter I (index (build_zset I ps)) = ix_iter I (index (build_zset I qs))"
    using assms(1,2) by simp
qed

lemma zstore_refines:
  fixes V :: "'v vec_ops"
  assumes cmd: "\<And>st. storage_ok S I st \<Longrightarrow> cmd st = zstore_result I db dst f st"
    and refines: "\<And>st. storage_ok S I st \<Longrightarrow> map_sum id map_of (f st) = g (abs_storage V st)"
    and dist: "\<And>st ps. storage_ok S I st \<Longrightarrow> f st = Ok ps \<Longrightarrow> distinct (map fst ps)"
  shows "keyspace_command V S I cmd (spec_zstore db dst g)"
proof
  fix st :: "('v, 'i) StorageInner"
  assume st: "storage_ok S I st"
  let ?st1 = "del st db dst"
  have ok1: "storage_ok S I ?st1" and K1: "abs_storage V ?st1 = ks_update db dst None (abs_storage V st)"
    using del.ok_cmd [OF st] del.abs_cmd [OF st] by (simp_all add: spec_del_def)
  show "storage_ok S I (snd (cmd st))"
    using ok1 dist [OF ok1] build_ok(1)
    by (auto simp: cmd [OF st] zstore_result_def store_zset_def Let_def split: sum.splits intro!: wf_intros)
  show "map_prod id (abs_storage V) (cmd st) = spec_zstore db dst g (abs_storage V st)"
  proof (cases "f ?st1")
    case (Inl e)
    then have "g (abs_storage V ?st1) = Err e"
      using refines [OF ok1] by simp
    then show ?thesis
      using Inl by (simp add: cmd [OF st] zstore_result_def spec_zstore_def Let_def flip: K1)
  next
    case (Inr ps)
    then have g: "g (abs_storage V ?st1) = Ok (map_of ps)"
      using refines [OF ok1] by simp
    have "abs_storage V ?st1 db dst = None"
      by (simp add: K1 ks_update_apply)
    then have "ks_update db dst None (abs_storage V ?st1) = abs_storage V ?st1"
      using ks_update_same [of db dst "abs_storage V ?st1"] by simp
    moreover have "map_of ps = Map.empty \<longleftrightarrow> ps = []"
      by (metis map_of_eq_empty_iff)
    ultimately show ?thesis
      using Inr g build_ok(2) [OF dist [OF ok1 Inr]]
      by (simp add: cmd [OF st] zstore_result_def spec_zstore_def Let_def azset_def store_zset_def
          abs_put_dest flip: K1)
  qed
qed

end

lemma final_scores_length: "final_scores S agg r = Some ps \<Longrightarrow> length ps = length r"
  by (induction r arbitrary: ps rule: final_scores.induct) (auto split: option.splits)

lemma final_scores_Nil: "final_scores S agg r = Some ps \<Longrightarrow> ps = [] \<longleftrightarrow> r = []"
  using final_scores_length by fastforce

lemma abs_missing_db: "bm_get (smap st) db = None \<Longrightarrow> abs_storage V st db = (\<lambda>_. None)"
  by (simp add: abs_storage_def lookup_def fun_eq_iff)

lemma abs_present_db: "bm_get (smap st) db = Some m \<Longrightarrow> abs_storage V st db = abs_db V m"
  by (simp add: abs_storage_def lookup_def fun_eq_iff)

definition zunion_sel ::
  "score_ops \<Rightarrow> f64 list \<Rightarrow> Aggregate \<Rightarrow> u64 \<Rightarrow> bytes list \<Rightarrow> ('v, 'i) StorageInner \<Rightarrow> (bytes \<times> f64) list result" where
  "zunion_sel S ws agg db ks st =
     (case bm_get (smap st) db of
        None \<Rightarrow> Ok []
      | Some m \<Rightarrow>
          (case zunion_loop S (weights_or_default ws ks) m 0 ks [] of
             Inl e \<Rightarrow> Err e
           | Inr r \<Rightarrow> (case final_scores S agg r of None \<Rightarrow> Err Panic | Some ps \<Rightarrow> Ok ps)))"

lemma zunionstore_eq: "zunionstore S I st db dst ks ws agg = zstore_result I db dst (zunion_sel S ws agg db ks) st"
  by (auto simp: zunionstore_def zstore_result_def zunion_sel_def Let_def final_scores_Nil
      split: option.split sum.split)

lemma zunion_sel_abs:
  assumes st: "storage_ok S I st"
  shows "map_sum id map_of (zunion_sel S ws agg db ks st) = spec_zunion S ws agg db ks (abs_storage V st) \<and>
    (\<forall>ps. zunion_sel S ws agg db ks st = Ok ps \<longrightarrow> distinct (map fst ps))"
proof (cases "bm_get (smap st) db")
  case None
  have "contributions S ws i (map (\<lambda>_. None) ks) x = []" for i x
    by (induction ks arbitrary: i) simp_all
  with None show ?thesis
    by (simp add: zunion_sel_def spec_zunion_def abs_missing_db list_all_iff)
next
  case (Some m)
  let ?r = "zunion_loop S (weights_or_default ws ks) m 0 ks []"
  have "scores_ok []" by (simp add: scores_ok_def)
  note l = zunion_loop_abs [OF zsets_okI [OF db_ok_get [OF st Some]] this,
      where S = S and ws = "weights_or_default ws ks" and i = 0 and ks = ks and V = V]
  show ?thesis
  proof (cases ?r)
    case (Inl e)
    with l Some show ?thesis by (auto simp: zunion_sel_def spec_zunion_def abs_present_db)
  next
    case (Inr r)
    with l have r: "list_all zset_operand (map (abs_db V m) ks)" "scores_ok r"
      "\<And>x. scores_at r x = contributions S ws 0 (map (abs_db V m) ks) x"
      by (auto simp: scores_at_def contributions_default)
    obtain ps where ps: "final_scores S agg r = Some ps" "map fst ps = map fst r"
      "map_of ps = (\<lambda>x. case bm_get r x of None \<Rightarrow> None | Some l \<Rightarrow> aggregate_scores S agg l)"
      using final_scores_ok [OF r(2)] by blast
    have "map_of ps = (\<lambda>x. case contributions S ws 0 (map (abs_db V m) ks) x of
        [] \<Rightarrow> None | l \<Rightarrow> aggregate_scores S agg l)"
      unfolding ps(3) by (auto simp: scores_ok_get [OF r(2)] r(3) fun_eq_iff split: list.split)
    moreover have "distinct (map fst ps)"
      using r(2) ps(2) by (simp add: scores_ok_def bm_sorted_distinct)
    ultimately show ?thesis
      using Some Inr r(1) ps(1) by (simp add: zunion_sel_def spec_zunion_def abs_present_db Let_def)
  qed
qed

definition zinter_sel ::
  "score_ops \<Rightarrow> f64 list \<Rightarrow> Aggregate \<Rightarrow> u64 \<Rightarrow> bytes list \<Rightarrow> ('v, 'i) StorageInner \<Rightarrow> (bytes \<times> f64) list result" where
  "zinter_sel S ws agg db ks st =
     (case ks of
        [] \<Rightarrow> Ok []
      | k0 # ks' \<Rightarrow>
          (case bm_get (smap st) db of
             None \<Rightarrow> Ok []
           | Some m \<Rightarrow>
               (case bm_get m k0 of
                  None \<Rightarrow> Ok []
                | Some (ZSet z0) \<Rightarrow>
                    (case zinter_loop S (weights_or_default ws ks) m 1 ks'
                            (map (\<lambda>(x, s). (x, [of_mul S s (weight ws 0)])) (entries z0)) of
                       Inl e \<Rightarrow> Err e
                     | Inr r \<Rightarrow> (case final_scores S agg r of None \<Rightarrow> Err Panic | Some ps \<Rightarrow> Ok ps))
                | Some _ \<Rightarrow> Err WrongType)))"

lemma zinterstore_eq: "zinterstore S I st db dst ks ws agg = zstore_result I db dst (zinter_sel S ws agg db ks) st"
  by (cases ks)
    (auto simp: zinterstore_def zstore_result_def zinter_sel_def Let_def final_scores_Nil weight_default
      split: option.split sum.split StorageValue.split)

lemma zinter_sel_abs:
  assumes st: "storage_ok S I st"
  shows "map_sum id map_of (zinter_sel S ws agg db ks st) = spec_zinter S ws agg db ks (abs_storage V st) \<and>
    (\<forall>ps. zinter_sel S ws agg db ks st = Ok ps \<longrightarrow> distinct (map fst ps))"
proof (cases ks)
  case Nil
  then show ?thesis by (simp add: zinter_sel_def spec_zinter_def)
next
  case (Cons k0 ks')
  show ?thesis
  proof (cases "lookup st db k0")
    case None
    then show ?thesis
      by (auto simp: Cons zinter_sel_def spec_zinter_def abs_storage_def lookup_def fun_eq_iff split: option.splits)
  next
    case (Some v)
    then obtain m where m: "bm_get (smap st) db = Some m" "bm_get m k0 = Some v"
      by (auto simp: lookup_def split: option.splits)
    show ?thesis
    proof (cases v)
      case (ZSet z)
      let ?acc = "map (\<lambda>(x, s). (x, [of_mul S s (weight ws 0)])) (entries z)"
      have so: "bm_sorted (entries z)"
        using value_ok_lookup [OF st Some] ZSet by (simp add: zset_ok_def)
      have get: "bm_get ?acc x = map_option (\<lambda>s. [of_mul S s (weight ws 0)]) (bm_get (entries z) x)" for x
        by (simp add: bm_get_def map_of_map)
      have "bm_sorted ?acc" using so by (simp add: bm_sorted_def comp_def case_prod_beta)
      then have ok: "scores_ok ?acc" by (auto simp: scores_ok_def get)
      have dom: "dom (bm_get ?acc) = dom (bm_get (entries z))" by (auto simp: dom_def get)
      note l = zinter_loop_abs [OF ok, where S = S and ws = "weights_or_default ws ks" and m = m and i = 1
          and ks = ks' and V = V, unfolded dom]
      show ?thesis
      proof (cases "zinter_loop S (weights_or_default ws ks) m 1 ks' ?acc")
        case (Inl e)
        with l m ZSet show ?thesis
          by (auto simp: Cons zinter_sel_def spec_zinter_def abs_present_db)
      next
        case (Inr r)
        let ?as = "map (abs_db V m) (k0 # ks')"
        from Inr l have r: "\<not> zinter_error (dom (bm_get (entries z))) (map (abs_db V m) ks')" "scores_ok r"
          "\<And>x. bm_get r x = (if \<forall>a \<in> set ?as. x \<in> dom (zscores a)
             then Some (contributions S ws 0 ?as x) else None)"
          by (auto simp: get contributions_default m ZSet dom_def)
        obtain ps where ps: "final_scores S agg r = Some ps" "map fst ps = map fst r"
          "map_of ps = (\<lambda>x. case bm_get r x of None \<Rightarrow> None | Some l \<Rightarrow> aggregate_scores S agg l)"
          using final_scores_ok [OF r(2)] by blast
        have "distinct (map fst ps)"
          using r(2) ps(2) by (simp add: scores_ok_def bm_sorted_distinct)
        moreover have "map_of ps = (\<lambda>x. if \<forall>a \<in> set ?as. x \<in> dom (zscores a)
            then aggregate_scores S agg (contributions S ws 0 ?as x) else None)"
          unfolding ps(3) r(3) by (simp add: fun_eq_iff)
        moreover have "zinter_sel S ws agg db ks st = Ok ps"
          using Inr m ZSet ps(1) by (simp add: Cons zinter_sel_def)
        moreover have "spec_zinter S ws agg db ks (abs_storage V st) =
            Ok (\<lambda>x. if \<forall>a \<in> set ?as. x \<in> dom (zscores a)
              then aggregate_scores S agg (contributions S ws 0 ?as x) else None)"
          using m ZSet r(1) by (simp add: Cons spec_zinter_def abs_present_db cong: if_cong)
        ultimately show ?thesis by simp
      qed
    qed (use m in \<open>simp_all add: Cons zinter_sel_def spec_zinter_def abs_present_db\<close>)
  qed
qed

definition zdiff_sel :: "u64 \<Rightarrow> bytes list \<Rightarrow> ('v, 'i) StorageInner \<Rightarrow> (bytes \<times> f64) list result" where
  "zdiff_sel db ks st =
     (case ks of
        [] \<Rightarrow> Ok []
      | k0 # ks' \<Rightarrow>
          (case bm_get (smap st) db of
             None \<Rightarrow> Ok []
           | Some m \<Rightarrow>
               (case bm_get m k0 of
                  None \<Rightarrow> Ok []
                | Some (ZSet z0) \<Rightarrow> zdiff_loop m ks' (entries z0)
                | Some _ \<Rightarrow> Err WrongType)))"

lemma zdiffstore_eq: "zdiffstore I st db dst ks = zstore_result I db dst (zdiff_sel db ks) st"
  by (cases ks)
    (auto simp: zdiffstore_def zstore_result_def zdiff_sel_def Let_def
      split: option.split sum.split StorageValue.split)

lemma zdiff_sel_abs:
  assumes st: "storage_ok S I st"
  shows "map_sum id map_of (zdiff_sel db ks st) = spec_zdiff db ks (abs_storage V st) \<and>
    (\<forall>ps. zdiff_sel db ks st = Ok ps \<longrightarrow> distinct (map fst ps))"
proof (cases ks)
  case Nil
  then show ?thesis by (simp add: zdiff_sel_def spec_zdiff_def)
next
  case (Cons k0 ks')
  show ?thesis
  proof (cases "lookup st db k0")
    case None
    then show ?thesis
      by (auto simp: Cons zdiff_sel_def spec_zdiff_def abs_storage_def lookup_def split: option.splits)
  next
    case (Some v)
    then obtain m where m: "bm_get (smap st) db = Some m" "bm_get m k0 = Some v"
      by (auto simp: lookup_def split: option.splits)
    show ?thesis
    proof (cases v)
      case (ZSet z)
      have "bm_sorted (entries z)"
        using value_ok_lookup [OF st Some] ZSet by (simp add: zset_ok_def)
      from zdiff_loop_abs [OF zsets_okI [OF db_ok_get [OF st m(1)]] this, where ks = ks' and V = V]
      show ?thesis
        using m ZSet
        by (auto simp: Cons zdiff_sel_def spec_zdiff_def abs_present_db fun_eq_iff
            simp flip: bm_get_def dest: bm_sorted_distinct split: sum.splits)
    qed (use m in \<open>simp_all add: Cons zdiff_sel_def spec_zdiff_def abs_present_db\<close>)
  qed
qed

context index_set
begin

lemma zunionstore_refines:
  "keyspace_command V S I (\<lambda>st. zunionstore S I st db dst ks ws agg) (spec_zstore db dst (spec_zunion S ws agg db ks))"
  by (rule zstore_refines [OF zunionstore_eq]) (use zunion_sel_abs in blast)+

lemma zinterstore_refines:
  "keyspace_command V S I (\<lambda>st. zinterstore S I st db dst ks ws agg) (spec_zstore db dst (spec_zinter S ws agg db ks))"
  by (rule zstore_refines [OF zinterstore_eq]) (use zinter_sel_abs in blast)+

lemma zdiffstore_refines:
  "keyspace_command V S I (\<lambda>st. zdiffstore I st db dst ks) (spec_zstore db dst (spec_zdiff db ks))"
  by (rule zstore_refines [OF zdiffstore_eq]) (use zdiff_sel_abs in blast)+

end

section \<open>Storing a range implements its specification\<close>

text \<open>The members in member order, and in the order of the ranking, as functions of the map.\<close>

definition z_members :: "(bytes \<rightharpoonup> f64) \<Rightarrow> (bytes \<times> f64) list" where
  "z_members m = map (\<lambda>x. (x, the (m x))) (sorted_list_of_set (dom m))"

definition z_order :: "score_ops \<Rightarrow> (bytes \<rightharpoonup> f64) \<Rightarrow> (bytes \<times> f64) list" where
  "z_order S m = map (\<lambda>(s, x). (x, s)) (THE ps. z_ranking S m ps)"

definition directed :: "bool \<Rightarrow> 'a list \<Rightarrow> 'a list" where
  "directed rv xs = (if rv then rev xs else xs)"

definition rank_pos :: "int \<Rightarrow> i64 \<Rightarrow> nat" where
  "rank_pos n r = nat (if r < 0 then max (n + r) 0 else r)"

definition spec_select ::
  "score_ops \<Rightarrow> bool \<Rightarrow> bool \<Rightarrow> bool \<Rightarrow> bytes \<Rightarrow> bytes \<Rightarrow> (bytes \<rightharpoonup> f64) \<Rightarrow> (bytes \<times> f64) list result" where
  "spec_select S by_score by_lex rv lo hi m =
     (if by_lex then
        (case parse_lex_bound lo of
           Inl e \<Rightarrow> Err e
         | Inr a \<Rightarrow>
             (case parse_lex_bound hi of
                Inl e \<Rightarrow> Err e
              | Inr b \<Rightarrow>
                  if range_ok a b then Ok (directed rv (filter (\<lambda>e. above a (fst e) \<and> below b (fst e)) (z_members m)))
                  else Err Panic))
      else if by_score then
        (case parse_score_bound lo of
           Inl e \<Rightarrow> Err e
         | Inr a \<Rightarrow>
             (case parse_score_bound hi of
                Inl e \<Rightarrow> Err e
              | Inr b \<Rightarrow> Ok (directed rv (filter (\<lambda>e. score_in_range S (snd e) a b) (z_order S m)))))
      else
        (case parse_i64 lo of
           None \<Rightarrow> Err InvalidMinRank
         | Some a \<Rightarrow>
             (case parse_i64 hi of
                None \<Rightarrow> Err InvalidMaxRank
              | Some b \<Rightarrow>
                  let n = int (card (dom m))
                  in Ok (directed rv (take (Suc (rank_pos n b) - rank_pos n a) (drop (rank_pos n a) (z_order S m)))))))"

definition spec_zrange_sel ::
  "score_ops \<Rightarrow> bool \<Rightarrow> bool \<Rightarrow> bool \<Rightarrow> bytes \<Rightarrow> bytes \<Rightarrow> (i64 \<times> i64) option \<Rightarrow> u64 \<Rightarrow> bytes \<Rightarrow> keyspace \<Rightarrow>
     (bytes \<rightharpoonup> f64) result" where
  "spec_zrange_sel S by_score by_lex rv lo hi limit db src K =
     (case K db src of
        None \<Rightarrow> Ok Map.empty
      | Some (AZSet m) \<Rightarrow>
          if m = Map.empty then Ok Map.empty
          else map_sum id (\<lambda>ps. map_of (apply_limit ps limit)) (spec_select S by_score by_lex rv lo hi m)
      | Some _ \<Rightarrow> Err WrongType)"

text \<open>Score bounds that are not inverted, where the index query is specified.\<close>

definition zrange_args_ok :: "score_ops \<Rightarrow> bool \<Rightarrow> bool \<Rightarrow> bytes \<Rightarrow> bytes \<Rightarrow> bool" where
  "zrange_args_ok S by_score by_lex lo hi \<longleftrightarrow>
     (by_score \<and> \<not> by_lex \<longrightarrow>
        (case (parse_score_bound lo, parse_score_bound hi) of
           (Inr a, Inr b) \<Rightarrow> score_range_ok S (min_bound_key a) (max_bound_key b)
         | _ \<Rightarrow> True))"

definition zrange_sel ::
  "score_ops \<Rightarrow> 'i index_ops \<Rightarrow> bool \<Rightarrow> bool \<Rightarrow> bool \<Rightarrow> bytes \<Rightarrow> bytes \<Rightarrow> (i64 \<times> i64) option \<Rightarrow> u64 \<Rightarrow> bytes \<Rightarrow>
     ('v, 'i) StorageInner \<Rightarrow> (bytes \<times> f64) list result" where
  "zrange_sel S I by_score by_lex rv lo hi limit db src st =
     (case lookup st db src of
        None \<Rightarrow> Ok []
      | Some (ZSet z) \<Rightarrow>
          (if ZSet_is_empty z then Ok []
           else map_sum id (\<lambda>c. apply_limit c limit)
             (if by_lex then range_by_lex z lo hi rv
              else if by_score then range_by_bounds S I z lo hi rv
              else range_by_rank I z lo hi rv))
      | Some _ \<Rightarrow> Err WrongType)"

lemma z_members_get:
  assumes "bm_sorted es"
  shows "z_members (bm_get es) = es"
proof (rule bm_sorted_unique)
  have fin: "finite (dom (bm_get es))" using bm.dom_get [OF assms] by simp
  have "bm_get (z_members (bm_get es)) x = bm_get es x" for x
  proof (cases "bm_get es x")
    case None
    then have "x \<notin> fst ` set (z_members (bm_get es))"
      using fin by (auto simp: z_members_def)
    then show ?thesis
      unfolding None by (simp add: bm_get_def map_of_eq_None_iff)
  next
    case (Some s)
    then have "(x, s) \<in> set (z_members (bm_get es))"
      using fin by (force simp: z_members_def)
    moreover have "distinct (map fst (z_members (bm_get es)))"
      by (simp add: z_members_def comp_def)
    ultimately have "map_of (z_members (bm_get es)) x = Some s" by simp
    then show ?thesis unfolding Some by (simp add: bm_get_def [of "z_members _"])
  qed
  then show "bm_get (z_members (bm_get es)) = bm_get es" by blast
  show "bm_sorted (z_members (bm_get es))"
    by (simp add: bm_sorted_def z_members_def comp_def strict_sorted_iff [symmetric])
qed (rule assms)

lemma map_fst_distinct_sub:
  "distinct (map fst ps) \<Longrightarrow> distinct (map fst (filter P ps))"
  "distinct (map fst ps) \<Longrightarrow> distinct (map fst (take n (drop k ps)))"
  "distinct (map fst ps) \<Longrightarrow> distinct (map fst (directed rv ps))"
  "distinct (map fst ps) \<Longrightarrow> distinct (map fst (apply_limit ps limit))"
  by (auto simp: distinct_map_filter directed_def apply_limit_def simp flip: take_map drop_map rev_map
      split: option.split)

context index_set
begin

lemma z_order_index:
  assumes z: "zset_ok S I z"
  shows "z_order S (bm_get (entries z)) = map (\<lambda>(s, x). (x, s)) (map (the \<circ> unwrap_key) (ix_iter I (index z)))"
proof -
  have "(THE ps. z_ranking S (bm_get (entries z)) ps) = map (the \<circ> unwrap_key) (ix_iter I (index z))"
  proof (rule the_equality)
    show "z_ranking S (bm_get (entries z)) (map (the \<circ> unwrap_key) (ix_iter I (index z)))"
      by (rule z_ranking_index [OF z])
  qed (rule z_ranking_unique [OF z, symmetric])
  then show ?thesis by (simp only: z_order_def)
qed

lemma z_order_distinct:
  assumes z: "zset_ok S I z"
  shows "distinct (map fst (z_order S (bm_get (entries z))))"
proof -
  let ?ks = "ix_iter I (index z)"
  have "inj_on (\<lambda>k. snd (the (unwrap_key k))) (set ?ks)"
  proof (rule inj_onI)
    fix k k' assume "k \<in> set ?ks" "k' \<in> set ?ks" "snd (the (unwrap_key k)) = snd (the (unwrap_key k'))"
    then show "k = k'" using index_mem_iff [OF z, of k] index_mem_iff [OF z, of k'] by auto
  qed
  then show ?thesis
    using z_index_distinct [OF z] by (simp add: z_order_index [OF z] distinct_map comp_def case_prod_beta)
qed

lemma select_rank:
  assumes z: "zset_ok S I z" and ne: "bm_get (entries z) \<noteq> Map.empty"
  shows "range_by_rank I z lo hi rv = spec_select S False False rv lo hi (bm_get (entries z))"
proof (cases "parse_i64 lo")
  case None
  then show ?thesis by (simp add: range_by_rank_def spec_select_def)
next
  case (Some a)
  show ?thesis
  proof (cases "parse_i64 hi")
    case None
    with Some show ?thesis by (simp add: range_by_rank_def spec_select_def)
  next
    case hi: (Some b)
    let ?n = "card (dom (bm_get (entries z)))" let ?ks = "ix_iter I (index z)"
    define start where "start = (if a < 0 then nat (max (int ?n + a) 0) else nat (min a (int ?n)))"
    define stop where "stop = (if b < 0 then nat (max (int ?n + b) 0) else nat (min b (int ?n - 1)))"
    have n: "0 < ?n" "length ?ks = ?n" "ZSet_len z = ?n"
      using ne z z_length [OF z] bm.dom_get [of "entries z"] by (auto simp: zset_ok_def card_gt_0_iff)
    have stored: "\<forall>k \<in> set ?ks. is_stored k" using z by (auto simp: zset_ok_def index_ok_def)
    have slice: "take (Suc (rank_pos (int ?n) b) - rank_pos (int ?n) a) (drop (rank_pos (int ?n) a) xs) =
        (if start \<le> stop \<and> start < ?n then take (Suc stop - start) (drop start xs) else [])"
      if "length xs = ?n" for xs :: "(bytes \<times> f64) list"
      using that n(1) by (auto simp: rank_pos_def start_def stop_def min_def max_def)
    have stop: "stop < ?n"
      using n(1) by (auto simp: stop_def)
    have idx: "ix_range_idx I (index z) start stop = take (Suc stop - start) (drop start ?ks)"
      using z n(2) stop by (intro range_idx_iter) (simp_all add: zset_ok_def)
    have uk: "unwrap_keys (directed rv (take k (drop j ?ks))) = Ok (map (the \<circ> unwrap_key) (directed rv (take k (drop j ?ks))))" for k j
      using stored by (intro unwrap_keys_stored) (auto simp: directed_def dest: in_set_takeD in_set_dropD)
    have "range_by_rank I z lo hi rv =
        (if start \<le> stop \<and> start < ?n
         then (case unwrap_keys (directed rv (ix_range_idx I (index z) start stop)) of
                 Inl e \<Rightarrow> Err e | Inr ps \<Rightarrow> Ok (map (\<lambda>(s, x). (x, s)) ps))
         else Ok [])"
      unfolding range_by_rank_def Some hi n(3) Let_def directed_def start_def stop_def
      by (simp only: option.case)
    also have "\<dots> = Ok (directed rv (if start \<le> stop \<and> start < ?n
        then take (Suc stop - start) (drop start (z_order S (bm_get (entries z)))) else []))"
      unfolding idx uk by (simp add: z_order_index [OF z] directed_def take_map drop_map rev_map)
    also have "\<dots> = spec_select S False False rv lo hi (bm_get (entries z))"
      using slice [of "z_order S (bm_get (entries z))"]
      by (simp add: spec_select_def Some hi Let_def z_order_index [OF z] n(2))
    finally show ?thesis .
  qed
qed

lemma select_abs:
  assumes z: "zset_ok S I z" and ne: "bm_get (entries z) \<noteq> Map.empty"
    and args: "zrange_args_ok S by_score by_lex lo hi"
  shows "(if by_lex then range_by_lex z lo hi rv
      else if by_score then range_by_bounds S I z lo hi rv
      else range_by_rank I z lo hi rv) = spec_select S by_score by_lex rv lo hi (bm_get (entries z))"
proof -
  have so: "bm_sorted (entries z)" using z by (simp add: zset_ok_def)
  have lex: "range_by_lex z lo hi rv = spec_select S by_score True rv lo hi (bm_get (entries z))"
    by (auto simp: range_by_lex_def spec_select_def bm_range_def directed_def z_members_get [OF so]
        split: sum.split)
  have "range_by_bounds S I z lo hi rv = spec_select S True False rv lo hi (bm_get (entries z))"
    if "by_score" "\<not> by_lex"
  proof (cases "parse_score_bound lo"; cases "parse_score_bound hi")
    fix a b assume p: "parse_score_bound lo = Inr a" "parse_score_bound hi = Inr b"
    then have "score_range_ok S (min_bound_key a) (max_bound_key b)"
      using args that by (simp add: zrange_args_ok_def)
    from collect_by_score_index [OF z this] p show ?thesis
      by (simp add: range_by_bounds_def spec_select_def z_order_index [OF z] directed_def filter_map comp_def
          case_prod_beta)
  qed (simp_all add: range_by_bounds_def spec_select_def)
  with lex select_rank [OF z ne] show ?thesis by simp
qed

lemma select_distinct:
  assumes z: "zset_ok S I z" and sel: "spec_select S by_score by_lex rv lo hi (bm_get (entries z)) = Ok ps"
  shows "distinct (map fst ps)"
proof -
  have so: "bm_sorted (entries z)" using z by (simp add: zset_ok_def)
  show ?thesis
    using sel z_order_distinct [OF z] bm_sorted_distinct [OF so]
    by (auto simp: spec_select_def z_members_get [OF so] Let_def intro!: map_fst_distinct_sub
        split: if_splits sum.splits option.splits)
qed

lemma zset_is_empty_abs: "zset_ok S I z \<Longrightarrow> ZSet_is_empty z \<longleftrightarrow> bm_get (entries z) = Map.empty"
  using bm.entries_empty_iff [of "entries z"] by (simp add: ZSet_is_empty_def zset_ok_def)

lemma zrange_sel_abs:
  assumes st: "storage_ok S I st" and args: "zrange_args_ok S by_score by_lex lo hi"
  shows "map_sum id map_of (zrange_sel S I by_score by_lex rv lo hi limit db src st) =
      spec_zrange_sel S by_score by_lex rv lo hi limit db src (abs_storage V st) \<and>
    (\<forall>ps. zrange_sel S I by_score by_lex rv lo hi limit db src st = Ok ps \<longrightarrow> distinct (map fst ps))"
proof (cases "\<exists>z. lookup st db src = Some (ZSet z)")
  case True
  then obtain z where l: "lookup st db src = Some (ZSet z)" by blast
  have z: "zset_ok S I z" using value_ok_lookup [OF st l] by simp
  let ?sel = "spec_select S by_score by_lex rv lo hi (bm_get (entries z))"
  show ?thesis
  proof (cases "bm_get (entries z) = Map.empty")
    case False
    have sel: "zrange_sel S I by_score by_lex rv lo hi limit db src st = map_sum id (\<lambda>c. apply_limit c limit) ?sel"
      using l False zset_is_empty_abs [OF z] by (simp add: zrange_sel_def select_abs [OF z False args])
    have "distinct (map fst ps)" if "map_sum id (\<lambda>c. apply_limit c limit) ?sel = Ok ps" for ps
      using that select_distinct [OF z] by (cases ?sel) (auto intro: map_fst_distinct_sub)
    with l False show ?thesis
      unfolding sel by (simp add: spec_zrange_sel_def abs_storage_def sum.map_comp comp_def id_def)
  qed (use l zset_is_empty_abs [OF z] in
      \<open>simp add: zrange_sel_def spec_zrange_sel_def abs_storage_def fun_eq_iff\<close>)
next
  case False
  then show ?thesis
    by (auto simp: zrange_sel_def spec_zrange_sel_def abs_storage_def split: option.split StorageValue.split)
qed

lemma zrangestore_eq:
  assumes st: "storage_ok S I st" and args: "zrange_args_ok S by_score by_lex lo hi"
  shows "zrangestore S I st db dst src lo hi by_score by_lex rv limit =
    zstore_result I db dst (zrange_sel S I by_score by_lex rv lo hi limit db src) st"
proof -
  let ?st1 = "del st db dst"
  let ?f = "zrange_sel S I by_score by_lex rv lo hi limit db src"
  have ok1: "storage_ok S I ?st1" using del.ok_cmd [OF st] by simp
  have "zrangestore S I st db dst src lo hi by_score by_lex rv limit =
      (case ?f ?st1 of
         Inl e \<Rightarrow> (Err e, ?st1)
       | Inr ps \<Rightarrow> (Ok (), if ps = [] \<or> ZSet_is_empty (build_zset I ps) then ?st1 else store_zset I ?st1 db dst ps))"
    by (auto simp: zrangestore_def zrange_sel_def lookup_def Let_def build_zset_def ZSet_is_empty_def ZSet_new_def
        split: option.split StorageValue.split sum.split)
  moreover have "ZSet_is_empty (build_zset I ps) \<longleftrightarrow> ps = []" if "?f ?st1 = Ok ps" for ps
    using zrange_sel_abs [OF ok1 args] that by (intro build_empty) blast
  ultimately show ?thesis
    by (auto simp: zstore_result_def Let_def split: sum.split)
qed

lemma zrangestore_refines:
  assumes "zrange_args_ok S by_score by_lex lo hi"
  shows "keyspace_command V S I (\<lambda>st. zrangestore S I st db dst src lo hi by_score by_lex rv limit)
    (spec_zstore db dst (spec_zrange_sel S by_score by_lex rv lo hi limit db src))"
  by (rule zstore_refines [OF zrangestore_eq]) (use assms zrange_sel_abs [OF _ assms] in blast)+

end

section \<open>Properties\<close>

lemma contributions_concat:
  "contributions S ws i as x =
     concat (map (\<lambda>j. case zscores (as ! j) x of None \<Rightarrow> [] | Some s \<Rightarrow> [of_mul S s (weight ws (i + j))]) [0 ..< length as])"
proof (induction as arbitrary: i)
  case (Cons a as)
  show ?case
    unfolding contributions.simps Cons.IH length_Cons upt_conv_Cons [OF zero_less_Suc] map_Suc_upt [symmetric]
    by (simp add: o_def cong: option.case_cong)
qed simp

context index_set
begin

lemma zstore_scores:
  fixes V :: "'v vec_ops"
  assumes "keyspace_command V S I cmd (spec_zstore db dst f)" "storage_ok S I st"
    "f (ks_update db dst None (abs_storage V st)) = Ok m"
  shows "fst (cmd st) = Ok () \<and> zscore (snd (cmd st)) db dst x = Ok (m x)"
proof -
  obtain r st' where c: "cmd st = (r, st')" by fastforce
  have "r = Ok ()" "abs_storage V st' = ks_update db dst (azset m) (ks_update db dst None (abs_storage V st))"
    using keyspace_command.refines [OF assms(1,2)] assms(3) by (simp_all add: c spec_zstore_def Let_def)
  then show ?thesis
    using zscore_abs [OF keyspace_command.ok_kcmd [OF assms(1,2)], where V = V]
    by (simp add: c ks_update_apply azset_def)
qed

lemma operand_scores:
  "storage_ok S I st \<Longrightarrow> zcard st db k \<noteq> Err WrongType \<Longrightarrow>
     zset_operand (abs_storage V st db k) \<and> zscore st db k x = Ok (zscores (abs_storage V st db k) x)"
  by (auto simp: zcard_abs [where V = V] zscore_abs [where V = V] split: option.splits avalue.splits)

text \<open>The weighted scores of a member in the sorted sets at \<open>ks\<close>, read with \<open>zscore\<close>.\<close>

end

definition weighted_scores ::
  "score_ops \<Rightarrow> f64 list \<Rightarrow> ('v, 'i) StorageInner \<Rightarrow> u64 \<Rightarrow> bytes list \<Rightarrow> bytes \<Rightarrow> f64 list" where
  "weighted_scores S ws st db ks x =
     concat (map (\<lambda>i. case zscore st db (ks ! i) x of
                        Inr (Some s) \<Rightarrow> [of_mul S s (if i < length ws then ws ! i else f64_one)]
                      | _ \<Rightarrow> []) [0 ..< length ks])"

context index_set
begin

lemma contributions_read:
  fixes V :: "'v vec_ops"
  assumes "storage_ok S I st" "dst \<notin> set ks" "\<forall>k \<in> set ks. zcard st db k \<noteq> Err WrongType"
  shows "list_all zset_operand (map (ks_update db dst None (abs_storage V st) db) ks)"
    and "contributions S ws 0 (map (ks_update db dst None (abs_storage V st) db) ks) x = weighted_scores S ws st db ks x"
proof -
  have k: "ks_update db dst None (abs_storage V st) db (ks ! i) = abs_storage V st db (ks ! i)"
    "zset_operand (abs_storage V st db (ks ! i))"
    "zscore st db (ks ! i) x = Ok (zscores (abs_storage V st db (ks ! i)) x)" if "i < length ks" for i
  proof -
    have "ks ! i \<in> set ks" using that by simp
    with assms show "ks_update db dst None (abs_storage V st) db (ks ! i) = abs_storage V st db (ks ! i)"
      by (auto simp: ks_update_apply)
    show "zset_operand (abs_storage V st db (ks ! i))"
      "zscore st db (ks ! i) x = Ok (zscores (abs_storage V st db (ks ! i)) x)"
      using operand_scores [OF assms(1), of db "ks ! i" V x] assms(3) \<open>ks ! i \<in> set ks\<close> by auto
  qed
  then show "list_all zset_operand (map (ks_update db dst None (abs_storage V st) db) ks)"
    by (simp add: list_all_length)
  show "contributions S ws 0 (map (ks_update db dst None (abs_storage V st) db) ks) x = weighted_scores S ws st db ks x"
    unfolding contributions_concat weighted_scores_def length_map
    by (intro arg_cong [of _ _ concat] map_cong refl) (simp add: k weight_def split: option.split)
qed

end

lemma contributions_length: "length (contributions S ws i as x) \<le> length as"
  by (induction as arbitrary: i) (auto split: option.split intro: le_SucI)

lemma contributions_all:
  "length (contributions S ws i as x) = length as \<longleftrightarrow> (\<forall>a \<in> set as. x \<in> dom (zscores a))"
proof (induction as arbitrary: i)
  case (Cons a as)
  then show ?case
    using contributions_length [of S ws "i + 1" as x] by (cases "zscores a x") (auto simp: dom_def)
qed simp

lemma zinter_no_error: "list_all zset_operand as \<Longrightarrow> \<not> zinter_error X as"
  by (induction X as rule: zinter_error.induct) auto

lemma zinter_contributions:
  assumes "list_all zset_operand (map (K db) ks)"
  shows "spec_zinter S ws agg db ks K =
    Ok (\<lambda>x. if ks \<noteq> [] \<and> length (contributions S ws 0 (map (K db) ks) x) = length ks
        then aggregate_scores S agg (contributions S ws 0 (map (K db) ks) x) else None)"
proof (cases ks)
  case (Cons k ks')
  have "\<not> zinter_error X (map (K db) ks')" for X by (rule zinter_no_error) (use assms Cons in simp)
  then show ?thesis
    using assms contributions_all [of S ws 0 "map (K db) ks"] unfolding Cons
    by (simp add: spec_zinter_def del: contributions.simps cong: if_cong)
qed (simp add: spec_zinter_def)

text \<open>
  C28. With a destination that is not a source, and sources that are sorted sets or absent: the union gives every
  member of a source the aggregate of its scores, each multiplied by the weight of its source (1 without a
  weight), in the order of the sources; the intersection does so for the members of every source.
\<close>

theorem zstores_aggregate:
  assumes "index_set S I" "storage_ok S I st" "dst \<notin> set ks" "\<forall>k \<in> set ks. zcard st db k \<noteq> Err WrongType"
  shows "(fst (zunionstore S I st db dst ks ws agg) = Ok () \<and>
      zscore (snd (zunionstore S I st db dst ks ws agg)) db dst x =
        Ok (if weighted_scores S ws st db ks x = [] then None
            else aggregate_scores S agg (weighted_scores S ws st db ks x))) \<and>
    (fst (zinterstore S I st db dst ks ws agg) = Ok () \<and>
      zscore (snd (zinterstore S I st db dst ks ws agg)) db dst x =
        Ok (if ks \<noteq> [] \<and> length (weighted_scores S ws st db ks x) = length ks
            then aggregate_scores S agg (weighted_scores S ws st db ks x) else None))"
proof -
  note c = index_set.contributions_read [OF assms, where V = undefined]
  have u: "spec_zunion S ws agg db ks (ks_update db dst None (abs_storage undefined st)) =
      Ok (\<lambda>x. if weighted_scores S ws st db ks x = [] then None
          else aggregate_scores S agg (weighted_scores S ws st db ks x))"
    using c by (auto simp: spec_zunion_def fun_eq_iff split: list.split)
  have i: "spec_zinter S ws agg db ks (ks_update db dst None (abs_storage undefined st)) =
      Ok (\<lambda>x. if ks \<noteq> [] \<and> length (weighted_scores S ws st db ks x) = length ks
          then aggregate_scores S agg (weighted_scores S ws st db ks x) else None)"
    unfolding zinter_contributions [where db = db and K = "ks_update db dst None (abs_storage undefined st)", OF c(1)] c(2) ..
  show ?thesis
    by (intro conjI [OF index_set.zstore_scores index_set.zstore_scores])
      (rule assms index_set.zunionstore_refines index_set.zinterstore_refines u i)+
qed

theorem zstores_aggregate_witness:
  "zscore (snd (zunionstore f64_ops f64_index sample 0 [107] [[122]] [] Max)) 0 [107] [97] =
     Ok (Some (of_mul f64_ops f64_one f64_one))"
  using zstores_aggregate [OF list_index.index_set_axioms sample_ok, of "[107]" "[[122]]" 0 "[]" Max "[97]"]
  by (simp add: weighted_scores_def sample_score sample_card)


text \<open>
  The order in which the scores are put into the new sorted set, which the code leaves to a hash map, does not
  show: entries and index are the same, and consistent.
\<close>

lemma build_order_free:
  assumes "index_set S I" "distinct (map fst ps)" "distinct (map fst qs)" "set ps = set qs"
  shows "entries (build_zset I ps) = entries (build_zset I qs) \<and>
    ix_iter I (index (build_zset I ps)) = ix_iter I (index (build_zset I qs)) \<and> zset_ok S I (build_zset I ps)"
  using index_set.build_order [OF assms] index_set.build_ok(1) [OF assms(1,2)] by blast

lemma build_order_free_example:
  "entries (build_zset f64_index [([97], f64_one), ([98], f64_zero)]) =
   entries (build_zset f64_index [([98], f64_zero), ([97], f64_one)])"
  using build_order_free [OF list_index.index_set_axioms, of "[([97], f64_one), ([98], f64_zero)]"
      "[([98], f64_zero), ([97], f64_one)]"] by (simp add: insert_commute)

end
