(* ===== verification/Commands.thy ===== *)
theory Commands
  imports Hashes Sets ZSet_Stores
begin

text \<open>
  The write commands with their arguments decoded, what each does to the storage, and the specification of
  each on the keyspace. The decoding of the Erlang terms they arrive as is in theory \<open>Handlers\<close>.
\<close>

section \<open>Commands\<close>

datatype (plugins only: code size) write_command =
    C_set bytes bytes                     \<comment> \<open>also \<open>setnx\<close> and \<open>getset\<close>\<close>
  | C_del "bytes list"                    \<comment> \<open>and \<open>getdel\<close> with one key\<close>
  | C_mset "(bytes \<times> bytes) list"         \<comment> \<open>also \<open>msetex\<close> and \<open>msetnx\<close>\<close>
  | C_expiry                              \<comment> \<open>\<open>pexpireat\<close> and \<open>persist\<close>, which do nothing here\<close>
  | C_copy bytes bytes bool
  | C_rename bytes bytes
  | C_renamenx bytes bytes
  | C_move_key bytes u64
  | C_append bytes bytes
  | C_setrange bytes usize bytes
  | C_incr bytes
  | C_incrby bytes i64
  | C_decr bytes
  | C_decrby bytes i64
  | C_sadd bytes "bytes list"
  | C_srem bytes "bytes list"
  | C_smove bytes bytes bytes
  | C_sunionstore bytes "bytes list"
  | C_sinterstore bytes "bytes list"
  | C_sdiffstore bytes "bytes list"
  | C_lpush bytes "bytes list"
  | C_rpush bytes "bytes list"
  | C_lpop bytes
  | C_rpop bytes
  | C_lset bytes i64 bytes
  | C_rpoplpush bytes bytes
  | C_lpop_count bytes usize
  | C_rpop_count bytes usize
  | C_lmove bytes bytes bool bool
  | C_lpushx bytes "bytes list"
  | C_rpushx bytes "bytes list"
  | C_lrem bytes i64 bytes
  | C_ltrim bytes i64 i64
  | C_linsert bytes bool bytes bytes
  | C_hset bytes bytes bytes
  | C_hmset bytes "(bytes \<times> bytes) list"
  | C_hdel bytes "bytes list"             \<comment> \<open>also \<open>hgetdel\<close>\<close>
  | C_hsetnx bytes bytes bytes
  | C_hincrby bytes bytes i64
  | C_hincrbyfloat bytes bytes f64
  | C_hsetex bytes "HSetEXMode option" "(bytes \<times> bytes) list"
  | C_zadd bytes "(f64 \<times> bytes) list" "ZAddOption list"
  | C_zrem bytes "bytes list"
  | C_zpopmax bytes usize
  | C_zpopmin bytes usize
  | C_zremrangebyrank bytes i64 i64
  | C_zremrangebyscore bytes "f64 bound" "f64 bound"
  | C_zremrangebylex bytes "bytes bound" "bytes bound"
  | C_zunionstore bytes "bytes list" "f64 list" Aggregate
  | C_zinterstore bytes "bytes list" "f64 list" Aggregate
  | C_zdiffstore bytes "bytes list"
  | C_zrangestore bytes bytes bytes bytes bool bool bool "(i64 \<times> i64) option"
  | C_zincrby bytes f64 bytes
  | C_flushall
  | C_flushdb
  | C_swapdb u64 u64

primrec run_command ::
  "'v vec_ops \<Rightarrow> score_ops \<Rightarrow> 'i index_ops \<Rightarrow> u64 \<Rightarrow> write_command \<Rightarrow> ('v, 'i) StorageInner \<Rightarrow>
     ('v, 'i, unit) outcome" where
  "run_command V S I db (C_set key value) st = (Ok (), set_cmd st db key value)"
| "run_command V S I db (C_del ks) st = (Ok (), fold (\<lambda>k st. del st db k) ks st)"
| "run_command V S I db (C_mset pairs) st = (Ok (), mset st db pairs)"
| "run_command V S I db C_expiry st = (Ok (), st)"
| "run_command V S I db (C_copy source destination replace) st = copy_key I st db source destination replace"
| "run_command V S I db (C_rename old_key new_key) st = rename st db old_key new_key"
| "run_command V S I db (C_renamenx old_key new_key) st = renamenx st db old_key new_key"
| "run_command V S I db (C_move_key key target_db) st = move_key st db target_db key"
| "run_command V S I db (C_append key value) st = append_cmd st db key value"
| "run_command V S I db (C_setrange key offset value) st = setrange st db key offset value"
| "run_command V S I db (C_incr key) st = incr st db key"
| "run_command V S I db (C_incrby key increment) st = incrby st db key increment"
| "run_command V S I db (C_decr key) st = decr st db key"
| "run_command V S I db (C_decrby key decrement) st = decrby st db key decrement"
| "run_command V S I db (C_sadd key members) st = sadd st db key members"
| "run_command V S I db (C_srem key members) st = srem st db key members"
| "run_command V S I db (C_smove source_key dest_key member) st = smove st db source_key dest_key member"
| "run_command V S I db (C_sunionstore dest_key ks) st = sunionstore st db dest_key ks"
| "run_command V S I db (C_sinterstore dest_key ks) st = sinterstore st db dest_key ks"
| "run_command V S I db (C_sdiffstore dest_key ks) st = sdiffstore st db dest_key ks"
| "run_command V S I db (C_lpush key values) st = lpush V st db key values"
| "run_command V S I db (C_rpush key values) st = rpush V st db key values"
| "run_command V S I db (C_lpop key) st = lpop V st db key"
| "run_command V S I db (C_rpop key) st = rpop V st db key"
| "run_command V S I db (C_lset key idx value) st = lset V st db key idx value"
| "run_command V S I db (C_rpoplpush source_key dest_key) st = rpoplpush V st db source_key dest_key"
| "run_command V S I db (C_lpop_count key count) st = lpop_count V st db key count"
| "run_command V S I db (C_rpop_count key count) st = rpop_count V st db key count"
| "run_command V S I db (C_lmove source_key dest_key from_left to_left) st =
     lmove V st db source_key dest_key from_left to_left"
| "run_command V S I db (C_lpushx key values) st = lpushx V st db key values"
| "run_command V S I db (C_rpushx key values) st = rpushx V st db key values"
| "run_command V S I db (C_lrem key count value) st = lrem V st db key count value"
| "run_command V S I db (C_ltrim key start stop) st = ltrim V st db key start stop"
| "run_command V S I db (C_linsert key before pivot value) st = linsert V st db key before pivot value"
| "run_command V S I db (C_hset key field value) st = hset st db key field value"
| "run_command V S I db (C_hmset key field_list) st = hmset st db key field_list"
| "run_command V S I db (C_hdel key field_list) st = hdel st db key field_list"
| "run_command V S I db (C_hsetnx key field value) st = hsetnx st db key field value"
| "run_command V S I db (C_hincrby key field delta) st = hincrby st db key field delta"
| "run_command V S I db (C_hincrbyfloat key field delta) st = hincrbyfloat st db key field delta"
| "run_command V S I db (C_hsetex key mode field_list) st = hsetex st db key mode field_list"
| "run_command V S I db (C_zadd key members options) st = zadd S I st db key members options"
| "run_command V S I db (C_zrem key members) st = zrem I st db key members"
| "run_command V S I db (C_zpopmax key count) st = zpopmax I st db key count"
| "run_command V S I db (C_zpopmin key count) st = zpopmin I st db key count"
| "run_command V S I db (C_zremrangebyrank key start stop) st = zremrangebyrank I st db key start stop"
| "run_command V S I db (C_zremrangebyscore key lo hi) st = zremrangebyscore S I st db key lo hi"
| "run_command V S I db (C_zremrangebylex key lo hi) st = zremrangebylex I st db key lo hi"
| "run_command V S I db (C_zunionstore dest_key ks weights aggregate) st =
     zunionstore S I st db dest_key ks weights aggregate"
| "run_command V S I db (C_zinterstore dest_key ks weights aggregate) st =
     zinterstore S I st db dest_key ks weights aggregate"
| "run_command V S I db (C_zdiffstore dest_key ks) st = zdiffstore I st db dest_key ks"
| "run_command V S I db (C_zrangestore dest_key source_key min_str max_str by_score by_lex rv limit) st =
     zrangestore S I st db dest_key source_key min_str max_str by_score by_lex rv limit"
| "run_command V S I db (C_zincrby key delta member) st = zincrby S I st db key delta member"
| "run_command V S I db C_flushall st = flushall st"
| "run_command V S I db C_flushdb st = flushdb st db"
| "run_command V S I db (C_swapdb db1 db2) st = swapdb st db1 db2"

text \<open>A request: a command for a database, or the error its decoding ended with.\<close>

type_synonym request = "(u64 \<times> write_command) result"

definition run_request ::
  "'v vec_ops \<Rightarrow> score_ops \<Rightarrow> 'i index_ops \<Rightarrow> request \<Rightarrow> ('v, 'i) StorageInner \<Rightarrow> ('v, 'i, unit) outcome" where
  "run_request V S I r st = (case r of Inl e \<Rightarrow> (Err e, st) | Inr (db, c) \<Rightarrow> run_command V S I db c st)"

section \<open>Specification\<close>

primrec spec_command :: "score_ops \<Rightarrow> u64 \<Rightarrow> write_command \<Rightarrow> ks_transformer" where
  "spec_command S db (C_set key v) = at_key db key (spec_set v)"
| "spec_command S db (C_del ks) = (\<lambda>K. (Ok (), fold (\<lambda>k. ks_update db k None) ks K))"
| "spec_command S db (C_mset ps) = spec_mset db ps"
| "spec_command S db C_expiry = (\<lambda>K. (Ok (), K))"
| "spec_command S db (C_copy a b r) = spec_copy db a b r"
| "spec_command S db (C_rename a b) = spec_rename db a b"
| "spec_command S db (C_renamenx a b) = spec_renamenx db a b"
| "spec_command S db (C_move_key k d) = spec_move db d k"
| "spec_command S db (C_append k v) = at_key db k (spec_append v)"
| "spec_command S db (C_setrange k i v) = at_key db k (spec_setrange i v)"
| "spec_command S db (C_incr k) = at_key db k (spec_counter IncrOverflow 1)"
| "spec_command S db (C_incrby k n) = at_key db k (spec_counter IncrOverflow n)"
| "spec_command S db (C_decr k) = at_key db k (spec_counter DecrOverflow (- 1))"
| "spec_command S db (C_decrby k n) = at_key db k (spec_counter DecrOverflow (- n))"
| "spec_command S db (C_sadd k ms) = at_key db k (spec_sadd ms)"
| "spec_command S db (C_srem k ms) = at_key db k (spec_srem ms)"
| "spec_command S db (C_smove a b x) = spec_smove db a b x"
| "spec_command S db (C_sunionstore d ks) = spec_store db d (spec_sunion db ks)"
| "spec_command S db (C_sinterstore d ks) = spec_store db d (spec_sinter db ks)"
| "spec_command S db (C_sdiffstore d ks) = spec_store db d (spec_sdiff db ks)"
| "spec_command S db (C_lpush k vs) = at_key db k (spec_push True vs)"
| "spec_command S db (C_rpush k vs) = at_key db k (spec_push False vs)"
| "spec_command S db (C_lpop k) = at_key db k (spec_list_mut (\<lambda>xs. alist (tl xs)))"
| "spec_command S db (C_rpop k) = at_key db k (spec_list_mut (\<lambda>xs. alist (butlast xs)))"
| "spec_command S db (C_lset k i x) = at_key db k (spec_list_mut (\<lambda>xs. Some (AList (spec_lset i x xs))))"
| "spec_command S db (C_rpoplpush a b) = spec_lmove db a b False True"
| "spec_command S db (C_lpop_count k n) = at_key db k (spec_list_mut (\<lambda>xs. alist (drop n xs)))"
| "spec_command S db (C_rpop_count k n) = at_key db k (spec_list_mut (\<lambda>xs. alist (take (length xs - n) xs)))"
| "spec_command S db (C_lmove a b fl tol) = spec_lmove db a b fl tol"
| "spec_command S db (C_lpushx k vs) = at_key db k (spec_list_mut (\<lambda>xs. Some (AList (pushed True vs xs))))"
| "spec_command S db (C_rpushx k vs) = at_key db k (spec_list_mut (\<lambda>xs. Some (AList (pushed False vs xs))))"
| "spec_command S db (C_lrem k n x) = at_key db k (spec_list_mut (\<lambda>xs. alist (removed_list n x xs)))"
| "spec_command S db (C_ltrim k i j) = at_key db k
     (spec_list_mut (\<lambda>xs. if xs = [] then Some (AList []) else alist (clamped_range i j xs)))"
| "spec_command S db (C_linsert k before p x) = at_key db k
     (spec_list_mut (\<lambda>xs. Some (AList (spec_linsert before p x xs))))"
| "spec_command S db (C_hset k f v) = at_key db k (spec_hset f v)"
| "spec_command S db (C_hmset k fvs) = at_key db k (spec_hmset fvs)"
| "spec_command S db (C_hdel k fs) = at_key db k (spec_hdel fs)"
| "spec_command S db (C_hsetnx k f v) = at_key db k (spec_hsetnx f v)"
| "spec_command S db (C_hincrby k f n) = at_key db k (spec_hincrby f n)"
| "spec_command S db (C_hincrbyfloat k f d) = at_key db k (spec_hincrbyfloat f d)"
| "spec_command S db (C_hsetex k mode fvs) = at_key db k (spec_hsetex mode fvs)"
| "spec_command S db (C_zadd k ps opts) = at_key db k (spec_zadd S ps (set opts))"
| "spec_command S db (C_zrem k xs) = at_key db k (spec_zrem xs)"
| "spec_command S db (C_zpopmax k n) = at_key db k (spec_zpopmax S n)"
| "spec_command S db (C_zpopmin k n) = at_key db k (spec_zpopmin S n)"
| "spec_command S db (C_zremrangebyrank k i j) = at_key db k (spec_zremrangebyrank S i j)"
| "spec_command S db (C_zremrangebyscore k lo hi) = at_key db k (spec_zremrangebyscore S lo hi)"
| "spec_command S db (C_zremrangebylex k lo hi) = at_key db k (spec_zremrangebylex lo hi)"
| "spec_command S db (C_zunionstore d ks ws agg) = spec_zstore db d (spec_zunion S ws agg db ks)"
| "spec_command S db (C_zinterstore d ks ws agg) = spec_zstore db d (spec_zinter S ws agg db ks)"
| "spec_command S db (C_zdiffstore d ks) = spec_zstore db d (spec_zdiff db ks)"
| "spec_command S db (C_zrangestore d src lo hi by_score by_lex rv limit) =
     spec_zstore db d (spec_zrange_sel S by_score by_lex rv lo hi limit db src)"
| "spec_command S db (C_zincrby k d x) = at_key db k (spec_zincrby S d x)"
| "spec_command S db C_flushall = spec_flushall"
| "spec_command S db C_flushdb = spec_flushdb db"
| "spec_command S db (C_swapdb d e) = spec_swapdb d e"

definition spec_request :: "score_ops \<Rightarrow> request \<Rightarrow> ks_transformer" where
  "spec_request S r K = (case r of Inl e \<Rightarrow> (Err e, K) | Inr (db, c) \<Rightarrow> spec_command S db c K)"

text \<open>Requests one after the other; a panic ends the batch without results.\<close>

fun spec_batch :: "score_ops \<Rightarrow> request list \<Rightarrow> keyspace \<Rightarrow> unit result list option \<times> keyspace" where
  "spec_batch S [] K = (Some [], K)"
| "spec_batch S (q # qs) K =
     (case spec_request S q K of
        (r, K1) \<Rightarrow>
          if r = Err Panic then (None, K1)
          else (case spec_batch S qs K1 of (rs, K2) \<Rightarrow> (map_option ((#) r) rs, K2)))"

text \<open>
  Arguments within the machine types, and score ranges that are not inverted (what the index returns for
  an inverted range is not documented).
\<close>

definition command_ok :: "score_ops \<Rightarrow> write_command \<Rightarrow> bool" where
  "command_ok S c =
     (case c of
        C_setrange k offset v \<Rightarrow> offset + length v < 2 ^ 64
      | C_incrby k n \<Rightarrow> i64_range n
      | C_decrby k n \<Rightarrow> i64_range n
      | C_hincrby k f n \<Rightarrow> i64_range n
      | C_zremrangebyscore k lo hi \<Rightarrow> score_range_ok S (min_bound_key lo) (max_bound_key hi)
      | C_zrangestore d src lo hi by_score by_lex rv limit \<Rightarrow> zrange_args_ok S by_score by_lex lo hi
      | _ \<Rightarrow> True)"

fun request_ok :: "score_ops \<Rightarrow> request \<Rightarrow> bool" where
  "request_ok S (Inl e) = True"
| "request_ok S (Inr (db, c)) = command_ok S c"

section \<open>The storage implements the specification\<close>

lemma sint_i64: "i64_range n \<Longrightarrow> sint (word_of_int n :: u64) = n"
  by (simp add: i64_range_def signed_of_int signed_take_bit_int_eq_self)

lemma fold_del_refines:
  "storage_ok S I st \<Longrightarrow> storage_ok S I (fold (\<lambda>k st. del st db k) ks st) \<and>
     abs_storage V (fold (\<lambda>k st. del st db k) ks st) = fold (\<lambda>k. ks_update db k None) ks (abs_storage V st)"
proof (induction ks arbitrary: st)
  case (Cons k ks)
  have "storage_ok S I (del st db k)" "abs_storage V (del st db k) = ks_update db k None (abs_storage V st)"
    using del.ok_cmd [OF Cons.prems] del.abs_cmd [OF Cons.prems] by (simp_all add: spec_del_def)
  with Cons.IH show ?case by simp
qed simp

text \<open>A backend: the vector of the lists and the index of the sorted sets.\<close>

locale backend = im_vector V + index_set S I
  for V :: "'v vec_ops" and S :: score_ops and I :: "'i index_ops"
begin

lemmas key_refinements = lpush_refines rpush_refines lpop_refines rpop_refines lset_refines lpop_count_refines
  rpop_count_refines lpushx_refines rpushx_refines lrem_refines ltrim_refines linsert_refines zadd_refines
  zrem_refines zpopmax_refines zpopmin_refines zremrangebyrank_refines zremrangebylex_refines zincrby_refines

lemma rpoplpush_refines:
  "keyspace_command V S I (\<lambda>st. rpoplpush V st db a b) (spec_lmove db a b False True)"
  unfolding rpoplpush_lmove by (rule lmove_refines)

lemmas refinements = key_refinements [THEN key_command.keyspace_command]
  set_cmd.keyspace_command mset.keyspace_command_axioms copy_key_refines rename.keyspace_command_axioms
  renamenx.keyspace_command_axioms move_key.keyspace_command_axioms append_cmd.keyspace_command
  incr.keyspace_command decr.keyspace_command sadd.keyspace_command srem.keyspace_command
  smove.keyspace_command_axioms sunionstore.keyspace_command_axioms sinterstore.keyspace_command_axioms
  sdiffstore.keyspace_command_axioms rpoplpush_refines lmove_refines hset.keyspace_command hmset.keyspace_command
  hdel.keyspace_command hsetnx.keyspace_command hincrbyfloat.keyspace_command hsetex.keyspace_command zunionstore_refines zinterstore_refines
  zdiffstore_refines flushall.keyspace_command_axioms flushdb.keyspace_command_axioms
  swapdb.keyspace_command_axioms

lemma counter_refines:
  assumes "i64_range n"
  shows "keyspace_command V S I (\<lambda>st. incrby st db k n) (at_key db k (spec_counter IncrOverflow n))"
    and "keyspace_command V S I (\<lambda>st. decrby st db k n) (at_key db k (spec_counter DecrOverflow (- n)))"
    and "keyspace_command V S I (\<lambda>st. hincrby st db k f n) (at_key db k (spec_hincrby f n))"
  using incrby.keyspace_command [of V S I db k "word_of_int n"]
    decrby.keyspace_command [of V S I db k "word_of_int n"]
    hincrby.keyspace_command [of V S I db k f "word_of_int n"]
  by (simp_all only: sint_i64 [OF assms])

lemma same_command:
  "keyspace_command V S I g k \<Longrightarrow> (\<And>st. f st = g st) \<Longrightarrow> keyspace_command V S I f k"
  by (simp add: keyspace_command_def)

lemma command_refines:
  "command_ok S c \<Longrightarrow> keyspace_command V S I (run_command V S I db c) (spec_command S db c)"
proof (cases c)
  case (C_del ks)
  then show ?thesis
    by unfold_locales (auto simp: fold_del_refines [where V = V])
next
  case C_expiry
  then show ?thesis by unfold_locales simp_all
next
  assume ok: "command_ok S c"
  case (C_setrange k i v)
  with ok have "key_command V S I (\<lambda>st. setrange st db k i v) db k (spec_setrange i v)"
    by (intro key_command_setrange) (simp add: command_ok_def)
  then show ?thesis
    unfolding C_setrange spec_command.simps by (rule same_command [OF key_command.keyspace_command]) simp
next
  assume ok: "command_ok S c"
  case (C_incrby k n)
  with ok show ?thesis
    unfolding C_incrby spec_command.simps by (intro same_command [OF counter_refines(1)]) (simp_all add: command_ok_def)
next
  assume ok: "command_ok S c"
  case (C_decrby k n)
  with ok show ?thesis
    unfolding C_decrby spec_command.simps by (intro same_command [OF counter_refines(2)]) (simp_all add: command_ok_def)
next
  assume ok: "command_ok S c"
  case (C_hincrby k f n)
  with ok show ?thesis
    unfolding C_hincrby spec_command.simps by (intro same_command [OF counter_refines(3)]) (simp_all add: command_ok_def)
next
  assume ok: "command_ok S c"
  case (C_zremrangebyscore k lo hi)
  with ok have "key_command V S I (\<lambda>st. zremrangebyscore S I st db k lo hi) db k (spec_zremrangebyscore S lo hi)"
    by (intro zremrangebyscore_refines) (simp add: command_ok_def)
  then show ?thesis
    unfolding C_zremrangebyscore spec_command.simps by (rule same_command [OF key_command.keyspace_command]) simp
next
  assume ok: "command_ok S c"
  case (C_zrangestore d src lo hi bs bl rv limit)
  with ok show ?thesis
    unfolding C_zrangestore spec_command.simps by (intro same_command [OF zrangestore_refines]) (simp_all add: command_ok_def)
qed (hypsubst, simp only: spec_command.simps, rule refinements [THEN same_command], simp)+

lemma command_step:
  assumes "storage_ok S I st" "command_ok S c" "run_command V S I db c st = (r, st')"
  shows "storage_ok S I st'" "spec_command S db c (abs_storage V st) = (r, abs_storage V st')"
  using keyspace_command.ok_kcmd [OF command_refines [OF assms(2)] assms(1), of db]
    keyspace_command.refines [OF command_refines [OF assms(2)] assms(1), of db] assms(3)
  by simp_all

lemma request_step:
  assumes "storage_ok S I st" "request_ok S q" "run_request V S I q st = (r, st')"
  shows "storage_ok S I st'" "spec_request S q (abs_storage V st) = (r, abs_storage V st')"
proof -
  have "storage_ok S I st' \<and> spec_request S q (abs_storage V st) = (r, abs_storage V st')"
  proof (cases q)
    case (Inr dc)
    obtain db c where dc: "dc = (db, c)" by fastforce
    show ?thesis
      using assms command_step [OF assms(1), of c db r st']
      by (simp add: Inr dc run_request_def spec_request_def)
  qed (use assms in \<open>auto simp: run_request_def spec_request_def\<close>)
  then show "storage_ok S I st'" "spec_request S q (abs_storage V st) = (r, abs_storage V st')" by blast+
qed

text \<open>Any sequence of steps that each do a request implements the requests in turn.\<close>

lemma requests_refine:
  assumes step: "\<And>t st. exec t st = run_request V S I (req t) st"
    and nil: "\<And>st. batch [] st = (Some [], st)"
    and cons: "\<And>t ts st. batch (t # ts) st =
      (case exec t st of (r, st1) \<Rightarrow> if r = Err Panic then (None, st1)
       else (case batch ts st1 of (rs, st2) \<Rightarrow> (map_option ((#) r) rs, st2)))"
  shows "storage_ok S I st \<Longrightarrow> list_all (request_ok S) (map req ts) \<Longrightarrow>
     storage_ok S I (snd (batch ts st)) \<and>
     map_prod id (abs_storage V) (batch ts st) = spec_batch S (map req ts) (abs_storage V st)"
proof (induction ts arbitrary: st)
  case (Cons t ts)
  obtain r st1 where d: "run_request V S I (req t) st = (r, st1)" by fastforce
  note one = request_step [OF Cons.prems(1) _ d]
  have ok: "request_ok S (req t)" using Cons.prems by simp
  obtain rs st2 where e: "batch ts st1 = (rs, st2)" by fastforce
  show ?case
  proof (cases "r = Err Panic")
    case False
    have "storage_ok S I st2 \<and> spec_batch S (map req ts) (abs_storage V st1) = (rs, abs_storage V st2)"
      using Cons.IH [OF one(1) [OF ok]] Cons.prems(2) e by auto
    with False show ?thesis by (simp add: cons step d e one(2) [OF ok])
  qed (use one [OF ok] in \<open>simp add: cons step d\<close>)
qed (simp add: nil)

end

interpretation list_backend: backend list_vec f64_ops "list_index f64_ops"
  by unfold_locales

section \<open>What a command may change\<close>

text \<open>The keys a command may write.\<close>

primrec writes :: "u64 \<Rightarrow> write_command \<Rightarrow> (u64 \<times> bytes) set" where
  "writes db (C_set key v) = {(db, key)}"
| "writes db (C_del ks) = {db} \<times> set ks"
| "writes db (C_mset ps) = {db} \<times> fst ` set ps"
| "writes db C_expiry = {}"
| "writes db (C_copy a b r) = {(db, b)}"
| "writes db (C_rename a b) = {(db, a), (db, b)}"
| "writes db (C_renamenx a b) = {(db, a), (db, b)}"
| "writes db (C_move_key k d) = {(db, k), (d, k)}"
| "writes db (C_append k v) = {(db, k)}"
| "writes db (C_setrange k i v) = {(db, k)}"
| "writes db (C_incr k) = {(db, k)}"
| "writes db (C_incrby k n) = {(db, k)}"
| "writes db (C_decr k) = {(db, k)}"
| "writes db (C_decrby k n) = {(db, k)}"
| "writes db (C_sadd k ms) = {(db, k)}"
| "writes db (C_srem k ms) = {(db, k)}"
| "writes db (C_smove a b x) = {(db, a), (db, b)}"
| "writes db (C_sunionstore d ks) = {(db, d)}"
| "writes db (C_sinterstore d ks) = {(db, d)}"
| "writes db (C_sdiffstore d ks) = {(db, d)}"
| "writes db (C_lpush k vs) = {(db, k)}"
| "writes db (C_rpush k vs) = {(db, k)}"
| "writes db (C_lpop k) = {(db, k)}"
| "writes db (C_rpop k) = {(db, k)}"
| "writes db (C_lset k i x) = {(db, k)}"
| "writes db (C_rpoplpush a b) = {(db, a), (db, b)}"
| "writes db (C_lpop_count k n) = {(db, k)}"
| "writes db (C_rpop_count k n) = {(db, k)}"
| "writes db (C_lmove a b fl tol) = {(db, a), (db, b)}"
| "writes db (C_lpushx k vs) = {(db, k)}"
| "writes db (C_rpushx k vs) = {(db, k)}"
| "writes db (C_lrem k n x) = {(db, k)}"
| "writes db (C_ltrim k i j) = {(db, k)}"
| "writes db (C_linsert k before p x) = {(db, k)}"
| "writes db (C_hset k f v) = {(db, k)}"
| "writes db (C_hmset k fvs) = {(db, k)}"
| "writes db (C_hdel k fs) = {(db, k)}"
| "writes db (C_hsetnx k f v) = {(db, k)}"
| "writes db (C_hincrby k f n) = {(db, k)}"
| "writes db (C_hincrbyfloat k f d) = {(db, k)}"
| "writes db (C_hsetex k mode fvs) = {(db, k)}"
| "writes db (C_zadd k ps opts) = {(db, k)}"
| "writes db (C_zrem k xs) = {(db, k)}"
| "writes db (C_zpopmax k n) = {(db, k)}"
| "writes db (C_zpopmin k n) = {(db, k)}"
| "writes db (C_zremrangebyrank k i j) = {(db, k)}"
| "writes db (C_zremrangebyscore k lo hi) = {(db, k)}"
| "writes db (C_zremrangebylex k lo hi) = {(db, k)}"
| "writes db (C_zunionstore d ks ws agg) = {(db, d)}"
| "writes db (C_zinterstore d ks ws agg) = {(db, d)}"
| "writes db (C_zdiffstore d ks) = {(db, d)}"
| "writes db (C_zrangestore d src lo hi by_score by_lex rv limit) = {(db, d)}"
| "writes db (C_zincrby k d x) = {(db, k)}"
| "writes db C_flushall = UNIV"
| "writes db C_flushdb = {db} \<times> UNIV"
| "writes db (C_swapdb d e) = {d, e} \<times> UNIV"

lemma fold_update_other: "k' \<notin> set ks \<or> db' \<noteq> db \<Longrightarrow> fold (\<lambda>k. ks_update db k v) ks K db' k' = K db' k'"
  by (induction ks arbitrary: K) (auto simp: ks_update_apply)

lemma spec_mset_other: "k \<notin> fst ` set ps \<or> db' \<noteq> db \<Longrightarrow> snd (spec_mset db ps K) db' k = K db' k"
proof -
  have "map_of (rev ps) k = None" if "k \<notin> fst ` set ps"
    using that by (simp add: map_of_eq_None_iff)
  then show "k \<notin> fst ` set ps \<or> db' \<noteq> db \<Longrightarrow> ?thesis"
    by (auto simp: spec_mset_apply)
qed

lemma spec_smove_other: "k \<noteq> a \<and> k \<noteq> b \<or> db' \<noteq> db \<Longrightarrow> snd (spec_smove db a b x K) db' k = K db' k"
  by (auto simp: spec_smove_def Let_def ks_update_apply split: option.split avalue.split)

lemma spec_lmove_other: "k \<noteq> a \<and> k \<noteq> b \<or> db' \<noteq> db \<Longrightarrow> snd (spec_lmove db a b fl tol K) db' k = K db' k"
  by (auto simp: spec_lmove_def at_key_def Let_def ks_update_apply split: option.split avalue.split)

lemma spec_store_other: "k \<noteq> d \<or> db' \<noteq> db \<Longrightarrow> snd (spec_store db d f K) db' k = K db' k"
  by (auto simp: spec_store_def Let_def ks_update_apply split: sum.split)

lemma spec_zstore_other: "k \<noteq> d \<or> db' \<noteq> db \<Longrightarrow> snd (spec_zstore db d f K) db' k = K db' k"
  by (auto simp: spec_zstore_def Let_def ks_update_apply split: sum.split)

lemmas spec_others = fold_update_other spec_mset_other spec_smove_other spec_lmove_other spec_store_other
  spec_zstore_other

lemma spec_command_frame:
  "(db', k) \<notin> writes db c \<Longrightarrow> snd (spec_command S db c K) db' k = K db' k"
  by (cases c)
    (auto simp: spec_others at_key_def ks_update_apply spec_copy_def spec_rename_def spec_renamenx_def
      spec_move_def spec_flushdb_def spec_swapdb_def)

text \<open>
  The commands that change the keyspace in two steps, the second of which can fail: the moves and the stores.
\<close>

definition two_steps :: "write_command \<Rightarrow> bool" where
  "two_steps c =
     (case c of
        C_smove _ _ _ \<Rightarrow> True | C_rpoplpush _ _ \<Rightarrow> True | C_lmove _ _ _ _ \<Rightarrow> True
      | C_sunionstore _ _ \<Rightarrow> True | C_sinterstore _ _ \<Rightarrow> True | C_sdiffstore _ _ \<Rightarrow> True
      | C_zunionstore _ _ _ _ \<Rightarrow> True | C_zinterstore _ _ _ _ \<Rightarrow> True | C_zdiffstore _ _ \<Rightarrow> True
      | C_zrangestore _ _ _ _ _ _ _ _ \<Rightarrow> True | _ \<Rightarrow> False)"

text \<open>A transformer that leaves the value alone when it fails.\<close>

definition keeps_on_error :: "transformer \<Rightarrow> bool" where
  "keeps_on_error f \<longleftrightarrow> (\<forall>a e. fst (f a) = Err e \<longrightarrow> snd (f a) = a)"

lemma keeps_at_key: "keeps_on_error f \<Longrightarrow> fst (at_key db k f K) = Err e \<Longrightarrow> snd (at_key db k f K) = K"
  by (auto simp: keeps_on_error_def at_key_def ks_update_def)

lemma keeps_cases:
  assumes "\<And>e. fst (f None) = Err e \<Longrightarrow> snd (f None) = None"
    and "\<And>e b. fst (f (Some (AString b))) = Err e \<Longrightarrow> snd (f (Some (AString b))) = Some (AString b)"
    and "\<And>e x. fst (f (Some (ASet x))) = Err e \<Longrightarrow> snd (f (Some (ASet x))) = Some (ASet x)"
    and "\<And>e l. fst (f (Some (AList l))) = Err e \<Longrightarrow> snd (f (Some (AList l))) = Some (AList l)"
    and "\<And>e h. fst (f (Some (AHash h))) = Err e \<Longrightarrow> snd (f (Some (AHash h))) = Some (AHash h)"
    and "\<And>e z. fst (f (Some (AZSet z))) = Err e \<Longrightarrow> snd (f (Some (AZSet z))) = Some (AZSet z)"
  shows "keeps_on_error f"
  unfolding keeps_on_error_def by (metis assms avalue.exhaust option.exhaust)

lemma keeps_strings:
  "keeps_on_error (spec_set v)" "keeps_on_error (spec_append v)" "keeps_on_error (spec_setrange i v)"
  "keeps_on_error (spec_counter er n)"
  by (rule keeps_cases; auto simp: spec_set_def split: if_splits option.splits)+

lemma keeps_sets_lists:
  "keeps_on_error (spec_sadd ms)" "keeps_on_error (spec_srem ms)"
  "keeps_on_error (spec_list_mut f)" "keeps_on_error (spec_push b vs)"
  by (rule keeps_cases; auto)+

lemma keeps_hash:
  assumes "\<And>h e. fst (f h) = Err e \<Longrightarrow> h \<noteq> Map.empty \<and> snd (f h) = h"
  shows "keeps_on_error (spec_hash f)"
  by (rule keeps_cases) (use assms in \<open>fastforce simp: case_prod_beta\<close>)+

lemma keeps_hashes:
  "keeps_on_error (spec_hset fd v)" "keeps_on_error (spec_hmset fvs)" "keeps_on_error (spec_hsetnx fd v)"
  "keeps_on_error (spec_hsetex mode fvs)" "keeps_on_error (spec_hdel fs)"
  "keeps_on_error (spec_hincrbyfloat fd d)" "i64_range n \<Longrightarrow> keeps_on_error (spec_hincrby fd n)"
proof -
  show "keeps_on_error (spec_hset fd v)" "keeps_on_error (spec_hmset fvs)" "keeps_on_error (spec_hsetnx fd v)"
    "keeps_on_error (spec_hsetex mode fvs)"
    unfolding spec_hset_def spec_hmset_def spec_hsetnx_def spec_hsetex_def by (rule keeps_hash; simp)+
  show "keeps_on_error (spec_hdel fs)" by (rule keeps_cases) auto
  show "keeps_on_error (spec_hincrbyfloat fd d)"
    unfolding spec_hincrbyfloat_def by (rule keeps_hash) (auto split: option.splits)
  show "i64_range n \<Longrightarrow> keeps_on_error (spec_hincrby fd n)"
    unfolding spec_hincrby_def by (rule keeps_hash) (auto split: option.splits if_splits)
qed

lemma keeps_zset_mut:
  "(\<And>m e. fst (f m) = Err e \<Longrightarrow> snd (f m) = Some (AZSet m)) \<Longrightarrow> keeps_on_error (spec_zset_mut f)"
  "keeps_on_error (spec_zset_new h)"
  by (rule keeps_cases; auto)+

lemma keeps_zsets:
  "keeps_on_error (spec_zrem xs)" "keeps_on_error (spec_zpopmin S n)" "keeps_on_error (spec_zpopmax S n)"
  "keeps_on_error (spec_zremrangebyrank S i j)" "keeps_on_error (spec_zremrangebyscore S lo hi)"
  "keeps_on_error (spec_zremrangebylex a b)" "keeps_on_error (spec_zincrby S d x)"
  "keeps_on_error (spec_zadd S ps opts)"
proof -
  show "keeps_on_error (spec_zrem xs)" "keeps_on_error (spec_zpopmin S n)" "keeps_on_error (spec_zpopmax S n)"
    "keeps_on_error (spec_zremrangebyrank S i j)" "keeps_on_error (spec_zremrangebyscore S lo hi)"
    "keeps_on_error (spec_zremrangebylex a b)"
    unfolding spec_zrem_def spec_zpopmin_def spec_zpopmax_def spec_zremrangebyrank_def spec_zremrangebyscore_def
      spec_zremrangebylex_def
    by (rule keeps_zset_mut; auto simp: Let_def split: if_splits)+
  show "keeps_on_error (spec_zincrby S d x)" unfolding spec_zincrby_def by (rule keeps_zset_mut)
  show "keeps_on_error (spec_zadd S ps opts)"
    using keeps_zset_mut(2) [of "fold (zadd_pair S opts) ps"]
    by (auto simp: keeps_on_error_def spec_zadd_def split: option.splits)
qed

lemmas keeps = keeps_strings keeps_sets_lists keeps_hashes keeps_zsets

lemma spec_command_errors:
  "\<not> two_steps c \<Longrightarrow> command_ok S c \<Longrightarrow> fst (spec_command S db c K) = Err e \<Longrightarrow> snd (spec_command S db c K) = K"
  by (cases c)
    (auto simp: two_steps_def command_ok_def keeps keeps_at_key spec_copy_def spec_rename_def spec_renamenx_def spec_move_def
      spec_flushdb_def spec_flushall_def spec_swapdb_def spec_mset_def split: if_splits)

end
