(* ===== verification/Handlers.thy ===== *)
theory Handlers
  imports Commands
begin

text \<open>
  write\_commands.rs and the transaction NIF of lib.rs: a write command arrives as an Erlang term, a handler per
  command decodes its arguments and calls the storage, and a batch runs under one lock. The terms and their
  decoding belong to the \<open>rustler\<close> crate: the type of terms is a type variable and the decoders are a record
  argument \<open>D\<close>, a field per Rust type the source decodes to. An argument that is not there (\<open>args[i]\<close> past the
  end) is a panic; all arguments of one pattern are taken before any of them is tested. Atoms are their names.
\<close>

section \<open>rustler\<close>

type_synonym atom = string

record 't rustler =
  get_tuple :: "'t \<Rightarrow> 't list option"
  dec_atom :: "'t \<Rightarrow> atom option"
  dec_bool :: "'t \<Rightarrow> bool option"
  dec_u64 :: "'t \<Rightarrow> u64 option"
  dec_usize :: "'t \<Rightarrow> usize option"
  dec_i64 :: "'t \<Rightarrow> i64 option"
  dec_f64 :: "'t \<Rightarrow> f64 option"
  dec_binary :: "'t \<Rightarrow> bytes option"
  dec_string :: "'t \<Rightarrow> bytes option"
  dec_terms :: "'t \<Rightarrow> 't list option"
  dec_binaries :: "'t \<Rightarrow> bytes list option"
  dec_pairs :: "'t \<Rightarrow> (bytes \<times> bytes) list option"
  dec_floats :: "'t \<Rightarrow> f64 list option"
  dec_atoms :: "'t \<Rightarrow> atom list option"
  dec_strings :: "'t \<Rightarrow> bytes list option"
  dec_term_binary :: "'t \<Rightarrow> ('t \<times> bytes) option"
  dec_atom_f64 :: "'t \<Rightarrow> (atom \<times> f64) option"
  dec_atom_binary :: "'t \<Rightarrow> (atom \<times> bytes) option"

text \<open>A decoded integer is within its Rust type.\<close>

locale rustler_codec =
  fixes D :: "'t rustler"
  assumes i64_decoded: "dec_i64 D t = Some n \<Longrightarrow> i64_range n"
    and usize_decoded: "dec_usize D t = Some k \<Longrightarrow> k < 2 ^ 64"

section \<open>Decoding\<close>

definition decode_score :: "'t rustler \<Rightarrow> 't \<Rightarrow> f64 option" where
  "decode_score D t =
     (let plain = dec_f64 D t
      in case dec_atom D t of
           Some atom \<Rightarrow>
             (if atom = ''pos_inf'' then Some (f64_of_mag False f64_inf_mag)
              else if atom = ''neg_inf'' then Some (f64_of_mag True f64_inf_mag)
              else if atom = ''nan'' then Some f64_nan
              else plain)
         | None \<Rightarrow> plain)"

definition decode_score_bound :: "'t rustler \<Rightarrow> 't \<Rightarrow> f64 bound option" where
  "decode_score_bound D t =
     (if dec_atom D t = Some ''unbounded'' then Some Unbounded
      else case dec_atom_f64 D t of
             None \<Rightarrow> None
           | Some (bound_atom, score) \<Rightarrow>
               (if bound_atom = ''included'' then Some (Included score)
                else if bound_atom = ''excluded'' then Some (Excluded score)
                else None))"

definition decode_lex_bound :: "'t rustler \<Rightarrow> 't \<Rightarrow> bytes bound option" where
  "decode_lex_bound D t =
     (if dec_atom D t = Some ''unbounded'' then Some Unbounded
      else case dec_atom_binary D t of
             None \<Rightarrow> None
           | Some (bound_atom, v) \<Rightarrow>
               (if bound_atom = ''included'' then Some (Included v)
                else if bound_atom = ''excluded'' then Some (Excluded v)
                else None))"

text \<open>The members of \<open>zadd\<close>: a list of terms, each a pair of a score and a binary; one bad pair fails the list.\<close>

definition zadd_members :: "'t rustler \<Rightarrow> 't \<Rightarrow> (f64 \<times> bytes) list option" where
  "zadd_members D t =
     (case dec_terms D t of
        None \<Rightarrow> None
      | Some terms \<Rightarrow>
          those (map (\<lambda>t. case dec_term_binary D t of
                            None \<Rightarrow> None
                          | Some (s, member) \<Rightarrow> map_option (\<lambda>score. (score, member)) (decode_score D s)) terms))"

definition zadd_option :: "atom \<Rightarrow> ZAddOption option" where
  "zadd_option atom =
     (if atom = ''nx'' then Some NX else if atom = ''xx'' then Some XX else if atom = ''gt'' then Some GT
      else if atom = ''lt'' then Some LT else if atom = ''ch'' then Some CH else if atom = ''incr'' then Some INCR
      else None)"

definition zadd_options :: "'t rustler \<Rightarrow> 't \<Rightarrow> ZAddOption list" where
  "zadd_options D t = (case dec_atoms D t of None \<Rightarrow> [] | Some atoms \<Rightarrow> List.map_filter zadd_option atoms)"

definition aggregate_of :: "atom \<Rightarrow> Aggregate option" where
  "aggregate_of atom =
     (if atom = ''sum'' then Some Sum else if atom = ''min'' then Some Min else if atom = ''max'' then Some Max
      else None)"

text \<open>
  The option loop of \<open>zrangestore\<close>. \<open>LIMIT\<close> counts only with two more words after it, and takes them only when
  both are integers; every other word is skipped.
\<close>

fun zrangestore_options ::
  "bytes list \<Rightarrow> bool \<times> bool \<times> bool \<times> (i64 \<times> i64) option \<Rightarrow> bool \<times> bool \<times> bool \<times> (i64 \<times> i64) option" where
  "zrangestore_options [] acc = acc"
| "zrangestore_options (w # ws) (by_score, by_lex, rv, limit) =
     (if w = [66, 89, 83, 67, 79, 82, 69] then zrangestore_options ws (True, by_lex, rv, limit)
      else if w = [66, 89, 76, 69, 88] then zrangestore_options ws (by_score, True, rv, limit)
      else if w = [82, 69, 86] then zrangestore_options ws (by_score, by_lex, True, limit)
      else if w = [76, 73, 77, 73, 84] \<and> 2 \<le> length ws then
        (case (parse_i64 (ws ! 0), parse_i64 (ws ! 1)) of
           (Some offset, Some count) \<Rightarrow> zrangestore_options (drop 2 ws) (by_score, by_lex, rv, Some (offset, count))
         | _ \<Rightarrow> zrangestore_options ws (by_score, by_lex, rv, limit))
      else zrangestore_options ws (by_score, by_lex, rv, limit))"

section \<open>Handlers\<close>

definition handle_set ::
  "'t rustler \<Rightarrow> ('v, 'i) StorageInner \<Rightarrow> u64 \<Rightarrow> 't list \<Rightarrow> ('v, 'i, unit) outcome" where
  "handle_set D inner db args =
     (if length args < 2 then (Err Panic, inner)
      else case (dec_binary D (args ! 0), dec_binary D (args ! 1)) of
        (Some key, Some v) \<Rightarrow>
          (Ok (), set_cmd inner db key v)
      | _ \<Rightarrow> (Err (Usage ''SET''), inner))"

definition handle_del ::
  "'t rustler \<Rightarrow> ('v, 'i) StorageInner \<Rightarrow> u64 \<Rightarrow> 't list \<Rightarrow> ('v, 'i, unit) outcome" where
  "handle_del D inner db args =
     (if length args < 1 then (Err Panic, inner)
      else case dec_binaries D (args ! 0) of
        Some ks \<Rightarrow> (Ok (), fold (\<lambda>key inner. del inner db key) ks inner)
      | None \<Rightarrow> (Err (Usage ''DEL''), inner))"

definition handle_mset ::
  "'t rustler \<Rightarrow> ('v, 'i) StorageInner \<Rightarrow> u64 \<Rightarrow> 't list \<Rightarrow> ('v, 'i, unit) outcome" where
  "handle_mset D inner db args =
     (if length args < 1 then (Err Panic, inner)
      else case dec_pairs D (args ! 0) of
        Some pairs \<Rightarrow> (Ok (), mset inner db pairs)
      | None \<Rightarrow> (Err (Usage ''MSET''), inner))"

definition handle_msetex ::
  "'t rustler \<Rightarrow> ('v, 'i) StorageInner \<Rightarrow> u64 \<Rightarrow> 't list \<Rightarrow> ('v, 'i, unit) outcome" where
  "handle_msetex D inner db args =
     handle_mset D inner db args"

definition handle_pexpireat :: "('v, 'i) StorageInner \<Rightarrow> ('v, 'i, unit) outcome" where
  "handle_pexpireat inner = (Ok (), inner)"

definition handle_persist :: "('v, 'i) StorageInner \<Rightarrow> ('v, 'i, unit) outcome" where
  "handle_persist inner = (Ok (), inner)"

definition handle_copy ::
  "'t rustler \<Rightarrow> 'i index_ops \<Rightarrow> ('v, 'i) StorageInner \<Rightarrow> u64 \<Rightarrow> 't list \<Rightarrow> ('v, 'i, unit) outcome" where
  "handle_copy D I inner db args =
     (if length args < 3 then (Err Panic, inner)
      else case (dec_binary D (args ! 0), dec_binary D (args ! 1), dec_bool D (args ! 2)) of
        (Some source, Some destination, Some replace) \<Rightarrow>
          copy_key I inner db source destination replace
      | _ \<Rightarrow> (Err (Usage ''COPY''), inner))"

definition handle_rename ::
  "'t rustler \<Rightarrow> ('v, 'i) StorageInner \<Rightarrow> u64 \<Rightarrow> 't list \<Rightarrow> ('v, 'i, unit) outcome" where
  "handle_rename D inner db args =
     (if length args < 2 then (Err Panic, inner)
      else case (dec_binary D (args ! 0), dec_binary D (args ! 1)) of
        (Some old_key, Some new_key) \<Rightarrow>
          rename inner db old_key new_key
      | _ \<Rightarrow> (Err (Usage ''RENAME''), inner))"

definition handle_renamenx ::
  "'t rustler \<Rightarrow> ('v, 'i) StorageInner \<Rightarrow> u64 \<Rightarrow> 't list \<Rightarrow> ('v, 'i, unit) outcome" where
  "handle_renamenx D inner db args =
     (if length args < 2 then (Err Panic, inner)
      else case (dec_binary D (args ! 0), dec_binary D (args ! 1)) of
        (Some old_key, Some new_key) \<Rightarrow>
          renamenx inner db old_key new_key
      | _ \<Rightarrow> (Err (Usage ''RENAMENX''), inner))"

definition handle_move_key ::
  "'t rustler \<Rightarrow> ('v, 'i) StorageInner \<Rightarrow> u64 \<Rightarrow> 't list \<Rightarrow> ('v, 'i, unit) outcome" where
  "handle_move_key D inner db args =
     (if length args < 2 then (Err Panic, inner)
      else case (dec_binary D (args ! 0), dec_u64 D (args ! 1)) of
        (Some key, Some target_db) \<Rightarrow>
          move_key inner db target_db key
      | _ \<Rightarrow> (Err (Usage ''MOVE''), inner))"

definition handle_append ::
  "'t rustler \<Rightarrow> ('v, 'i) StorageInner \<Rightarrow> u64 \<Rightarrow> 't list \<Rightarrow> ('v, 'i, unit) outcome" where
  "handle_append D inner db args =
     (if length args < 2 then (Err Panic, inner)
      else case (dec_binary D (args ! 0), dec_binary D (args ! 1)) of
        (Some key, Some v) \<Rightarrow>
          append_cmd inner db key v
      | _ \<Rightarrow> (Err (Usage ''APPEND''), inner))"

definition handle_setrange ::
  "'t rustler \<Rightarrow> ('v, 'i) StorageInner \<Rightarrow> u64 \<Rightarrow> 't list \<Rightarrow> ('v, 'i, unit) outcome" where
  "handle_setrange D inner db args =
     (if length args < 3 then (Err Panic, inner)
      else case (dec_binary D (args ! 0), dec_usize D (args ! 1), dec_binary D (args ! 2)) of
        (Some key, Some offset, Some v) \<Rightarrow>
          setrange inner db key offset v
      | _ \<Rightarrow> (Err (Usage ''SETRANGE''), inner))"

definition handle_incr ::
  "'t rustler \<Rightarrow> ('v, 'i) StorageInner \<Rightarrow> u64 \<Rightarrow> 't list \<Rightarrow> ('v, 'i, unit) outcome" where
  "handle_incr D inner db args =
     (if length args < 1 then (Err Panic, inner)
      else case dec_binary D (args ! 0) of
        Some key \<Rightarrow> incr inner db key
      | None \<Rightarrow> (Err (Usage ''INCR''), inner))"

definition handle_incrby ::
  "'t rustler \<Rightarrow> ('v, 'i) StorageInner \<Rightarrow> u64 \<Rightarrow> 't list \<Rightarrow> ('v, 'i, unit) outcome" where
  "handle_incrby D inner db args =
     (if length args < 2 then (Err Panic, inner)
      else case (dec_binary D (args ! 0), dec_i64 D (args ! 1)) of
        (Some key, Some increment) \<Rightarrow>
          incrby inner db key increment
      | _ \<Rightarrow> (Err (Usage ''INCRBY''), inner))"

definition handle_decr ::
  "'t rustler \<Rightarrow> ('v, 'i) StorageInner \<Rightarrow> u64 \<Rightarrow> 't list \<Rightarrow> ('v, 'i, unit) outcome" where
  "handle_decr D inner db args =
     (if length args < 1 then (Err Panic, inner)
      else case dec_binary D (args ! 0) of
        Some key \<Rightarrow> decr inner db key
      | None \<Rightarrow> (Err (Usage ''DECR''), inner))"

definition handle_decrby ::
  "'t rustler \<Rightarrow> ('v, 'i) StorageInner \<Rightarrow> u64 \<Rightarrow> 't list \<Rightarrow> ('v, 'i, unit) outcome" where
  "handle_decrby D inner db args =
     (if length args < 2 then (Err Panic, inner)
      else case (dec_binary D (args ! 0), dec_i64 D (args ! 1)) of
        (Some key, Some decrement) \<Rightarrow>
          decrby inner db key decrement
      | _ \<Rightarrow> (Err (Usage ''DECRBY''), inner))"

definition handle_setnx ::
  "'t rustler \<Rightarrow> ('v, 'i) StorageInner \<Rightarrow> u64 \<Rightarrow> 't list \<Rightarrow> ('v, 'i, unit) outcome" where
  "handle_setnx D inner db args =
     (if length args < 2 then (Err Panic, inner)
      else case (dec_binary D (args ! 0), dec_binary D (args ! 1)) of
        (Some key, Some v) \<Rightarrow>
          (Ok (), set_cmd inner db key v)
      | _ \<Rightarrow> (Err (Usage ''SETNX''), inner))"

definition handle_msetnx ::
  "'t rustler \<Rightarrow> ('v, 'i) StorageInner \<Rightarrow> u64 \<Rightarrow> 't list \<Rightarrow> ('v, 'i, unit) outcome" where
  "handle_msetnx D inner db args =
     (if length args < 1 then (Err Panic, inner)
      else case dec_pairs D (args ! 0) of
        Some pairs \<Rightarrow> (Ok (), mset inner db pairs)
      | None \<Rightarrow> (Err (Usage ''MSETNX''), inner))"

definition handle_getset ::
  "'t rustler \<Rightarrow> ('v, 'i) StorageInner \<Rightarrow> u64 \<Rightarrow> 't list \<Rightarrow> ('v, 'i, unit) outcome" where
  "handle_getset D inner db args =
     (if length args < 2 then (Err Panic, inner)
      else case (dec_binary D (args ! 0), dec_binary D (args ! 1)) of
        (Some key, Some v) \<Rightarrow>
          (Ok (), set_cmd inner db key v)
      | _ \<Rightarrow> (Err (Usage ''GETSET''), inner))"

definition handle_getdel ::
  "'t rustler \<Rightarrow> ('v, 'i) StorageInner \<Rightarrow> u64 \<Rightarrow> 't list \<Rightarrow> ('v, 'i, unit) outcome" where
  "handle_getdel D inner db args =
     (if length args < 1 then (Err Panic, inner)
      else case dec_binary D (args ! 0) of
        Some key \<Rightarrow> (Ok (), del inner db key)
      | None \<Rightarrow> (Err (Usage ''GETDEL''), inner))"

definition handle_sadd ::
  "'t rustler \<Rightarrow> ('v, 'i) StorageInner \<Rightarrow> u64 \<Rightarrow> 't list \<Rightarrow> ('v, 'i, unit) outcome" where
  "handle_sadd D inner db args =
     (if length args < 2 then (Err Panic, inner)
      else case (dec_binary D (args ! 0), dec_binaries D (args ! 1)) of
        (Some key, Some members) \<Rightarrow>
          sadd inner db key members
      | _ \<Rightarrow> (Err (Usage ''SADD''), inner))"

definition handle_srem ::
  "'t rustler \<Rightarrow> ('v, 'i) StorageInner \<Rightarrow> u64 \<Rightarrow> 't list \<Rightarrow> ('v, 'i, unit) outcome" where
  "handle_srem D inner db args =
     (if length args < 2 then (Err Panic, inner)
      else case (dec_binary D (args ! 0), dec_binaries D (args ! 1)) of
        (Some key, Some members) \<Rightarrow>
          srem inner db key members
      | _ \<Rightarrow> (Err (Usage ''SREM''), inner))"

definition handle_smove ::
  "'t rustler \<Rightarrow> ('v, 'i) StorageInner \<Rightarrow> u64 \<Rightarrow> 't list \<Rightarrow> ('v, 'i, unit) outcome" where
  "handle_smove D inner db args =
     (if length args < 3 then (Err Panic, inner)
      else case (dec_binary D (args ! 0), dec_binary D (args ! 1), dec_binary D (args ! 2)) of
        (Some source_key, Some dest_key, Some member) \<Rightarrow>
          smove inner db source_key dest_key member
      | _ \<Rightarrow> (Err (Usage ''SMOVE''), inner))"

definition handle_sunionstore ::
  "'t rustler \<Rightarrow> ('v, 'i) StorageInner \<Rightarrow> u64 \<Rightarrow> 't list \<Rightarrow> ('v, 'i, unit) outcome" where
  "handle_sunionstore D inner db args =
     (if length args < 2 then (Err Panic, inner)
      else case (dec_binary D (args ! 0), dec_binaries D (args ! 1)) of
        (Some dest_key, Some source_keys) \<Rightarrow>
          sunionstore inner db dest_key source_keys
      | _ \<Rightarrow> (Err (Usage ''SUNIONSTORE''), inner))"

definition handle_sinterstore ::
  "'t rustler \<Rightarrow> ('v, 'i) StorageInner \<Rightarrow> u64 \<Rightarrow> 't list \<Rightarrow> ('v, 'i, unit) outcome" where
  "handle_sinterstore D inner db args =
     (if length args < 2 then (Err Panic, inner)
      else case (dec_binary D (args ! 0), dec_binaries D (args ! 1)) of
        (Some dest_key, Some source_keys) \<Rightarrow>
          sinterstore inner db dest_key source_keys
      | _ \<Rightarrow> (Err (Usage ''SINTERSTORE''), inner))"

definition handle_sdiffstore ::
  "'t rustler \<Rightarrow> ('v, 'i) StorageInner \<Rightarrow> u64 \<Rightarrow> 't list \<Rightarrow> ('v, 'i, unit) outcome" where
  "handle_sdiffstore D inner db args =
     (if length args < 2 then (Err Panic, inner)
      else case (dec_binary D (args ! 0), dec_binaries D (args ! 1)) of
        (Some dest_key, Some source_keys) \<Rightarrow>
          sdiffstore inner db dest_key source_keys
      | _ \<Rightarrow> (Err (Usage ''SDIFFSTORE''), inner))"

definition handle_lpush ::
  "'t rustler \<Rightarrow> 'v vec_ops \<Rightarrow> ('v, 'i) StorageInner \<Rightarrow> u64 \<Rightarrow> 't list \<Rightarrow> ('v, 'i, unit) outcome" where
  "handle_lpush D V inner db args =
     (if length args < 2 then (Err Panic, inner)
      else case (dec_binary D (args ! 0), dec_binaries D (args ! 1)) of
        (Some key, Some values) \<Rightarrow>
          lpush V inner db key values
      | _ \<Rightarrow> (Err (Usage ''LPUSH''), inner))"

definition handle_rpush ::
  "'t rustler \<Rightarrow> 'v vec_ops \<Rightarrow> ('v, 'i) StorageInner \<Rightarrow> u64 \<Rightarrow> 't list \<Rightarrow> ('v, 'i, unit) outcome" where
  "handle_rpush D V inner db args =
     (if length args < 2 then (Err Panic, inner)
      else case (dec_binary D (args ! 0), dec_binaries D (args ! 1)) of
        (Some key, Some values) \<Rightarrow>
          rpush V inner db key values
      | _ \<Rightarrow> (Err (Usage ''RPUSH''), inner))"

definition handle_lpop ::
  "'t rustler \<Rightarrow> 'v vec_ops \<Rightarrow> ('v, 'i) StorageInner \<Rightarrow> u64 \<Rightarrow> 't list \<Rightarrow> ('v, 'i, unit) outcome" where
  "handle_lpop D V inner db args =
     (if length args < 1 then (Err Panic, inner)
      else case dec_binary D (args ! 0) of
        Some key \<Rightarrow> lpop V inner db key
      | None \<Rightarrow> (Err (Usage ''LPOP''), inner))"

definition handle_rpop ::
  "'t rustler \<Rightarrow> 'v vec_ops \<Rightarrow> ('v, 'i) StorageInner \<Rightarrow> u64 \<Rightarrow> 't list \<Rightarrow> ('v, 'i, unit) outcome" where
  "handle_rpop D V inner db args =
     (if length args < 1 then (Err Panic, inner)
      else case dec_binary D (args ! 0) of
        Some key \<Rightarrow> rpop V inner db key
      | None \<Rightarrow> (Err (Usage ''RPOP''), inner))"

definition handle_lset ::
  "'t rustler \<Rightarrow> 'v vec_ops \<Rightarrow> ('v, 'i) StorageInner \<Rightarrow> u64 \<Rightarrow> 't list \<Rightarrow> ('v, 'i, unit) outcome" where
  "handle_lset D V inner db args =
     (if length args < 3 then (Err Panic, inner)
      else case (dec_binary D (args ! 0), dec_i64 D (args ! 1), dec_binary D (args ! 2)) of
        (Some key, Some idx, Some v) \<Rightarrow>
          lset V inner db key idx v
      | _ \<Rightarrow> (Err (Usage ''LSET''), inner))"

definition handle_rpoplpush ::
  "'t rustler \<Rightarrow> 'v vec_ops \<Rightarrow> ('v, 'i) StorageInner \<Rightarrow> u64 \<Rightarrow> 't list \<Rightarrow> ('v, 'i, unit) outcome" where
  "handle_rpoplpush D V inner db args =
     (if length args < 2 then (Err Panic, inner)
      else case (dec_binary D (args ! 0), dec_binary D (args ! 1)) of
        (Some source_key, Some dest_key) \<Rightarrow>
          rpoplpush V inner db source_key dest_key
      | _ \<Rightarrow> (Err (Usage ''RPOPLPUSH''), inner))"

definition handle_lpop_count ::
  "'t rustler \<Rightarrow> 'v vec_ops \<Rightarrow> ('v, 'i) StorageInner \<Rightarrow> u64 \<Rightarrow> 't list \<Rightarrow> ('v, 'i, unit) outcome" where
  "handle_lpop_count D V inner db args =
     (if length args < 2 then (Err Panic, inner)
      else case (dec_binary D (args ! 0), dec_u64 D (args ! 1)) of
        (Some key, Some count) \<Rightarrow>
          lpop_count V inner db key (unat count)
      | _ \<Rightarrow> (Err (Usage ''LPOP''), inner))"

definition handle_rpop_count ::
  "'t rustler \<Rightarrow> 'v vec_ops \<Rightarrow> ('v, 'i) StorageInner \<Rightarrow> u64 \<Rightarrow> 't list \<Rightarrow> ('v, 'i, unit) outcome" where
  "handle_rpop_count D V inner db args =
     (if length args < 2 then (Err Panic, inner)
      else case (dec_binary D (args ! 0), dec_u64 D (args ! 1)) of
        (Some key, Some count) \<Rightarrow>
          rpop_count V inner db key (unat count)
      | _ \<Rightarrow> (Err (Usage ''RPOP''), inner))"

definition handle_lmove ::
  "'t rustler \<Rightarrow> 'v vec_ops \<Rightarrow> ('v, 'i) StorageInner \<Rightarrow> u64 \<Rightarrow> 't list \<Rightarrow> ('v, 'i, unit) outcome" where
  "handle_lmove D V inner db args =
     (if length args < 4 then (Err Panic, inner)
      else case (dec_binary D (args ! 0), dec_binary D (args ! 1),
            dec_atom D (args ! 2), dec_atom D (args ! 3)) of
        (Some source_key, Some dest_key, Some wherefrom, Some whereto) \<Rightarrow>
          lmove V inner db source_key dest_key (wherefrom = ''left'') (whereto = ''left'')
      | _ \<Rightarrow> (Err (Usage ''LMOVE''), inner))"

definition handle_lpushx ::
  "'t rustler \<Rightarrow> 'v vec_ops \<Rightarrow> ('v, 'i) StorageInner \<Rightarrow> u64 \<Rightarrow> 't list \<Rightarrow> ('v, 'i, unit) outcome" where
  "handle_lpushx D V inner db args =
     (if length args < 2 then (Err Panic, inner)
      else case (dec_binary D (args ! 0), dec_binaries D (args ! 1)) of
        (Some key, Some values) \<Rightarrow>
          lpushx V inner db key values
      | _ \<Rightarrow> (Err (Usage ''LPUSHX''), inner))"

definition handle_rpushx ::
  "'t rustler \<Rightarrow> 'v vec_ops \<Rightarrow> ('v, 'i) StorageInner \<Rightarrow> u64 \<Rightarrow> 't list \<Rightarrow> ('v, 'i, unit) outcome" where
  "handle_rpushx D V inner db args =
     (if length args < 2 then (Err Panic, inner)
      else case (dec_binary D (args ! 0), dec_binaries D (args ! 1)) of
        (Some key, Some values) \<Rightarrow>
          rpushx V inner db key values
      | _ \<Rightarrow> (Err (Usage ''RPUSHX''), inner))"

definition handle_lrem ::
  "'t rustler \<Rightarrow> 'v vec_ops \<Rightarrow> ('v, 'i) StorageInner \<Rightarrow> u64 \<Rightarrow> 't list \<Rightarrow> ('v, 'i, unit) outcome" where
  "handle_lrem D V inner db args =
     (if length args < 3 then (Err Panic, inner)
      else case (dec_binary D (args ! 0), dec_i64 D (args ! 1), dec_binary D (args ! 2)) of
        (Some key, Some count, Some v) \<Rightarrow>
          lrem V inner db key count v
      | _ \<Rightarrow> (Err (Usage ''LREM''), inner))"

definition handle_ltrim ::
  "'t rustler \<Rightarrow> 'v vec_ops \<Rightarrow> ('v, 'i) StorageInner \<Rightarrow> u64 \<Rightarrow> 't list \<Rightarrow> ('v, 'i, unit) outcome" where
  "handle_ltrim D V inner db args =
     (if length args < 3 then (Err Panic, inner)
      else case (dec_binary D (args ! 0), dec_i64 D (args ! 1), dec_i64 D (args ! 2)) of
        (Some key, Some start, Some stop) \<Rightarrow>
          ltrim V inner db key start stop
      | _ \<Rightarrow> (Err (Usage ''LTRIM''), inner))"

definition handle_linsert ::
  "'t rustler \<Rightarrow> 'v vec_ops \<Rightarrow> ('v, 'i) StorageInner \<Rightarrow> u64 \<Rightarrow> 't list \<Rightarrow> ('v, 'i, unit) outcome" where
  "handle_linsert D V inner db args =
     (if length args < 4 then (Err Panic, inner)
      else case (dec_binary D (args ! 0), dec_atom D (args ! 1),
            dec_binary D (args ! 2), dec_binary D (args ! 3)) of
        (Some key, Some direction, Some pivot, Some v) \<Rightarrow>
          (if direction = ''before'' then linsert V inner db key True pivot v
           else if direction = ''after'' then linsert V inner db key False pivot v
           else (Err (Usage ''LINSERT direction''), inner))
      | _ \<Rightarrow> (Err (Usage ''LINSERT''), inner))"

definition handle_hset ::
  "'t rustler \<Rightarrow> ('v, 'i) StorageInner \<Rightarrow> u64 \<Rightarrow> 't list \<Rightarrow> ('v, 'i, unit) outcome" where
  "handle_hset D inner db args =
     (if length args < 3 then (Err Panic, inner)
      else case (dec_binary D (args ! 0), dec_binary D (args ! 1), dec_binary D (args ! 2)) of
        (Some key, Some field, Some v) \<Rightarrow>
          hset inner db key field v
      | _ \<Rightarrow> (Err (Usage ''HSET''), inner))"

definition handle_hmset ::
  "'t rustler \<Rightarrow> ('v, 'i) StorageInner \<Rightarrow> u64 \<Rightarrow> 't list \<Rightarrow> ('v, 'i, unit) outcome" where
  "handle_hmset D inner db args =
     (if length args < 2 then (Err Panic, inner)
      else case (dec_binary D (args ! 0), dec_pairs D (args ! 1)) of
        (Some key, Some field_list) \<Rightarrow>
          hmset inner db key field_list
      | _ \<Rightarrow> (Err (Usage ''HMSET''), inner))"

definition handle_hdel ::
  "'t rustler \<Rightarrow> ('v, 'i) StorageInner \<Rightarrow> u64 \<Rightarrow> 't list \<Rightarrow> ('v, 'i, unit) outcome" where
  "handle_hdel D inner db args =
     (if length args < 2 then (Err Panic, inner)
      else case (dec_binary D (args ! 0), dec_binaries D (args ! 1)) of
        (Some key, Some field_list) \<Rightarrow>
          hdel inner db key field_list
      | _ \<Rightarrow> (Err (Usage ''HDEL''), inner))"

definition handle_hgetdel ::
  "'t rustler \<Rightarrow> ('v, 'i) StorageInner \<Rightarrow> u64 \<Rightarrow> 't list \<Rightarrow> ('v, 'i, unit) outcome" where
  "handle_hgetdel D inner db args =
     handle_hdel D inner db args"

definition handle_hsetnx ::
  "'t rustler \<Rightarrow> ('v, 'i) StorageInner \<Rightarrow> u64 \<Rightarrow> 't list \<Rightarrow> ('v, 'i, unit) outcome" where
  "handle_hsetnx D inner db args =
     (if length args < 3 then (Err Panic, inner)
      else case (dec_binary D (args ! 0), dec_binary D (args ! 1), dec_binary D (args ! 2)) of
        (Some key, Some field, Some v) \<Rightarrow>
          hsetnx inner db key field v
      | _ \<Rightarrow> (Err (Usage ''HSETNX''), inner))"

definition handle_hincrby ::
  "'t rustler \<Rightarrow> ('v, 'i) StorageInner \<Rightarrow> u64 \<Rightarrow> 't list \<Rightarrow> ('v, 'i, unit) outcome" where
  "handle_hincrby D inner db args =
     (if length args < 3 then (Err Panic, inner)
      else case (dec_binary D (args ! 0), dec_binary D (args ! 1), dec_i64 D (args ! 2)) of
        (Some key, Some field, Some delta) \<Rightarrow>
          hincrby inner db key field delta
      | _ \<Rightarrow> (Err (Usage ''HINCRBY''), inner))"

definition handle_hincrbyfloat ::
  "'t rustler \<Rightarrow> ('v, 'i) StorageInner \<Rightarrow> u64 \<Rightarrow> 't list \<Rightarrow> ('v, 'i, unit) outcome" where
  "handle_hincrbyfloat D inner db args =
     (if length args < 3 then (Err Panic, inner)
      else case (dec_binary D (args ! 0), dec_binary D (args ! 1), dec_f64 D (args ! 2)) of
        (Some key, Some field, Some delta) \<Rightarrow>
          hincrbyfloat inner db key field delta
      | _ \<Rightarrow> (Err (Usage ''HINCRBYFLOAT''), inner))"

definition handle_hsetex ::
  "'t rustler \<Rightarrow> ('v, 'i) StorageInner \<Rightarrow> u64 \<Rightarrow> 't list \<Rightarrow> ('v, 'i, unit) outcome" where
  "handle_hsetex D inner db args =
     (if length args < 3 then (Err Panic, inner)
      else case (dec_binary D (args ! 0), dec_pairs D (args ! 2)) of
        (Some key, Some fields_list) \<Rightarrow>
          (case dec_atom D (args ! 1) of
             None \<Rightarrow> (Err (Usage ''HSETEX mode''), inner)
           | Some mode_atom \<Rightarrow>
               hsetex inner db key
                 (if mode_atom = ''nil'' then None
                  else if mode_atom = ''nx'' then Some FNX
                  else if mode_atom = ''xx'' then Some FXX
                  else None) fields_list)
      | _ \<Rightarrow> (Err (Usage ''HSETEX''), inner))"

definition handle_zadd ::
  "'t rustler \<Rightarrow> score_ops \<Rightarrow> 'i index_ops \<Rightarrow> ('v, 'i) StorageInner \<Rightarrow> u64 \<Rightarrow> 't list \<Rightarrow> ('v, 'i, unit) outcome" where
  "handle_zadd D S I inner db args =
     (if length args < 1 then (Err Panic, inner)
      else case dec_binary D (args ! 0) of
        None \<Rightarrow> (Err (Usage ''ZADD''), inner)
      | Some key \<Rightarrow>
          (if length args < 2 then (Err Panic, inner)
           else case zadd_members D (args ! 1) of
             None \<Rightarrow> (Err (Usage ''ZADD members''), inner)
           | Some members \<Rightarrow>
               zadd S I inner db key members (if length args = 3 then zadd_options D (args ! 2) else [])))"

definition handle_zrem ::
  "'t rustler \<Rightarrow> 'i index_ops \<Rightarrow> ('v, 'i) StorageInner \<Rightarrow> u64 \<Rightarrow> 't list \<Rightarrow> ('v, 'i, unit) outcome" where
  "handle_zrem D I inner db args =
     (if length args < 2 then (Err Panic, inner)
      else case (dec_binary D (args ! 0), dec_binaries D (args ! 1)) of
        (Some key, Some members) \<Rightarrow>
          zrem I inner db key members
      | _ \<Rightarrow> (Err (Usage ''ZREM''), inner))"

definition handle_zpopmax ::
  "'t rustler \<Rightarrow> 'i index_ops \<Rightarrow> ('v, 'i) StorageInner \<Rightarrow> u64 \<Rightarrow> 't list \<Rightarrow> ('v, 'i, unit) outcome" where
  "handle_zpopmax D I inner db args =
     (if length args < 2 then (Err Panic, inner)
      else case (dec_binary D (args ! 0), dec_usize D (args ! 1)) of
        (Some key, Some count) \<Rightarrow>
          zpopmax I inner db key count
      | _ \<Rightarrow> (Err (Usage ''ZPOPMAX''), inner))"

definition handle_zpopmin ::
  "'t rustler \<Rightarrow> 'i index_ops \<Rightarrow> ('v, 'i) StorageInner \<Rightarrow> u64 \<Rightarrow> 't list \<Rightarrow> ('v, 'i, unit) outcome" where
  "handle_zpopmin D I inner db args =
     (if length args < 2 then (Err Panic, inner)
      else case (dec_binary D (args ! 0), dec_usize D (args ! 1)) of
        (Some key, Some count) \<Rightarrow>
          zpopmin I inner db key count
      | _ \<Rightarrow> (Err (Usage ''ZPOPMIN''), inner))"

definition handle_zremrangebyrank ::
  "'t rustler \<Rightarrow> 'i index_ops \<Rightarrow> ('v, 'i) StorageInner \<Rightarrow> u64 \<Rightarrow> 't list \<Rightarrow> ('v, 'i, unit) outcome" where
  "handle_zremrangebyrank D I inner db args =
     (if length args < 3 then (Err Panic, inner)
      else case (dec_binary D (args ! 0), dec_i64 D (args ! 1), dec_i64 D (args ! 2)) of
        (Some key, Some start, Some stop) \<Rightarrow>
          zremrangebyrank I inner db key start stop
      | _ \<Rightarrow> (Err (Usage ''ZREMRANGEBYRANK''), inner))"

definition handle_zremrangebyscore ::
  "'t rustler \<Rightarrow> score_ops \<Rightarrow> 'i index_ops \<Rightarrow> ('v, 'i) StorageInner \<Rightarrow> u64 \<Rightarrow> 't list \<Rightarrow> ('v, 'i, unit) outcome" where
  "handle_zremrangebyscore D S I inner db args =
     (if length args < 1 then (Err Panic, inner)
      else case dec_binary D (args ! 0) of
        None \<Rightarrow> (Err (Usage ''ZREMRANGEBYSCORE''), inner)
      | Some key \<Rightarrow>
          (if length args < 3 then (Err Panic, inner)
           else case (decode_score_bound D (args ! 1), decode_score_bound D (args ! 2)) of
             (Some min_bound, Some max_bound) \<Rightarrow> zremrangebyscore S I inner db key min_bound max_bound
           | _ \<Rightarrow> (Err (Usage ''ZREMRANGEBYSCORE bounds''), inner)))"

definition handle_zremrangebylex ::
  "'t rustler \<Rightarrow> 'i index_ops \<Rightarrow> ('v, 'i) StorageInner \<Rightarrow> u64 \<Rightarrow> 't list \<Rightarrow> ('v, 'i, unit) outcome" where
  "handle_zremrangebylex D I inner db args =
     (if length args < 1 then (Err Panic, inner)
      else case dec_binary D (args ! 0) of
        None \<Rightarrow> (Err (Usage ''ZREMRANGEBYLEX''), inner)
      | Some key \<Rightarrow>
          (if length args < 3 then (Err Panic, inner)
           else case (decode_lex_bound D (args ! 1), decode_lex_bound D (args ! 2)) of
             (Some min_bound, Some max_bound) \<Rightarrow> zremrangebylex I inner db key min_bound max_bound
           | _ \<Rightarrow> (Err (Usage ''ZREMRANGEBYLEX bounds''), inner)))"

definition handle_zunionstore ::
  "'t rustler \<Rightarrow> score_ops \<Rightarrow> 'i index_ops \<Rightarrow> ('v, 'i) StorageInner \<Rightarrow> u64 \<Rightarrow> 't list \<Rightarrow> ('v, 'i, unit) outcome" where
  "handle_zunionstore D S I inner db args =
     (if length args < 4 then (Err Panic, inner)
      else case (dec_binary D (args ! 0), dec_binaries D (args ! 1),
            dec_floats D (args ! 2), dec_atom D (args ! 3)) of
        (Some dest_key, Some source_keys, Some weights, Some aggregate_atom) \<Rightarrow>
          (case aggregate_of aggregate_atom of
             Some aggregate \<Rightarrow> zunionstore S I inner db dest_key source_keys weights aggregate
           | None \<Rightarrow> (Err (Usage ''ZUNIONSTORE aggregate''), inner))
      | _ \<Rightarrow> (Err (Usage ''ZUNIONSTORE''), inner))"

definition handle_zinterstore ::
  "'t rustler \<Rightarrow> score_ops \<Rightarrow> 'i index_ops \<Rightarrow> ('v, 'i) StorageInner \<Rightarrow> u64 \<Rightarrow> 't list \<Rightarrow> ('v, 'i, unit) outcome" where
  "handle_zinterstore D S I inner db args =
     (if length args < 4 then (Err Panic, inner)
      else case (dec_binary D (args ! 0), dec_binaries D (args ! 1),
            dec_floats D (args ! 2), dec_atom D (args ! 3)) of
        (Some dest_key, Some source_keys, Some weights, Some aggregate_atom) \<Rightarrow>
          (case aggregate_of aggregate_atom of
             Some aggregate \<Rightarrow> zinterstore S I inner db dest_key source_keys weights aggregate
           | None \<Rightarrow> (Err (Usage ''ZINTERSTORE aggregate''), inner))
      | _ \<Rightarrow> (Err (Usage ''ZINTERSTORE''), inner))"

definition handle_zdiffstore ::
  "'t rustler \<Rightarrow> 'i index_ops \<Rightarrow> ('v, 'i) StorageInner \<Rightarrow> u64 \<Rightarrow> 't list \<Rightarrow> ('v, 'i, unit) outcome" where
  "handle_zdiffstore D I inner db args =
     (if length args < 2 then (Err Panic, inner)
      else case (dec_binary D (args ! 0), dec_binaries D (args ! 1)) of
        (Some dest_key, Some source_keys) \<Rightarrow>
          zdiffstore I inner db dest_key source_keys
      | _ \<Rightarrow> (Err (Usage ''ZDIFFSTORE''), inner))"

definition handle_zrangestore ::
  "'t rustler \<Rightarrow> score_ops \<Rightarrow> 'i index_ops \<Rightarrow> ('v, 'i) StorageInner \<Rightarrow> u64 \<Rightarrow> 't list \<Rightarrow> ('v, 'i, unit) outcome" where
  "handle_zrangestore D S I inner db args =
     (if length args < 5 then (Err Panic, inner)
      else case (dec_binary D (args ! 0), dec_binary D (args ! 1), dec_string D (args ! 2),
            dec_string D (args ! 3), dec_strings D (args ! 4)) of
        (Some dest_key, Some source_key, Some min_str, Some max_str, Some options) \<Rightarrow>
          (case zrangestore_options options (False, False, False, None) of
             (by_score, by_lex, rv, limit) \<Rightarrow>
               zrangestore S I inner db dest_key source_key min_str max_str by_score by_lex rv limit)
      | _ \<Rightarrow> (Err (Usage ''ZRANGESTORE''), inner))"

definition handle_zincrby ::
  "'t rustler \<Rightarrow> score_ops \<Rightarrow> 'i index_ops \<Rightarrow> ('v, 'i) StorageInner \<Rightarrow> u64 \<Rightarrow> 't list \<Rightarrow> ('v, 'i, unit) outcome" where
  "handle_zincrby D S I inner db args =
     (if length args < 3 then (Err Panic, inner)
      else case (dec_binary D (args ! 0), dec_f64 D (args ! 1), dec_binary D (args ! 2)) of
        (Some key, Some delta, Some member) \<Rightarrow>
          zincrby S I inner db key delta member
      | _ \<Rightarrow> (Err (Usage ''ZINCRBY''), inner))"

definition handle_flushall :: "('v, 'i) StorageInner \<Rightarrow> ('v, 'i, unit) outcome" where
  "handle_flushall inner = flushall inner"

definition handle_flushdb :: "('v, 'i) StorageInner \<Rightarrow> u64 \<Rightarrow> ('v, 'i, unit) outcome" where
  "handle_flushdb inner db = flushdb inner db"

definition handle_swapdb ::
  "'t rustler \<Rightarrow> ('v, 'i) StorageInner \<Rightarrow> 't list \<Rightarrow> ('v, 'i, unit) outcome" where
  "handle_swapdb D inner args =
     (if length args < 2 then (Err Panic, inner)
      else case (dec_u64 D (args ! 0), dec_u64 D (args ! 1)) of
        (Some db1, Some db2) \<Rightarrow>
          swapdb inner db1 db2
      | _ \<Rightarrow> (Err (Usage ''SWAPDB''), inner))"

section \<open>Dispatch and batch\<close>

definition dispatch_write_command ::
  "'t rustler \<Rightarrow> 'v vec_ops \<Rightarrow> score_ops \<Rightarrow> 'i index_ops \<Rightarrow> ('v, 'i) StorageInner \<Rightarrow> u64 \<Rightarrow> atom \<Rightarrow> 't list \<Rightarrow>
     ('v, 'i, unit) outcome" where
  "dispatch_write_command D V S I inner db cmd_atom args =
     (if cmd_atom = ''set'' then handle_set D inner db args
      else if cmd_atom = ''del'' then handle_del D inner db args
      else if cmd_atom = ''mset'' then handle_mset D inner db args
      else if cmd_atom = ''msetex'' then handle_msetex D inner db args
      else if cmd_atom = ''pexpireat'' then handle_pexpireat inner
      else if cmd_atom = ''persist'' then handle_persist inner
      else if cmd_atom = ''copy'' then handle_copy D I inner db args
      else if cmd_atom = ''rename'' then handle_rename D inner db args
      else if cmd_atom = ''renamenx'' then handle_renamenx D inner db args
      else if cmd_atom = ''move_key'' then handle_move_key D inner db args
      else if cmd_atom = ''append'' then handle_append D inner db args
      else if cmd_atom = ''setrange'' then handle_setrange D inner db args
      else if cmd_atom = ''incr'' then handle_incr D inner db args
      else if cmd_atom = ''incrby'' then handle_incrby D inner db args
      else if cmd_atom = ''decr'' then handle_decr D inner db args
      else if cmd_atom = ''decrby'' then handle_decrby D inner db args
      else if cmd_atom = ''setnx'' then handle_setnx D inner db args
      else if cmd_atom = ''msetnx'' then handle_msetnx D inner db args
      else if cmd_atom = ''getset'' then handle_getset D inner db args
      else if cmd_atom = ''getdel'' then handle_getdel D inner db args
      else if cmd_atom = ''sadd'' then handle_sadd D inner db args
      else if cmd_atom = ''srem'' then handle_srem D inner db args
      else if cmd_atom = ''smove'' then handle_smove D inner db args
      else if cmd_atom = ''sunionstore'' then handle_sunionstore D inner db args
      else if cmd_atom = ''sinterstore'' then handle_sinterstore D inner db args
      else if cmd_atom = ''sdiffstore'' then handle_sdiffstore D inner db args
      else if cmd_atom = ''lpush'' then handle_lpush D V inner db args
      else if cmd_atom = ''rpush'' then handle_rpush D V inner db args
      else if cmd_atom = ''lpop'' then handle_lpop D V inner db args
      else if cmd_atom = ''rpop'' then handle_rpop D V inner db args
      else if cmd_atom = ''lset'' then handle_lset D V inner db args
      else if cmd_atom = ''rpoplpush'' then handle_rpoplpush D V inner db args
      else if cmd_atom = ''lpop_count'' then handle_lpop_count D V inner db args
      else if cmd_atom = ''rpop_count'' then handle_rpop_count D V inner db args
      else if cmd_atom = ''lmove'' then handle_lmove D V inner db args
      else if cmd_atom = ''lpushx'' then handle_lpushx D V inner db args
      else if cmd_atom = ''rpushx'' then handle_rpushx D V inner db args
      else if cmd_atom = ''lrem'' then handle_lrem D V inner db args
      else if cmd_atom = ''ltrim'' then handle_ltrim D V inner db args
      else if cmd_atom = ''linsert'' then handle_linsert D V inner db args
      else if cmd_atom = ''hset'' then handle_hset D inner db args
      else if cmd_atom = ''hmset'' then handle_hmset D inner db args
      else if cmd_atom = ''hdel'' then handle_hdel D inner db args
      else if cmd_atom = ''hgetdel'' then handle_hgetdel D inner db args
      else if cmd_atom = ''hsetnx'' then handle_hsetnx D inner db args
      else if cmd_atom = ''hincrby'' then handle_hincrby D inner db args
      else if cmd_atom = ''hincrbyfloat'' then handle_hincrbyfloat D inner db args
      else if cmd_atom = ''hsetex'' then handle_hsetex D inner db args
      else if cmd_atom = ''zadd'' then handle_zadd D S I inner db args
      else if cmd_atom = ''zrem'' then handle_zrem D I inner db args
      else if cmd_atom = ''zpopmax'' then handle_zpopmax D I inner db args
      else if cmd_atom = ''zpopmin'' then handle_zpopmin D I inner db args
      else if cmd_atom = ''zremrangebyrank'' then handle_zremrangebyrank D I inner db args
      else if cmd_atom = ''zremrangebyscore'' then handle_zremrangebyscore D S I inner db args
      else if cmd_atom = ''zremrangebylex'' then handle_zremrangebylex D I inner db args
      else if cmd_atom = ''zunionstore'' then handle_zunionstore D S I inner db args
      else if cmd_atom = ''zinterstore'' then handle_zinterstore D S I inner db args
      else if cmd_atom = ''zdiffstore'' then handle_zdiffstore D I inner db args
      else if cmd_atom = ''zrangestore'' then handle_zrangestore D S I inner db args
      else if cmd_atom = ''zincrby'' then handle_zincrby D S I inner db args
      else if cmd_atom = ''flushall'' then handle_flushall inner
      else if cmd_atom = ''flushdb'' then handle_flushdb inner db
      else if cmd_atom = ''swapdb'' then handle_swapdb D inner args
      else (Err (Usage ''unknown''), inner))"

definition execute ::
  "'t rustler \<Rightarrow> 'v vec_ops \<Rightarrow> score_ops \<Rightarrow> 'i index_ops \<Rightarrow> ('v, 'i) StorageInner \<Rightarrow> 't \<Rightarrow> ('v, 'i, unit) outcome" where
  "execute D V S I inner cmd_term =
     (case get_tuple D cmd_term of
        None \<Rightarrow> (Err (Usage ''Command must be a tuple''), inner)
      | Some terms \<Rightarrow>
          (if length terms \<noteq> 2 then (Err (Usage ''Command tuple must have exactly 2 elements''), inner)
           else case dec_u64 D (terms ! 0) of
                  None \<Rightarrow> (Err (Usage ''Database index must be an unsigned integer''), inner)
                | Some db \<Rightarrow>
                    (case get_tuple D (terms ! 1) of
                       None \<Rightarrow> (Err (Usage ''Inner command must be a tuple''), inner)
                     | Some cmd_terms \<Rightarrow>
                         (if cmd_terms = [] then (Err (Usage ''Command tuple cannot be empty''), inner)
                          else case dec_atom D (cmd_terms ! 0) of
                                 None \<Rightarrow> (Err (Usage ''Command name must be an atom''), inner)
                               | Some cmd_atom \<Rightarrow>
                                   dispatch_write_command D V S I inner db cmd_atom (tl cmd_terms)))))"

text \<open>
  A batch: every command runs and its result is collected, errors included. A panic ends the call without
  results; the storage keeps what was written and the next call recovers it from the poisoned lock.
\<close>

fun execute_write_commands ::
  "'t rustler \<Rightarrow> 'v vec_ops \<Rightarrow> score_ops \<Rightarrow> 'i index_ops \<Rightarrow> 't list \<Rightarrow> ('v, 'i) StorageInner \<Rightarrow>
     unit result list option \<times> ('v, 'i) StorageInner" where
  "execute_write_commands D V S I [] inner = (Some [], inner)"
| "execute_write_commands D V S I (cmd_term # commands) inner =
     (case execute D V S I inner cmd_term of
        (r, inner1) \<Rightarrow>
          if r = Err Panic then (None, inner1)
          else (case execute_write_commands D V S I commands inner1 of
                  (results, inner2) \<Rightarrow> (map_option ((#) r) results, inner2)))"

section \<open>What a term asks for\<close>

text \<open>
  The command a term stands for, decoded separately from the storage; the handlers are this decoding followed
  by the command.
\<close>

definition args1 :: "'t list \<Rightarrow> ('t \<Rightarrow> 'a option) \<Rightarrow> string \<Rightarrow> ('a \<Rightarrow> 'c result) \<Rightarrow> 'c result" where
  "args1 args d usage f =
     (if length args < 1 then Err Panic else case d (args ! 0) of Some a \<Rightarrow> f a | None \<Rightarrow> Err (Usage usage))"

definition args2 ::
  "'t list \<Rightarrow> ('t \<Rightarrow> 'a option) \<Rightarrow> ('t \<Rightarrow> 'b option) \<Rightarrow> string \<Rightarrow> ('a \<Rightarrow> 'b \<Rightarrow> 'c result) \<Rightarrow> 'c result" where
  "args2 args d1 d2 usage f =
     (if length args < 2 then Err Panic
      else case (d1 (args ! 0), d2 (args ! 1)) of (Some a, Some b) \<Rightarrow> f a b | _ \<Rightarrow> Err (Usage usage))"

definition args3 ::
  "'t list \<Rightarrow> ('t \<Rightarrow> 'a option) \<Rightarrow> ('t \<Rightarrow> 'b option) \<Rightarrow> ('t \<Rightarrow> 'd option) \<Rightarrow> string \<Rightarrow>
     ('a \<Rightarrow> 'b \<Rightarrow> 'd \<Rightarrow> 'c result) \<Rightarrow> 'c result" where
  "args3 args d1 d2 d3 usage f =
     (if length args < 3 then Err Panic
      else case (d1 (args ! 0), d2 (args ! 1), d3 (args ! 2)) of
             (Some a, Some b, Some c) \<Rightarrow> f a b c | _ \<Rightarrow> Err (Usage usage))"

definition args4 ::
  "'t list \<Rightarrow> ('t \<Rightarrow> 'a option) \<Rightarrow> ('t \<Rightarrow> 'b option) \<Rightarrow> ('t \<Rightarrow> 'd option) \<Rightarrow> ('t \<Rightarrow> 'e option) \<Rightarrow> string \<Rightarrow>
     ('a \<Rightarrow> 'b \<Rightarrow> 'd \<Rightarrow> 'e \<Rightarrow> 'c result) \<Rightarrow> 'c result" where
  "args4 args d1 d2 d3 d4 usage f =
     (if length args < 4 then Err Panic
      else case (d1 (args ! 0), d2 (args ! 1), d3 (args ! 2), d4 (args ! 3)) of
             (Some a, Some b, Some c, Some d) \<Rightarrow> f a b c d | _ \<Rightarrow> Err (Usage usage))"

definition args5 ::
  "'t list \<Rightarrow> ('t \<Rightarrow> 'a option) \<Rightarrow> ('t \<Rightarrow> 'b option) \<Rightarrow> ('t \<Rightarrow> 'd option) \<Rightarrow> ('t \<Rightarrow> 'e option) \<Rightarrow> ('t \<Rightarrow> 'g option) \<Rightarrow>
     string \<Rightarrow> ('a \<Rightarrow> 'b \<Rightarrow> 'd \<Rightarrow> 'e \<Rightarrow> 'g \<Rightarrow> 'c result) \<Rightarrow> 'c result" where
  "args5 args d1 d2 d3 d4 d5 usage f =
     (if length args < 5 then Err Panic
      else case (d1 (args ! 0), d2 (args ! 1), d3 (args ! 2), d4 (args ! 3), d5 (args ! 4)) of
             (Some a, Some b, Some c, Some d, Some e) \<Rightarrow> f a b c d e | _ \<Rightarrow> Err (Usage usage))"

definition hsetex_mode :: "atom \<Rightarrow> HSetEXMode option" where
  "hsetex_mode m = (if m = ''nx'' then Some FNX else if m = ''xx'' then Some FXX else None)"

definition decode_command :: "'t rustler \<Rightarrow> atom \<Rightarrow> 't list \<Rightarrow> write_command result" where
  "decode_command D cmd_atom args =
     (if cmd_atom = ''set'' then
        args2 args (dec_binary D) (dec_binary D) ''SET''
          (\<lambda>key v. Ok (C_set key v))
      else if cmd_atom = ''del'' then
        args1 args (dec_binaries D) ''DEL''
          (\<lambda>ks. Ok (C_del ks))
      else if cmd_atom = ''mset'' then
        args1 args (dec_pairs D) ''MSET''
          (\<lambda>pairs. Ok (C_mset pairs))
      else if cmd_atom = ''msetex'' then
        args1 args (dec_pairs D) ''MSET''
          (\<lambda>pairs. Ok (C_mset pairs))
      else if cmd_atom = ''pexpireat'' then
        Ok C_expiry
      else if cmd_atom = ''persist'' then
        Ok C_expiry
      else if cmd_atom = ''copy'' then
        args3 args (dec_binary D) (dec_binary D) (dec_bool D) ''COPY''
          (\<lambda>source destination replace. Ok (C_copy source destination replace))
      else if cmd_atom = ''rename'' then
        args2 args (dec_binary D) (dec_binary D) ''RENAME''
          (\<lambda>old_key new_key. Ok (C_rename old_key new_key))
      else if cmd_atom = ''renamenx'' then
        args2 args (dec_binary D) (dec_binary D) ''RENAMENX''
          (\<lambda>old_key new_key. Ok (C_renamenx old_key new_key))
      else if cmd_atom = ''move_key'' then
        args2 args (dec_binary D) (dec_u64 D) ''MOVE''
          (\<lambda>key target_db. Ok (C_move_key key target_db))
      else if cmd_atom = ''append'' then
        args2 args (dec_binary D) (dec_binary D) ''APPEND''
          (\<lambda>key v. Ok (C_append key v))
      else if cmd_atom = ''setrange'' then
        args3 args (dec_binary D) (dec_usize D) (dec_binary D) ''SETRANGE''
          (\<lambda>key offset v. Ok (C_setrange key offset v))
      else if cmd_atom = ''incr'' then
        args1 args (dec_binary D) ''INCR''
          (\<lambda>key. Ok (C_incr key))
      else if cmd_atom = ''incrby'' then
        args2 args (dec_binary D) (dec_i64 D) ''INCRBY''
          (\<lambda>key increment. Ok (C_incrby key increment))
      else if cmd_atom = ''decr'' then
        args1 args (dec_binary D) ''DECR''
          (\<lambda>key. Ok (C_decr key))
      else if cmd_atom = ''decrby'' then
        args2 args (dec_binary D) (dec_i64 D) ''DECRBY''
          (\<lambda>key decrement. Ok (C_decrby key decrement))
      else if cmd_atom = ''setnx'' then
        args2 args (dec_binary D) (dec_binary D) ''SETNX''
          (\<lambda>key v. Ok (C_set key v))
      else if cmd_atom = ''msetnx'' then
        args1 args (dec_pairs D) ''MSETNX''
          (\<lambda>pairs. Ok (C_mset pairs))
      else if cmd_atom = ''getset'' then
        args2 args (dec_binary D) (dec_binary D) ''GETSET''
          (\<lambda>key v. Ok (C_set key v))
      else if cmd_atom = ''getdel'' then
        args1 args (dec_binary D) ''GETDEL''
          (\<lambda>key. Ok (C_del [key]))
      else if cmd_atom = ''sadd'' then
        args2 args (dec_binary D) (dec_binaries D) ''SADD''
          (\<lambda>key members. Ok (C_sadd key members))
      else if cmd_atom = ''srem'' then
        args2 args (dec_binary D) (dec_binaries D) ''SREM''
          (\<lambda>key members. Ok (C_srem key members))
      else if cmd_atom = ''smove'' then
        args3 args (dec_binary D) (dec_binary D) (dec_binary D) ''SMOVE''
          (\<lambda>source_key dest_key member. Ok (C_smove source_key dest_key member))
      else if cmd_atom = ''sunionstore'' then
        args2 args (dec_binary D) (dec_binaries D) ''SUNIONSTORE''
          (\<lambda>dest_key source_keys. Ok (C_sunionstore dest_key source_keys))
      else if cmd_atom = ''sinterstore'' then
        args2 args (dec_binary D) (dec_binaries D) ''SINTERSTORE''
          (\<lambda>dest_key source_keys. Ok (C_sinterstore dest_key source_keys))
      else if cmd_atom = ''sdiffstore'' then
        args2 args (dec_binary D) (dec_binaries D) ''SDIFFSTORE''
          (\<lambda>dest_key source_keys. Ok (C_sdiffstore dest_key source_keys))
      else if cmd_atom = ''lpush'' then
        args2 args (dec_binary D) (dec_binaries D) ''LPUSH''
          (\<lambda>key values. Ok (C_lpush key values))
      else if cmd_atom = ''rpush'' then
        args2 args (dec_binary D) (dec_binaries D) ''RPUSH''
          (\<lambda>key values. Ok (C_rpush key values))
      else if cmd_atom = ''lpop'' then
        args1 args (dec_binary D) ''LPOP''
          (\<lambda>key. Ok (C_lpop key))
      else if cmd_atom = ''rpop'' then
        args1 args (dec_binary D) ''RPOP''
          (\<lambda>key. Ok (C_rpop key))
      else if cmd_atom = ''lset'' then
        args3 args (dec_binary D) (dec_i64 D) (dec_binary D) ''LSET''
          (\<lambda>key idx v. Ok (C_lset key idx v))
      else if cmd_atom = ''rpoplpush'' then
        args2 args (dec_binary D) (dec_binary D) ''RPOPLPUSH''
          (\<lambda>source_key dest_key. Ok (C_rpoplpush source_key dest_key))
      else if cmd_atom = ''lpop_count'' then
        args2 args (dec_binary D) (dec_u64 D) ''LPOP''
          (\<lambda>key count. Ok (C_lpop_count key (unat count)))
      else if cmd_atom = ''rpop_count'' then
        args2 args (dec_binary D) (dec_u64 D) ''RPOP''
          (\<lambda>key count. Ok (C_rpop_count key (unat count)))
      else if cmd_atom = ''lmove'' then
        args4 args (dec_binary D) (dec_binary D) (dec_atom D) (dec_atom D) ''LMOVE''
          (\<lambda>source_key dest_key wherefrom whereto. Ok (C_lmove source_key dest_key (wherefrom = ''left'') (whereto = ''left'')))
      else if cmd_atom = ''lpushx'' then
        args2 args (dec_binary D) (dec_binaries D) ''LPUSHX''
          (\<lambda>key values. Ok (C_lpushx key values))
      else if cmd_atom = ''rpushx'' then
        args2 args (dec_binary D) (dec_binaries D) ''RPUSHX''
          (\<lambda>key values. Ok (C_rpushx key values))
      else if cmd_atom = ''lrem'' then
        args3 args (dec_binary D) (dec_i64 D) (dec_binary D) ''LREM''
          (\<lambda>key count v. Ok (C_lrem key count v))
      else if cmd_atom = ''ltrim'' then
        args3 args (dec_binary D) (dec_i64 D) (dec_i64 D) ''LTRIM''
          (\<lambda>key start stop. Ok (C_ltrim key start stop))
      else if cmd_atom = ''linsert'' then
        args4 args (dec_binary D) (dec_atom D) (dec_binary D) (dec_binary D) ''LINSERT''
          (\<lambda>key direction pivot v. if direction = ''before'' then Ok (C_linsert key True pivot v) else if direction = ''after'' then Ok (C_linsert key False pivot v) else Err (Usage ''LINSERT direction''))
      else if cmd_atom = ''hset'' then
        args3 args (dec_binary D) (dec_binary D) (dec_binary D) ''HSET''
          (\<lambda>key field v. Ok (C_hset key field v))
      else if cmd_atom = ''hmset'' then
        args2 args (dec_binary D) (dec_pairs D) ''HMSET''
          (\<lambda>key field_list. Ok (C_hmset key field_list))
      else if cmd_atom = ''hdel'' then
        args2 args (dec_binary D) (dec_binaries D) ''HDEL''
          (\<lambda>key field_list. Ok (C_hdel key field_list))
      else if cmd_atom = ''hgetdel'' then
        args2 args (dec_binary D) (dec_binaries D) ''HDEL''
          (\<lambda>key field_list. Ok (C_hdel key field_list))
      else if cmd_atom = ''hsetnx'' then
        args3 args (dec_binary D) (dec_binary D) (dec_binary D) ''HSETNX''
          (\<lambda>key field v. Ok (C_hsetnx key field v))
      else if cmd_atom = ''hincrby'' then
        args3 args (dec_binary D) (dec_binary D) (dec_i64 D) ''HINCRBY''
          (\<lambda>key field delta. Ok (C_hincrby key field delta))
      else if cmd_atom = ''hincrbyfloat'' then
        args3 args (dec_binary D) (dec_binary D) (dec_f64 D) ''HINCRBYFLOAT''
          (\<lambda>key field delta. Ok (C_hincrbyfloat key field delta))
      else if cmd_atom = ''hsetex'' then
        args3 args (dec_binary D) Some (dec_pairs D) ''HSETEX'' (\<lambda>key t fvs.
          case dec_atom D t of None \<Rightarrow> Err (Usage ''HSETEX mode'') | Some m \<Rightarrow> Ok (C_hsetex key (hsetex_mode m) fvs))
      else if cmd_atom = ''zadd'' then
        args1 args (dec_binary D) ''ZADD'' (\<lambda>key.
          args1 (tl args) (zadd_members D) ''ZADD members'' (\<lambda>members.
            Ok (C_zadd key members (if length args = 3 then zadd_options D (args ! 2) else []))))
      else if cmd_atom = ''zrem'' then
        args2 args (dec_binary D) (dec_binaries D) ''ZREM''
          (\<lambda>key members. Ok (C_zrem key members))
      else if cmd_atom = ''zpopmax'' then
        args2 args (dec_binary D) (dec_usize D) ''ZPOPMAX''
          (\<lambda>key count. Ok (C_zpopmax key count))
      else if cmd_atom = ''zpopmin'' then
        args2 args (dec_binary D) (dec_usize D) ''ZPOPMIN''
          (\<lambda>key count. Ok (C_zpopmin key count))
      else if cmd_atom = ''zremrangebyrank'' then
        args3 args (dec_binary D) (dec_i64 D) (dec_i64 D) ''ZREMRANGEBYRANK''
          (\<lambda>key start stop. Ok (C_zremrangebyrank key start stop))
      else if cmd_atom = ''zremrangebyscore'' then
        args1 args (dec_binary D) ''ZREMRANGEBYSCORE'' (\<lambda>key.
          args2 (tl args) (decode_score_bound D) (decode_score_bound D) ''ZREMRANGEBYSCORE bounds'' (\<lambda>lo hi. Ok (C_zremrangebyscore key lo hi)))
      else if cmd_atom = ''zremrangebylex'' then
        args1 args (dec_binary D) ''ZREMRANGEBYLEX'' (\<lambda>key.
          args2 (tl args) (decode_lex_bound D) (decode_lex_bound D) ''ZREMRANGEBYLEX bounds'' (\<lambda>lo hi. Ok (C_zremrangebylex key lo hi)))
      else if cmd_atom = ''zunionstore'' then
        args4 args (dec_binary D) (dec_binaries D) (dec_floats D) (dec_atom D) ''ZUNIONSTORE''
          (\<lambda>dest_key source_keys weights aggregate_atom. case aggregate_of aggregate_atom of Some aggregate \<Rightarrow> Ok (C_zunionstore dest_key source_keys weights aggregate) | None \<Rightarrow> Err (Usage ''ZUNIONSTORE aggregate''))
      else if cmd_atom = ''zinterstore'' then
        args4 args (dec_binary D) (dec_binaries D) (dec_floats D) (dec_atom D) ''ZINTERSTORE''
          (\<lambda>dest_key source_keys weights aggregate_atom. case aggregate_of aggregate_atom of Some aggregate \<Rightarrow> Ok (C_zinterstore dest_key source_keys weights aggregate) | None \<Rightarrow> Err (Usage ''ZINTERSTORE aggregate''))
      else if cmd_atom = ''zdiffstore'' then
        args2 args (dec_binary D) (dec_binaries D) ''ZDIFFSTORE''
          (\<lambda>dest_key source_keys. Ok (C_zdiffstore dest_key source_keys))
      else if cmd_atom = ''zrangestore'' then
        args5 args (dec_binary D) (dec_binary D) (dec_string D) (dec_string D) (dec_strings D) ''ZRANGESTORE''
          (\<lambda>dest_key source_key min_str max_str options. case zrangestore_options options (False, False, False, None) of (by_score, by_lex, rv, limit) \<Rightarrow> Ok (C_zrangestore dest_key source_key min_str max_str by_score by_lex rv limit))
      else if cmd_atom = ''zincrby'' then
        args3 args (dec_binary D) (dec_f64 D) (dec_binary D) ''ZINCRBY''
          (\<lambda>key delta member. Ok (C_zincrby key delta member))
      else if cmd_atom = ''flushall'' then
        Ok C_flushall
      else if cmd_atom = ''flushdb'' then
        Ok C_flushdb
      else if cmd_atom = ''swapdb'' then
        args2 args (dec_u64 D) (dec_u64 D) ''SWAPDB''
          (\<lambda>db1 db2. Ok (C_swapdb db1 db2))
      else Err (Usage ''unknown''))"

definition decode_term :: "'t rustler \<Rightarrow> 't \<Rightarrow> request" where
  "decode_term D t =
     (case get_tuple D t of
        None \<Rightarrow> Err (Usage ''Command must be a tuple'')
      | Some ts \<Rightarrow>
          (if length ts \<noteq> 2 then Err (Usage ''Command tuple must have exactly 2 elements'')
           else case dec_u64 D (ts ! 0) of
                  None \<Rightarrow> Err (Usage ''Database index must be an unsigned integer'')
                | Some db \<Rightarrow>
                    (case get_tuple D (ts ! 1) of
                       None \<Rightarrow> Err (Usage ''Inner command must be a tuple'')
                     | Some cs \<Rightarrow>
                         (if cs = [] then Err (Usage ''Command tuple cannot be empty'')
                          else case dec_atom D (cs ! 0) of
                                 None \<Rightarrow> Err (Usage ''Command name must be an atom'')
                               | Some a \<Rightarrow> map_sum id (Pair db) (decode_command D a (tl cs))))))"

section \<open>Handling a term is decoding it and running the command\<close>

definition answer ::
  "'v vec_ops \<Rightarrow> score_ops \<Rightarrow> 'i index_ops \<Rightarrow> ('v, 'i) StorageInner \<Rightarrow> u64 \<Rightarrow> write_command result \<Rightarrow> ('v, 'i, unit) outcome" where
  "answer V S I st db r = (case r of Inl e \<Rightarrow> (Err e, st) | Inr c \<Rightarrow> run_command V S I db c st)"

lemma answer_simps [simp]:
  "answer V S I st db (Inl e) = (Err e, st)" "answer V S I st db (Inr c) = run_command V S I db c st"
  by (simp_all add: answer_def)

lemma answer_args1:
  "answer V S I st db (args1 args d u f) =
     (if length args < 1 then (Err Panic, st)
      else case d (args ! 0) of Some a \<Rightarrow> answer V S I st db (f a) | None \<Rightarrow> (Err (Usage u), st))"
  by (simp add: args1_def split: option.split)

lemma answer_args2:
  "answer V S I st db (args2 args d1 d2 u f) =
     (if length args < 2 then (Err Panic, st)
      else case (d1 (args ! 0), d2 (args ! 1)) of
             (Some a, Some b) \<Rightarrow> answer V S I st db (f a b) | _ \<Rightarrow> (Err (Usage u), st))"
  by (simp add: args2_def split: option.split)

lemma answer_args3:
  "answer V S I st db (args3 args d1 d2 d3 u f) =
     (if length args < 3 then (Err Panic, st)
      else case (d1 (args ! 0), d2 (args ! 1), d3 (args ! 2)) of
             (Some a, Some b, Some c) \<Rightarrow> answer V S I st db (f a b c) | _ \<Rightarrow> (Err (Usage u), st))"
  by (simp add: args3_def split: option.split)

lemma answer_args4:
  "answer V S I st db (args4 args d1 d2 d3 d4 u f) =
     (if length args < 4 then (Err Panic, st)
      else case (d1 (args ! 0), d2 (args ! 1), d3 (args ! 2), d4 (args ! 3)) of
             (Some a, Some b, Some c, Some d) \<Rightarrow> answer V S I st db (f a b c d) | _ \<Rightarrow> (Err (Usage u), st))"
  by (simp add: args4_def split: option.split)

lemma answer_args5:
  "answer V S I st db (args5 args d1 d2 d3 d4 d5 u f) =
     (if length args < 5 then (Err Panic, st)
      else case (d1 (args ! 0), d2 (args ! 1), d3 (args ! 2), d4 (args ! 3), d5 (args ! 4)) of
             (Some a, Some b, Some c, Some d, Some e) \<Rightarrow> answer V S I st db (f a b c d e) | _ \<Rightarrow> (Err (Usage u), st))"
  by (simp add: args5_def split: option.split)

lemmas answers = answer_args1 answer_args2 answer_args3 answer_args4 answer_args5

lemma answer_if:
  "answer V S I st db (if b then x else y) = (if b then answer V S I st db x else answer V S I st db y)"
  by simp

lemma same_branch: "x = x' \<Longrightarrow> y = y' \<Longrightarrow> (if b then x else y) = (if b then x' else y')"
  by simp

lemmas handlers_def =
  handle_set_def handle_del_def handle_mset_def handle_msetex_def handle_pexpireat_def 
  handle_persist_def handle_copy_def handle_rename_def handle_renamenx_def handle_move_key_def 
  handle_append_def handle_setrange_def handle_incr_def handle_incrby_def handle_decr_def 
  handle_decrby_def handle_setnx_def handle_msetnx_def handle_getset_def handle_getdel_def 
  handle_sadd_def handle_srem_def handle_smove_def handle_sunionstore_def handle_sinterstore_def 
  handle_sdiffstore_def handle_lpush_def handle_rpush_def handle_lpop_def handle_rpop_def 
  handle_lset_def handle_rpoplpush_def handle_lpop_count_def handle_rpop_count_def handle_lmove_def 
  handle_lpushx_def handle_rpushx_def handle_lrem_def handle_ltrim_def handle_linsert_def 
  handle_hset_def handle_hmset_def handle_hdel_def handle_hgetdel_def handle_hsetnx_def 
  handle_hincrby_def handle_hincrbyfloat_def handle_hsetex_def handle_zadd_def handle_zrem_def 
  handle_zpopmax_def handle_zpopmin_def handle_zremrangebyrank_def handle_zremrangebyscore_def 
  handle_zremrangebylex_def handle_zunionstore_def handle_zinterstore_def handle_zdiffstore_def 
  handle_zrangestore_def handle_zincrby_def handle_flushall_def handle_flushdb_def handle_swapdb_def 

lemma nth_tl_0: "\<not> length xs \<le> Suc 0 \<Longrightarrow> tl xs ! 0 = xs ! Suc 0" "\<not> length xs \<le> 2 \<Longrightarrow> tl xs ! Suc 0 = xs ! 2"
  by (simp_all add: nth_tl numeral_2_eq_2)

lemma dispatch_decodes:
  "dispatch_write_command D V S I st db a args = answer V S I st db (decode_command D a args)"
  unfolding dispatch_write_command_def decode_command_def answer_if
  by (intro same_branch)
    (auto simp: handlers_def answers hsetex_mode_def nth_tl_0 not_less_eq_eq split: option.split prod.split)

lemma execute_decodes: "execute D V S I st t = run_request V S I (decode_term D t) st"
  by (auto simp: execute_def decode_term_def dispatch_decodes run_request_def answer_def
      split: option.split sum.split)

section \<open>The storage behind the NIF\<close>

text \<open>
  What a decoded command may still violate: the length of a string in \<open>setrange\<close>, and the order of the two ends of a
  score range.
\<close>

definition ranges_ok :: "score_ops \<Rightarrow> write_command \<Rightarrow> bool" where
  "ranges_ok S c =
     (case c of
        C_setrange k offset v \<Rightarrow> offset + length v < 2 ^ 64
      | C_zremrangebyscore k lo hi \<Rightarrow> score_range_ok S (min_bound_key lo) (max_bound_key hi)
      | C_zrangestore d src lo hi by_score by_lex rv limit \<Rightarrow> zrange_args_ok S by_score by_lex lo hi
      | _ \<Rightarrow> True)"

fun request_ranges_ok :: "score_ops \<Rightarrow> request \<Rightarrow> bool" where
  "request_ranges_ok S (Inl e) = True"
| "request_ranges_ok S (Inr (db, c)) = ranges_ok S c"

lemma args_Ok:
  "args1 args d1 u f = Ok c \<Longrightarrow> \<exists>a. d1 (args ! 0) = Some a \<and> f a = Ok c"
  "args2 args d1 d2 u g = Ok c \<Longrightarrow> \<exists>a b. d1 (args ! 0) = Some a \<and> d2 (args ! 1) = Some b \<and> g a b = Ok c"
  "args3 args d1 d2 d3 u h = Ok c \<Longrightarrow>
     \<exists>a b x. d1 (args ! 0) = Some a \<and> d2 (args ! 1) = Some b \<and> d3 (args ! 2) = Some x \<and> h a b x = Ok c"
  by (auto simp: args1_def args2_def args3_def split: if_splits option.splits)

context rustler_codec
begin

lemma decoded_ok:
  assumes "decode_command D a args = Ok c" "ranges_ok S c"
  shows "command_ok S c"
proof -
  have n: "i64_range n" if "c = C_incrby k n \<or> c = C_decrby k n \<or> c = C_hincrby k f n" for k f n
    using assms(1) that
    unfolding decode_command_def
    by (simp split: if_split_asm) (auto dest!: args_Ok simp: args4_def args5_def i64_decoded split: if_splits option.splits prod.splits)
  show ?thesis
    using assms(2) n by (cases c) (auto simp: command_ok_def ranges_ok_def)
qed

lemma decoded_pair_ok:
  "request_ranges_ok S (map_sum id (Pair db) (decode_command D a args)) \<Longrightarrow>
     request_ok S (map_sum id (Pair db) (decode_command D a args))"
  by (cases "decode_command D a args") (auto simp: decoded_ok)

lemma decoded_request_ok: "request_ranges_ok S (decode_term D t) \<Longrightarrow> request_ok S (decode_term D t)"
  by (auto simp: decode_term_def decoded_pair_ok split: option.splits)

lemma decoded_requests_ok:
  "list_all (request_ranges_ok S) (map (decode_term D) ts) \<Longrightarrow> list_all (request_ok S) (map (decode_term D) ts)"
  by (auto simp: list_all_iff decoded_request_ok)

end

text \<open>A term of Erlang, as far as the commands use them, and its decoding; text is kept to ASCII.\<close>

datatype eterm = E_atom atom | E_int int | E_float f64 | E_bin bytes | E_list "eterm list" | E_tuple "eterm list"

fun e_pair :: "(eterm \<Rightarrow> 'a option) \<Rightarrow> (eterm \<Rightarrow> 'b option) \<Rightarrow> eterm \<Rightarrow> ('a \<times> 'b) option" where
  "e_pair f g (E_tuple [a, b]) =
     (case (f a, g b) of (Some x, Some y) \<Rightarrow> Some (x, y) | _ \<Rightarrow> None)"
| "e_pair f g _ = None"

fun e_seq :: "(eterm \<Rightarrow> 'a option) \<Rightarrow> eterm \<Rightarrow> 'a list option" where
  "e_seq f (E_list ts) = those (map f ts)"
| "e_seq f _ = None"

definition e_atom :: "eterm \<Rightarrow> atom option" where
  "e_atom t = (case t of E_atom a \<Rightarrow> Some a | _ \<Rightarrow> None)"

definition e_bin :: "eterm \<Rightarrow> bytes option" where
  "e_bin t = (case t of E_bin b \<Rightarrow> Some b | _ \<Rightarrow> None)"

definition e_text :: "eterm \<Rightarrow> bytes option" where
  "e_text t = (case t of E_bin b \<Rightarrow> if list_all (\<lambda>x. x < 128) b then Some b else None | _ \<Rightarrow> None)"

definition e_float :: "eterm \<Rightarrow> f64 option" where
  "e_float t = (case t of E_float x \<Rightarrow> Some x | _ \<Rightarrow> None)"

definition erlang :: "eterm rustler" where
  "erlang =
     \<lparr>get_tuple = (\<lambda>t. case t of E_tuple ts \<Rightarrow> Some ts | _ \<Rightarrow> None),
      dec_atom = e_atom,
      dec_bool = (\<lambda>t. if t = E_atom ''true'' then Some True else if t = E_atom ''false'' then Some False else None),
      dec_u64 = (\<lambda>t. case t of E_int n \<Rightarrow> if 0 \<le> n \<and> n < 2 ^ 64 then Some (word_of_int n) else None | _ \<Rightarrow> None),
      dec_usize = (\<lambda>t. case t of E_int n \<Rightarrow> if 0 \<le> n \<and> n < 2 ^ 64 then Some (nat n) else None | _ \<Rightarrow> None),
      dec_i64 = (\<lambda>t. case t of E_int n \<Rightarrow> if i64_range n then Some n else None | _ \<Rightarrow> None),
      dec_f64 = e_float, dec_binary = e_bin, dec_string = e_text,
      dec_terms = e_seq Some, dec_binaries = e_seq e_bin, dec_pairs = e_seq (e_pair e_bin e_bin),
      dec_floats = e_seq e_float, dec_atoms = e_seq e_atom, dec_strings = e_seq e_text,
      dec_term_binary = e_pair Some e_bin, dec_atom_f64 = e_pair e_atom e_float,
      dec_atom_binary = e_pair e_atom e_bin\<rparr>"

lemmas erlang_defs = erlang_def e_atom_def e_bin_def e_text_def e_float_def

interpretation erlang: rustler_codec erlang
  by unfold_locales (auto simp: erlang_def split: eterm.splits if_splits)

locale nif = backend V S I + rustler_codec D
  for V :: "'v vec_ops" and S :: score_ops and I :: "'i index_ops" and D :: "'t rustler"
begin

lemma batch_refines:
  assumes "storage_ok S I st" "list_all (request_ranges_ok S) (map (decode_term D) ts)"
  shows "storage_ok S I (snd (execute_write_commands D V S I ts st)) \<and>
    map_prod id (abs_storage V) (execute_write_commands D V S I ts st) =
      spec_batch S (map (decode_term D) ts) (abs_storage V st)"
  by (rule requests_refine [where exec = "\<lambda>t st. execute D V S I st t"])
    (use assms in \<open>simp_all add: execute_decodes decoded_requests_ok\<close>)

lemma execute_step:
  assumes "storage_ok S I st" "request_ranges_ok S (decode_term D t)"
  shows "storage_ok S I (snd (execute D V S I st t))"
    and "spec_request S (decode_term D t) (abs_storage V st) =
      (fst (execute D V S I st t), abs_storage V (snd (execute D V S I st t)))"
  using request_step [OF assms(1) decoded_request_ok [OF assms(2)] prod.collapse [symmetric]]
  by (simp_all add: execute_decodes)

end

interpretation erlang_nif: nif list_vec f64_ops "list_index f64_ops" erlang
  by unfold_locales

section \<open>Reachable states\<close>

text \<open>
  The states a storage resource goes through: it is created empty, transactions run on it, and \<open>destroy\<close>
  clears it.
\<close>

inductive reachable ::
  "'t rustler \<Rightarrow> 'v vec_ops \<Rightarrow> score_ops \<Rightarrow> 'i index_ops \<Rightarrow> ('v, 'i) StorageInner \<Rightarrow> bool" for D V S I where
  create: "reachable D V S I StorageInner_new"
| tx: "reachable D V S I st \<Longrightarrow> list_all (request_ranges_ok S) (map (decode_term D) ts) \<Longrightarrow>
    reachable D V S I (snd (execute_write_commands D V S I ts st))"
| destroy: "reachable D V S I st \<Longrightarrow> reachable D V S I (clear st)"

context nif
begin

lemma reachable_ok: "reachable D V S I st \<Longrightarrow> storage_ok S I st"
  by (induction rule: reachable.induct) (auto simp: storage_ok_new storage_ok_clear batch_refines)

end

end
