(* ===== verification/Reads.thy ===== *)
theory Reads
  imports Handlers
begin

text \<open>
  read\_commands.rs and the read NIF of lib.rs: a read arrives as an Erlang term, a handler per command checks the number
  of its arguments, decodes them, asks the storage and encodes the answer. The encoding of terms belongs to the \<open>rustler\<close>
  crate, like their decoding: it is a record argument \<open>E\<close>, a function per Rust type the source encodes. \<open>R\<close> and
  \<open>RH\<close> are the random sources of \<open>srandmember\<close> and \<open>hrandfield\<close>. The messages are those of the source.
\<close>

section \<open>Answers\<close>

record 't encoder =
  enc_atom :: "atom \<Rightarrow> 't"
  enc_bool :: "bool \<Rightarrow> 't"
  enc_usize :: "usize \<Rightarrow> 't"
  enc_f64 :: "f64 \<Rightarrow> 't"
  enc_binary :: "bytes \<Rightarrow> 't"
  enc_str :: "string \<Rightarrow> 't"
  enc_list :: "'t list \<Rightarrow> 't"
  enc_tuple :: "'t list \<Rightarrow> 't"

text \<open>A handler returns a term or a message; a panic of the storage goes through it.\<close>

datatype read_error = Msg string | Panicked

type_synonym 't read_result = "read_error + 't"

definition ok_term :: "'t encoder \<Rightarrow> 't \<Rightarrow> 't" where
  "ok_term E t = enc_tuple E [enc_atom E ''ok'', t]"

definition encode_error :: "'t encoder \<Rightarrow> string \<Rightarrow> 't" where
  "encode_error E msg = enc_tuple E [enc_atom E ''error'', enc_str E msg]"

text \<open>The match on a result of the storage that ends nearly every handler: any error is reported as a wrong type.\<close>

definition answer :: "'t encoder \<Rightarrow> 'a result \<Rightarrow> ('a \<Rightarrow> 't) \<Rightarrow> 't read_result" where
  "answer E r f =
     (case r of
        Inr x \<Rightarrow> Inr (ok_term E (f x))
      | Inl e \<Rightarrow> if e = Panic then Inl Panicked
                 else Inl (Msg ''WRONGTYPE: Operation against a key holding the wrong kind of value''))"

definition nil_or :: "'t encoder \<Rightarrow> ('a \<Rightarrow> 't) \<Rightarrow> 'a option \<Rightarrow> 't" where
  "nil_or E f v = (case v of Some x \<Rightarrow> f x | None \<Rightarrow> enc_atom E ''nil'')"

definition binaries :: "'t encoder \<Rightarrow> bytes list \<Rightarrow> 't" where
  "binaries E bs = enc_list E (map (enc_binary E) bs)"

text \<open>An element alone, or with the value or score that was asked for.\<close>

definition with_second :: "'t encoder \<Rightarrow> bool \<Rightarrow> ('a \<Rightarrow> 't) \<Rightarrow> bytes \<times> 'a option \<Rightarrow> 't" where
  "with_second E asked f = (\<lambda>(x, y).
     if asked then (case y of Some v \<Rightarrow> enc_tuple E [enc_binary E x, f v] | None \<Rightarrow> enc_binary E x)
     else enc_binary E x)"

text \<open>\<open>usize::try_from\<close> of a \<open>u64\<close>, on a target with 64-bit addresses.\<close>

definition usize_try_from :: "u64 \<Rightarrow> usize option" where
  "usize_try_from n = (if unat n < 2 ^ 64 then Some (unat n) else None)"

section \<open>Handlers\<close>

definition handle_get ::
  "'t rustler \<Rightarrow> 't encoder \<Rightarrow> ('v, 'i) StorageInner \<Rightarrow> u64 \<Rightarrow> 't list \<Rightarrow> 't read_result" where
  "handle_get D E inner db args =
     (if length args \<noteq> 1 then Inl (Msg ''GET requires exactly 1 argument: key'')
      else case dec_binary D (args ! 0) of
        Some key \<Rightarrow>
          answer E (get inner db key)
            (nil_or E (enc_binary E))
      | None \<Rightarrow> Inl (Msg ''GET key must be a binary''))"

definition handle_first ::
  "'t rustler \<Rightarrow> 't encoder \<Rightarrow> ('v, 'i) StorageInner \<Rightarrow> u64 \<Rightarrow> 't list \<Rightarrow> 't read_result" where
  "handle_first D E inner db args =
     (if length args \<noteq> 1 then Inl (Msg ''FIRST requires exactly 1 argument: count'')
      else case dec_u64 D (args ! 0) of
        Some count \<Rightarrow>
          (case usize_try_from count of
             None \<Rightarrow> Inl (Msg ''FIRST count is too large'')
           | Some n \<Rightarrow> Inr (ok_term E (binaries E (first inner db n))))
      | None \<Rightarrow> Inl (Msg ''FIRST count must be a non-negative integer''))"

definition handle_last ::
  "'t rustler \<Rightarrow> 't encoder \<Rightarrow> ('v, 'i) StorageInner \<Rightarrow> u64 \<Rightarrow> 't list \<Rightarrow> 't read_result" where
  "handle_last D E inner db args =
     (if length args \<noteq> 1 then Inl (Msg ''LAST requires exactly 1 argument: count'')
      else case dec_u64 D (args ! 0) of
        Some count \<Rightarrow>
          (case usize_try_from count of
             None \<Rightarrow> Inl (Msg ''LAST count is too large'')
           | Some n \<Rightarrow> Inr (ok_term E (binaries E (last_cmd inner db n))))
      | None \<Rightarrow> Inl (Msg ''LAST count must be a non-negative integer''))"

definition handle_next ::
  "'t rustler \<Rightarrow> 't encoder \<Rightarrow> ('v, 'i) StorageInner \<Rightarrow> u64 \<Rightarrow> 't list \<Rightarrow> 't read_result" where
  "handle_next D E inner db args =
     (if length args \<noteq> 2 then Inl (Msg ''NEXT requires exactly 2 arguments: key, count'')
      else case (dec_binary D (args ! 0), dec_u64 D (args ! 1)) of
        (Some key, Some count) \<Rightarrow>
          (case usize_try_from count of
             None \<Rightarrow> Inl (Msg ''NEXT count is too large'')
           | Some n \<Rightarrow> Inr (ok_term E (binaries E (next_cmd inner db key n))))
      | _ \<Rightarrow> Inl (Msg ''NEXT key must be a binary, count must be a non-negative integer''))"

definition handle_prev ::
  "'t rustler \<Rightarrow> 't encoder \<Rightarrow> ('v, 'i) StorageInner \<Rightarrow> u64 \<Rightarrow> 't list \<Rightarrow> 't read_result" where
  "handle_prev D E inner db args =
     (if length args \<noteq> 2 then Inl (Msg ''PREV requires exactly 2 arguments: key, count'')
      else case (dec_binary D (args ! 0), dec_u64 D (args ! 1)) of
        (Some key, Some count) \<Rightarrow>
          (case usize_try_from count of
             None \<Rightarrow> Inl (Msg ''PREV count is too large'')
           | Some n \<Rightarrow> Inr (ok_term E (binaries E (prev inner db key n))))
      | _ \<Rightarrow> Inl (Msg ''PREV key must be a binary, count must be a non-negative integer''))"

definition handle_smembers ::
  "'t rustler \<Rightarrow> 't encoder \<Rightarrow> ('v, 'i) StorageInner \<Rightarrow> u64 \<Rightarrow> 't list \<Rightarrow> 't read_result" where
  "handle_smembers D E inner db args =
     (if length args \<noteq> 1 then Inl (Msg ''SMEMBERS requires exactly 1 argument: key'')
      else case dec_binary D (args ! 0) of
        Some key \<Rightarrow>
          answer E (smembers inner db key)
            (binaries E)
      | None \<Rightarrow> Inl (Msg ''SMEMBERS key must be a binary''))"

definition handle_sismember ::
  "'t rustler \<Rightarrow> 't encoder \<Rightarrow> ('v, 'i) StorageInner \<Rightarrow> u64 \<Rightarrow> 't list \<Rightarrow> 't read_result" where
  "handle_sismember D E inner db args =
     (if length args \<noteq> 2 then Inl (Msg ''SISMEMBER requires exactly 2 arguments: key, member'')
      else case (dec_binary D (args ! 0), dec_binary D (args ! 1)) of
        (Some key, Some member) \<Rightarrow>
          answer E (sismember inner db key member)
            (enc_bool E)
      | _ \<Rightarrow> Inl (Msg ''SISMEMBER key and member must be binaries''))"

definition handle_scard ::
  "'t rustler \<Rightarrow> 't encoder \<Rightarrow> ('v, 'i) StorageInner \<Rightarrow> u64 \<Rightarrow> 't list \<Rightarrow> 't read_result" where
  "handle_scard D E inner db args =
     (if length args \<noteq> 1 then Inl (Msg ''SCARD requires exactly 1 argument: key'')
      else case dec_binary D (args ! 0) of
        Some key \<Rightarrow>
          answer E (scard inner db key)
            (enc_usize E)
      | None \<Rightarrow> Inl (Msg ''SCARD key must be a binary''))"

definition handle_sfirst ::
  "'t rustler \<Rightarrow> 't encoder \<Rightarrow> ('v, 'i) StorageInner \<Rightarrow> u64 \<Rightarrow> 't list \<Rightarrow> 't read_result" where
  "handle_sfirst D E inner db args =
     (if length args \<noteq> 2 then Inl (Msg ''SFIRST requires exactly 2 arguments: key, count'')
      else case (dec_binary D (args ! 0), dec_u64 D (args ! 1)) of
        (Some key, Some count) \<Rightarrow>
          (case usize_try_from count of
             None \<Rightarrow> Inl (Msg ''SFIRST count is too large'')
           | Some n \<Rightarrow> answer E (sfirst inner db key n)
            (binaries E))
      | _ \<Rightarrow> Inl (Msg ''SFIRST key must be a binary, count must be a non-negative integer''))"

definition handle_slast ::
  "'t rustler \<Rightarrow> 't encoder \<Rightarrow> ('v, 'i) StorageInner \<Rightarrow> u64 \<Rightarrow> 't list \<Rightarrow> 't read_result" where
  "handle_slast D E inner db args =
     (if length args \<noteq> 2 then Inl (Msg ''SLAST requires exactly 2 arguments: key, count'')
      else case (dec_binary D (args ! 0), dec_u64 D (args ! 1)) of
        (Some key, Some count) \<Rightarrow>
          (case usize_try_from count of
             None \<Rightarrow> Inl (Msg ''SLAST count is too large'')
           | Some n \<Rightarrow> answer E (slast inner db key n)
            (binaries E))
      | _ \<Rightarrow> Inl (Msg ''SLAST key must be a binary, count must be a non-negative integer''))"

definition handle_snext ::
  "'t rustler \<Rightarrow> 't encoder \<Rightarrow> ('v, 'i) StorageInner \<Rightarrow> u64 \<Rightarrow> 't list \<Rightarrow> 't read_result" where
  "handle_snext D E inner db args =
     (if length args \<noteq> 3 then Inl (Msg ''SNEXT requires exactly 3 arguments: key, member, count'')
      else case (dec_binary D (args ! 0), dec_binary D (args ! 1), dec_u64 D (args ! 2)) of
        (Some key, Some member, Some count) \<Rightarrow>
          (case usize_try_from count of
             None \<Rightarrow> Inl (Msg ''SNEXT count is too large'')
           | Some n \<Rightarrow> answer E (snext inner db key member n)
            (binaries E))
      | _ \<Rightarrow> Inl (Msg ''SNEXT key and member must be binaries, count must be a non-negative integer''))"

definition handle_sprev ::
  "'t rustler \<Rightarrow> 't encoder \<Rightarrow> ('v, 'i) StorageInner \<Rightarrow> u64 \<Rightarrow> 't list \<Rightarrow> 't read_result" where
  "handle_sprev D E inner db args =
     (if length args \<noteq> 3 then Inl (Msg ''SPREV requires exactly 3 arguments: key, member, count'')
      else case (dec_binary D (args ! 0), dec_binary D (args ! 1), dec_u64 D (args ! 2)) of
        (Some key, Some member, Some count) \<Rightarrow>
          (case usize_try_from count of
             None \<Rightarrow> Inl (Msg ''SPREV count is too large'')
           | Some n \<Rightarrow> answer E (sprev inner db key member n)
            (binaries E))
      | _ \<Rightarrow> Inl (Msg ''SPREV key and member must be binaries, count must be a non-negative integer''))"

definition handle_smismember ::
  "'t rustler \<Rightarrow> 't encoder \<Rightarrow> ('v, 'i) StorageInner \<Rightarrow> u64 \<Rightarrow> 't list \<Rightarrow> 't read_result" where
  "handle_smismember D E inner db args =
     (if length args \<noteq> 2 then Inl (Msg ''SMISMEMBER requires exactly 2 arguments: key, members'')
      else case (dec_binary D (args ! 0), dec_binaries D (args ! 1)) of
        (Some key, Some members) \<Rightarrow>
          answer E (smismember inner db key members)
            (\<lambda>rs. enc_list E (map (enc_bool E) rs))
      | _ \<Rightarrow> Inl (Msg ''SMISMEMBER key must be a binary and members must be a list of binaries''))"

definition handle_srandmember ::
  "'t rustler \<Rightarrow> 't encoder \<Rightarrow> bytes rand_ops \<Rightarrow> ('v, 'i) StorageInner \<Rightarrow> u64 \<Rightarrow> 't list \<Rightarrow> 't read_result" where
  "handle_srandmember D E R inner db args =
     (if length args \<noteq> 2 then Inl (Msg ''SRANDMEMBER requires exactly 2 arguments: key, count'')
      else case (dec_binary D (args ! 0), dec_i64 D (args ! 1)) of
        (Some key, Some count) \<Rightarrow>
          answer E (srandmember R inner db key count)
            (binaries E)
      | _ \<Rightarrow> Inl (Msg ''SRANDMEMBER key must be a binary and count must be an integer''))"

definition handle_sunion ::
  "'t rustler \<Rightarrow> 't encoder \<Rightarrow> ('v, 'i) StorageInner \<Rightarrow> u64 \<Rightarrow> 't list \<Rightarrow> 't read_result" where
  "handle_sunion D E inner db args =
     (if length args \<noteq> 1 then Inl (Msg ''SUNION requires exactly 1 argument: keys'')
      else case dec_binaries D (args ! 0) of
        Some ks \<Rightarrow>
          answer E (sunion inner db ks)
            (binaries E)
      | None \<Rightarrow> Inl (Msg ''SUNION keys must be a list of binaries''))"

definition handle_sinter ::
  "'t rustler \<Rightarrow> 't encoder \<Rightarrow> ('v, 'i) StorageInner \<Rightarrow> u64 \<Rightarrow> 't list \<Rightarrow> 't read_result" where
  "handle_sinter D E inner db args =
     (if length args \<noteq> 1 then Inl (Msg ''SINTER requires exactly 1 argument: keys'')
      else case dec_binaries D (args ! 0) of
        Some ks \<Rightarrow>
          answer E (sinter inner db ks)
            (binaries E)
      | None \<Rightarrow> Inl (Msg ''SINTER keys must be a list of binaries''))"

definition handle_sdiff ::
  "'t rustler \<Rightarrow> 't encoder \<Rightarrow> ('v, 'i) StorageInner \<Rightarrow> u64 \<Rightarrow> 't list \<Rightarrow> 't read_result" where
  "handle_sdiff D E inner db args =
     (if length args \<noteq> 1 then Inl (Msg ''SDIFF requires exactly 1 argument: keys'')
      else case dec_binaries D (args ! 0) of
        Some ks \<Rightarrow>
          answer E (sdiff inner db ks)
            (binaries E)
      | None \<Rightarrow> Inl (Msg ''SDIFF keys must be a list of binaries''))"

definition handle_sintercard ::
  "'t rustler \<Rightarrow> 't encoder \<Rightarrow> ('v, 'i) StorageInner \<Rightarrow> u64 \<Rightarrow> 't list \<Rightarrow> 't read_result" where
  "handle_sintercard D E inner db args =
     (if length args \<noteq> 1 then Inl (Msg ''SINTERCARD requires exactly 1 argument: keys'')
      else case dec_binaries D (args ! 0) of
        Some ks \<Rightarrow>
          answer E (sintercard inner db ks)
            (enc_usize E)
      | None \<Rightarrow> Inl (Msg ''SINTERCARD keys must be a list of binaries''))"

definition handle_llen ::
  "'t rustler \<Rightarrow> 't encoder \<Rightarrow> 'v vec_ops \<Rightarrow> ('v, 'i) StorageInner \<Rightarrow> u64 \<Rightarrow> 't list \<Rightarrow> 't read_result" where
  "handle_llen D E V inner db args =
     (if length args \<noteq> 1 then Inl (Msg ''LLEN requires exactly 1 argument: key'')
      else case dec_binary D (args ! 0) of
        Some key \<Rightarrow>
          answer E (llen V inner db key)
            (enc_usize E)
      | None \<Rightarrow> Inl (Msg ''LLEN key must be a binary''))"

definition handle_lrange ::
  "'t rustler \<Rightarrow> 't encoder \<Rightarrow> 'v vec_ops \<Rightarrow> ('v, 'i) StorageInner \<Rightarrow> u64 \<Rightarrow> 't list \<Rightarrow> 't read_result" where
  "handle_lrange D E V inner db args =
     (if length args \<noteq> 3 then Inl (Msg ''LRANGE requires exactly 3 arguments: key, start, stop'')
      else case (dec_binary D (args ! 0), dec_i64 D (args ! 1), dec_i64 D (args ! 2)) of
        (Some key, Some start, Some stop) \<Rightarrow>
          answer E (lrange V inner db key start stop)
            (binaries E)
      | _ \<Rightarrow> Inl (Msg ''LRANGE key must be a binary, start and stop must be integers''))"

definition handle_hget ::
  "'t rustler \<Rightarrow> 't encoder \<Rightarrow> ('v, 'i) StorageInner \<Rightarrow> u64 \<Rightarrow> 't list \<Rightarrow> 't read_result" where
  "handle_hget D E inner db args =
     (if length args \<noteq> 2 then Inl (Msg ''HGET requires exactly 2 arguments: key, field'')
      else case (dec_binary D (args ! 0), dec_binary D (args ! 1)) of
        (Some key, Some field) \<Rightarrow>
          answer E (hget inner db key field)
            (nil_or E (enc_binary E))
      | _ \<Rightarrow> Inl (Msg ''HGET key and field must be binaries''))"

definition handle_hmget ::
  "'t rustler \<Rightarrow> 't encoder \<Rightarrow> ('v, 'i) StorageInner \<Rightarrow> u64 \<Rightarrow> 't list \<Rightarrow> 't read_result" where
  "handle_hmget D E inner db args =
     (if length args \<noteq> 2 then Inl (Msg ''HMGET requires exactly 2 arguments: key, fields'')
      else case (dec_binary D (args ! 0), dec_binaries D (args ! 1)) of
        (Some key, Some fs) \<Rightarrow>
          answer E (hmget inner db key fs)
            (\<lambda>vs. enc_list E (map (nil_or E (enc_binary E)) vs))
      | _ \<Rightarrow> Inl (Msg ''HMGET key must be a binary and fields must be a list of binaries''))"

definition handle_hgetall ::
  "'t rustler \<Rightarrow> 't encoder \<Rightarrow> ('v, 'i) StorageInner \<Rightarrow> u64 \<Rightarrow> 't list \<Rightarrow> 't read_result" where
  "handle_hgetall D E inner db args =
     (if length args \<noteq> 1 then Inl (Msg ''HGETALL requires exactly 1 argument: key'')
      else case dec_binary D (args ! 0) of
        Some key \<Rightarrow>
          answer E (hgetall inner db key)
            (\<lambda>fvs. enc_list E (map (\<lambda>(f, v). enc_tuple E [enc_binary E f, enc_binary E v]) fvs))
      | None \<Rightarrow> Inl (Msg ''HGETALL key must be a binary''))"

definition handle_hkeys ::
  "'t rustler \<Rightarrow> 't encoder \<Rightarrow> ('v, 'i) StorageInner \<Rightarrow> u64 \<Rightarrow> 't list \<Rightarrow> 't read_result" where
  "handle_hkeys D E inner db args =
     (if length args \<noteq> 1 then Inl (Msg ''HKEYS requires exactly 1 argument: key'')
      else case dec_binary D (args ! 0) of
        Some key \<Rightarrow>
          answer E (hkeys inner db key)
            (binaries E)
      | None \<Rightarrow> Inl (Msg ''HKEYS key must be a binary''))"

definition handle_hvals ::
  "'t rustler \<Rightarrow> 't encoder \<Rightarrow> ('v, 'i) StorageInner \<Rightarrow> u64 \<Rightarrow> 't list \<Rightarrow> 't read_result" where
  "handle_hvals D E inner db args =
     (if length args \<noteq> 1 then Inl (Msg ''HVALS requires exactly 1 argument: key'')
      else case dec_binary D (args ! 0) of
        Some key \<Rightarrow>
          answer E (hvals inner db key)
            (binaries E)
      | None \<Rightarrow> Inl (Msg ''HVALS key must be a binary''))"

definition handle_hlen ::
  "'t rustler \<Rightarrow> 't encoder \<Rightarrow> ('v, 'i) StorageInner \<Rightarrow> u64 \<Rightarrow> 't list \<Rightarrow> 't read_result" where
  "handle_hlen D E inner db args =
     (if length args \<noteq> 1 then Inl (Msg ''HLEN requires exactly 1 argument: key'')
      else case dec_binary D (args ! 0) of
        Some key \<Rightarrow>
          answer E (hlen inner db key)
            (enc_usize E)
      | None \<Rightarrow> Inl (Msg ''HLEN key must be a binary''))"

definition handle_hexists ::
  "'t rustler \<Rightarrow> 't encoder \<Rightarrow> ('v, 'i) StorageInner \<Rightarrow> u64 \<Rightarrow> 't list \<Rightarrow> 't read_result" where
  "handle_hexists D E inner db args =
     (if length args \<noteq> 2 then Inl (Msg ''HEXISTS requires exactly 2 arguments: key, field'')
      else case (dec_binary D (args ! 0), dec_binary D (args ! 1)) of
        (Some key, Some field) \<Rightarrow>
          answer E (hexists inner db key field)
            (enc_bool E)
      | _ \<Rightarrow> Inl (Msg ''HEXISTS key and field must be binaries''))"

definition handle_hfirst ::
  "'t rustler \<Rightarrow> 't encoder \<Rightarrow> ('v, 'i) StorageInner \<Rightarrow> u64 \<Rightarrow> 't list \<Rightarrow> 't read_result" where
  "handle_hfirst D E inner db args =
     (if length args \<noteq> 2 then Inl (Msg ''HFIRST requires exactly 2 arguments: key, count'')
      else case (dec_binary D (args ! 0), dec_u64 D (args ! 1)) of
        (Some key, Some count) \<Rightarrow>
          (case usize_try_from count of
             None \<Rightarrow> Inl (Msg ''HFIRST count is too large'')
           | Some n \<Rightarrow> answer E (hfirst inner db key n)
            (\<lambda>fvs. enc_list E (map (\<lambda>(f, v). enc_tuple E [enc_binary E f, enc_binary E v]) fvs)))
      | _ \<Rightarrow> Inl (Msg ''HFIRST key must be a binary, count must be a non-negative integer''))"

definition handle_hlast ::
  "'t rustler \<Rightarrow> 't encoder \<Rightarrow> ('v, 'i) StorageInner \<Rightarrow> u64 \<Rightarrow> 't list \<Rightarrow> 't read_result" where
  "handle_hlast D E inner db args =
     (if length args \<noteq> 2 then Inl (Msg ''HLAST requires exactly 2 arguments: key, count'')
      else case (dec_binary D (args ! 0), dec_u64 D (args ! 1)) of
        (Some key, Some count) \<Rightarrow>
          (case usize_try_from count of
             None \<Rightarrow> Inl (Msg ''HLAST count is too large'')
           | Some n \<Rightarrow> answer E (hlast inner db key n)
            (\<lambda>fvs. enc_list E (map (\<lambda>(f, v). enc_tuple E [enc_binary E f, enc_binary E v]) fvs)))
      | _ \<Rightarrow> Inl (Msg ''HLAST key must be a binary, count must be a non-negative integer''))"

definition handle_hnext ::
  "'t rustler \<Rightarrow> 't encoder \<Rightarrow> ('v, 'i) StorageInner \<Rightarrow> u64 \<Rightarrow> 't list \<Rightarrow> 't read_result" where
  "handle_hnext D E inner db args =
     (if length args \<noteq> 3 then Inl (Msg ''HNEXT requires exactly 3 arguments: key, field, count'')
      else case (dec_binary D (args ! 0), dec_binary D (args ! 1), dec_u64 D (args ! 2)) of
        (Some key, Some field, Some count) \<Rightarrow>
          (case usize_try_from count of
             None \<Rightarrow> Inl (Msg ''HNEXT count is too large'')
           | Some n \<Rightarrow> answer E (hnext inner db key field n)
            (\<lambda>fvs. enc_list E (map (\<lambda>(f, v). enc_tuple E [enc_binary E f, enc_binary E v]) fvs)))
      | _ \<Rightarrow> Inl (Msg ''HNEXT key and field must be binaries, count must be a non-negative integer''))"

definition handle_hprev ::
  "'t rustler \<Rightarrow> 't encoder \<Rightarrow> ('v, 'i) StorageInner \<Rightarrow> u64 \<Rightarrow> 't list \<Rightarrow> 't read_result" where
  "handle_hprev D E inner db args =
     (if length args \<noteq> 3 then Inl (Msg ''HPREV requires exactly 3 arguments: key, field, count'')
      else case (dec_binary D (args ! 0), dec_binary D (args ! 1), dec_u64 D (args ! 2)) of
        (Some key, Some field, Some count) \<Rightarrow>
          (case usize_try_from count of
             None \<Rightarrow> Inl (Msg ''HPREV count is too large'')
           | Some n \<Rightarrow> answer E (hprev inner db key field n)
            (\<lambda>fvs. enc_list E (map (\<lambda>(f, v). enc_tuple E [enc_binary E f, enc_binary E v]) fvs)))
      | _ \<Rightarrow> Inl (Msg ''HPREV key and field must be binaries, count must be a non-negative integer''))"

definition handle_hstrlen ::
  "'t rustler \<Rightarrow> 't encoder \<Rightarrow> ('v, 'i) StorageInner \<Rightarrow> u64 \<Rightarrow> 't list \<Rightarrow> 't read_result" where
  "handle_hstrlen D E inner db args =
     (if length args \<noteq> 2 then Inl (Msg ''HSTRLEN requires exactly 2 arguments: key, field'')
      else case (dec_binary D (args ! 0), dec_binary D (args ! 1)) of
        (Some key, Some field) \<Rightarrow>
          answer E (hstrlen inner db key field)
            (enc_usize E)
      | _ \<Rightarrow> Inl (Msg ''HSTRLEN key and field must be binaries''))"

definition handle_hrandfield ::
  "'t rustler \<Rightarrow> 't encoder \<Rightarrow> (bytes \<times> bytes) rand_ops \<Rightarrow> ('v, 'i) StorageInner \<Rightarrow> u64 \<Rightarrow> 't list \<Rightarrow> 't read_result" where
  "handle_hrandfield D E R inner db args =
     (if length args \<noteq> 3 then Inl (Msg ''HRANDFIELD requires exactly 3 arguments: key, count, with_values'')
      else case (dec_binary D (args ! 0), dec_i64 D (args ! 1), dec_bool D (args ! 2)) of
        (Some key, Some count, Some with_values) \<Rightarrow>
          answer E (hrandfield R inner db key count with_values)
            (\<lambda>rs. enc_list E (map (with_second E with_values (enc_binary E)) rs))
      | _ \<Rightarrow> Inl (Msg ''HRANDFIELD key must be a binary, count must be an integer, with_values must be a boolean''))"

definition handle_zscore ::
  "'t rustler \<Rightarrow> 't encoder \<Rightarrow> ('v, 'i) StorageInner \<Rightarrow> u64 \<Rightarrow> 't list \<Rightarrow> 't read_result" where
  "handle_zscore D E inner db args =
     (if length args \<noteq> 2 then Inl (Msg ''ZSCORE requires exactly 2 arguments: key, member'')
      else case (dec_binary D (args ! 0), dec_binary D (args ! 1)) of
        (Some key, Some member) \<Rightarrow>
          answer E (zscore inner db key member)
            (nil_or E (enc_f64 E))
      | _ \<Rightarrow> Inl (Msg ''ZSCORE key and member must be binaries''))"

definition handle_zcard ::
  "'t rustler \<Rightarrow> 't encoder \<Rightarrow> ('v, 'i) StorageInner \<Rightarrow> u64 \<Rightarrow> 't list \<Rightarrow> 't read_result" where
  "handle_zcard D E inner db args =
     (if length args \<noteq> 1 then Inl (Msg ''ZCARD requires exactly 1 argument: key'')
      else case dec_binary D (args ! 0) of
        Some key \<Rightarrow>
          answer E (zcard inner db key)
            (enc_usize E)
      | None \<Rightarrow> Inl (Msg ''ZCARD key must be a binary''))"

definition handle_zrange ::
  "'t rustler \<Rightarrow> 't encoder \<Rightarrow> 'i index_ops \<Rightarrow> ('v, 'i) StorageInner \<Rightarrow> u64 \<Rightarrow> 't list \<Rightarrow> 't read_result" where
  "handle_zrange D E I inner db args =
     (if length args \<noteq> 4 then Inl (Msg ''ZRANGE requires exactly 4 arguments: key, start, stop, with_scores'')
      else case (dec_binary D (args ! 0), dec_i64 D (args ! 1), dec_i64 D (args ! 2), dec_bool D (args ! 3)) of
        (Some key, Some start, Some stop, Some with_scores) \<Rightarrow>
          answer E (zrange I inner db key start stop with_scores)
            (\<lambda>rs. enc_list E (map (with_second E with_scores (enc_f64 E)) rs))
      | _ \<Rightarrow> Inl (Msg ''ZRANGE key must be a binary, start and stop must be integers, with_scores must be a boolean''))"

definition handle_zrangebyscore ::
  "'t rustler \<Rightarrow> 't encoder \<Rightarrow> score_ops \<Rightarrow> 'i index_ops \<Rightarrow> ('v, 'i) StorageInner \<Rightarrow> u64 \<Rightarrow> 't list \<Rightarrow> 't read_result" where
  "handle_zrangebyscore D E S I inner db args =
     (if length args \<noteq> 4 then Inl (Msg ''ZRANGEBYSCORE requires exactly 4 arguments: key, min, max, with_scores'')
      else case (dec_binary D (args ! 0), dec_f64 D (args ! 1), dec_f64 D (args ! 2), dec_bool D (args ! 3)) of
        (Some key, Some lo, Some hi, Some with_scores) \<Rightarrow>
          answer E (zrangebyscore S I inner db key lo hi with_scores)
            (\<lambda>rs. enc_list E (map (with_second E with_scores (enc_f64 E)) rs))
      | _ \<Rightarrow> Inl (Msg ''ZRANGEBYSCORE key must be a binary, min and max must be floats, with_scores must be a boolean''))"

definition handle_zrank ::
  "'t rustler \<Rightarrow> 't encoder \<Rightarrow> 'i index_ops \<Rightarrow> ('v, 'i) StorageInner \<Rightarrow> u64 \<Rightarrow> 't list \<Rightarrow> 't read_result" where
  "handle_zrank D E I inner db args =
     (if length args \<noteq> 2 then Inl (Msg ''ZRANK requires exactly 2 arguments: key, member'')
      else case (dec_binary D (args ! 0), dec_binary D (args ! 1)) of
        (Some key, Some member) \<Rightarrow>
          answer E (zrank I inner db key member)
            (nil_or E (enc_usize E))
      | _ \<Rightarrow> Inl (Msg ''ZRANK key and member must be binaries''))"

definition handle_zrevrank ::
  "'t rustler \<Rightarrow> 't encoder \<Rightarrow> 'i index_ops \<Rightarrow> ('v, 'i) StorageInner \<Rightarrow> u64 \<Rightarrow> 't list \<Rightarrow> 't read_result" where
  "handle_zrevrank D E I inner db args =
     (if length args \<noteq> 2 then Inl (Msg ''ZREVRANK requires exactly 2 arguments: key, member'')
      else case (dec_binary D (args ! 0), dec_binary D (args ! 1)) of
        (Some key, Some member) \<Rightarrow>
          answer E (zrevrank I inner db key member)
            (nil_or E (enc_usize E))
      | _ \<Rightarrow> Inl (Msg ''ZREVRANK key and member must be binaries''))"

definition handle_zcount ::
  "'t rustler \<Rightarrow> 't encoder \<Rightarrow> 'i index_ops \<Rightarrow> ('v, 'i) StorageInner \<Rightarrow> u64 \<Rightarrow> 't list \<Rightarrow> 't read_result" where
  "handle_zcount D E I inner db args =
     (if length args \<noteq> 3 then Inl (Msg ''ZCOUNT requires exactly 3 arguments: key, min, max'')
      else case (dec_binary D (args ! 0), dec_f64 D (args ! 1), dec_f64 D (args ! 2)) of
        (Some key, Some lo, Some hi) \<Rightarrow>
          answer E (zcount I inner db key lo hi)
            (enc_usize E)
      | _ \<Rightarrow> Inl (Msg ''ZCOUNT key must be a binary, min and max must be floats''))"

definition handle_zfirst ::
  "'t rustler \<Rightarrow> 't encoder \<Rightarrow> ('v, 'i) StorageInner \<Rightarrow> u64 \<Rightarrow> 't list \<Rightarrow> 't read_result" where
  "handle_zfirst D E inner db args =
     (if length args \<noteq> 2 then Inl (Msg ''ZFIRST requires exactly 2 arguments: key, count'')
      else case (dec_binary D (args ! 0), dec_u64 D (args ! 1)) of
        (Some key, Some count) \<Rightarrow>
          (case usize_try_from count of
             None \<Rightarrow> Inl (Msg ''ZFIRST count is too large'')
           | Some n \<Rightarrow> answer E (zfirst inner db key n)
            (\<lambda>ps. enc_list E (map (\<lambda>(s, x). enc_tuple E [enc_f64 E s, enc_binary E x]) ps)))
      | _ \<Rightarrow> Inl (Msg ''ZFIRST key must be a binary, count must be a non-negative integer''))"

definition handle_zlast ::
  "'t rustler \<Rightarrow> 't encoder \<Rightarrow> ('v, 'i) StorageInner \<Rightarrow> u64 \<Rightarrow> 't list \<Rightarrow> 't read_result" where
  "handle_zlast D E inner db args =
     (if length args \<noteq> 2 then Inl (Msg ''ZLAST requires exactly 2 arguments: key, count'')
      else case (dec_binary D (args ! 0), dec_u64 D (args ! 1)) of
        (Some key, Some count) \<Rightarrow>
          (case usize_try_from count of
             None \<Rightarrow> Inl (Msg ''ZLAST count is too large'')
           | Some n \<Rightarrow> answer E (zlast inner db key n)
            (\<lambda>ps. enc_list E (map (\<lambda>(s, x). enc_tuple E [enc_f64 E s, enc_binary E x]) ps)))
      | _ \<Rightarrow> Inl (Msg ''ZLAST key must be a binary, count must be a non-negative integer''))"

definition handle_znext ::
  "'t rustler \<Rightarrow> 't encoder \<Rightarrow> ('v, 'i) StorageInner \<Rightarrow> u64 \<Rightarrow> 't list \<Rightarrow> 't read_result" where
  "handle_znext D E inner db args =
     (if length args \<noteq> 3 then Inl (Msg ''ZNEXT requires exactly 3 arguments: key, member, count'')
      else case (dec_binary D (args ! 0), dec_binary D (args ! 1), dec_u64 D (args ! 2)) of
        (Some key, Some member, Some count) \<Rightarrow>
          (case usize_try_from count of
             None \<Rightarrow> Inl (Msg ''ZNEXT count is too large'')
           | Some n \<Rightarrow> answer E (znext inner db key member n)
            (\<lambda>ps. enc_list E (map (\<lambda>(s, x). enc_tuple E [enc_f64 E s, enc_binary E x]) ps)))
      | _ \<Rightarrow> Inl (Msg ''ZNEXT key and member must be binaries, count must be a non-negative integer''))"

definition handle_zprev ::
  "'t rustler \<Rightarrow> 't encoder \<Rightarrow> ('v, 'i) StorageInner \<Rightarrow> u64 \<Rightarrow> 't list \<Rightarrow> 't read_result" where
  "handle_zprev D E inner db args =
     (if length args \<noteq> 3 then Inl (Msg ''ZPREV requires exactly 3 arguments: key, member, count'')
      else case (dec_binary D (args ! 0), dec_binary D (args ! 1), dec_u64 D (args ! 2)) of
        (Some key, Some member, Some count) \<Rightarrow>
          (case usize_try_from count of
             None \<Rightarrow> Inl (Msg ''ZPREV count is too large'')
           | Some n \<Rightarrow> answer E (zprev inner db key member n)
            (\<lambda>ps. enc_list E (map (\<lambda>(s, x). enc_tuple E [enc_f64 E s, enc_binary E x]) ps)))
      | _ \<Rightarrow> Inl (Msg ''ZPREV key and member must be binaries, count must be a non-negative integer''))"

definition dispatch_read_command ::
  "'t rustler \<Rightarrow> 't encoder \<Rightarrow> 'v vec_ops \<Rightarrow> score_ops \<Rightarrow> 'i index_ops \<Rightarrow> bytes rand_ops \<Rightarrow>
     (bytes \<times> bytes) rand_ops \<Rightarrow> ('v, 'i) StorageInner \<Rightarrow> u64 \<Rightarrow> atom \<Rightarrow> 't list \<Rightarrow> 't read_result" where
  "dispatch_read_command D E V S I R RH inner db cmd_atom args =
     (if cmd_atom = ''get'' then handle_get D E inner db args
      else if cmd_atom = ''first'' then handle_first D E inner db args
      else if cmd_atom = ''last'' then handle_last D E inner db args
      else if cmd_atom = ''next'' then handle_next D E inner db args
      else if cmd_atom = ''prev'' then handle_prev D E inner db args
      else if cmd_atom = ''smembers'' then handle_smembers D E inner db args
      else if cmd_atom = ''sismember'' then handle_sismember D E inner db args
      else if cmd_atom = ''scard'' then handle_scard D E inner db args
      else if cmd_atom = ''sfirst'' then handle_sfirst D E inner db args
      else if cmd_atom = ''slast'' then handle_slast D E inner db args
      else if cmd_atom = ''snext'' then handle_snext D E inner db args
      else if cmd_atom = ''sprev'' then handle_sprev D E inner db args
      else if cmd_atom = ''smismember'' then handle_smismember D E inner db args
      else if cmd_atom = ''srandmember'' then handle_srandmember D E R inner db args
      else if cmd_atom = ''sunion'' then handle_sunion D E inner db args
      else if cmd_atom = ''sinter'' then handle_sinter D E inner db args
      else if cmd_atom = ''sdiff'' then handle_sdiff D E inner db args
      else if cmd_atom = ''sintercard'' then handle_sintercard D E inner db args
      else if cmd_atom = ''llen'' then handle_llen D E V inner db args
      else if cmd_atom = ''lrange'' then handle_lrange D E V inner db args
      else if cmd_atom = ''hget'' then handle_hget D E inner db args
      else if cmd_atom = ''hmget'' then handle_hmget D E inner db args
      else if cmd_atom = ''hgetall'' then handle_hgetall D E inner db args
      else if cmd_atom = ''hkeys'' then handle_hkeys D E inner db args
      else if cmd_atom = ''hvals'' then handle_hvals D E inner db args
      else if cmd_atom = ''hlen'' then handle_hlen D E inner db args
      else if cmd_atom = ''hexists'' then handle_hexists D E inner db args
      else if cmd_atom = ''hfirst'' then handle_hfirst D E inner db args
      else if cmd_atom = ''hlast'' then handle_hlast D E inner db args
      else if cmd_atom = ''hnext'' then handle_hnext D E inner db args
      else if cmd_atom = ''hprev'' then handle_hprev D E inner db args
      else if cmd_atom = ''hstrlen'' then handle_hstrlen D E inner db args
      else if cmd_atom = ''hrandfield'' then handle_hrandfield D E RH inner db args
      else if cmd_atom = ''zscore'' then handle_zscore D E inner db args
      else if cmd_atom = ''zcard'' then handle_zcard D E inner db args
      else if cmd_atom = ''zrange'' then handle_zrange D E I inner db args
      else if cmd_atom = ''zrangebyscore'' then handle_zrangebyscore D E S I inner db args
      else if cmd_atom = ''zrank'' then handle_zrank D E I inner db args
      else if cmd_atom = ''zrevrank'' then handle_zrevrank D E I inner db args
      else if cmd_atom = ''zcount'' then handle_zcount D E I inner db args
      else if cmd_atom = ''zfirst'' then handle_zfirst D E inner db args
      else if cmd_atom = ''zlast'' then handle_zlast D E inner db args
      else if cmd_atom = ''znext'' then handle_znext D E inner db args
      else if cmd_atom = ''zprev'' then handle_zprev D E inner db args
      else Inl (Msg ''Unknown read command''))"

text \<open>A command; \<open>None\<close> is a panic.\<close>

definition read_execute ::
  "'t rustler \<Rightarrow> 't encoder \<Rightarrow> 'v vec_ops \<Rightarrow> score_ops \<Rightarrow> 'i index_ops \<Rightarrow> bytes rand_ops \<Rightarrow>
     (bytes \<times> bytes) rand_ops \<Rightarrow> ('v, 'i) StorageInner \<Rightarrow> u64 \<Rightarrow> 't \<Rightarrow> 't option" where
  "read_execute D E V S I R RH inner db cmd_term =
     (case get_tuple D cmd_term of
        None \<Rightarrow> Some (encode_error E ''Invalid command tuple'')
      | Some [] \<Rightarrow> Some (encode_error E ''Empty command tuple'')
      | Some (name # args) \<Rightarrow>
          (case dec_atom D name of
             None \<Rightarrow> Some (encode_error E ''Invalid command atom'')
           | Some cmd_atom \<Rightarrow>
               (case dispatch_read_command D E V S I R RH inner db cmd_atom args of
                  Inr t \<Rightarrow> Some t
                | Inl (Msg error_msg) \<Rightarrow> Some (encode_error E error_msg)
                | Inl Panicked \<Rightarrow> None)))"

text \<open>A batch under one lock; the draws of its \<open>i\<close>-th command are those of \<open>R i\<close> and \<open>RH i\<close>.\<close>

definition execute_read_commands ::
  "'t rustler \<Rightarrow> 't encoder \<Rightarrow> 'v vec_ops \<Rightarrow> score_ops \<Rightarrow> 'i index_ops \<Rightarrow> (nat \<Rightarrow> bytes rand_ops) \<Rightarrow>
     (nat \<Rightarrow> (bytes \<times> bytes) rand_ops) \<Rightarrow> ('v, 'i) StorageInner \<Rightarrow> u64 \<Rightarrow> 't list \<Rightarrow> 't option" where
  "execute_read_commands D E V S I R RH inner db commands =
     map_option (\<lambda>results. ok_term E (enc_list E results))
       (those (map (\<lambda>(i, cmd_term). read_execute D E V S I (R i) (RH i) inner db cmd_term) (enumerate 0 commands)))"

section \<open>Reads see the keyspace only\<close>

text \<open>
  Two values that stand for the same abstract value: equal but for the representation of a vector and of an index.
\<close>

fun same_value :: "'v vec_ops \<Rightarrow> 'w vec_ops \<Rightarrow> ('v, 'i) StorageValue \<Rightarrow> ('w, 'j) StorageValue \<Rightarrow> bool" where
  "same_value V V' (String a) (String b) \<longleftrightarrow> a = b"
| "same_value V V' (Set s) (Set t) \<longleftrightarrow> s = t"
| "same_value V V' (List l) (List k) \<longleftrightarrow> vec_iter V l = vec_iter V' k"
| "same_value V V' (Hash h) (Hash g) \<longleftrightarrow> h = g"
| "same_value V V' (ZSet z) (ZSet y) \<longleftrightarrow> entries z = entries y"
| "same_value V V' _ _ \<longleftrightarrow> False"

lemma same_abs_value:
  assumes "value_ok S I v" "value_ok S I' w" "abs_value V v = abs_value V' w"
  shows "same_value V V' v w"
  using assms by (cases v; cases w) (auto simp: zset_ok_def intro: bm_sorted_unique bs_sorted_unique)

definition same_keyspace ::
  "score_ops \<Rightarrow> 'v vec_ops \<Rightarrow> 'i index_ops \<Rightarrow> 'w vec_ops \<Rightarrow> 'j index_ops \<Rightarrow> ('v, 'i) StorageInner \<Rightarrow> ('w, 'j) StorageInner \<Rightarrow> bool"
  where
  "same_keyspace S V I V' I' st st' \<longleftrightarrow>
     backend V S I \<and> backend V' S I' \<and> storage_ok S I st \<and> storage_ok S I' st' \<and> abs_storage V st = abs_storage V' st'"

lemma same_lookup:
  assumes "same_keyspace S V I V' I' st st'"
  shows "rel_option (same_value V V') (lookup st db k) (lookup st' db k)"
proof -
  have a: "map_option (abs_value V) (lookup st db k) = map_option (abs_value V') (lookup st' db k)"
    using assms by (simp add: same_keyspace_def abs_storage_def fun_eq_iff)
  show ?thesis
  proof (cases "lookup st db k")
    case (Some v)
    with a obtain w where w: "lookup st' db k = Some w" by (cases "lookup st' db k") auto
    have "value_ok S I v" "value_ok S I' w"
      using assms Some w value_ok_lookup by (auto simp: same_keyspace_def)
    then show ?thesis using a Some w same_abs_value by auto
  qed (use a in \<open>cases "lookup st' db k"; simp\<close>)
qed

text \<open>The readers of one kind of value, by what they do with it.\<close>

definition read_set :: "('v, 'i) StorageInner \<Rightarrow> u64 \<Rightarrow> bytes \<Rightarrow> 'a \<Rightarrow> (bytes btree_set \<Rightarrow> 'a result) \<Rightarrow> 'a result" where
  "read_set st db key absent f =
     (case lookup st db key of None \<Rightarrow> Ok absent | Some (Set s) \<Rightarrow> f s | Some _ \<Rightarrow> Err WrongType)"

definition read_hash ::
  "('v, 'i) StorageInner \<Rightarrow> u64 \<Rightarrow> bytes \<Rightarrow> 'a \<Rightarrow> ((bytes, bytes) btree_map \<Rightarrow> 'a result) \<Rightarrow> 'a result" where
  "read_hash st db key absent f =
     (case lookup st db key of None \<Rightarrow> Ok absent | Some (Hash h) \<Rightarrow> f h | Some _ \<Rightarrow> Err WrongType)"

lemma set_readers:
  "smembers st db key = read_set st db key [] Ok"
  "sismember st db key x = read_set st db key False (\<lambda>s. Ok (bs_contains s x))"
  "scard st db key = read_set st db key 0 (\<lambda>s. Ok (length s))"
  "sfirst st db key n = (if n = 0 then Ok [] else read_set st db key [] (\<lambda>s. Ok (take n s)))"
  "slast st db key n = (if n = 0 then Ok [] else read_set st db key [] (\<lambda>s. Ok (take n (rev s))))"
  "snext st db key x n = (if n = 0 then Ok [] else read_set st db key [] (\<lambda>s. Ok (take n (bs_after x s))))"
  "sprev st db key x n = (if n = 0 then Ok [] else read_set st db key [] (\<lambda>s. Ok (take n (rev (bs_before x s)))))"
  "smismember st db key xs = read_set st db key (replicate (length xs) False) (\<lambda>s. Ok (map (bs_contains s) xs))"
  "srandmember R st db key count = read_set st db key [] (\<lambda>s.
     if count = 0 \<or> s = [] then Ok []
     else if count > 0 then Ok (take (min (nat count) (length s)) (rand_shuffle R s))
     else let draws = map (\<lambda>i. rand_choose R i s) [0 ..< nat \<bar>count\<bar>]
          in if None \<in> set draws then Err Panic else Ok (map the draws))"
  by (simp_all add: smembers_def sismember_def scard_def sfirst_def slast_def snext_def sprev_def smismember_def
      srandmember_def read_set_def lookup_def split: option.split)

lemma hash_readers:
  "hget st db key f = read_hash st db key None (\<lambda>h. Ok (bm_get h f))"
  "hmget st db key fs = read_hash st db key (replicate (length fs) None) (\<lambda>h. Ok (map (bm_get h) fs))"
  "hgetall st db key = read_hash st db key [] Ok"
  "hkeys st db key = read_hash st db key [] (\<lambda>h. Ok (bm_keys h))"
  "hvals st db key = read_hash st db key [] (\<lambda>h. Ok (bm_values h))"
  "hlen st db key = read_hash st db key 0 (\<lambda>h. Ok (length h))"
  "hexists st db key f = read_hash st db key False (\<lambda>h. Ok (bm_contains_key h f))"
  "hstrlen st db key f = read_hash st db key 0 (\<lambda>h. Ok (case bm_get h f of Some v \<Rightarrow> length v | None \<Rightarrow> 0))"
  "hfirst st db key n = (if n = 0 then Ok [] else read_hash st db key [] (\<lambda>h. Ok (take n h)))"
  "hlast st db key n = (if n = 0 then Ok [] else read_hash st db key [] (\<lambda>h. Ok (take n (rev h))))"
  "hnext st db key f n = (if n = 0 then Ok [] else read_hash st db key [] (\<lambda>h. Ok (take n (bm_after f h))))"
  "hprev st db key f n = (if n = 0 then Ok [] else read_hash st db key [] (\<lambda>h. Ok (take n (rev (bm_before f h)))))"
  by (simp_all add: hget_def hmget_def hgetall_def hkeys_def hvals_def hlen_def hexists_def hstrlen_def hfirst_def
      hlast_def hnext_def hprev_def read_hash_def lookup_def split: option.split)

lemma hrandfield_reader:
  "hrandfield R st db key count ws = read_hash st db key [] (\<lambda>h.
     let pick = (\<lambda>(f, v). (f, if ws then Some v else None))
     in if h = [] then Ok []
        else if count = 1 then (case rand_choose R 0 h of Some fv \<Rightarrow> Ok [pick fv] | None \<Rightarrow> Ok [])
        else if count > 1 then Ok (map pick (rand_sample R (min (nat count) (length h)) h))
        else if count < 0 then Ok (map pick (List.map_filter (\<lambda>i. rand_choose R i h) [0 ..< nat (- count)]))
        else Ok [])"
  by (simp add: hrandfield_def read_hash_def lookup_def Let_def split: option.split)

lemma read_same:
  assumes "same_keyspace S V I V' I' st st'"
  shows "read_set st db key a f = read_set st' db key a f" "read_hash st db key a' g = read_hash st' db key a' g"
    "get st db key = get st' db key"
    "(\<And>z y. entries z = entries y \<Longrightarrow> k z = k' y) \<Longrightarrow> zset_read st db key a'' k = zset_read st' db key a'' k'"
  using same_lookup [OF assms, of db key]
  by (auto simp: read_set_def read_hash_def get_def zset_read_lookup lookup_def [symmetric] elim!: option.rel_cases same_value.elims)

lemma same_db_entry:
  assumes "same_keyspace S V I V' I' st st'"
  shows "rel_option (same_value V V') (bm_get (db_entry st db) k) (bm_get (db_entry st' db) k)"
  using same_lookup [OF assms] by (simp add: lookup_entry)

lemma set_loops_same:
  assumes "\<And>k. rel_option (same_value V V') (bm_get m k) (bm_get m' k)"
  shows "union_loop m ks acc = union_loop m' ks acc" "inter_loop m ks acc = inter_loop m' ks acc"
    "diff_loop m ks acc = diff_loop m' ks acc" "first_operand m k = first_operand m' k"
proof (induction ks arbitrary: acc)
  case (Cons j ks)
  { case 1 show ?case using Cons(1) assms [of j] by (auto elim!: option.rel_cases same_value.elims) }
  { case 2 show ?case using Cons(2) assms [of j] by (auto elim!: option.rel_cases same_value.elims) }
  { case 3 show ?case using Cons(3) assms [of j] by (auto elim!: option.rel_cases same_value.elims) }
qed (use assms [of k] in \<open>auto simp: first_operand_def elim!: option.rel_cases same_value.elims\<close>)

lemma absent_loops:
  "union_loop [] ks acc = Ok acc" "diff_loop [] ks acc = Ok acc" "inter_loop [] ks [] = Ok []" "first_operand [] k = Ok []"
  by (induction ks) (auto simp: first_operand_def)

lemma set_operations:
  "sunion st db ks = union_loop (db_entry st db) ks []"
  "sinter st db (k # ks) =
     (case first_operand (db_entry st db) k of Inl e \<Rightarrow> Err e | Inr s0 \<Rightarrow> inter_loop (db_entry st db) ks s0)"
  "sdiff st db (k # ks) =
     (case first_operand (db_entry st db) k of Inl e \<Rightarrow> Err e | Inr s0 \<Rightarrow> diff_loop (db_entry st db) ks s0)"
  "sintercard st db ks = map_sum id length (sinter st db ks)"
  by (auto simp: sunion_def sinter_def sdiff_def sintercard_def db_entry_def absent_loops split: option.split sum.split list.split)

lemma operations_same:
  assumes "same_keyspace S V I V' I' st st'"
  shows "sunion st db ks = sunion st' db ks" "sinter st db ks = sinter st' db ks" "sdiff st db ks = sdiff st' db ks"
    "sintercard st db ks = sintercard st' db ks"
proof -
  note l = set_loops_same [OF same_db_entry [OF assms]]
  show "sunion st db ks = sunion st' db ks" using l(1) by (simp add: set_operations)
  show i: "sinter st db ks = sinter st' db ks"
    by (cases ks) (simp_all add: sinter_def [of _ _ "[]"] set_operations(2) l(2,4) cong: sum.case_cong)
  show "sdiff st db ks = sdiff st' db ks"
    by (cases ks) (simp_all add: sdiff_def [of _ _ "[]"] set_operations(3) l(3,4) cong: sum.case_cong)
  show "sintercard st db ks = sintercard st' db ks" using i by (simp add: set_operations(4))
qed

lemma db_entry_keys: "set (map fst (db_entry st db)) = {k. lookup st db k \<noteq> None}"
  by (auto simp: lookup_entry bm_get_def map_of_eq_None_iff simp del: not_None_eq)

lemma keys_same:
  assumes "same_keyspace S V I V' I' st st'"
  shows "map fst (db_entry st db) = map fst (db_entry st' db)"
proof (rule sorted_distinct_set_unique)
  have "db_ok S I (db_entry st db)" "db_ok S I' (db_entry st' db)"
    using assms db_ok_entry by (auto simp: same_keyspace_def)
  then show "sorted (map fst (db_entry st db))" "distinct (map fst (db_entry st db))"
    "sorted (map fst (db_entry st' db))" "distinct (map fst (db_entry st' db))"
    by (auto simp: db_ok_def bm_sorted_def strict_sorted_iff)
  have "lookup st db k \<noteq> None \<longleftrightarrow> lookup st' db k \<noteq> None" for k
    using same_lookup [OF assms, of db k] by (auto elim!: option.rel_cases)
  then show "set (map fst (db_entry st db)) = set (map fst (db_entry st' db))" by (simp only: db_entry_keys)
qed

lemma key_readers:
  "first st db n = take n (map fst (db_entry st db))"
  "last_cmd st db n = take n (rev (map fst (db_entry st db)))"
  "next_cmd st db k n = take n (filter (\<lambda>j. k < j) (map fst (db_entry st db)))"
  "prev st db k n = take n (rev (filter (\<lambda>j. j < k) (map fst (db_entry st db))))"
  by (auto simp: first_def last_cmd_def next_cmd_def prev_def db_entry_def bm_after_eq bm_before_eq take_map rev_map
      filter_map comp_def split: option.split)

lemma lists_same:
  assumes "same_keyspace S V I V' I' st st'"
  shows "llen V st db key = llen V' st' db key" "lrange V st db key i j = lrange V' st' db key i j"
proof -
  have b: "im_vector V" "im_vector V'" "abs_storage V st db key = abs_storage V' st' db key"
    using assms by (auto simp: same_keyspace_def backend_def)
  show "llen V st db key = llen V' st' db key" using b by (simp add: im_vector.llen_refines)
  show "lrange V st db key i j = lrange V' st' db key i j"
    using b by (simp add: im_vector.lrange_refines)
qed

lemma zsets_same:
  assumes "same_keyspace S V I V' I' st st'"
  shows "zscore st db key x = zscore st' db key x" "zcard st db key = zcard st' db key"
    "zrank I st db key x = zrank I' st' db key x" "zrevrank I st db key x = zrevrank I' st' db key x"
    "zcount I st db key lo hi = zcount I' st' db key lo hi"
    "zfirst st db key n = zfirst st' db key n" "zlast st db key n = zlast st' db key n"
    "znext st db key x n = znext st' db key x n" "zprev st db key x n = zprev st' db key x n"
proof -
  have b: "index_set S I" "index_set S I'" "abs_storage V st db key = abs_storage V' st' db key"
    "storage_ok S I st" "storage_ok S I' st'"
    using assms by (auto simp: same_keyspace_def backend_def)
  note z = read_same(4) [OF assms]
  show "zscore st db key x = zscore st' db key x" "zcard st db key = zcard st' db key"
    "zrank I st db key x = zrank I' st' db key x" "zrevrank I st db key x = zrevrank I' st' db key x"
    "zcount I st db key lo hi = zcount I' st' db key lo hi"
    using b(3) index_set.zscore_abs [OF b(1,4), of db key x V] index_set.zscore_abs [OF b(2,5), of db key x V']
      index_set.zcard_abs [OF b(1,4), of db key V] index_set.zcard_abs [OF b(2,5), of db key V']
      index_set.zrank_abs [OF b(1,4), of db key x V] index_set.zrank_abs [OF b(2,5), of db key x V']
      index_set.zrevrank_abs [OF b(1,4), of db key x V] index_set.zrevrank_abs [OF b(2,5), of db key x V']
      index_set.zcount_abs [OF b(1,4), of db key lo hi V] index_set.zcount_abs [OF b(2,5), of db key lo hi V']
    by simp_all
  show "zfirst st db key n = zfirst st' db key n" "zlast st db key n = zlast st' db key n"
    "znext st db key x n = znext st' db key x n" "zprev st db key x n = zprev st' db key x n"
    by (auto simp: zfirst_def zlast_def znext_def zprev_def intro!: z)
qed

lemma ranking_of:
  assumes "index_set S I" "storage_ok S I st" "abs_storage V st db key = Some (AZSet m)"
  shows "\<exists>ps. z_ranking S m ps"
proof -
  obtain z where l: "lookup st db key = Some (ZSet z)" and m: "m = bm_get (entries z)"
    using assms(3) by (auto simp: abs_storage_def elim: abs_value.elims)
  have "zset_ok S I z" using value_ok_lookup [OF assms(2) l] by simp
  then show ?thesis using index_set.z_ranking_index [OF assms(1)] m by blast
qed

lemma zranges_same:
  assumes "same_keyspace S V I V' I' st st'"
  shows "zrange I st db key i j ws = zrange I' st' db key i j ws"
    "sc_le S lo hi \<Longrightarrow> zrangebyscore S I st db key lo hi ws = zrangebyscore S I' st' db key lo hi ws"
proof -
  have b: "index_set S I" "index_set S I'" "abs_storage V st db key = abs_storage V' st' db key"
    "storage_ok S I st" "storage_ok S I' st'"
    using assms by (auto simp: same_keyspace_def backend_def)
  have "zrange I st db key i j ws = zrange I' st' db key i j ws \<and>
    (sc_le S lo hi \<longrightarrow> zrangebyscore S I st db key lo hi ws = zrangebyscore S I' st' db key lo hi ws)"
  proof (cases "\<exists>m. abs_storage V st db key = Some (AZSet m)")
    case True
    then obtain m ps where m: "abs_storage V st db key = Some (AZSet m)" "z_ranking S m ps"
      using ranking_of [OF b(1,4)] by blast
    then show ?thesis
      using b(3) index_set.zrange_abs [OF b(1,4) m] index_set.zrange_abs [OF b(2,5) _ m(2), of V']
        index_set.zrangebyscore_abs [OF b(1,4) m] index_set.zrangebyscore_abs [OF b(2,5) _ m(2), of V'] by simp
  next
    case False
    then have "\<nexists>z. lookup st db key = Some (ZSet z)" by (auto simp: abs_storage_def)
    then show ?thesis using same_lookup [OF assms, of db key]
      by (auto simp: zrange_def zrangebyscore_def zset_read_lookup elim!: option.rel_cases same_value.elims)
  qed
  then show "zrange I st db key i j ws = zrange I' st' db key i j ws"
    "sc_le S lo hi \<Longrightarrow> zrangebyscore S I st db key lo hi ws = zrangebyscore S I' st' db key lo hi ws" by blast+
qed

lemmas read_handler_defs =
  handle_get_def handle_first_def handle_last_def handle_next_def handle_prev_def
  handle_smembers_def handle_sismember_def handle_scard_def handle_sfirst_def handle_slast_def
  handle_snext_def handle_sprev_def handle_smismember_def handle_srandmember_def handle_sunion_def
  handle_sinter_def handle_sdiff_def handle_sintercard_def handle_llen_def handle_lrange_def
  handle_hget_def handle_hmget_def handle_hgetall_def handle_hkeys_def handle_hvals_def
  handle_hlen_def handle_hexists_def handle_hfirst_def handle_hlast_def handle_hnext_def
  handle_hprev_def handle_hstrlen_def handle_hrandfield_def handle_zscore_def handle_zcard_def
  handle_zrange_def handle_zrangebyscore_def handle_zrank_def handle_zrevrank_def handle_zcount_def
  handle_zfirst_def handle_zlast_def handle_znext_def handle_zprev_def

text \<open>The one read with a range that may be inverted.\<close>

definition read_args_ok :: "score_ops \<Rightarrow> 't rustler \<Rightarrow> atom \<Rightarrow> 't list \<Rightarrow> bool" where
  "read_args_ok S D cmd_atom args \<longleftrightarrow>
     (cmd_atom = ''zrangebyscore'' \<and> length args = 4 \<longrightarrow>
        (case (dec_f64 D (args ! 1), dec_f64 D (args ! 2)) of (Some lo, Some hi) \<Rightarrow> sc_le S lo hi | _ \<Rightarrow> True))"

definition read_ok :: "score_ops \<Rightarrow> 't rustler \<Rightarrow> 't \<Rightarrow> bool" where
  "read_ok S D t =
     (case get_tuple D t of
        Some (name # args) \<Rightarrow> (case dec_atom D name of Some a \<Rightarrow> read_args_ok S D a args | None \<Rightarrow> True)
      | _ \<Rightarrow> True)"

lemma zrangebyscore_same:
  assumes "same_keyspace S V I V' I' st st'" "read_args_ok S D ''zrangebyscore'' args"
  shows "handle_zrangebyscore D E S I st db args = handle_zrangebyscore D E S I' st' db args"
  using assms(2) zranges_same(2) [OF assms(1)]
  by (auto simp: handle_zrangebyscore_def read_args_ok_def split: option.splits)

lemma dispatch_same:
  assumes "same_keyspace S V I V' I' st st'" "read_args_ok S D cmd_atom args"
  shows "dispatch_read_command D E V S I R RH st db cmd_atom args = dispatch_read_command D E V' S I' R RH st' db cmd_atom args"
proof -
  note same = read_same(1,2,3) [OF assms(1)] operations_same [OF assms(1)] keys_same [OF assms(1)] lists_same [OF assms(1)]
    zsets_same [OF assms(1)] zranges_same(1) [OF assms(1)]
  show ?thesis
  proof (cases "cmd_atom = ''zrangebyscore''")
    case True
    then show ?thesis using zrangebyscore_same [OF assms(1)] assms(2) by (simp add: dispatch_read_command_def)
  next
    case False
    then show ?thesis
      by (simp only: dispatch_read_command_def read_handler_defs set_readers hash_readers hrandfield_reader key_readers same if_False)
  qed
qed

lemma read_execute_same:
  assumes "same_keyspace S V I V' I' st st'" "read_ok S D t"
  shows "read_execute D E V S I R RH st db t = read_execute D E V' S I' R RH st' db t"
proof (cases "get_tuple D t")
  case (Some ts)
  show ?thesis
  proof (cases ts)
    case (Cons name args)
    then show ?thesis using Some assms(2)
      by (cases "dec_atom D name") (simp_all add: read_execute_def read_ok_def dispatch_same [OF assms(1)])
  qed (use Some in \<open>simp add: read_execute_def\<close>)
qed (simp add: read_execute_def)

lemma execute_reads_same:
  assumes "same_keyspace S V I V' I' st st'" "list_all (read_ok S D) ts"
  shows "execute_read_commands D E V S I R RH st db ts = execute_read_commands D E V' S I' R RH st' db ts"
proof -
  have "map (\<lambda>(i, t). read_execute D E V S I (R i) (RH i) st db t) (enumerate 0 ts) =
      map (\<lambda>(i, t). read_execute D E V' S I' (R i) (RH i) st' db t) (enumerate 0 ts)"
    using assms(2) by (auto simp: list_all_iff in_set_enumerate_eq read_execute_same [OF assms(1)])
  then show ?thesis by (simp only: execute_read_commands_def)
qed

section \<open>Reads do not panic\<close>

lemma answer_panics [simp]: "answer E r f = Inl Panicked \<longleftrightarrow> r = Err Panic"
  by (cases r) (auto simp: answer_def)

lemma read_calm:
  "read_set st db key a f = Err Panic \<longleftrightarrow> (\<exists>s. lookup st db key = Some (Set s) \<and> f s = Err Panic)"
  "read_hash st db key a' g = Err Panic \<longleftrightarrow> (\<exists>h. lookup st db key = Some (Hash h) \<and> g h = Err Panic)"
  by (auto simp: read_set_def read_hash_def split: option.split StorageValue.split)

lemma set_loops_calm:
  "union_loop m ks acc \<noteq> Err Panic" "inter_loop m ks acc \<noteq> Err Panic" "diff_loop m ks acc \<noteq> Err Panic"
  "first_operand m k \<noteq> Err Panic"
  by (induction ks arbitrary: acc) (auto simp: first_operand_def split: option.split StorageValue.split)

lemma operations_calm:
  "sunion st db ks \<noteq> Err Panic" "sinter st db ks \<noteq> Err Panic" "sdiff st db ks \<noteq> Err Panic" "sintercard st db ks \<noteq> Err Panic"
proof -
  show "sunion st db ks \<noteq> Err Panic" by (simp add: set_operations set_loops_calm)
  show i: "sinter st db ks \<noteq> Err Panic"
    by (cases ks) (auto simp: set_loops_calm sinter_def [of _ _ "[]"] set_operations(2) split: sum.split)
  show "sdiff st db ks \<noteq> Err Panic"
    by (cases ks) (auto simp: set_loops_calm sdiff_def [of _ _ "[]"] set_operations(3) split: sum.split)
  show "sintercard st db ks \<noteq> Err Panic" using i by (cases "sinter st db ks") (auto simp: set_operations(4))
qed

lemma srandmember_calm: "rand_source R \<Longrightarrow> srandmember R st db key count \<noteq> Err Panic"
  using rand_source.sample_draws(1) [of R count] by (auto simp: set_readers(9) read_calm Let_def not_less)

lemma hrandfield_calm: "hrandfield R st db key count ws \<noteq> Err Panic"
  by (simp add: hrandfield_reader read_calm Let_def split: option.split)

lemma lists_calm: "im_vector V \<Longrightarrow> llen V st db key \<noteq> Err Panic \<and> lrange V st db key i j \<noteq> Err Panic"
  by (auto simp: im_vector.llen_refines im_vector.lrange_refines split: option.split avalue.split)

lemma zsets_calm:
  fixes V :: "'v vec_ops" and st :: "('v, 'i) StorageInner"
  assumes "backend V S I" "storage_ok S I st"
  shows "zscore st db key x \<noteq> Err Panic" "zcard st db key \<noteq> Err Panic"
    "zrank I st db key x \<noteq> Err Panic" "zrevrank I st db key x \<noteq> Err Panic" "zcount I st db key lo hi \<noteq> Err Panic"
    "zfirst st db key n \<noteq> Err Panic" "zlast st db key n \<noteq> Err Panic" "znext st db key x n \<noteq> Err Panic"
    "zprev st db key x n \<noteq> Err Panic"
proof -
  have i: "index_set S I" using assms(1) by (simp add: backend_def)
  show "zscore st db key x \<noteq> Err Panic" "zcard st db key \<noteq> Err Panic" "zfirst st db key n \<noteq> Err Panic"
    "zlast st db key n \<noteq> Err Panic" "znext st db key x n \<noteq> Err Panic" "zprev st db key x n \<noteq> Err Panic"
    by (auto simp: zscore_def zcard_def zfirst_def zlast_def znext_def zprev_def zset_read_lookup split: option.split StorageValue.split)
  show "zrank I st db key x \<noteq> Err Panic" "zrevrank I st db key x \<noteq> Err Panic" "zcount I st db key lo hi \<noteq> Err Panic"
    by (auto simp: index_set.zrank_abs [OF i assms(2), where V = V] index_set.zrevrank_abs [OF i assms(2), where V = V]
        index_set.zcount_abs [OF i assms(2), where V = V] split: option.split avalue.split)
qed

lemma zranges_calm:
  fixes V :: "'v vec_ops" and st :: "('v, 'i) StorageInner"
  assumes "backend V S I" "storage_ok S I st"
  shows "zrange I st db key i j ws \<noteq> Err Panic" "sc_le S lo hi \<Longrightarrow> zrangebyscore S I st db key lo hi ws \<noteq> Err Panic"
proof -
  have i: "index_set S I" using assms(1) by (simp add: backend_def)
  have "zrange I st db key i j ws \<noteq> Err Panic \<and> (sc_le S lo hi \<longrightarrow> zrangebyscore S I st db key lo hi ws \<noteq> Err Panic)"
  proof (cases "\<exists>m. abs_storage V st db key = Some (AZSet m)")
    case True
    then obtain m ps where m: "abs_storage V st db key = Some (AZSet m)" "z_ranking S m ps"
      using ranking_of [OF i assms(2)] by blast
    then show ?thesis using index_set.zrange_abs [OF i assms(2) m] index_set.zrangebyscore_abs [OF i assms(2) m] by simp
  next
    case False
    then have "\<nexists>z. lookup st db key = Some (ZSet z)" by (auto simp: abs_storage_def)
    then show ?thesis by (auto simp: zrange_def zrangebyscore_def zset_read_lookup split: option.split StorageValue.split)
  qed
  then show "zrange I st db key i j ws \<noteq> Err Panic" "sc_le S lo hi \<Longrightarrow> zrangebyscore S I st db key lo hi ws \<noteq> Err Panic" by blast+
qed

lemma get_calm: "get st db key \<noteq> Err Panic"
  by (simp add: get_def split: option.split StorageValue.split)

lemma handlers_calm:
  fixes V :: "'v vec_ops" and st :: "('v, 'i) StorageInner"
  assumes "backend V S I" "storage_ok S I st" "rand_source R"
  shows
    "handle_get D E st db args \<noteq> Inl Panicked"
    "handle_first D E st db args \<noteq> Inl Panicked"
    "handle_last D E st db args \<noteq> Inl Panicked"
    "handle_next D E st db args \<noteq> Inl Panicked"
    "handle_prev D E st db args \<noteq> Inl Panicked"
    "handle_smembers D E st db args \<noteq> Inl Panicked"
    "handle_sismember D E st db args \<noteq> Inl Panicked"
    "handle_scard D E st db args \<noteq> Inl Panicked"
    "handle_sfirst D E st db args \<noteq> Inl Panicked"
    "handle_slast D E st db args \<noteq> Inl Panicked"
    "handle_snext D E st db args \<noteq> Inl Panicked"
    "handle_sprev D E st db args \<noteq> Inl Panicked"
    "handle_smismember D E st db args \<noteq> Inl Panicked"
    "handle_srandmember D E R st db args \<noteq> Inl Panicked"
    "handle_sunion D E st db args \<noteq> Inl Panicked"
    "handle_sinter D E st db args \<noteq> Inl Panicked"
    "handle_sdiff D E st db args \<noteq> Inl Panicked"
    "handle_sintercard D E st db args \<noteq> Inl Panicked"
    "handle_llen D E V st db args \<noteq> Inl Panicked"
    "handle_lrange D E V st db args \<noteq> Inl Panicked"
    "handle_hget D E st db args \<noteq> Inl Panicked"
    "handle_hmget D E st db args \<noteq> Inl Panicked"
    "handle_hgetall D E st db args \<noteq> Inl Panicked"
    "handle_hkeys D E st db args \<noteq> Inl Panicked"
    "handle_hvals D E st db args \<noteq> Inl Panicked"
    "handle_hlen D E st db args \<noteq> Inl Panicked"
    "handle_hexists D E st db args \<noteq> Inl Panicked"
    "handle_hfirst D E st db args \<noteq> Inl Panicked"
    "handle_hlast D E st db args \<noteq> Inl Panicked"
    "handle_hnext D E st db args \<noteq> Inl Panicked"
    "handle_hprev D E st db args \<noteq> Inl Panicked"
    "handle_hstrlen D E st db args \<noteq> Inl Panicked"
    "handle_hrandfield D E RH st db args \<noteq> Inl Panicked"
    "handle_zscore D E st db args \<noteq> Inl Panicked"
    "handle_zcard D E st db args \<noteq> Inl Panicked"
    "handle_zrange D E I st db args \<noteq> Inl Panicked"
    "handle_zrank D E I st db args \<noteq> Inl Panicked"
    "handle_zrevrank D E I st db args \<noteq> Inl Panicked"
    "handle_zcount D E I st db args \<noteq> Inl Panicked"
    "handle_zfirst D E st db args \<noteq> Inl Panicked"
    "handle_zlast D E st db args \<noteq> Inl Panicked"
    "handle_znext D E st db args \<noteq> Inl Panicked"
    "handle_zprev D E st db args \<noteq> Inl Panicked"
    "read_args_ok S D ''zrangebyscore'' args \<Longrightarrow> handle_zrangebyscore D E S I st db args \<noteq> Inl Panicked"
proof -
  have v: "im_vector V" using assms(1) by (simp add: backend_def)
  note calm = get_calm read_calm operations_calm srandmember_calm [OF assms(3)] hrandfield_calm lists_calm [OF v]
    zsets_calm [OF assms(1,2)] zranges_calm [OF assms(1,2)]
  show
    "handle_get D E st db args \<noteq> Inl Panicked"
    "handle_first D E st db args \<noteq> Inl Panicked"
    "handle_last D E st db args \<noteq> Inl Panicked"
    "handle_next D E st db args \<noteq> Inl Panicked"
    "handle_prev D E st db args \<noteq> Inl Panicked"
    "handle_smembers D E st db args \<noteq> Inl Panicked"
    "handle_sismember D E st db args \<noteq> Inl Panicked"
    "handle_scard D E st db args \<noteq> Inl Panicked"
    "handle_sfirst D E st db args \<noteq> Inl Panicked"
    "handle_slast D E st db args \<noteq> Inl Panicked"
    "handle_snext D E st db args \<noteq> Inl Panicked"
    "handle_sprev D E st db args \<noteq> Inl Panicked"
    "handle_smismember D E st db args \<noteq> Inl Panicked"
    "handle_srandmember D E R st db args \<noteq> Inl Panicked"
    "handle_sunion D E st db args \<noteq> Inl Panicked"
    "handle_sinter D E st db args \<noteq> Inl Panicked"
    "handle_sdiff D E st db args \<noteq> Inl Panicked"
    "handle_sintercard D E st db args \<noteq> Inl Panicked"
    "handle_llen D E V st db args \<noteq> Inl Panicked"
    "handle_lrange D E V st db args \<noteq> Inl Panicked"
    "handle_hget D E st db args \<noteq> Inl Panicked"
    "handle_hmget D E st db args \<noteq> Inl Panicked"
    "handle_hgetall D E st db args \<noteq> Inl Panicked"
    "handle_hkeys D E st db args \<noteq> Inl Panicked"
    "handle_hvals D E st db args \<noteq> Inl Panicked"
    "handle_hlen D E st db args \<noteq> Inl Panicked"
    "handle_hexists D E st db args \<noteq> Inl Panicked"
    "handle_hfirst D E st db args \<noteq> Inl Panicked"
    "handle_hlast D E st db args \<noteq> Inl Panicked"
    "handle_hnext D E st db args \<noteq> Inl Panicked"
    "handle_hprev D E st db args \<noteq> Inl Panicked"
    "handle_hstrlen D E st db args \<noteq> Inl Panicked"
    "handle_hrandfield D E RH st db args \<noteq> Inl Panicked"
    "handle_zscore D E st db args \<noteq> Inl Panicked"
    "handle_zcard D E st db args \<noteq> Inl Panicked"
    "handle_zrange D E I st db args \<noteq> Inl Panicked"
    "handle_zrank D E I st db args \<noteq> Inl Panicked"
    "handle_zrevrank D E I st db args \<noteq> Inl Panicked"
    "handle_zcount D E I st db args \<noteq> Inl Panicked"
    "handle_zfirst D E st db args \<noteq> Inl Panicked"
    "handle_zlast D E st db args \<noteq> Inl Panicked"
    "handle_znext D E st db args \<noteq> Inl Panicked"
    "handle_zprev D E st db args \<noteq> Inl Panicked"
    by (simp_all add: read_handler_defs calm set_readers(1-8) hash_readers split: option.split)
  show "read_args_ok S D ''zrangebyscore'' args \<Longrightarrow> handle_zrangebyscore D E S I st db args \<noteq> Inl Panicked"
    by (auto simp: handle_zrangebyscore_def read_args_ok_def calm split: option.splits)
qed

lemma dispatch_calm:
  fixes V :: "'v vec_ops" and st :: "('v, 'i) StorageInner"
  assumes "backend V S I" "storage_ok S I st" "rand_source R" "read_args_ok S D cmd_atom args"
  shows "dispatch_read_command D E V S I R RH st db cmd_atom args \<noteq> Inl Panicked"
proof (cases "cmd_atom = ''zrangebyscore''")
  case True
  then show ?thesis using assms(4) handlers_calm(44) [OF assms(1-3)] by (simp add: dispatch_read_command_def)
qed (simp add: dispatch_read_command_def handlers_calm(1-43) [OF assms(1-3)])

lemma read_execute_calm:
  fixes V :: "'v vec_ops" and st :: "('v, 'i) StorageInner"
  assumes "backend V S I" "storage_ok S I st" "rand_source R" "read_ok S D t"
  shows "read_execute D E V S I R RH st db t \<noteq> None"
proof (cases "get_tuple D t")
  case (Some ts)
  show ?thesis
  proof (cases ts)
    case (Cons name args)
    show ?thesis
    proof (cases "dec_atom D name")
      case (Some a)
      have "read_args_ok S D a args" using assms(4) \<open>get_tuple D t = Some ts\<close> Cons Some by (simp add: read_ok_def)
      from dispatch_calm [OF assms(1-3) this, of E RH db] show ?thesis
        using \<open>get_tuple D t = Some ts\<close> Cons Some by (auto simp: read_execute_def split: sum.split read_error.split)
    qed (use Some Cons in \<open>simp add: read_execute_def\<close>)
  qed (use Some in \<open>simp add: read_execute_def\<close>)
qed (simp add: read_execute_def)

lemma those_calm: "None \<notin> set xs \<Longrightarrow> those xs \<noteq> None"
proof (induction xs)
  case (Cons x xs)
  then show ?case by (cases x) auto
qed simp

lemma execute_reads_calm:
  fixes V :: "'v vec_ops" and st :: "('v, 'i) StorageInner"
  assumes "backend V S I" "storage_ok S I st" "\<forall>i. rand_source (R i)" "list_all (read_ok S D) ts"
  shows "execute_read_commands D E V S I R RH st db ts \<noteq> None"
proof -
  have "read_execute D E V S I (R i) (RH i) st db t \<noteq> None" if "t \<in> set ts" for i t
    by (rule read_execute_calm [OF assms(1,2)]) (use assms(3,4) that in \<open>auto simp: list_all_iff\<close>)
  moreover have "snd p \<in> set ts" if "p \<in> set (enumerate 0 ts)" for p
    using that nth_mem [of "fst p" ts] by (simp add: in_set_enumerate_eq)
  ultimately have "\<forall>p \<in> set (enumerate 0 ts). read_execute D E V S I (R (fst p)) (RH (fst p)) st db (snd p) \<noteq> None"
    by blast
  then have "None \<notin> set (map (\<lambda>(i, t). read_execute D E V S I (R i) (RH i) st db t) (enumerate 0 ts))"
    by (metis (no_types, lifting) case_prod_beta imageE set_map)
  from those_calm [OF this] show ?thesis by (simp add: execute_read_commands_def)
qed

text \<open>The encoding into the terms of \<open>erlang\<close>.\<close>

definition erlang_encoder :: "eterm encoder" where
  "erlang_encoder =
     \<lparr>enc_atom = E_atom, enc_bool = (\<lambda>b. E_atom (if b then ''true'' else ''false'')), enc_usize = (\<lambda>n. E_int (int n)),
      enc_f64 = E_float, enc_binary = E_bin, enc_str = (\<lambda>s. E_bin (map of_char s)), enc_list = E_list, enc_tuple = E_tuple\<rparr>"

end
