(* ===== verification/Lua.thy ===== *)
theory Lua
  imports Reads
begin

text \<open>
  storage/lua.rs and the Lua NIFs of lib.rs: the functions \<open>ts.*\<close> that a read script calls, the transaction that runs a
  script, and the conversion of its result into an Erlang term. The interpreter (mlua) is not part of the repository:
  how it runs a script is an argument of the definitions, and so are its conversions between Lua and Rust values
  (\<open>lua_conv\<close>). A table is a reference into a heap of tables, each a list of its keys and values in the order in which
  the interpreter iterates over them; tables have no metatables.
\<close>

section \<open>Lua values\<close>

datatype storage_ptr = NullPtr | ThisStorage

datatype LuaValue =
    LNil
  | LBool bool
  | LLight storage_ptr
  | LInteger i64
  | LNumber f64
  | LString bytes
  | LTable nat
  | LOther

type_synonym lua_entries = "(LuaValue \<times> LuaValue) list"

type_synonym lua_heap = "lua_entries list"

record lua_conv =
  from_string :: "LuaValue \<Rightarrow> bytes option"
  from_usize :: "LuaValue \<Rightarrow> usize option"
  from_u64 :: "LuaValue \<Rightarrow> u64 option"
  from_i64 :: "LuaValue \<Rightarrow> i64 option"
  from_f64 :: "LuaValue \<Rightarrow> f64 option"
  from_bool :: "LuaValue \<Rightarrow> bool option"
  into_u64 :: "u64 \<Rightarrow> LuaValue"
  table_len :: "lua_entries \<Rightarrow> nat"

definition from_table :: "LuaValue \<Rightarrow> nat option" where
  "from_table v = (case v of LTable t \<Rightarrow> Some t | _ \<Rightarrow> None)"

text \<open>An argument a script leaves out is nil.\<close>

definition lua_arg :: "LuaValue list \<Rightarrow> nat \<Rightarrow> LuaValue" where
  "lua_arg args i = (if i < length args then args ! i else LNil)"

text \<open>The loop over \<open>pairs::<i64, mlua::String>()\<close>.\<close>

fun table_strings :: "lua_conv \<Rightarrow> lua_entries \<Rightarrow> bytes list option" where
  "table_strings L [] = Some []"
| "table_strings L ((k, v) # es) =
     (case (from_i64 L k, from_string L v) of
        (Some _, Some s) \<Rightarrow> map_option ((#) s) (table_strings L es)
      | _ \<Rightarrow> None)"

section \<open>Building tables\<close>

text \<open>A table with the values at 1, 2, ...; setting a key to nil leaves it out.\<close>

definition lua_seq :: "LuaValue list \<Rightarrow> lua_entries" where
  "lua_seq vs = filter (\<lambda>(k, v). v \<noteq> LNil) (zip (map (\<lambda>i. LInteger (int i)) [1 ..< Suc (length vs)]) vs)"

definition new_table :: "lua_entries \<Rightarrow> lua_heap \<Rightarrow> LuaValue \<times> lua_heap" where
  "new_table es heap = (LTable (length heap), heap @ [es])"

text \<open>
  The loops that fill a table: an element is a value, or a row that gets a table of its own. The outer table is created
  first, then the rows in their order; \<open>place\<close> counts the tables.
\<close>

fun place :: "nat \<Rightarrow> (LuaValue + LuaValue list) list \<Rightarrow> LuaValue list \<times> lua_heap" where
  "place n [] = ([], [])"
| "place n (Inl v # xs) = (case place n xs of (vs, ts) \<Rightarrow> (v # vs, ts))"
| "place n (Inr row # xs) = (case place (Suc n) xs of (vs, ts) \<Rightarrow> (LTable n # vs, lua_seq row # ts))"

definition build :: "(LuaValue + LuaValue list) list \<Rightarrow> lua_heap \<Rightarrow> LuaValue \<times> lua_heap" where
  "build xs heap = (case place (Suc (length heap)) xs of (vs, ts) \<Rightarrow> (LTable (length heap), heap @ lua_seq vs # ts))"

definition lua_option :: "('a \<Rightarrow> LuaValue) \<Rightarrow> 'a option \<Rightarrow> LuaValue" where
  "lua_option f v = (case v of Some x \<Rightarrow> f x | None \<Rightarrow> LNil)"

text \<open>The cast of a \<open>usize\<close> to an \<open>i64\<close>.\<close>

definition as_i64 :: "usize \<Rightarrow> i64" where
  "as_i64 n = (if n < 2 ^ 63 then int n else int n - 2 ^ 64)"

section \<open>The functions of a script\<close>

text \<open>The globals the transaction sets. Reading through the null pointer has no defined behaviour.\<close>

record lua_globals =
  g_db :: LuaValue
  g_storage_ptr :: LuaValue

datatype lua_error = BadConversion | NullDeref | Panicking | RuntimeError rerr

type_synonym lua_function = "lua_globals \<Rightarrow> lua_heap \<Rightarrow> LuaValue list \<Rightarrow> (lua_error + LuaValue) \<times> lua_heap"

definition get_tx_ctx :: "lua_conv \<Rightarrow> lua_globals \<Rightarrow> lua_error + u64" where
  "get_tx_ctx L G =
     (case from_u64 L (g_db G) of
        None \<Rightarrow> Inl BadConversion
      | Some db \<Rightarrow>
          (case g_storage_ptr G of
             LLight ThisStorage \<Rightarrow> Inr db
           | LLight NullPtr \<Rightarrow> Inl NullDeref
           | _ \<Rightarrow> Inl BadConversion))"

text \<open>The match on a result of the storage that ends every function.\<close>

definition lua_answer ::
  "'a result \<Rightarrow> lua_heap \<Rightarrow> ('a \<Rightarrow> lua_heap \<Rightarrow> LuaValue \<times> lua_heap) \<Rightarrow> (lua_error + LuaValue) \<times> lua_heap" where
  "lua_answer r heap f =
     (case r of
        Inr x \<Rightarrow> map_prod Inr id (f x heap)
      | Inl e \<Rightarrow> (Inl (if e = Panic then Panicking else RuntimeError e), heap))"

definition ts_get ::
  "lua_conv \<Rightarrow> ('v, 'i) StorageInner \<Rightarrow> lua_function" where
  "ts_get L inner G heap args =
     (case from_string L (lua_arg args 0) of
        Some key \<Rightarrow>
          (case get_tx_ctx L G of
             Inl e \<Rightarrow> (Inl e, heap)
           | Inr db \<Rightarrow> lua_answer (get inner db key) heap (\<lambda>bs. Pair (lua_option LString bs)))
      | None \<Rightarrow> (Inl BadConversion, heap))"

definition ts_first ::
  "lua_conv \<Rightarrow> ('v, 'i) StorageInner \<Rightarrow> lua_function" where
  "ts_first L inner G heap args =
     (case from_usize L (lua_arg args 0) of
        Some count \<Rightarrow>
          (case get_tx_ctx L G of
             Inl e \<Rightarrow> (Inl e, heap)
           | Inr db \<Rightarrow> lua_answer (Ok (first inner db count)) heap (\<lambda>bs. build (map (Inl \<circ> LString) bs)))
      | None \<Rightarrow> (Inl BadConversion, heap))"

definition ts_last ::
  "lua_conv \<Rightarrow> ('v, 'i) StorageInner \<Rightarrow> lua_function" where
  "ts_last L inner G heap args =
     (case from_usize L (lua_arg args 0) of
        Some count \<Rightarrow>
          (case get_tx_ctx L G of
             Inl e \<Rightarrow> (Inl e, heap)
           | Inr db \<Rightarrow> lua_answer (Ok (last_cmd inner db count)) heap (\<lambda>bs. build (map (Inl \<circ> LString) bs)))
      | None \<Rightarrow> (Inl BadConversion, heap))"

definition ts_next ::
  "lua_conv \<Rightarrow> ('v, 'i) StorageInner \<Rightarrow> lua_function" where
  "ts_next L inner G heap args =
     (case (from_string L (lua_arg args 0), from_usize L (lua_arg args 1)) of
        (Some key, Some count) \<Rightarrow>
          (case get_tx_ctx L G of
             Inl e \<Rightarrow> (Inl e, heap)
           | Inr db \<Rightarrow> lua_answer (Ok (next_cmd inner db key count)) heap (\<lambda>bs. build (map (Inl \<circ> LString) bs)))
      | _ \<Rightarrow> (Inl BadConversion, heap))"

definition ts_prev ::
  "lua_conv \<Rightarrow> ('v, 'i) StorageInner \<Rightarrow> lua_function" where
  "ts_prev L inner G heap args =
     (case (from_string L (lua_arg args 0), from_usize L (lua_arg args 1)) of
        (Some key, Some count) \<Rightarrow>
          (case get_tx_ctx L G of
             Inl e \<Rightarrow> (Inl e, heap)
           | Inr db \<Rightarrow> lua_answer (Ok (prev inner db key count)) heap (\<lambda>bs. build (map (Inl \<circ> LString) bs)))
      | _ \<Rightarrow> (Inl BadConversion, heap))"

definition ts_llen ::
  "lua_conv \<Rightarrow> 'v vec_ops \<Rightarrow> ('v, 'i) StorageInner \<Rightarrow> lua_function" where
  "ts_llen L V inner G heap args =
     (case from_string L (lua_arg args 0) of
        Some key \<Rightarrow>
          (case get_tx_ctx L G of
             Inl e \<Rightarrow> (Inl e, heap)
           | Inr db \<Rightarrow> lua_answer (llen V inner db key) heap (\<lambda>bs. Pair (LInteger (as_i64 bs))))
      | None \<Rightarrow> (Inl BadConversion, heap))"

definition ts_lrange ::
  "lua_conv \<Rightarrow> 'v vec_ops \<Rightarrow> ('v, 'i) StorageInner \<Rightarrow> lua_function" where
  "ts_lrange L V inner G heap args =
     (case (from_string L (lua_arg args 0), from_i64 L (lua_arg args 1), from_i64 L (lua_arg args 2)) of
        (Some key, Some start, Some stop) \<Rightarrow>
          (case get_tx_ctx L G of
             Inl e \<Rightarrow> (Inl e, heap)
           | Inr db \<Rightarrow> lua_answer (lrange V inner db key start stop) heap (\<lambda>bs. build (map (Inl \<circ> LString) bs)))
      | _ \<Rightarrow> (Inl BadConversion, heap))"

definition ts_smembers ::
  "lua_conv \<Rightarrow> ('v, 'i) StorageInner \<Rightarrow> lua_function" where
  "ts_smembers L inner G heap args =
     (case from_string L (lua_arg args 0) of
        Some key \<Rightarrow>
          (case get_tx_ctx L G of
             Inl e \<Rightarrow> (Inl e, heap)
           | Inr db \<Rightarrow> lua_answer (smembers inner db key) heap (\<lambda>bs. build (map (Inl \<circ> LString) bs)))
      | None \<Rightarrow> (Inl BadConversion, heap))"

definition ts_sismember ::
  "lua_conv \<Rightarrow> ('v, 'i) StorageInner \<Rightarrow> lua_function" where
  "ts_sismember L inner G heap args =
     (case (from_string L (lua_arg args 0), from_string L (lua_arg args 1)) of
        (Some key, Some member) \<Rightarrow>
          (case get_tx_ctx L G of
             Inl e \<Rightarrow> (Inl e, heap)
           | Inr db \<Rightarrow> lua_answer (sismember inner db key member) heap (\<lambda>bs. Pair (LBool bs)))
      | _ \<Rightarrow> (Inl BadConversion, heap))"

definition ts_scard ::
  "lua_conv \<Rightarrow> ('v, 'i) StorageInner \<Rightarrow> lua_function" where
  "ts_scard L inner G heap args =
     (case from_string L (lua_arg args 0) of
        Some key \<Rightarrow>
          (case get_tx_ctx L G of
             Inl e \<Rightarrow> (Inl e, heap)
           | Inr db \<Rightarrow> lua_answer (scard inner db key) heap (\<lambda>bs. Pair (LInteger (as_i64 bs))))
      | None \<Rightarrow> (Inl BadConversion, heap))"

definition ts_sfirst ::
  "lua_conv \<Rightarrow> ('v, 'i) StorageInner \<Rightarrow> lua_function" where
  "ts_sfirst L inner G heap args =
     (case (from_string L (lua_arg args 0), from_usize L (lua_arg args 1)) of
        (Some key, Some count) \<Rightarrow>
          (case get_tx_ctx L G of
             Inl e \<Rightarrow> (Inl e, heap)
           | Inr db \<Rightarrow> lua_answer (sfirst inner db key count) heap (\<lambda>bs. build (map (Inl \<circ> LString) bs)))
      | _ \<Rightarrow> (Inl BadConversion, heap))"

definition ts_slast ::
  "lua_conv \<Rightarrow> ('v, 'i) StorageInner \<Rightarrow> lua_function" where
  "ts_slast L inner G heap args =
     (case (from_string L (lua_arg args 0), from_usize L (lua_arg args 1)) of
        (Some key, Some count) \<Rightarrow>
          (case get_tx_ctx L G of
             Inl e \<Rightarrow> (Inl e, heap)
           | Inr db \<Rightarrow> lua_answer (slast inner db key count) heap (\<lambda>bs. build (map (Inl \<circ> LString) bs)))
      | _ \<Rightarrow> (Inl BadConversion, heap))"

definition ts_snext ::
  "lua_conv \<Rightarrow> ('v, 'i) StorageInner \<Rightarrow> lua_function" where
  "ts_snext L inner G heap args =
     (case (from_string L (lua_arg args 0), from_string L (lua_arg args 1), from_usize L (lua_arg args 2)) of
        (Some key, Some member, Some count) \<Rightarrow>
          (case get_tx_ctx L G of
             Inl e \<Rightarrow> (Inl e, heap)
           | Inr db \<Rightarrow> lua_answer (snext inner db key member count) heap (\<lambda>bs. build (map (Inl \<circ> LString) bs)))
      | _ \<Rightarrow> (Inl BadConversion, heap))"

definition ts_sprev ::
  "lua_conv \<Rightarrow> ('v, 'i) StorageInner \<Rightarrow> lua_function" where
  "ts_sprev L inner G heap args =
     (case (from_string L (lua_arg args 0), from_string L (lua_arg args 1), from_usize L (lua_arg args 2)) of
        (Some key, Some member, Some count) \<Rightarrow>
          (case get_tx_ctx L G of
             Inl e \<Rightarrow> (Inl e, heap)
           | Inr db \<Rightarrow> lua_answer (sprev inner db key member count) heap (\<lambda>bs. build (map (Inl \<circ> LString) bs)))
      | _ \<Rightarrow> (Inl BadConversion, heap))"

definition ts_smismember ::
  "lua_conv \<Rightarrow> ('v, 'i) StorageInner \<Rightarrow> lua_function" where
  "ts_smismember L inner G heap args =
     (case (from_string L (lua_arg args 0), from_table (lua_arg args 1)) of
        (Some key, Some members) \<Rightarrow>
          (case get_tx_ctx L G of
             Inl e \<Rightarrow> (Inl e, heap)
           | Inr db \<Rightarrow> (case table_strings L (heap ! members) of
                  None \<Rightarrow> (Inl BadConversion, heap)
                | Some members_strings \<Rightarrow> lua_answer (smismember inner db key members_strings) heap (\<lambda>bs. build (map (Inl \<circ> LBool) bs))))
      | _ \<Rightarrow> (Inl BadConversion, heap))"

definition ts_srandmember ::
  "lua_conv \<Rightarrow> bytes rand_ops \<Rightarrow> ('v, 'i) StorageInner \<Rightarrow> lua_function" where
  "ts_srandmember L R inner G heap args =
     (case (from_string L (lua_arg args 0), from_i64 L (lua_arg args 1)) of
        (Some key, Some count) \<Rightarrow>
          (case get_tx_ctx L G of
             Inl e \<Rightarrow> (Inl e, heap)
           | Inr db \<Rightarrow> lua_answer (srandmember R inner db key count) heap (\<lambda>bs. build (map (Inl \<circ> LString) bs)))
      | _ \<Rightarrow> (Inl BadConversion, heap))"

definition ts_sunion ::
  "lua_conv \<Rightarrow> ('v, 'i) StorageInner \<Rightarrow> lua_function" where
  "ts_sunion L inner G heap args =
     (case from_table (lua_arg args 0) of
        Some ks \<Rightarrow>
          (case get_tx_ctx L G of
             Inl e \<Rightarrow> (Inl e, heap)
           | Inr db \<Rightarrow> (case table_strings L (heap ! ks) of
                  None \<Rightarrow> (Inl BadConversion, heap)
                | Some ks_strings \<Rightarrow> lua_answer (sunion inner db ks_strings) heap (\<lambda>bs. build (map (Inl \<circ> LString) bs))))
      | None \<Rightarrow> (Inl BadConversion, heap))"

definition ts_sinter ::
  "lua_conv \<Rightarrow> ('v, 'i) StorageInner \<Rightarrow> lua_function" where
  "ts_sinter L inner G heap args =
     (case from_table (lua_arg args 0) of
        Some ks \<Rightarrow>
          (case get_tx_ctx L G of
             Inl e \<Rightarrow> (Inl e, heap)
           | Inr db \<Rightarrow> (case table_strings L (heap ! ks) of
                  None \<Rightarrow> (Inl BadConversion, heap)
                | Some ks_strings \<Rightarrow> lua_answer (sinter inner db ks_strings) heap (\<lambda>bs. build (map (Inl \<circ> LString) bs))))
      | None \<Rightarrow> (Inl BadConversion, heap))"

definition ts_sdiff ::
  "lua_conv \<Rightarrow> ('v, 'i) StorageInner \<Rightarrow> lua_function" where
  "ts_sdiff L inner G heap args =
     (case from_table (lua_arg args 0) of
        Some ks \<Rightarrow>
          (case get_tx_ctx L G of
             Inl e \<Rightarrow> (Inl e, heap)
           | Inr db \<Rightarrow> (case table_strings L (heap ! ks) of
                  None \<Rightarrow> (Inl BadConversion, heap)
                | Some ks_strings \<Rightarrow> lua_answer (sdiff inner db ks_strings) heap (\<lambda>bs. build (map (Inl \<circ> LString) bs))))
      | None \<Rightarrow> (Inl BadConversion, heap))"

definition ts_sintercard ::
  "lua_conv \<Rightarrow> ('v, 'i) StorageInner \<Rightarrow> lua_function" where
  "ts_sintercard L inner G heap args =
     (case from_table (lua_arg args 0) of
        Some ks \<Rightarrow>
          (case get_tx_ctx L G of
             Inl e \<Rightarrow> (Inl e, heap)
           | Inr db \<Rightarrow> (case table_strings L (heap ! ks) of
                  None \<Rightarrow> (Inl BadConversion, heap)
                | Some ks_strings \<Rightarrow> lua_answer (sintercard inner db ks_strings) heap (\<lambda>bs. Pair (LInteger (as_i64 bs)))))
      | None \<Rightarrow> (Inl BadConversion, heap))"

definition ts_hget ::
  "lua_conv \<Rightarrow> ('v, 'i) StorageInner \<Rightarrow> lua_function" where
  "ts_hget L inner G heap args =
     (case (from_string L (lua_arg args 0), from_string L (lua_arg args 1)) of
        (Some key, Some field) \<Rightarrow>
          (case get_tx_ctx L G of
             Inl e \<Rightarrow> (Inl e, heap)
           | Inr db \<Rightarrow> lua_answer (hget inner db key field) heap (\<lambda>bs. Pair (lua_option LString bs)))
      | _ \<Rightarrow> (Inl BadConversion, heap))"

definition ts_hmget ::
  "lua_conv \<Rightarrow> ('v, 'i) StorageInner \<Rightarrow> lua_function" where
  "ts_hmget L inner G heap args =
     (case (from_string L (lua_arg args 0), from_table (lua_arg args 1)) of
        (Some key, Some fs) \<Rightarrow>
          (case get_tx_ctx L G of
             Inl e \<Rightarrow> (Inl e, heap)
           | Inr db \<Rightarrow> (case table_strings L (heap ! fs) of
                  None \<Rightarrow> (Inl BadConversion, heap)
                | Some fs_strings \<Rightarrow> lua_answer (hmget inner db key fs_strings) heap (\<lambda>bs. build (map (Inl \<circ> lua_option LString) bs))))
      | _ \<Rightarrow> (Inl BadConversion, heap))"

definition ts_hgetall ::
  "lua_conv \<Rightarrow> ('v, 'i) StorageInner \<Rightarrow> lua_function" where
  "ts_hgetall L inner G heap args =
     (case from_string L (lua_arg args 0) of
        Some key \<Rightarrow>
          (case get_tx_ctx L G of
             Inl e \<Rightarrow> (Inl e, heap)
           | Inr db \<Rightarrow> lua_answer (hgetall inner db key) heap (\<lambda>bs. new_table (map (\<lambda>(f, v). (LString f, LString v)) bs)))
      | None \<Rightarrow> (Inl BadConversion, heap))"

definition ts_hkeys ::
  "lua_conv \<Rightarrow> ('v, 'i) StorageInner \<Rightarrow> lua_function" where
  "ts_hkeys L inner G heap args =
     (case from_string L (lua_arg args 0) of
        Some key \<Rightarrow>
          (case get_tx_ctx L G of
             Inl e \<Rightarrow> (Inl e, heap)
           | Inr db \<Rightarrow> lua_answer (hkeys inner db key) heap (\<lambda>bs. build (map (Inl \<circ> LString) bs)))
      | None \<Rightarrow> (Inl BadConversion, heap))"

definition ts_hvals ::
  "lua_conv \<Rightarrow> ('v, 'i) StorageInner \<Rightarrow> lua_function" where
  "ts_hvals L inner G heap args =
     (case from_string L (lua_arg args 0) of
        Some key \<Rightarrow>
          (case get_tx_ctx L G of
             Inl e \<Rightarrow> (Inl e, heap)
           | Inr db \<Rightarrow> lua_answer (hvals inner db key) heap (\<lambda>bs. build (map (Inl \<circ> LString) bs)))
      | None \<Rightarrow> (Inl BadConversion, heap))"

definition ts_hlen ::
  "lua_conv \<Rightarrow> ('v, 'i) StorageInner \<Rightarrow> lua_function" where
  "ts_hlen L inner G heap args =
     (case from_string L (lua_arg args 0) of
        Some key \<Rightarrow>
          (case get_tx_ctx L G of
             Inl e \<Rightarrow> (Inl e, heap)
           | Inr db \<Rightarrow> lua_answer (hlen inner db key) heap (\<lambda>bs. Pair (LInteger (as_i64 bs))))
      | None \<Rightarrow> (Inl BadConversion, heap))"

definition ts_hexists ::
  "lua_conv \<Rightarrow> ('v, 'i) StorageInner \<Rightarrow> lua_function" where
  "ts_hexists L inner G heap args =
     (case (from_string L (lua_arg args 0), from_string L (lua_arg args 1)) of
        (Some key, Some field) \<Rightarrow>
          (case get_tx_ctx L G of
             Inl e \<Rightarrow> (Inl e, heap)
           | Inr db \<Rightarrow> lua_answer (hexists inner db key field) heap (\<lambda>bs. Pair (LBool bs)))
      | _ \<Rightarrow> (Inl BadConversion, heap))"

definition ts_hfirst ::
  "lua_conv \<Rightarrow> ('v, 'i) StorageInner \<Rightarrow> lua_function" where
  "ts_hfirst L inner G heap args =
     (case (from_string L (lua_arg args 0), from_usize L (lua_arg args 1)) of
        (Some key, Some count) \<Rightarrow>
          (case get_tx_ctx L G of
             Inl e \<Rightarrow> (Inl e, heap)
           | Inr db \<Rightarrow> lua_answer (hfirst inner db key count) heap (\<lambda>bs. build (map (\<lambda>(f, v). Inr [LString f, LString v]) bs)))
      | _ \<Rightarrow> (Inl BadConversion, heap))"

definition ts_hlast ::
  "lua_conv \<Rightarrow> ('v, 'i) StorageInner \<Rightarrow> lua_function" where
  "ts_hlast L inner G heap args =
     (case (from_string L (lua_arg args 0), from_usize L (lua_arg args 1)) of
        (Some key, Some count) \<Rightarrow>
          (case get_tx_ctx L G of
             Inl e \<Rightarrow> (Inl e, heap)
           | Inr db \<Rightarrow> lua_answer (hlast inner db key count) heap (\<lambda>bs. build (map (\<lambda>(f, v). Inr [LString f, LString v]) bs)))
      | _ \<Rightarrow> (Inl BadConversion, heap))"

definition ts_hnext ::
  "lua_conv \<Rightarrow> ('v, 'i) StorageInner \<Rightarrow> lua_function" where
  "ts_hnext L inner G heap args =
     (case (from_string L (lua_arg args 0), from_string L (lua_arg args 1), from_usize L (lua_arg args 2)) of
        (Some key, Some field, Some count) \<Rightarrow>
          (case get_tx_ctx L G of
             Inl e \<Rightarrow> (Inl e, heap)
           | Inr db \<Rightarrow> lua_answer (hnext inner db key field count) heap (\<lambda>bs. build (map (\<lambda>(f, v). Inr [LString f, LString v]) bs)))
      | _ \<Rightarrow> (Inl BadConversion, heap))"

definition ts_hprev ::
  "lua_conv \<Rightarrow> ('v, 'i) StorageInner \<Rightarrow> lua_function" where
  "ts_hprev L inner G heap args =
     (case (from_string L (lua_arg args 0), from_string L (lua_arg args 1), from_usize L (lua_arg args 2)) of
        (Some key, Some field, Some count) \<Rightarrow>
          (case get_tx_ctx L G of
             Inl e \<Rightarrow> (Inl e, heap)
           | Inr db \<Rightarrow> lua_answer (hprev inner db key field count) heap (\<lambda>bs. build (map (\<lambda>(f, v). Inr [LString f, LString v]) bs)))
      | _ \<Rightarrow> (Inl BadConversion, heap))"

definition ts_hstrlen ::
  "lua_conv \<Rightarrow> ('v, 'i) StorageInner \<Rightarrow> lua_function" where
  "ts_hstrlen L inner G heap args =
     (case (from_string L (lua_arg args 0), from_string L (lua_arg args 1)) of
        (Some key, Some field) \<Rightarrow>
          (case get_tx_ctx L G of
             Inl e \<Rightarrow> (Inl e, heap)
           | Inr db \<Rightarrow> lua_answer (hstrlen inner db key field) heap (\<lambda>bs. Pair (LInteger (as_i64 bs))))
      | _ \<Rightarrow> (Inl BadConversion, heap))"

definition ts_hrandfield ::
  "lua_conv \<Rightarrow> (bytes \<times> bytes) rand_ops \<Rightarrow> ('v, 'i) StorageInner \<Rightarrow> lua_function" where
  "ts_hrandfield L RH inner G heap args =
     (case (from_string L (lua_arg args 0), from_i64 L (lua_arg args 1), from_bool L (lua_arg args 2)) of
        (Some key, Some count, Some with_values) \<Rightarrow>
          (case get_tx_ctx L G of
             Inl e \<Rightarrow> (Inl e, heap)
           | Inr db \<Rightarrow> lua_answer (hrandfield RH inner db key count with_values) heap (\<lambda>bs. build (map (\<lambda>(f, v).
               if with_values then (case v of Some x \<Rightarrow> Inr [LString f, LString x] | None \<Rightarrow> Inl (LString f))
               else Inl (LString f)) bs)))
      | _ \<Rightarrow> (Inl BadConversion, heap))"

definition ts_zscore ::
  "lua_conv \<Rightarrow> ('v, 'i) StorageInner \<Rightarrow> lua_function" where
  "ts_zscore L inner G heap args =
     (case (from_string L (lua_arg args 0), from_string L (lua_arg args 1)) of
        (Some key, Some member) \<Rightarrow>
          (case get_tx_ctx L G of
             Inl e \<Rightarrow> (Inl e, heap)
           | Inr db \<Rightarrow> lua_answer (zscore inner db key member) heap (\<lambda>bs. Pair (lua_option LNumber bs)))
      | _ \<Rightarrow> (Inl BadConversion, heap))"

definition ts_zcard ::
  "lua_conv \<Rightarrow> ('v, 'i) StorageInner \<Rightarrow> lua_function" where
  "ts_zcard L inner G heap args =
     (case from_string L (lua_arg args 0) of
        Some key \<Rightarrow>
          (case get_tx_ctx L G of
             Inl e \<Rightarrow> (Inl e, heap)
           | Inr db \<Rightarrow> lua_answer (zcard inner db key) heap (\<lambda>bs. Pair (LInteger (as_i64 bs))))
      | None \<Rightarrow> (Inl BadConversion, heap))"

definition ts_zrange ::
  "lua_conv \<Rightarrow> 'i index_ops \<Rightarrow> ('v, 'i) StorageInner \<Rightarrow> lua_function" where
  "ts_zrange L I inner G heap args =
     (case (from_string L (lua_arg args 0), from_i64 L (lua_arg args 1), from_i64 L (lua_arg args 2)) of
        (Some key, Some start, Some stop) \<Rightarrow>
          (case get_tx_ctx L G of
             Inl e \<Rightarrow> (Inl e, heap)
           | Inr db \<Rightarrow> lua_answer (zrange I inner db key start stop True) heap (\<lambda>bs. build (map (\<lambda>(x, s). Inr [LString x, lua_option LNumber s]) bs)))
      | _ \<Rightarrow> (Inl BadConversion, heap))"

definition ts_zrangebyscore ::
  "lua_conv \<Rightarrow> score_ops \<Rightarrow> 'i index_ops \<Rightarrow> ('v, 'i) StorageInner \<Rightarrow> lua_function" where
  "ts_zrangebyscore L S I inner G heap args =
     (case (from_string L (lua_arg args 0), from_f64 L (lua_arg args 1), from_f64 L (lua_arg args 2)) of
        (Some key, Some lo, Some hi) \<Rightarrow>
          (case get_tx_ctx L G of
             Inl e \<Rightarrow> (Inl e, heap)
           | Inr db \<Rightarrow> lua_answer (zrangebyscore S I inner db key lo hi True) heap (\<lambda>bs. build (map (\<lambda>(x, s). Inr [LString x, lua_option LNumber s]) bs)))
      | _ \<Rightarrow> (Inl BadConversion, heap))"

definition ts_zrank ::
  "lua_conv \<Rightarrow> 'i index_ops \<Rightarrow> ('v, 'i) StorageInner \<Rightarrow> lua_function" where
  "ts_zrank L I inner G heap args =
     (case (from_string L (lua_arg args 0), from_string L (lua_arg args 1)) of
        (Some key, Some member) \<Rightarrow>
          (case get_tx_ctx L G of
             Inl e \<Rightarrow> (Inl e, heap)
           | Inr db \<Rightarrow> lua_answer (zrank I inner db key member) heap (\<lambda>bs. Pair (lua_option (LInteger \<circ> as_i64) bs)))
      | _ \<Rightarrow> (Inl BadConversion, heap))"

definition ts_zrevrank ::
  "lua_conv \<Rightarrow> 'i index_ops \<Rightarrow> ('v, 'i) StorageInner \<Rightarrow> lua_function" where
  "ts_zrevrank L I inner G heap args =
     (case (from_string L (lua_arg args 0), from_string L (lua_arg args 1)) of
        (Some key, Some member) \<Rightarrow>
          (case get_tx_ctx L G of
             Inl e \<Rightarrow> (Inl e, heap)
           | Inr db \<Rightarrow> lua_answer (zrevrank I inner db key member) heap (\<lambda>bs. Pair (lua_option (LInteger \<circ> as_i64) bs)))
      | _ \<Rightarrow> (Inl BadConversion, heap))"

definition ts_zcount ::
  "lua_conv \<Rightarrow> 'i index_ops \<Rightarrow> ('v, 'i) StorageInner \<Rightarrow> lua_function" where
  "ts_zcount L I inner G heap args =
     (case (from_string L (lua_arg args 0), from_f64 L (lua_arg args 1), from_f64 L (lua_arg args 2)) of
        (Some key, Some lo, Some hi) \<Rightarrow>
          (case get_tx_ctx L G of
             Inl e \<Rightarrow> (Inl e, heap)
           | Inr db \<Rightarrow> lua_answer (zcount I inner db key lo hi) heap (\<lambda>bs. Pair (LInteger (as_i64 bs))))
      | _ \<Rightarrow> (Inl BadConversion, heap))"

definition ts_zfirst ::
  "lua_conv \<Rightarrow> ('v, 'i) StorageInner \<Rightarrow> lua_function" where
  "ts_zfirst L inner G heap args =
     (case (from_string L (lua_arg args 0), from_usize L (lua_arg args 1)) of
        (Some key, Some count) \<Rightarrow>
          (case get_tx_ctx L G of
             Inl e \<Rightarrow> (Inl e, heap)
           | Inr db \<Rightarrow> lua_answer (zfirst inner db key count) heap (\<lambda>bs. build (map (\<lambda>(s, x). Inr [LNumber s, LString x]) bs)))
      | _ \<Rightarrow> (Inl BadConversion, heap))"

definition ts_zlast ::
  "lua_conv \<Rightarrow> ('v, 'i) StorageInner \<Rightarrow> lua_function" where
  "ts_zlast L inner G heap args =
     (case (from_string L (lua_arg args 0), from_usize L (lua_arg args 1)) of
        (Some key, Some count) \<Rightarrow>
          (case get_tx_ctx L G of
             Inl e \<Rightarrow> (Inl e, heap)
           | Inr db \<Rightarrow> lua_answer (zlast inner db key count) heap (\<lambda>bs. build (map (\<lambda>(s, x). Inr [LNumber s, LString x]) bs)))
      | _ \<Rightarrow> (Inl BadConversion, heap))"

definition ts_znext ::
  "lua_conv \<Rightarrow> ('v, 'i) StorageInner \<Rightarrow> lua_function" where
  "ts_znext L inner G heap args =
     (case (from_string L (lua_arg args 0), from_string L (lua_arg args 1), from_usize L (lua_arg args 2)) of
        (Some key, Some member, Some count) \<Rightarrow>
          (case get_tx_ctx L G of
             Inl e \<Rightarrow> (Inl e, heap)
           | Inr db \<Rightarrow> lua_answer (znext inner db key member count) heap (\<lambda>bs. build (map (\<lambda>(s, x). Inr [LNumber s, LString x]) bs)))
      | _ \<Rightarrow> (Inl BadConversion, heap))"

definition ts_zprev ::
  "lua_conv \<Rightarrow> ('v, 'i) StorageInner \<Rightarrow> lua_function" where
  "ts_zprev L inner G heap args =
     (case (from_string L (lua_arg args 0), from_string L (lua_arg args 1), from_usize L (lua_arg args 2)) of
        (Some key, Some member, Some count) \<Rightarrow>
          (case get_tx_ctx L G of
             Inl e \<Rightarrow> (Inl e, heap)
           | Inr db \<Rightarrow> lua_answer (zprev inner db key member count) heap (\<lambda>bs. build (map (\<lambda>(s, x). Inr [LNumber s, LString x]) bs)))
      | _ \<Rightarrow> (Inl BadConversion, heap))"

text \<open>The table \<open>ts\<close>.\<close>

definition ts_table ::
  "lua_conv \<Rightarrow> 'v vec_ops \<Rightarrow> score_ops \<Rightarrow> 'i index_ops \<Rightarrow> bytes rand_ops \<Rightarrow> (bytes \<times> bytes) rand_ops \<Rightarrow>
     ('v, 'i) StorageInner \<Rightarrow> (string \<times> lua_function) list" where
  "ts_table L V S I R RH inner =
     [(''get'', ts_get L inner), (''first'', ts_first L inner),
      (''last'', ts_last L inner), (''next'', ts_next L inner),
      (''prev'', ts_prev L inner), (''llen'', ts_llen L V inner),
      (''lrange'', ts_lrange L V inner), (''smembers'', ts_smembers L inner),
      (''sismember'', ts_sismember L inner), (''scard'', ts_scard L inner),
      (''sfirst'', ts_sfirst L inner), (''slast'', ts_slast L inner),
      (''snext'', ts_snext L inner), (''sprev'', ts_sprev L inner),
      (''smismember'', ts_smismember L inner), (''srandmember'', ts_srandmember L R inner),
      (''sunion'', ts_sunion L inner), (''sinter'', ts_sinter L inner),
      (''sdiff'', ts_sdiff L inner), (''sintercard'', ts_sintercard L inner),
      (''hget'', ts_hget L inner), (''hmget'', ts_hmget L inner),
      (''hgetall'', ts_hgetall L inner), (''hkeys'', ts_hkeys L inner),
      (''hvals'', ts_hvals L inner), (''hlen'', ts_hlen L inner),
      (''hexists'', ts_hexists L inner), (''hfirst'', ts_hfirst L inner),
      (''hlast'', ts_hlast L inner), (''hnext'', ts_hnext L inner),
      (''hprev'', ts_hprev L inner), (''hstrlen'', ts_hstrlen L inner),
      (''hrandfield'', ts_hrandfield L RH inner), (''zscore'', ts_zscore L inner),
      (''zcard'', ts_zcard L inner), (''zrange'', ts_zrange L I inner),
      (''zrangebyscore'', ts_zrangebyscore L S I inner), (''zrank'', ts_zrank L I inner),
      (''zrevrank'', ts_zrevrank L I inner), (''zcount'', ts_zcount L I inner),
      (''zfirst'', ts_zfirst L inner), (''zlast'', ts_zlast L inner),
      (''znext'', ts_znext L inner), (''zprev'', ts_zprev L inner)]"

definition new_lua :: "lua_conv \<Rightarrow> lua_globals" where
  "new_lua L = \<lparr>g_db = into_u64 L 0, g_storage_ptr = LLight NullPtr\<rparr>"

section \<open>Transactions\<close>

text \<open>
  The interpreter: compiling a script, the bytecode of a compiled script, and running a script or its bytecode with the
  functions of \<open>ts\<close>, of which every call brings its own random sources. A script may change the globals.
\<close>

record 'f interpreter =
  lua_compile :: "bytes \<Rightarrow> string + 'f"
  lua_dump :: "'f \<Rightarrow> bytes"
  lua_eval :: "(bytes rand_ops \<Rightarrow> (bytes \<times> bytes) rand_ops \<Rightarrow> (string \<times> lua_function) list) \<Rightarrow> bytes \<Rightarrow>
     lua_globals \<Rightarrow> lua_heap \<Rightarrow> (string + LuaValue) \<times> lua_globals \<times> lua_heap"

definition lua_load :: "'f interpreter \<Rightarrow> bytes \<Rightarrow> string + bytes" where
  "lua_load J script = map_sum id (lua_dump J) (lua_compile J script)"

definition tx ::
  "lua_conv \<Rightarrow> 'f interpreter \<Rightarrow> 'v vec_ops \<Rightarrow> score_ops \<Rightarrow> 'i index_ops \<Rightarrow> ('v, 'i) StorageInner \<Rightarrow> u64 \<Rightarrow> bytes \<Rightarrow>
     lua_globals \<Rightarrow> lua_heap \<Rightarrow> (string + LuaValue) \<times> lua_globals \<times> lua_heap" where
  "tx L J V S I inner db script_or_bytecode G heap =
     (let G1 = G\<lparr>g_db := into_u64 L db, g_storage_ptr := LLight ThisStorage\<rparr>
      in case lua_eval J (\<lambda>R RH. ts_table L V S I R RH inner) script_or_bytecode G1 heap of
           (Inl e, G2, heap2) \<Rightarrow> (Inl e, G2, heap2)
         | (Inr result, G2, heap2) \<Rightarrow> (Inr result, G2\<lparr>g_storage_ptr := LLight NullPtr\<rparr>, heap2))"

section \<open>Terms from Lua values\<close>

record 't map_ops =
  enc_i64 :: "i64 \<Rightarrow> 't"
  map_new :: 't
  map_put :: "'t \<Rightarrow> 't \<Rightarrow> 't \<Rightarrow> string + 't"

text \<open>
  The conversion recurs into tables; \<open>None\<close> is a stack that ran out, a result \<open>Inl\<close> the message of an error. The first
  error or overflow ends a loop.
\<close>

fun table_items :: "(LuaValue \<Rightarrow> (string + 't) option) \<Rightarrow> LuaValue list \<Rightarrow> (string + 't list) option" where
  "table_items conv [] = Some (Inr [])"
| "table_items conv (v # vs) =
     (case conv v of
        None \<Rightarrow> None
      | Some (Inl e) \<Rightarrow> Some (Inl e)
      | Some (Inr t) \<Rightarrow> map_option (map_sum id ((#) t)) (table_items conv vs))"

fun table_pairs :: "(LuaValue \<Rightarrow> (string + 't) option) \<Rightarrow> 't map_ops \<Rightarrow> lua_entries \<Rightarrow> 't \<Rightarrow> (string + 't) option" where
  "table_pairs conv M [] m = Some (Inr m)"
| "table_pairs conv M ((k, v) # es) m =
     (case conv k of
        None \<Rightarrow> None
      | Some (Inl e) \<Rightarrow> Some (Inl e)
      | Some (Inr key_term) \<Rightarrow>
          (case conv v of
             None \<Rightarrow> None
           | Some (Inl e) \<Rightarrow> Some (Inl e)
           | Some (Inr val_term) \<Rightarrow>
               (case map_put M m key_term val_term of
                  Inl e \<Rightarrow> Some (Inl e)
                | Inr m1 \<Rightarrow> table_pairs conv M es m1)))"

definition lua_table_to_term ::
  "(LuaValue \<Rightarrow> (string + 't) option) \<Rightarrow> lua_conv \<Rightarrow> 't encoder \<Rightarrow> 't map_ops \<Rightarrow> lua_entries \<Rightarrow> (string + 't) option" where
  "lua_table_to_term conv L E M es =
     (let len = table_len L es; items = map (\<lambda>i. map_of es (LInteger (int i))) [1 ..< Suc len]
      in if 0 < len \<and> None \<notin> set items
         then map_option (map_sum id (enc_list E)) (table_items conv (map the items))
         else table_pairs conv M es (map_new M))"

primrec lua_value_to_term ::
  "nat \<Rightarrow> lua_conv \<Rightarrow> 't encoder \<Rightarrow> 't map_ops \<Rightarrow> lua_heap \<Rightarrow> LuaValue \<Rightarrow> (string + 't) option" where
  "lua_value_to_term 0 L E M heap v = None"
| "lua_value_to_term (Suc depth) L E M heap v =
     (case v of
        LNil \<Rightarrow> Some (Inr (enc_atom E ''nil''))
      | LBool b \<Rightarrow> Some (Inr (enc_bool E b))
      | LInteger i \<Rightarrow> Some (Inr (enc_i64 M i))
      | LNumber n \<Rightarrow> Some (Inr (enc_f64 E n))
      | LString s \<Rightarrow> Some (Inr (enc_binary E s))
      | LTable t \<Rightarrow> lua_table_to_term (lua_value_to_term depth L E M heap) L E M (heap ! t)
      | _ \<Rightarrow> Some (Inl ''Unsupported Lua type''))"

text \<open>The NIFs.\<close>

definition lua_load_nif :: "'f interpreter \<Rightarrow> 't encoder \<Rightarrow> bytes \<Rightarrow> 't" where
  "lua_load_nif J E script =
     (case lua_load J script of
        Inr bytecode \<Rightarrow> ok_term E (enc_binary E bytecode)
      | Inl e \<Rightarrow> encode_error E e)"

definition execute_tx_lua ::
  "nat \<Rightarrow> lua_conv \<Rightarrow> 'f interpreter \<Rightarrow> 't encoder \<Rightarrow> 't map_ops \<Rightarrow> 'v vec_ops \<Rightarrow> score_ops \<Rightarrow> 'i index_ops \<Rightarrow>
     ('v, 'i) StorageInner \<Rightarrow> u64 \<Rightarrow> bytes \<Rightarrow> lua_globals \<Rightarrow> lua_heap \<Rightarrow> 't option \<times> lua_globals \<times> lua_heap" where
  "execute_tx_lua depth L J E M V S I inner db script_or_bytecode G heap =
     (case tx L J V S I inner db script_or_bytecode G heap of
        (Inl e, G1, heap1) \<Rightarrow> (Some (encode_error E e), G1, heap1)
      | (Inr lua_value, G1, heap1) \<Rightarrow>
          (map_option (\<lambda>r. case r of Inr t \<Rightarrow> ok_term E t | Inl e \<Rightarrow> encode_error E e)
             (lua_value_to_term depth L E M heap1 lua_value), G1, heap1))"

section \<open>The functions and the read commands\<close>

text \<open>What the length operator of Lua returns for a sequence; for a table with holes it may be any border.\<close>

definition lua_borders :: "lua_conv \<Rightarrow> bool" where
  "lua_borders L \<longleftrightarrow> (\<forall>vs. LNil \<notin> set vs \<longrightarrow> table_len L (lua_seq vs) = length vs)"

lemma lua_seq_full: "LNil \<notin> set vs \<Longrightarrow> lua_seq vs = zip (map (\<lambda>i. LInteger (int i)) [1 ..< Suc (length vs)]) vs"
  unfolding lua_seq_def by (rule filter_True) (auto dest: set_zip_rightD)

lemma lua_seq_get:
  assumes "LNil \<notin> set vs"
  shows "map (\<lambda>i. map_of (lua_seq vs) (LInteger (int i))) [1 ..< Suc (length vs)] = map Some vs"
proof (rule nth_equalityI)
  fix i assume "i < length (map (\<lambda>i. map_of (lua_seq vs) (LInteger (int i))) [1 ..< Suc (length vs)])"
  then have i: "i < length vs" by (simp del: upt_Suc)
  let ?ks = "map (\<lambda>i. LInteger (int i)) [1 ..< Suc (length vs)]"
  have "distinct ?ks" by (simp add: distinct_map inj_on_def)
  moreover have "?ks ! i = LInteger (int (Suc i))" using i by (simp del: upt_Suc)
  ultimately have "map_of (zip ?ks vs) (LInteger (int (Suc i))) = Some (vs ! i)"
    using map_of_zip_nth [of ?ks vs i] i by simp
  then show "map (\<lambda>i. map_of (lua_seq vs) (LInteger (int i))) [1 ..< Suc (length vs)] ! i = map Some vs ! i"
    using i lua_seq_full [OF assms] by (simp del: upt_Suc)
qed (simp del: upt_Suc)

lemma sequence_to_term:
  assumes "lua_borders L" "LNil \<notin> set vs"
  shows "lua_table_to_term conv L E M (lua_seq vs) =
    (if vs = [] then Some (Inr (map_new M)) else map_option (map_sum id (enc_list E)) (table_items conv vs))"
proof (cases "vs = []")
  case True
  have "table_len L [] = 0" using assms(1) [unfolded lua_borders_def, rule_format, of "[]"] by (simp add: lua_seq_def)
  then show ?thesis using True by (simp add: lua_table_to_term_def lua_seq_def)
next
  case False
  have len: "table_len L (lua_seq vs) = length vs" using assms by (simp add: lua_borders_def)
  show ?thesis
    unfolding lua_table_to_term_def Let_def len lua_seq_get [OF assms(2)] using False by (auto simp: comp_def)
qed

lemma place_values: "place n (map (Inl \<circ> f) xs) = (map f xs, [])"
  by (induction xs) simp_all

lemma table_items_values:
  "(\<And>x. x \<in> set xs \<Longrightarrow> conv (f x) = Some (Inr (g x))) \<Longrightarrow> table_items conv (map f xs) = Some (Inr (map g xs))"
  by (induction xs) simp_all

text \<open>
  A call of a script agrees with a read command: when the command answers, the function returns, and what it returns is
  converted to the same term, but for the empty list, which is converted to the empty map.
\<close>

definition agrees ::
  "lua_conv \<Rightarrow> 't encoder \<Rightarrow> 't map_ops \<Rightarrow> 't read_result \<Rightarrow> (lua_error + LuaValue) \<times> lua_heap \<Rightarrow> bool" where
  "agrees L E M read lua \<longleftrightarrow>
     (\<forall>t. read = Inr t \<longrightarrow>
        (\<exists>u v heap. lua = (Inr v, heap) \<and> (\<forall>depth. lua_value_to_term (Suc (Suc depth)) L E M heap v = Some (Inr u)) \<and>
           (t = ok_term E u \<or> t = ok_term E (enc_list E []) \<and> u = map_new M)))"

lemma agrees_fails: "agrees L E M (Inl m) lua"
  by (simp add: agrees_def)

lemma agrees_listed:
  assumes "lua_borders L" "\<And>x. f x \<noteq> LNil" "\<And>x depth h. lua_value_to_term (Suc depth) L E M h (f x) = Some (Inr (g x))"
  shows "agrees L E M (Inr (ok_term E (enc_list E (map g xs)))) (map_prod Inr id (build (map (Inl \<circ> f) xs) heap))"
proof -
  have nil: "LNil \<notin> set (map f xs)" using assms(2) by (metis (no_types, lifting) ex_map_conv)
  have i: "table_items (lua_value_to_term (Suc depth) L E M h) (map f xs) = Some (Inr (map g xs))" for depth h
    by (rule table_items_values) (rule assms(3))
  have "lua_value_to_term (Suc (Suc depth)) L E M (heap @ [lua_seq (map f xs)]) (LTable (length heap)) =
      Some (Inr (if xs = [] then map_new M else enc_list E (map g xs)))" for depth
    by (simp add: lua_value_to_term.simps(2) [of "Suc depth"] sequence_to_term [OF assms(1) nil] i del: lua_value_to_term.simps)
  then show ?thesis by (auto simp: agrees_def build_def place_values)
qed

lemma agrees_list:
  assumes "lua_borders L"
  shows "agrees L E M (answer E r (binaries E)) (lua_answer r heap (\<lambda>bs. build (map (Inl \<circ> LString) bs)))"
    "agrees L E M (Inr (ok_term E (binaries E ks))) (lua_answer (Ok ks) heap (\<lambda>bs. build (map (Inl \<circ> LString) bs)))"
    "agrees L E M (answer E q (\<lambda>rs. enc_list E (map (enc_bool E) rs))) (lua_answer q heap (\<lambda>bs. build (map (Inl \<circ> LBool) bs)))"
  using agrees_listed [OF assms, of LString E M "enc_binary E"] agrees_listed [OF assms, of LBool E M "enc_bool E"]
  by (cases r; cases q; simp add: answer_def lua_answer_def agrees_fails binaries_def)+

lemma agrees_value:
  assumes "\<And>x depth h. lua_value_to_term (Suc depth) L E M h (f x) = Some (Inr (g x))"
  shows "agrees L E M (answer E r g) (lua_answer r heap (\<lambda>bs. Pair (f bs)))"
  using assms by (cases r) (auto simp: answer_def lua_answer_def agrees_def)

lemma agrees_scalar:
  "agrees L E M (answer E r1 (nil_or E (enc_binary E))) (lua_answer r1 heap (\<lambda>bs. Pair (lua_option LString bs)))"
  "agrees L E M (answer E r2 (nil_or E (enc_f64 E))) (lua_answer r2 heap (\<lambda>bs. Pair (lua_option LNumber bs)))"
  "agrees L E M (answer E r3 (enc_bool E)) (lua_answer r3 heap (\<lambda>bs. Pair (LBool bs)))"
  by (rule agrees_value; simp add: nil_or_def lua_option_def split: option.split)+

text \<open>An argument of a read command and one of a script that are decoded to the same values.\<close>

definition same_arg :: "'t rustler \<Rightarrow> lua_conv \<Rightarrow> lua_heap \<Rightarrow> 't \<Rightarrow> LuaValue \<Rightarrow> bool" where
  "same_arg D L heap t v \<longleftrightarrow>
     dec_binary D t = from_string L v \<and> map_option unat (dec_u64 D t) = from_usize L v \<and> dec_i64 D t = from_i64 L v \<and>
     dec_f64 D t = from_f64 L v \<and> dec_bool D t = from_bool L v \<and>
     dec_binaries D t = (case from_table v of Some x \<Rightarrow> table_strings L (heap ! x) | None \<Rightarrow> None)"

lemma same_args_decode:
  assumes "list_all2 (same_arg D L heap) ts vs" "i < length ts"
  shows "from_string L (lua_arg vs i) = dec_binary D (ts ! i)" "from_usize L (lua_arg vs i) = map_option unat (dec_u64 D (ts ! i))"
    "from_i64 L (lua_arg vs i) = dec_i64 D (ts ! i)"
    "dec_binaries D (ts ! i) = (case from_table (lua_arg vs i) of Some x \<Rightarrow> table_strings L (heap ! x) | None \<Rightarrow> None)"
proof -
  have "same_arg D L heap (ts ! i) (lua_arg vs i)"
    using assms list_all2_nthD [OF assms] by (simp add: lua_arg_def list_all2_lengthD)
  then show "from_string L (lua_arg vs i) = dec_binary D (ts ! i)" "from_usize L (lua_arg vs i) = map_option unat (dec_u64 D (ts ! i))"
    "from_i64 L (lua_arg vs i) = dec_i64 D (ts ! i)"
    "dec_binaries D (ts ! i) = (case from_table (lua_arg vs i) of Some x \<Rightarrow> table_strings L (heap ! x) | None \<Rightarrow> None)"
    by (simp_all add: same_arg_def)
qed

lemma usize_try_from_unat: "usize_try_from n = Some (unat n)"
  using unsigned_less [of n] by (simp add: usize_try_from_def)

lemma functions_agree:
  assumes "lua_borders L" "list_all2 (same_arg D L heap) ts vs" "get_tx_ctx L G = Inr db"
  shows
    "agrees L E M (handle_first D E inner db ts) (ts_first L inner G heap vs)"
    "agrees L E M (handle_last D E inner db ts) (ts_last L inner G heap vs)"
    "agrees L E M (handle_next D E inner db ts) (ts_next L inner G heap vs)"
    "agrees L E M (handle_prev D E inner db ts) (ts_prev L inner G heap vs)"
    "agrees L E M (handle_smembers D E inner db ts) (ts_smembers L inner G heap vs)"
    "agrees L E M (handle_sfirst D E inner db ts) (ts_sfirst L inner G heap vs)"
    "agrees L E M (handle_slast D E inner db ts) (ts_slast L inner G heap vs)"
    "agrees L E M (handle_snext D E inner db ts) (ts_snext L inner G heap vs)"
    "agrees L E M (handle_sprev D E inner db ts) (ts_sprev L inner G heap vs)"
    "agrees L E M (handle_srandmember D E R inner db ts) (ts_srandmember L R inner G heap vs)"
    "agrees L E M (handle_sunion D E inner db ts) (ts_sunion L inner G heap vs)"
    "agrees L E M (handle_sinter D E inner db ts) (ts_sinter L inner G heap vs)"
    "agrees L E M (handle_sdiff D E inner db ts) (ts_sdiff L inner G heap vs)"
    "agrees L E M (handle_lrange D E V inner db ts) (ts_lrange L V inner G heap vs)"
    "agrees L E M (handle_hkeys D E inner db ts) (ts_hkeys L inner G heap vs)"
    "agrees L E M (handle_hvals D E inner db ts) (ts_hvals L inner G heap vs)"
    "agrees L E M (handle_get D E inner db ts) (ts_get L inner G heap vs)"
    "agrees L E M (handle_hget D E inner db ts) (ts_hget L inner G heap vs)"
    "agrees L E M (handle_zscore D E inner db ts) (ts_zscore L inner G heap vs)"
    "agrees L E M (handle_sismember D E inner db ts) (ts_sismember L inner G heap vs)"
    "agrees L E M (handle_hexists D E inner db ts) (ts_hexists L inner G heap vs)"
    "agrees L E M (handle_smismember D E inner db ts) (ts_smismember L inner G heap vs)"
  by (auto simp: handle_first_def ts_first_def handle_last_def ts_last_def handle_next_def ts_next_def handle_prev_def ts_prev_def
      handle_smembers_def ts_smembers_def handle_sfirst_def ts_sfirst_def handle_slast_def ts_slast_def handle_snext_def ts_snext_def
      handle_sprev_def ts_sprev_def handle_srandmember_def ts_srandmember_def handle_sunion_def ts_sunion_def handle_sinter_def ts_sinter_def
      handle_sdiff_def ts_sdiff_def handle_lrange_def ts_lrange_def handle_hkeys_def ts_hkeys_def handle_hvals_def ts_hvals_def
      handle_get_def ts_get_def handle_hget_def ts_hget_def handle_zscore_def ts_zscore_def handle_sismember_def ts_sismember_def
      handle_hexists_def ts_hexists_def handle_smismember_def ts_smismember_def
      same_args_decode [OF assms(2)] usize_try_from_unat assms(3) agrees_fails agrees_list [OF assms(1)] agrees_scalar
      split: option.split)

definition common_functions :: "string list" where
  "common_functions =
     [''first'', ''last'', ''next'', ''prev'', ''smembers'', ''sfirst'', ''slast'', ''snext'',
      ''sprev'', ''srandmember'', ''sunion'', ''sinter'', ''sdiff'', ''lrange'', ''hkeys'', ''hvals'',
      ''get'', ''hget'', ''zscore'', ''sismember'', ''hexists'', ''smismember'']"

lemma script_agrees:
  assumes "lua_borders L" "list_all2 (same_arg D L heap) ts vs" "get_tx_ctx L G = Inr db" "name \<in> set common_functions"
  shows "\<exists>f. map_of (ts_table L V S I R RH inner) name = Some f \<and>
    agrees L E M (dispatch_read_command D E V S I R RH inner db name ts) (f G heap vs)"
  using assms(4)
  unfolding common_functions_def ts_table_def dispatch_read_command_def
  by (simp, elim disjE) (simp_all add: functions_agree [OF assms(1-3)])

text \<open>A script that does nothing but call one function and return its result; \<open>msg\<close> is the text of an error.\<close>

definition single_call ::
  "'f interpreter \<Rightarrow> bytes \<Rightarrow> (bytes rand_ops \<Rightarrow> (bytes \<times> bytes) rand_ops \<Rightarrow> (string \<times> lua_function) list) \<Rightarrow>
     bytes rand_ops \<Rightarrow> (bytes \<times> bytes) rand_ops \<Rightarrow> string \<Rightarrow> LuaValue list \<Rightarrow> bool" where
  "single_call J script host R RH name vs \<longleftrightarrow>
     (\<forall>G heap f v heap1. map_of (host R RH) name = Some f \<and> f G heap vs = (Inr v, heap1) \<longrightarrow>
        lua_eval J host script G heap = (Inr v, G, heap1))"


definition plain_lua :: lua_conv where
  "plain_lua =
     \<lparr>from_string = (\<lambda>v. case v of LString s \<Rightarrow> Some s | _ \<Rightarrow> None),
      from_usize = (\<lambda>v. case v of LInteger n \<Rightarrow> if 0 \<le> n \<and> n < 2 ^ 64 then Some (nat n) else None | _ \<Rightarrow> None),
      from_u64 = (\<lambda>v. case v of LInteger n \<Rightarrow> if 0 \<le> n \<and> n < 2 ^ 64 then Some (word_of_int n) else None | _ \<Rightarrow> None),
      from_i64 = (\<lambda>v. case v of LInteger n \<Rightarrow> if i64_range n then Some n else None | _ \<Rightarrow> None),
      from_f64 = (\<lambda>v. case v of LNumber x \<Rightarrow> Some x | _ \<Rightarrow> None),
      from_bool = (\<lambda>v. case v of LBool b \<Rightarrow> Some b | _ \<Rightarrow> None),
      into_u64 = (\<lambda>n. LInteger (uint n)), table_len = length\<rparr>"

lemma plain_lua_borders: "lua_borders plain_lua"
  by (simp add: lua_borders_def plain_lua_def lua_seq_full del: upt_Suc)

text \<open>An interpreter whose scripts are keys, and whose programs return \<open>ts.smembers(key)\<close>.\<close>

definition members_only :: "bytes interpreter" where
  "members_only =
     \<lparr>lua_compile = Inr, lua_dump = (\<lambda>s. s),
      lua_eval = (\<lambda>host script G heap.
        case map_of (host round_robin round_robin) ''smembers'' of
          None \<Rightarrow> (Inl ''no such function'', G, heap)
        | Some f \<Rightarrow>
            (case f G heap [LString script] of
               (Inr v, heap1) \<Rightarrow> (Inr v, G, heap1)
             | (Inl e, heap1) \<Rightarrow> (Inl ''error'', G, heap1)))\<rparr>"

definition erlang_maps :: "eterm map_ops" where
  "erlang_maps =
     \<lparr>enc_i64 = E_int, map_new = E_tuple [E_atom ''map''],
      map_put = (\<lambda>m k v. case m of E_tuple ts \<Rightarrow> Inr (E_tuple (ts @ [E_tuple [k, v]])) | _ \<Rightarrow> Inl ''badarg'')\<rparr>"


section \<open>Tables that contain themselves\<close>

text \<open>A heap without cycles: a rank falls from a table to the tables among its keys and values.\<close>

definition ranked :: "lua_heap \<Rightarrow> (nat \<Rightarrow> nat) \<Rightarrow> bool" where
  "ranked heap rank \<longleftrightarrow>
     (\<forall>t < length heap. \<forall>(k, v) \<in> set (heap ! t). \<forall>u. k = LTable u \<or> v = LTable u \<longrightarrow> u < length heap \<and> rank u < rank t)"

fun fits :: "lua_heap \<Rightarrow> (nat \<Rightarrow> nat) \<Rightarrow> nat \<Rightarrow> LuaValue \<Rightarrow> bool" where
  "fits heap rank depth (LTable t) \<longleftrightarrow> t < length heap \<and> Suc (rank t) < depth"
| "fits heap rank depth v \<longleftrightarrow> 0 < depth"

lemma table_items_return: "(\<And>v. v \<in> set vs \<Longrightarrow> conv v \<noteq> None) \<Longrightarrow> table_items conv vs \<noteq> None"
  by (induction vs) (fastforce split: option.split sum.split)+

lemma table_pairs_return:
  "(\<And>k v. (k, v) \<in> set es \<Longrightarrow> conv k \<noteq> None \<and> conv v \<noteq> None) \<Longrightarrow> table_pairs conv M es m \<noteq> None"
  by (induction conv M es m rule: table_pairs.induct) (fastforce split: option.split sum.split)+

lemma table_returns:
  assumes "\<And>k v. (k, v) \<in> set es \<Longrightarrow> conv k \<noteq> None \<and> conv v \<noteq> None"
  shows "lua_table_to_term conv L E M es \<noteq> None"
proof -
  let ?elems = "map (\<lambda>i. map_of es (LInteger (int i))) [1 ..< Suc (table_len L es)]"
  have "table_items conv (map the ?elems) \<noteq> None" if "None \<notin> set ?elems"
  proof (rule table_items_return)
    fix v assume "v \<in> set (map the ?elems)"
    then obtain i where i: "i \<in> set [1 ..< Suc (table_len L es)]" "v = the (map_of es (LInteger (int i)))" by auto
    have "map_of es (LInteger (int i)) \<noteq> None" using that i(1) by (metis (no_types, lifting) image_eqI list.set_map)
    then have "(LInteger (int i), v) \<in> set es" using i(2) map_of_SomeD by fastforce
    then show "conv v \<noteq> None" using assms by blast
  qed
  moreover have "table_pairs conv M es (map_new M) \<noteq> None" by (rule table_pairs_return) (rule assms)
  ultimately show ?thesis unfolding lua_table_to_term_def Let_def by (simp del: upt_Suc)
qed

lemma conversion_returns: "ranked heap rank \<Longrightarrow> fits heap rank depth v \<Longrightarrow> lua_value_to_term depth L E M heap v \<noteq> None"
proof (induction depth arbitrary: v)
  case 0
  then show ?case by (cases v) simp_all
next
  case (Suc depth)
  show ?case
  proof (cases v)
    case (LTable t)
    have "fits heap rank depth k \<and> fits heap rank depth w" if "(k, w) \<in> set (heap ! t)" for k w
      using that Suc.prems LTable unfolding ranked_def by (cases k; cases w) fastforce+
    then have "lua_table_to_term (lua_value_to_term depth L E M heap) L E M (heap ! t) \<noteq> None"
      using Suc.IH Suc.prems(1) by (intro table_returns) blast
    then show ?thesis using LTable by simp
  qed simp_all
qed

lemma map_sum_Inr: "map_sum id f z = Inr y \<longleftrightarrow> (\<exists>x. z = Inr x \<and> y = f x)"
  by (cases z) auto

lemma table_items_all: "table_items conv vs = Some (Inr ts) \<Longrightarrow> v \<in> set vs \<Longrightarrow> \<exists>t. conv v = Some (Inr t)"
proof (induction vs arbitrary: ts)
  case (Cons w vs)
  then show ?case by (auto simp: map_sum_Inr split: option.splits sum.splits)
qed simp

lemma cycle_never_returns:
  assumes "lua_borders L" "heap ! t = lua_seq vs" "LNil \<notin> set vs" "LTable t \<in> set vs"
  shows "lua_value_to_term depth L E M heap (LTable t) \<noteq> Some (Inr u)"
proof (induction depth arbitrary: u)
  case (Suc depth)
  have "vs \<noteq> []" using assms(4) by auto
  show ?case
  proof
    assume "lua_value_to_term (Suc depth) L E M heap (LTable t) = Some (Inr u)"
    then obtain ts where "table_items (lua_value_to_term depth L E M heap) vs = Some (Inr ts)"
      using assms(2) \<open>vs \<noteq> []\<close> by (auto simp: sequence_to_term [OF assms(1,3)] map_sum_Inr)
    from table_items_all [OF this assms(4)] Suc.IH show False by blast
  qed
qed simp

text \<open>
  C21. The conversion of a result recurs on the tables within it. When no table contains itself, directly or through others,
  it returns as soon as the stack is deeper than the tables are nested; but a sequence that contains itself, which a script
  can build, is never converted: no depth of the stack is enough to return a term.
\<close>

theorem conversion_ends:
  assumes "lua_borders L"
  shows "(ranked heap rank \<and> t < length heap \<and> Suc (rank t) < depth \<longrightarrow>
      lua_value_to_term depth L E M heap (LTable t) \<noteq> None) \<and>
    (heap ! t = lua_seq vs \<and> LNil \<notin> set vs \<and> LTable t \<in> set vs \<longrightarrow>
      (\<nexists>u. lua_value_to_term depth L E M heap (LTable t) = Some (Inr u)))"
  using conversion_returns [of heap rank depth "LTable t" L E M] cycle_never_returns [OF assms, of heap t vs depth E M] by auto

theorem conversion_ends_witness:
  "lua_value_to_term 4 plain_lua erlang_encoder erlang_maps [lua_seq [LTable 1], [(LString [120], LNil)]] (LTable 0) \<noteq> None \<and>
   (\<nexists>u. lua_value_to_term 1000 plain_lua erlang_encoder erlang_maps [lua_seq [LBool True, LTable 0]] (LTable 0) = Some (Inr u))"
proof
  have "ranked [lua_seq [LTable 1], [(LString [120], LNil)]] (\<lambda>t. 1 - t)"
    by (auto simp: ranked_def lua_seq_def less_Suc_eq)
  then show "lua_value_to_term 4 plain_lua erlang_encoder erlang_maps [lua_seq [LTable 1], [(LString [120], LNil)]] (LTable 0) \<noteq> None"
    using conversion_ends [OF plain_lua_borders, of "[lua_seq [LTable 1], [(LString [120], LNil)]]" "\<lambda>t. 1 - t" 0 4 erlang_encoder erlang_maps] by simp
  show "\<nexists>u. lua_value_to_term 1000 plain_lua erlang_encoder erlang_maps [lua_seq [LBool True, LTable 0]] (LTable 0) = Some (Inr u)"
    using conversion_ends [OF plain_lua_borders, of "[lua_seq [LBool True, LTable 0]]" _ 0 1000 erlang_encoder erlang_maps
        "[LBool True, LTable 0]"] by simp
qed

end
