(* ===== verification/Wire.thy ===== *)
theory Wire
  imports Rust_Int
begin

text \<open>
  What the two stream parsers of src/native/vdr\_redis\_nif share: the reading of integers from a \<open>BytesMut\<close>,
  the unsigned \<open>str::parse\<close>, the sum of two \<open>usize\<close> (a release build wraps), and their results. A buffer is
  the list of bytes not yet consumed. The encoders at the end are the inverse of the readers and serve to
  state round trips.
\<close>

type_synonym u16 = "16 word"
type_synonym u32 = "32 word"

datatype stream_error = Failed string | Crash

type_synonym 'a parsed = "stream_error + 'a"

record RawCommand =
  cmd_db :: u32
  cmd_name :: bytes
  cmd_args :: "bytes list"

definition usize_add :: "usize \<Rightarrow> usize \<Rightarrow> usize" where
  "usize_add a b = (a + b) mod 2 ^ 64"

fun le_nat :: "bytes \<Rightarrow> nat" where
  "le_nat [] = 0"
| "le_nat (b # bs) = unat b + 256 * le_nat bs"

definition be_nat :: "bytes \<Rightarrow> nat" where
  "be_nat bs = le_nat (rev bs)"

text \<open>Two's complement of \<open>k\<close> bytes.\<close>

definition signed_nat :: "nat \<Rightarrow> nat \<Rightarrow> int" where
  "signed_nat k n = (if n < 2 ^ (8 * k - 1) then int n else int n - 2 ^ (8 * k))"

definition parse_uint :: "nat \<Rightarrow> bytes \<Rightarrow> nat option" where
  "parse_uint w bs =
     (let ds = (if bs \<noteq> [] \<and> hd bs = 43 then tl bs else bs)
      in if ds = [] then None
         else case parse_digits 0 ds of
                None \<Rightarrow> None
              | Some n \<Rightarrow> if n < 2 ^ w then Some n else None)"

section \<open>Encoders\<close>

primrec le_bytes :: "nat \<Rightarrow> nat \<Rightarrow> bytes" where
  "le_bytes 0 n = []"
| "le_bytes (Suc k) n = word_of_nat (n mod 256) # le_bytes k (n div 256)"

definition be_bytes :: "nat \<Rightarrow> nat \<Rightarrow> bytes" where
  "be_bytes k n = rev (le_bytes k n)"

definition unsigned_int :: "nat \<Rightarrow> int \<Rightarrow> nat" where
  "unsigned_int k n = nat (n mod 2 ^ (8 * k))"

lemma length_le_bytes [simp]: "length (le_bytes k n) = k"
  by (induction k arbitrary: n) simp_all

lemma length_be_bytes [simp]: "length (be_bytes k n) = k"
  by (simp add: be_bytes_def)

lemma unat_byte: "unat (word_of_nat (n mod 256) :: u8) = n mod 256"
  by (simp add: unat_of_nat)

lemma le_nat_bytes: "le_nat (le_bytes k n) = n mod 256 ^ k"
proof (induction k arbitrary: n)
  case (Suc k)
  show ?case
    by (simp add: Suc unat_byte mod_mult2_eq)
qed simp

lemma le_nat_le_bytes [simp]: "n < 256 ^ k \<Longrightarrow> le_nat (le_bytes k n) = n"
  by (simp add: le_nat_bytes)

lemma be_nat_be_bytes [simp]: "n < 256 ^ k \<Longrightarrow> be_nat (be_bytes k n) = n"
  by (simp add: be_nat_def be_bytes_def)

lemma le_nat_less: "le_nat bs < 256 ^ length bs"
proof (induction bs)
  case (Cons b bs)
  have "unat b < 256" using unsigned_less [of b] by simp
  with Cons show ?case by simp
qed simp

lemma be_nat_less: "be_nat bs < 256 ^ length bs"
  using le_nat_less [of "rev bs"] by (simp add: be_nat_def)

lemma signed_unsigned:
  assumes "0 < k" "- (2 ^ (8 * k - 1)) \<le> n" "n < 2 ^ (8 * k - 1)"
  shows "signed_nat k (unsigned_int k n) = n" "unsigned_int k n < 256 ^ k"
proof -
  obtain j where j: "8 * k = Suc j" using assms(1) by (cases "8 * k") auto
  have p: "(2 :: int) ^ (8 * k) = 2 * 2 ^ (8 * k - 1)" by (simp add: j)
  have m: "n mod 2 ^ (8 * k) = (if n < 0 then n + 2 ^ (8 * k) else n)"
  proof (cases "n < 0")
    case True
    have "n mod 2 ^ (8 * k) = (n + 2 ^ (8 * k)) mod 2 ^ (8 * k)" by simp
    also have "\<dots> = n + 2 ^ (8 * k)" using assms True p by (intro mod_pos_pos_trivial) auto
    finally show ?thesis using True by simp
  qed (use assms p in \<open>auto intro: mod_pos_pos_trivial\<close>)
  show "signed_nat k (unsigned_int k n) = n"
    unfolding signed_nat_def unsigned_int_def m
    using assms p by (cases "n < 0") (simp_all add: nat_less_iff)
  have "nat (n mod 2 ^ (8 * k)) < nat (2 ^ (8 * k))" by (simp add: nat_mono_iff)
  also have "nat (2 ^ (8 * k)) = 256 ^ k" by (simp add: nat_power_eq power_mult)
  finally show "unsigned_int k n < 256 ^ k" by (simp add: unsigned_int_def)
qed

lemma parse_uint_digits: "n < 2 ^ w \<Longrightarrow> parse_uint w (nat_to_string n) = Some n"
  using nat_to_string_head [of n] parse_nat_to_string [of n] by (auto simp: parse_uint_def Let_def)

lemma digits_only: "c \<in> set (nat_to_string n) \<Longrightarrow> 48 \<le> c \<and> c \<le> 57"
proof (induction n arbitrary: c rule: nat_to_string.induct)
  case (1 n)
  have d: "48 \<le> digit_byte d \<and> digit_byte d \<le> 57" if "d < 10" for d
    using that by (auto simp: digit_byte_def word_le_nat_alt unat_word_ariths unat_of_nat)
  from 1 show ?case by (subst (asm) (2) nat_to_string.simps) (auto split: if_splits intro: d [THEN conjunct1] d [THEN conjunct2])
qed

lemma usize_add_small [simp]: "a + b < 2 ^ 64 \<Longrightarrow> usize_add a b = a + b"
  by (simp add: usize_add_def)

end
