(* ===== verification/LZF.thy ===== *)
theory LZF
  imports Wire
begin

text \<open>
  The LZF decompressor the RDB parser calls (c\_src/lzf\_d.c) and its Rust wrapper in rdb.rs. The output is the
  list of bytes written so far; the C function returns 0 when the input or the output is too short or a
  reference points before the output, which is \<open>None\<close>.
\<close>

text \<open>Octet by octet, so that a copy may overlap the bytes it writes.\<close>

primrec lzf_copy :: "nat \<Rightarrow> nat \<Rightarrow> bytes \<Rightarrow> bytes" where
  "lzf_copy 0 dist out = out"
| "lzf_copy (Suc k) dist out = lzf_copy k dist (out @ [out ! (length out - dist)])"

fun lzf_d :: "nat \<Rightarrow> bytes \<Rightarrow> bytes \<Rightarrow> bytes option" where
  "lzf_d out_len [] out = Some out"
| "lzf_d out_len (c # ip) out =
     (let ctrl = unat c
      in if ctrl < 32 then
           (if out_len < length out + (ctrl + 1) then None
            else if length ip < ctrl + 1 then None
            else lzf_d out_len (drop (ctrl + 1) ip) (out @ take (ctrl + 1) ip))
         else
           (case ip of
              [] \<Rightarrow> None
            | b # ip1 \<Rightarrow>
                (if ctrl div 32 = 7 then
                   (case ip1 of
                      [] \<Rightarrow> None
                    | b2 # ip2 \<Rightarrow>
                        let len = 7 + unat b; dist = (ctrl mod 32) * 256 + 1 + unat b2
                        in if out_len < length out + len + 2 \<or> length out < dist then None
                           else lzf_d out_len ip2 (lzf_copy (len + 2) dist out))
                 else
                   let len = ctrl div 32; dist = (ctrl mod 32) * 256 + 1 + unat b
                   in if out_len < length out + len + 2 \<or> length out < dist then None
                      else lzf_d out_len ip1 (lzf_copy (len + 2) dist out))))"

text \<open>
  The wrapper: the lengths are cast to \<open>c_uint\<close>, the output vector is allocated first (a capacity of more than
  \<open>isize::MAX\<close> panics), and a result of 0 or of another length is an error.
\<close>

definition lzf_decompress :: "bytes \<Rightarrow> usize \<Rightarrow> bytes parsed" where
  "lzf_decompress compressed expected_len =
     (if 2 ^ 63 \<le> expected_len then Inl Crash
      else case lzf_d (expected_len mod 2 ^ 32) (take (length compressed mod 2 ^ 32) compressed) [] of
             None \<Rightarrow> Inl (Failed ''lzf_decompression_failed'')
           | Some out \<Rightarrow>
               (if out = [] then Inl (Failed ''lzf_decompression_failed'')
                else if length out \<noteq> expected_len then Inl (Failed ''lzf_size_mismatch'')
                else Inr out))"

lemma length_lzf_copy [simp]: "length (lzf_copy k dist out) = length out + k"
  by (induction k arbitrary: out) simp_all

text \<open>The decompressor never writes past its output.\<close>

lemma lzf_d_bound: "lzf_d n ip out = Some out' \<Longrightarrow> length out \<le> n \<Longrightarrow> length out \<le> length out' \<and> length out' \<le> n"
proof (induction ip arbitrary: out rule: measure_induct_rule [where f = length])
  case (less ip)
  show ?case
  proof (cases ip)
    case (Cons c ip')
    obtain ip2 out2 where "lzf_d n ip2 out2 = Some out'" "length ip2 < length ip" "length out \<le> length out2" "length out2 \<le> n"
      using less.prems Cons
      by (auto simp: Let_def not_less simp del: lzf_copy.simps split: if_splits list.splits intro!: that)
    with less.IH show ?thesis by fastforce
  qed (use less.prems in simp)
qed

end
