(* ===== verification/RDB_Load.thy ===== *)
theory RDB_Load
  imports LZF F64
begin

text \<open>
  The readers of src/native/vdr\_redis\_nif/src/rdb.rs: lengths, strings, intsets, listpacks and the values of a key, as
  the commands that rebuild them. A reader takes the buffer and returns \<open>Inr None\<close> when it needs more bytes,
  \<open>Inr (Some v)\<close> or an error, with the buffer it leaves; \<open>load_then\<close> is the source's
  \<open>match self.load()? { Some(x) => .., None => return Ok(None) }\<close>. The sizes are the ones the parser computes before it
  reads a value.
\<close>

unbundle bit_operations_syntax

type_synonym 'a loader = "bytes \<Rightarrow> 'a option parsed \<times> bytes"

definition load_then :: "'a loader \<Rightarrow> ('a \<Rightarrow> 'b loader) \<Rightarrow> 'b loader" where
  "load_then m f buf =
     (case m buf of
        (Inl e, buf1) \<Rightarrow> (Inl e, buf1)
      | (Inr None, buf1) \<Rightarrow> (Inr None, buf1)
      | (Inr (Some a), buf1) \<Rightarrow> f a buf1)"

definition load_ret :: "'a \<Rightarrow> 'a loader" where
  "load_ret a buf = (Inr (Some a), buf)"

definition load_parsed :: "'a parsed \<Rightarrow> 'a loader" where
  "load_parsed r buf = (map_sum id Some r, buf)"

primrec load_times :: "nat \<Rightarrow> 'a loader \<Rightarrow> 'a list loader" where
  "load_times 0 m = load_ret []"
| "load_times (Suc n) m = load_then m (\<lambda>x. load_then (load_times n m) (\<lambda>xs. load_ret (x # xs)))"

definition load_fixed :: "nat \<Rightarrow> nat loader" where
  "load_fixed k buf = (if length buf < k then (Inr None, buf) else (Inr (Some (le_nat (take k buf))), drop k buf))"

section \<open>Lengths and strings\<close>

definition peek_length_at :: "bytes \<Rightarrow> usize \<Rightarrow> (nat \<times> usize) option parsed" where
  "peek_length_at buf offset =
     (if length buf \<le> offset then Inr None
      else
        let first_byte = buf ! offset; enc_type = drop_bit 6 (first_byte AND 0xC0)
        in if enc_type = 0 then Inr (Some (unat (first_byte AND 0x3F), 1))
           else if enc_type = 1 then
             (if length buf \<le> offset + 1 then Inr None
              else Inr (Some (unat (first_byte AND 0x3F) * 256 + unat (buf ! (offset + 1)), 2)))
           else if enc_type = 2 then
             (if first_byte = 0x80 then
                (if length buf \<le> offset + 4 then Inr None
                 else Inr (Some (be_nat (take 4 (drop (offset + 1) buf)), 5)))
              else if first_byte = 0x81 then
                (if length buf \<le> offset + 8 then Inr None
                 else Inr (Some (be_nat (take 8 (drop (offset + 1) buf)), 9)))
              else Inl (Failed ''invalid_length_encoding''))
           else Inl (Failed ''special_encoding_in_length''))"

definition calculate_string_size :: "bytes \<Rightarrow> usize \<Rightarrow> usize option parsed" where
  "calculate_string_size buf offset =
     (if length buf \<le> offset then Inr None
      else
        let first_byte = buf ! offset
        in if drop_bit 6 (first_byte AND 0xC0) = 3 then
             (let enc_subtype = first_byte AND 0x3F
              in if enc_subtype = 0 then Inr (Some 2)
                 else if enc_subtype = 1 then Inr (Some 3)
                 else if enc_subtype = 2 then Inr (Some 5)
                 else if enc_subtype = 3 then
                   (case peek_length_at buf (offset + 1) of
                      Inl e \<Rightarrow> Inl e
                    | Inr None \<Rightarrow> Inr None
                    | Inr (Some (clen, clen_bytes)) \<Rightarrow>
                        (case peek_length_at buf (offset + 1 + clen_bytes) of
                           Inl e \<Rightarrow> Inl e
                         | Inr None \<Rightarrow> Inr None
                         | Inr (Some (ulen, ulen_bytes)) \<Rightarrow> Inr (Some (usize_add (1 + clen_bytes + ulen_bytes) clen))))
                 else Inr None)
           else
             (case peek_length_at buf offset of
                Inl e \<Rightarrow> Inl e
              | Inr None \<Rightarrow> Inr None
              | Inr (Some (str_len, len_bytes)) \<Rightarrow> Inr (Some (usize_add len_bytes str_len))))"

definition load_length :: "nat loader" where
  "load_length buf =
     (case peek_length_at buf 0 of
        Inl e \<Rightarrow> (Inl e, buf)
      | Inr None \<Rightarrow> (Inr None, buf)
      | Inr (Some (len, bytes_used)) \<Rightarrow> (Inr (Some len), drop bytes_used buf))"

text \<open>The integer encodings: one byte of encoding, then \<open>k\<close> bytes.\<close>

definition load_int_string :: "nat \<Rightarrow> bytes loader" where
  "load_int_string k buf =
     (if length buf < k + 1 then (Inr None, buf)
      else (Inr (Some (i64_to_string (signed_nat k (le_nat (take k (drop 1 buf)))))), drop (k + 1) buf))"

text \<open>\<open>BytesMut::split_to\<close> panics past the end; so does \<open>unwrap\<close> on a length that is not there.\<close>

definition split_to :: "nat \<Rightarrow> bytes loader" where
  "split_to n buf = (if length buf < n then (Inl Crash, buf) else (Inr (Some (take n buf)), drop n buf))"

definition unwrap_length :: "nat loader" where
  "unwrap_length buf =
     (case load_length buf of (Inr None, buf1) \<Rightarrow> (Inl Crash, buf1) | r \<Rightarrow> r)"

definition load_lzf_string :: "bytes loader" where
  "load_lzf_string buf =
     (if length buf < 2 then (Inr None, buf)
      else case peek_length_at buf 1 of
             Inl e \<Rightarrow> (Inl e, buf)
           | Inr None \<Rightarrow> (Inr None, buf)
           | Inr (Some (clen, clen_bytes)) \<Rightarrow>
               (case peek_length_at buf (1 + clen_bytes) of
                  Inl e \<Rightarrow> (Inl e, buf)
                | Inr None \<Rightarrow> (Inr None, buf)
                | Inr (Some (ulen, ulen_bytes)) \<Rightarrow>
                    (if length buf < usize_add (1 + clen_bytes + ulen_bytes) clen then (Inr None, buf)
                     else load_then unwrap_length (\<lambda>clen_actual.
                          load_then unwrap_length (\<lambda>ulen_actual.
                          load_then (split_to clen_actual) (\<lambda>compressed.
                            load_parsed (lzf_decompress compressed ulen_actual)))) (drop 1 buf))))"

definition load_string :: "bytes loader" where
  "load_string buf =
     (if buf = [] then (Inr None, buf)
      else
        let first_byte = buf ! 0
        in if drop_bit 6 (first_byte AND 0xC0) = 3 then
             (let enc_subtype = first_byte AND 0x3F
              in if enc_subtype = 0 then load_int_string 1 buf
                 else if enc_subtype = 1 then load_int_string 2 buf
                 else if enc_subtype = 2 then load_int_string 4 buf
                 else if enc_subtype = 3 then load_lzf_string buf
                 else (Inr None, buf))
           else
             (case peek_length_at buf 0 of
                Inl e \<Rightarrow> (Inl e, buf)
              | Inr None \<Rightarrow> (Inr None, buf)
              | Inr (Some (len, len_bytes)) \<Rightarrow>
                  (if length buf < usize_add len_bytes len then (Inr None, buf)
                   else case load_length buf of
                          (Inl e, buf1) \<Rightarrow> (Inl e, buf1)
                        | (Inr _, buf1) \<Rightarrow> split_to len buf1)))"

section \<open>The size of a value\<close>

text \<open>The running total and the current offset of the size loops.\<close>

type_synonym sizer = "usize \<times> usize \<Rightarrow> (usize \<times> usize) option parsed"

definition size_string :: "bytes \<Rightarrow> sizer" where
  "size_string buf tc =
     (case calculate_string_size buf (snd tc) of
        Inl e \<Rightarrow> Inl e
      | Inr None \<Rightarrow> Inr None
      | Inr (Some sz) \<Rightarrow> Inr (Some (usize_add (fst tc) sz, usize_add (snd tc) sz)))"

definition size_fixed :: "usize \<Rightarrow> sizer" where
  "size_fixed n tc = Inr (Some (usize_add (fst tc) n, usize_add (snd tc) n))"

definition size_container :: "bytes \<Rightarrow> sizer" where
  "size_container buf tc = (if snd tc < length buf then size_fixed 1 tc else Inr None)"

definition size_seq :: "sizer \<Rightarrow> sizer \<Rightarrow> sizer" where
  "size_seq f g tc = (case f tc of Inl e \<Rightarrow> Inl e | Inr None \<Rightarrow> Inr None | Inr (Some tc1) \<Rightarrow> g tc1)"

primrec size_times :: "nat \<Rightarrow> sizer \<Rightarrow> sizer" where
  "size_times 0 f tc = Inr (Some tc)"
| "size_times (Suc n) f tc = size_seq f (size_times n f) tc"

definition size_counted :: "bytes \<Rightarrow> usize \<Rightarrow> sizer \<Rightarrow> usize option parsed" where
  "size_counted buf offset item =
     (case peek_length_at buf offset of
        Inl e \<Rightarrow> Inl e
      | Inr None \<Rightarrow> Inr None
      | Inr (Some (count, len_bytes)) \<Rightarrow>
          map_sum id (map_option fst) (size_times count item (len_bytes, usize_add offset len_bytes)))"

definition calculate_value_size :: "bytes \<Rightarrow> u8 \<Rightarrow> usize \<Rightarrow> usize option parsed" where
  "calculate_value_size buf value_type offset =
     (if value_type = 0 then calculate_string_size buf offset
      else if value_type = 5 then size_counted buf offset (size_seq (size_string buf) (size_fixed 8))
      else if value_type = 4 then size_counted buf offset (size_seq (size_string buf) (size_string buf))
      else if value_type = 18 then size_counted buf offset (size_seq (size_container buf) (size_string buf))
      else if value_type \<in> {16, 11, 20, 17} then calculate_string_size buf offset
      else if value_type = 22 then
        size_counted buf offset (size_seq (size_string buf) (size_seq (size_string buf) (size_fixed 8)))
      else Inl (Failed ''unknown_rdb_type''))"

section \<open>Intsets and listpacks\<close>

primrec intset_loop :: "nat \<Rightarrow> nat \<Rightarrow> bytes \<Rightarrow> i64 list parsed" where
  "intset_loop enc 0 buf = Inr []"
| "intset_loop enc (Suc n) buf =
     (if enc = 2 \<or> enc = 4 \<or> enc = 8 then
        (if length buf < enc then Inl (Failed ''intset_entry_too_short'')
         else map_sum id ((#) (signed_nat enc (le_nat (take enc buf)))) (intset_loop enc n (drop enc buf)))
      else Inl (Failed ''unknown_intset_encoding''))"

definition parse_intset :: "bytes \<Rightarrow> i64 list parsed" where
  "parse_intset data =
     (if length data < 8 then Inl (Failed ''intset_too_small'')
      else intset_loop (le_nat (take 4 data)) (le_nat (take 4 (drop 4 data))) (drop 8 data))"

definition calculate_backlen_size :: "usize \<Rightarrow> usize" where
  "calculate_backlen_size entry_size =
     (if entry_size \<le> 127 then 1 else if entry_size \<le> 16383 then 2 else if entry_size \<le> 2097151 then 3
      else if entry_size \<le> 268435455 then 4 else 5)"

text \<open>The string entries: \<open>head\<close> bytes of encoding and length before the data, a back length after it.\<close>

definition listpack_string :: "nat \<Rightarrow> nat \<Rightarrow> bytes \<Rightarrow> (bytes \<times> bytes) parsed" where
  "listpack_string header len buf =
     (let backlen_size = calculate_backlen_size (header + len)
      in if length buf < len + backlen_size then Inl (Failed ''listpack_entry_string_too_short'')
         else Inr (take len buf, drop (len + backlen_size) buf))"

text \<open>The integer entries of \<open>k\<close> bytes; one byte of back length.\<close>

definition listpack_int :: "nat \<Rightarrow> bytes \<Rightarrow> (bytes \<times> bytes) parsed" where
  "listpack_int k buf =
     (if length buf < k + 1 then Inl (Failed ''listpack_entry_int_too_short'')
      else Inr (i64_to_string (signed_nat k (le_nat (take k buf))), drop (k + 1) buf))"

definition parse_listpack_entry :: "bytes \<Rightarrow> (bytes \<times> bytes) parsed" where
  "parse_listpack_entry buf0 =
     (case buf0 of
        [] \<Rightarrow> Inl (Failed ''listpack_entry_empty'')
      | enc # buf \<Rightarrow>
          if enc AND 0x80 = 0 then
            (if buf = [] then Inl (Failed ''listpack_entry_no_backlen'')
             else Inr (nat_to_string (unat (enc AND 0x7F)), drop 1 buf))
          else if enc AND 0xC0 = 0x80 then
            (let len = unat (enc AND 0x3F)
             in if length buf < len + 1 then Inl (Failed ''listpack_entry_string_too_short'')
                else Inr (take len buf, drop (len + 1) buf))
          else if enc AND 0xF0 = 0xC0 then
            (if length buf < 2 then Inl (Failed ''listpack_entry_int_too_short'')
             else let val = unat (enc AND 0x1F) * 256 + unat (buf ! 0);
                      signed_val = (if 4096 \<le> val then int val - 8192 else int val)
                  in Inr (i64_to_string signed_val, drop 2 buf))
          else if enc AND 0xF0 = 0xD0 then
            (if length buf < 2 then Inl (Failed ''listpack_entry_string_too_short'')
             else listpack_string 3 (be_nat (take 2 buf)) (drop 2 buf))
          else if enc AND 0xF0 = 0xE0 then
            (if buf = [] then Inl (Failed ''listpack_entry_string_too_short'')
             else listpack_string 2 (unat (enc AND 0x0F) * 256 + unat (buf ! 0)) (drop 1 buf))
          else if enc = 0xF0 then
            (if length buf < 4 then Inl (Failed ''listpack_entry_string_too_short'')
             else listpack_string 5 (le_nat (take 4 buf)) (drop 4 buf))
          else if enc = 0xF1 then listpack_int 2 buf
          else if enc = 0xF2 then listpack_int 3 buf
          else if enc = 0xF3 then listpack_int 4 buf
          else if enc = 0xF4 then listpack_int 8 buf
          else Inl (Failed ''unknown_listpack_encoding''))"

primrec listpack_loop :: "nat \<Rightarrow> bytes \<Rightarrow> bytes list parsed" where
  "listpack_loop 0 buf = Inr []"
| "listpack_loop (Suc n) buf =
     (if buf = [] \<or> hd buf = 0xFF then Inr []
      else case parse_listpack_entry buf of
             Inl e \<Rightarrow> Inl e
           | Inr (entry, buf1) \<Rightarrow> map_sum id ((#) entry) (listpack_loop n buf1))"

definition parse_listpack :: "bytes \<Rightarrow> bytes list parsed" where
  "parse_listpack data =
     (if length data < 6 then Inl (Failed ''listpack_too_small'')
      else listpack_loop (le_nat (take 2 (drop 4 data))) (drop 6 data))"

section \<open>Values\<close>

definition ascii :: "string \<Rightarrow> bytes" where
  "ascii s = map of_char s"

definition with_args :: "u32 \<Rightarrow> string \<Rightarrow> bytes list \<Rightarrow> RawCommand" where
  "with_args db name args = \<lparr>cmd_db = db, cmd_name = ascii name, cmd_args = args\<rparr>"

text \<open>A text that reads as an \<open>i64\<close> reads as an \<open>f64\<close> too, so the second attempt never succeeds.\<close>

definition binary_to_float_safe :: "bytes \<Rightarrow> f64" where
  "binary_to_float_safe bin =
     (case parse_f64 bin of
        Some f \<Rightarrow> f
      | None \<Rightarrow> (case parse_i64 bin of
                  Some i \<Rightarrow> f64_of_mag (i < 0) (f64_of_ratio (nat \<bar>i\<bar>) 1)
                | None \<Rightarrow> f64_zero))"

definition load_string_value :: "u32 \<Rightarrow> bytes \<Rightarrow> RawCommand list loader" where
  "load_string_value db key = load_then load_string (\<lambda>v. load_ret [with_args db ''SET'' [key, v]])"

definition load_zset2_item :: "bytes list loader" where
  "load_zset2_item =
     load_then load_string (\<lambda>member.
     load_then (load_fixed 8) (\<lambda>score. load_ret [f64_to_string (word_of_nat score), member]))"

definition load_zset2_value :: "u32 \<Rightarrow> bytes \<Rightarrow> RawCommand list loader" where
  "load_zset2_value db key =
     load_then load_length (\<lambda>count.
     load_then (load_times count load_zset2_item) (\<lambda>members.
     load_ret [with_args db ''ZADD'' (key # concat members)]))"

definition load_hash_item :: "bytes list loader" where
  "load_hash_item = load_then load_string (\<lambda>field. load_then load_string (\<lambda>v. load_ret [field, v]))"

definition load_hash_value :: "u32 \<Rightarrow> bytes \<Rightarrow> RawCommand list loader" where
  "load_hash_value db key =
     load_then load_length (\<lambda>count.
     load_then (load_times count load_hash_item) (\<lambda>pairs.
     load_ret [with_args db ''HSET'' (key # concat pairs)]))"

definition load_container :: "unit loader" where
  "load_container buf = (if buf = [] then (Inr None, buf) else (Inr (Some ()), drop 1 buf))"

definition load_quicklist2_item :: "bytes list loader" where
  "load_quicklist2_item =
     load_then load_container (\<lambda>_.
     load_then load_string (\<lambda>listpack_bin. load_parsed (parse_listpack listpack_bin)))"

definition load_quicklist2_value :: "u32 \<Rightarrow> bytes \<Rightarrow> RawCommand list loader" where
  "load_quicklist2_value db key =
     load_then load_length (\<lambda>count.
     load_then (load_times count load_quicklist2_item) (\<lambda>all_values.
     load_ret (if concat all_values = [] then [] else [with_args db ''RPUSH'' (key # concat all_values)])))"

definition load_hash_listpack_value :: "u32 \<Rightarrow> bytes \<Rightarrow> RawCommand list loader" where
  "load_hash_listpack_value db key =
     load_then load_string (\<lambda>listpack_bin.
     load_then (load_parsed (parse_listpack listpack_bin)) (\<lambda>entries.
     load_parsed (if length entries mod 2 \<noteq> 0 then Inl (Failed ''odd_hash_entries'')
                  else Inr [with_args db ''HSET'' (key # entries)])))"

definition load_hash_2_item :: "bytes list loader" where
  "load_hash_2_item =
     load_then load_string (\<lambda>field.
     load_then load_string (\<lambda>v.
     load_then (load_fixed 8) (\<lambda>expiry. load_ret [field, v])))"

definition load_hash_2_value :: "u32 \<Rightarrow> bytes \<Rightarrow> RawCommand list loader" where
  "load_hash_2_value db key =
     load_then load_length (\<lambda>count.
     load_then (load_times count load_hash_2_item) (\<lambda>pairs.
     load_ret (if concat pairs = [] then [] else [with_args db ''HSET'' (key # concat pairs)])))"

definition load_set_intset_value :: "u32 \<Rightarrow> bytes \<Rightarrow> RawCommand list loader" where
  "load_set_intset_value db key =
     load_then load_string (\<lambda>intset_bin.
     load_then (load_parsed (parse_intset intset_bin)) (\<lambda>integers.
     load_ret [with_args db ''SADD'' (key # map i64_to_string integers)]))"

definition load_set_listpack_value :: "u32 \<Rightarrow> bytes \<Rightarrow> RawCommand list loader" where
  "load_set_listpack_value db key =
     load_then load_string (\<lambda>listpack_bin.
     load_then (load_parsed (parse_listpack listpack_bin)) (\<lambda>entries.
     load_ret [with_args db ''SADD'' (key # entries)]))"

fun score_member_args :: "bytes list \<Rightarrow> bytes list" where
  "score_member_args (member # score_bin # entries) =
     f64_to_string (binary_to_float_safe score_bin) # member # score_member_args entries"
| "score_member_args entries = []"

definition load_zset_listpack_value :: "u32 \<Rightarrow> bytes \<Rightarrow> RawCommand list loader" where
  "load_zset_listpack_value db key =
     load_then load_string (\<lambda>listpack_bin.
     load_then (load_parsed (parse_listpack listpack_bin)) (\<lambda>entries.
     load_parsed (if length entries mod 2 \<noteq> 0 then Inl (Failed ''odd_zset_entries'')
                  else Inr [with_args db ''ZADD'' (key # score_member_args entries)])))"

definition load_object :: "u32 \<Rightarrow> u8 \<Rightarrow> bytes \<Rightarrow> RawCommand list loader" where
  "load_object db value_type key =
     (if value_type = 0 then load_string_value db key
      else if value_type = 5 then load_zset2_value db key
      else if value_type = 4 then load_hash_value db key
      else if value_type = 18 then load_quicklist2_value db key
      else if value_type = 16 then load_hash_listpack_value db key
      else if value_type = 22 then load_hash_2_value db key
      else if value_type = 11 then load_set_intset_value db key
      else if value_type = 20 then load_set_listpack_value db key
      else if value_type = 17 then load_zset_listpack_value db key
      else load_ret [])"

end
