(* ===== verification/Incremental.thy ===== *)
theory Incremental
  imports Wire
begin

text \<open>
  A parser that is fed a stream in chunks. It keeps the bytes it has not consumed, works as long as it can and
  stops when it needs more. The locale states when the chunks do not matter: resuming a stopped parser with
  more bytes does what it would have done with all the bytes at once.
\<close>

datatype ('s, 'o, 'e) action = Stop 's | Go 's "'o list" | Fail 'e

type_synonym ('s, 'o, 'e) progress = "'e + 'o list \<times> 's"

definition emit :: "'o list \<Rightarrow> ('s, 'o, 'e) progress \<Rightarrow> ('s, 'o, 'e) progress" where
  "emit cs r = map_sum id (map_prod ((@) cs) id) r"

definition resume :: "('s, 'o, 'e) progress \<Rightarrow> ('s \<Rightarrow> ('s, 'o, 'e) progress) \<Rightarrow> ('s, 'o, 'e) progress" where
  "resume r f = (case r of Inl e \<Rightarrow> Inl e | Inr (cs, s) \<Rightarrow> emit cs (f s))"

fun feed_all :: "('s \<Rightarrow> bytes \<Rightarrow> ('s, 'o, 'e) progress) \<Rightarrow> 's \<Rightarrow> bytes list \<Rightarrow> ('s, 'o, 'e) progress" where
  "feed_all feed s [] = Inr ([], s)"
| "feed_all feed s (c # cs) = resume (feed s c) (\<lambda>s'. feed_all feed s' cs)"

lemma emit_simps [simp]:
  "emit cs (Inl e) = Inl e" "emit cs (Inr (ds, s)) = Inr (cs @ ds, s)" "emit [] r = r"
  "emit cs (emit ds r) = emit (cs @ ds) r"
  by (cases r; auto simp: emit_def)+

lemma resume_simps [simp]:
  "resume (Inl e) f = Inl e" "resume (Inr (cs, s)) f = emit cs (f s)" "resume (emit cs r) f = emit cs (resume r f)"
  by (cases r; auto simp: resume_def)+

lemma emit_Inr: "emit cs r = Inr (ds, s) \<longleftrightarrow> (\<exists>es. r = Inr (es, s) \<and> ds = cs @ es)"
  by (cases r) auto

locale incremental =
  fixes step :: "'s \<Rightarrow> ('s, 'o, 'e) action"
    and run :: "'s \<Rightarrow> ('s, 'o, 'e) progress"
    and app :: "'s \<Rightarrow> bytes \<Rightarrow> 's"
    and good :: "'s \<Rightarrow> bytes \<Rightarrow> bool"
    and weight :: "'s \<Rightarrow> nat"
  assumes run_step: "run s = (case step s of Stop s' \<Rightarrow> Inr ([], s') | Go s' cs \<Rightarrow> emit cs (run s') | Fail e \<Rightarrow> Inl e)"
    and weight_step: "step s = Go s' cs \<Longrightarrow> weight s' < weight s"
    and app_Nil: "app s [] = s"
    and good_app: "good s (x @ y) \<Longrightarrow> good (app s x) y"
    and stop_then: "good s x \<Longrightarrow> step s = Stop s' \<Longrightarrow> good s' x \<and> run s' = Inr ([], s') \<and> run (app s x) = run (app s' x)"
    and go_then: "good s x \<Longrightarrow> step s = Go s' cs \<Longrightarrow> good s' x \<and> run (app s x) = emit cs (run (app s' x))"
    and fail_then: "good s x \<Longrightarrow> step s = Fail e \<Longrightarrow> run (app s x) = Inl e"
    and app_app: "app (app s x) y = app s (x @ y)"
begin

lemma run_app: "good s x \<Longrightarrow> run (app s x) = resume (run s) (\<lambda>s'. run (app s' x))"
proof (induction s rule: measure_induct_rule [where f = weight])
  case (less s)
  show ?case
  proof (cases "step s")
    case (Stop s')
    with stop_then [OF less.prems] show ?thesis by (simp add: run_step [of s])
  next
    case (Go s' cs)
    with go_then [OF less.prems] less.IH weight_step show ?thesis by (simp add: run_step [of s])
  next
    case (Fail e)
    with fail_then [OF less.prems] show ?thesis by (simp add: run_step [of s])
  qed
qed

lemma run_result: "good s x \<Longrightarrow> run s = Inr (cs, s') \<Longrightarrow> good s' x \<and> run s' = Inr ([], s')"
proof (induction s arbitrary: cs rule: measure_induct_rule [where f = weight])
  case (less s)
  show ?case
  proof (cases "step s")
    case (Stop t)
    with stop_then [OF less.prems(1)] less.prems(2) show ?thesis by (simp add: run_step [of s])
  next
    case (Go t ds)
    obtain es where "run t = Inr (es, s')" using less.prems(2) Go by (auto simp: run_step [of s] emit_Inr)
    then show ?thesis using less.IH [OF weight_step [OF Go]] go_then [OF less.prems(1) Go] by blast
  qed (use less.prems in \<open>simp add: run_step [of s]\<close>)
qed

lemma chunks:
  "good s (concat cs) \<Longrightarrow> run s = Inr ([], s) \<Longrightarrow> feed_all (\<lambda>s c. run (app s c)) s cs = run (app s (concat cs))"
proof (induction cs arbitrary: s)
  case (Cons c cs)
  have g: "good (app s c) (concat cs)" using Cons.prems good_app by simp
  show ?case
  proof (cases "run (app s c)")
    case (Inr r)
    obtain ds s' where r: "r = (ds, s')" by fastforce
    note s' = run_result [OF g Inr [unfolded r]]
    have "run (app s (c @ concat cs)) = emit ds (run (app s' (concat cs)))"
      using run_app [OF g] Inr r by (simp add: app_app)
    with Cons.IH s' Inr r show ?thesis by simp
  qed (use run_app [OF g] in \<open>simp add: app_app\<close>)
qed (simp add: app_Nil)

end

end
