(* ===== verification/RDB.thy ===== *)
theory RDB
  imports RDB_Load Incremental
begin

text \<open>
  The state machine of src/native/vdr\_redis\_nif/src/rdb.rs. Every \<open>parse_\<close> and \<open>process_\<close> method is a definition that
  returns the new state and either \<open>Next\<close>, the tail call of \<open>parse_next\<close>, or \<open>Return\<close> with the result of the method.
  \<open>parse_next\<close> and the loop of \<open>feed_data\<close> are recursive functions; their termination proofs show that every feed
  returns.
\<close>

datatype ParseState =
    Magic usize
  | Opcode
  | ProcessingOpcode u8
  | ProcessingKey u8
  | ProcessingValue u8 usize
  | WaitingChecksum
  | Finished

record ParserState =
  buffer :: bytes
  parse_state :: ParseState
  current_db :: u32
  expire_ms :: "u64 option"
  finished :: bool
  saved_key :: bytes

datatype 'a flow = Next | Return 'a

type_synonym parse_result = "RawCommand list option parsed"
type_synonym parse_step = "parse_result flow \<times> ParserState"

definition ParserState_new :: ParserState where
  "ParserState_new =
     \<lparr>buffer = [], parse_state = Magic 0, current_db = 0, expire_ms = None, finished = False, saved_key = []\<rparr>"

definition loading :: "ParserState \<Rightarrow> 'a loader \<Rightarrow> ('a \<Rightarrow> ParserState \<Rightarrow> parse_step) \<Rightarrow> parse_step" where
  "loading st m k =
     (case m (buffer st) of
        (Inl e, buf) \<Rightarrow> (Return (Inl e), st\<lparr>buffer := buf\<rparr>)
      | (Inr None, buf) \<Rightarrow> (Return (Inr None), st\<lparr>buffer := buf\<rparr>)
      | (Inr (Some a), buf) \<Rightarrow> k a (st\<lparr>buffer := buf\<rparr>))"

text \<open>\<open>let _ = self.load()?\<close>\<close>

definition load_ignored :: "'a loader \<Rightarrow> unit loader" where
  "load_ignored m buf = (case m buf of (Inl e, buf1) \<Rightarrow> (Inl e, buf1) | (Inr _, buf1) \<Rightarrow> (Inr (Some ()), buf1))"

definition check_version :: "bytes \<Rightarrow> nat \<Rightarrow> nat \<Rightarrow> unit parsed" where
  "check_version version_str lo hi =
     (case parse_uint 32 version_str of
        None \<Rightarrow> Inl (Failed ''invalid_version'')
      | Some version \<Rightarrow> if lo \<le> version \<and> version \<le> hi then Inr () else Inl (Failed ''unsupported_version''))"

definition parse_magic :: "ParserState \<Rightarrow> usize \<Rightarrow> parse_step" where
  "parse_magic st pos =
     (if length (buffer st) < (2 ^ 64 + 9 - pos) mod 2 ^ 64 then (Return (Inr None), st)
      else if length (buffer st) < 9 then (Return (Inl Crash), st)
      else
        let magic_version = take 9 (buffer st);
            checked = (if take 5 magic_version = ascii ''REDIS'' then check_version (drop 5 magic_version) 1 12
                       else if take 6 magic_version = ascii ''VALKEY'' then check_version (drop 6 magic_version) 80 999
                       else Inl (Failed ''invalid_magic''))
        in case checked of
             Inl e \<Rightarrow> (Return (Inl e), st)
           | Inr _ \<Rightarrow> (Next, st\<lparr>buffer := drop 9 (buffer st), parse_state := Opcode\<rparr>))"

definition parse_checksum :: "ParserState \<Rightarrow> parse_step" where
  "parse_checksum st =
     (if length (buffer st) < 8 then (Return (Inr None), st)
      else (Return (Inr None), st\<lparr>buffer := drop 8 (buffer st), finished := True, parse_state := Finished\<rparr>))"

definition parse_opcode :: "ParserState \<Rightarrow> parse_step" where
  "parse_opcode st =
     (case buffer st of
        [] \<Rightarrow> (Return (Inr None), st)
      | opcode # buf \<Rightarrow>
          if opcode = 255 then (Next, st\<lparr>buffer := buf, parse_state := WaitingChecksum\<rparr>)
          else if opcode \<in> {254, 251, 250, 253, 252} then (Next, st\<lparr>buffer := buf, parse_state := ProcessingOpcode opcode\<rparr>)
          else (Next, st\<lparr>buffer := buf, parse_state := ProcessingKey opcode\<rparr>))"

definition process_key :: "ParserState \<Rightarrow> u8 \<Rightarrow> parse_step" where
  "process_key st value_type =
     loading st load_string (\<lambda>key st1.
       (Next, st1\<lparr>saved_key := key, parse_state := ProcessingValue value_type (length key)\<rparr>))"

definition process_opcode :: "ParserState \<Rightarrow> u8 \<Rightarrow> parse_step" where
  "process_opcode st opcode =
     (if opcode = 254 then
        loading st load_length (\<lambda>db_num st1. (Next, st1\<lparr>current_db := word_of_nat db_num, parse_state := Opcode\<rparr>))
      else if opcode = 251 then
        (case peek_length_at (buffer st) 0 of
           Inl e \<Rightarrow> (Return (Inl e), st)
         | Inr None \<Rightarrow> (Return (Inr None), st)
         | Inr (Some (db_size, db_bytes)) \<Rightarrow>
             (case peek_length_at (buffer st) db_bytes of
                Inl e \<Rightarrow> (Return (Inl e), st)
              | Inr None \<Rightarrow> (Return (Inr None), st)
              | Inr (Some _) \<Rightarrow>
                  loading st (load_then (load_ignored load_length) (\<lambda>_. load_ignored load_length)) (\<lambda>_ st1.
                    (Next, st1\<lparr>parse_state := Opcode\<rparr>))))
      else if opcode = 250 then
        (case calculate_string_size (buffer st) 0 of
           Inl e \<Rightarrow> (Return (Inl e), st)
         | Inr None \<Rightarrow> (Return (Inr None), st)
         | Inr (Some key_size) \<Rightarrow>
             (case calculate_string_size (buffer st) key_size of
                Inl e \<Rightarrow> (Return (Inl e), st)
              | Inr None \<Rightarrow> (Return (Inr None), st)
              | Inr (Some val_size) \<Rightarrow>
                  (if length (buffer st) < usize_add key_size val_size then (Return (Inr None), st)
                   else loading st (load_then (load_ignored load_string) (\<lambda>_. load_ignored load_string)) (\<lambda>_ st1.
                          (Next, st1\<lparr>parse_state := Opcode\<rparr>)))))
      else if opcode = 253 then
        loading st (load_fixed 4) (\<lambda>expire_sec st1.
          (Next, st1\<lparr>expire_ms := Some (word_of_nat expire_sec * 1000), parse_state := Opcode\<rparr>))
      else if opcode = 252 then
        loading st (load_fixed 8) (\<lambda>ms st1. (Next, st1\<lparr>expire_ms := Some (word_of_nat ms), parse_state := Opcode\<rparr>))
      else (Return (Inl (Failed ''unknown_opcode'')), st))"

definition expire_commands :: "ParserState \<Rightarrow> bytes \<Rightarrow> RawCommand list" where
  "expire_commands st key =
     (case expire_ms st of
        None \<Rightarrow> []
      | Some ms \<Rightarrow> [with_args (current_db st) ''PEXPIREAT'' [key, nat_to_string (unat ms)]])"

definition parse_value :: "ParserState \<Rightarrow> u8 \<Rightarrow> parse_step" where
  "parse_value st value_type =
     (case calculate_value_size (buffer st) value_type 0 of
        Inl e \<Rightarrow> (Return (Inr (Some [])), st\<lparr>expire_ms := None, saved_key := [], parse_state := Opcode\<rparr>)
      | Inr None \<Rightarrow> (Return (Inr None), st)
      | Inr (Some total_size) \<Rightarrow>
          (if length (buffer st) < total_size then (Return (Inr None), st)
           else loading st (load_object (current_db st) value_type (saved_key st)) (\<lambda>commands st1.
                  (Return (Inr (Some (commands @ expire_commands st1 (saved_key st)))),
                   st1\<lparr>expire_ms := None, saved_key := [], parse_state := Opcode\<rparr>))))"

definition parse_step :: "ParserState \<Rightarrow> parse_step" where
  "parse_step st =
     (case parse_state st of
        Magic pos \<Rightarrow> parse_magic st pos
      | Opcode \<Rightarrow> parse_opcode st
      | ProcessingOpcode opcode \<Rightarrow> process_opcode st opcode
      | ProcessingKey value_type \<Rightarrow> process_key st value_type
      | ProcessingValue value_type key_len \<Rightarrow> parse_value st value_type
      | WaitingChecksum \<Rightarrow> parse_checksum st
      | Finished \<Rightarrow> (Return (Inr None), st))"

section \<open>Every feed returns\<close>

text \<open>No reader gives bytes back.\<close>

definition shrinks :: "'a loader \<Rightarrow> bool" where
  "shrinks m \<longleftrightarrow> (\<forall>buf. length (snd (m buf)) \<le> length buf)"

lemma shrinks_le: "shrinks m \<Longrightarrow> m buf = (r, buf1) \<Longrightarrow> length buf1 \<le> length buf"
  by (metis shrinks_def snd_conv)

lemma shrinks_then: "shrinks m \<Longrightarrow> (\<And>a. shrinks (f a)) \<Longrightarrow> shrinks (load_then m f)"
  unfolding shrinks_def [of "load_then m f"] load_then_def
  by (auto split: prod.split sum.split option.split dest: shrinks_le) (metis order_trans shrinks_def shrinks_le)

lemma shrinks_basic:
  "shrinks (load_ret a)" "shrinks (load_parsed r)" "shrinks (load_fixed k)" "shrinks load_length"
  "shrinks (load_int_string k)" "shrinks (split_to k)" "shrinks unwrap_length" "shrinks load_container"
  by (auto simp: shrinks_def load_ret_def load_parsed_def load_fixed_def load_length_def load_int_string_def
      split_to_def unwrap_length_def load_container_def split: sum.split option.split prod.split)

lemma shrinks_ignored: "shrinks m \<Longrightarrow> shrinks (load_ignored m)"
  unfolding shrinks_def [of "load_ignored m"] load_ignored_def
  by (auto split: prod.split sum.split dest: shrinks_le)

lemma shrinks_times: "shrinks m \<Longrightarrow> shrinks (load_times n m)"
  by (induction n) (auto intro!: shrinks_then shrinks_basic)

lemma shrinks_drop:
  assumes "shrinks m"
  shows "length (snd (m (drop k buf))) \<le> length buf"
  using assms unfolding shrinks_def by (metis diff_le_self le_trans length_drop)

lemma shrinks_lzf: "shrinks load_lzf_string"
  unfolding shrinks_def load_lzf_string_def
  by (auto split: sum.split option.split prod.split intro!: shrinks_drop shrinks_then shrinks_basic)

lemma shrinks_string: "shrinks load_string"
proof -
  have s: "length (snd (split_to k b)) \<le> length buf" if "load_length buf = (r, b)" for k b buf r
    using shrinks_le [OF shrinks_basic(4) that] shrinks_basic(6) [of k] order_trans unfolding shrinks_def by blast
  show ?thesis
    unfolding shrinks_def load_string_def Let_def
    using shrinks_lzf shrinks_basic(5) s
    by (auto simp: shrinks_def split: sum.split option.split prod.split dest: shrinks_le [OF shrinks_basic(4)])
qed

lemma shrinks_object: "shrinks (load_object db ty key)"
  unfolding load_object_def load_string_value_def load_zset2_value_def load_hash_value_def load_quicklist2_value_def
    load_hash_listpack_value_def load_hash_2_value_def load_set_intset_value_def load_set_listpack_value_def
    load_zset_listpack_value_def load_zset2_item_def load_hash_item_def load_quicklist2_item_def load_hash_2_item_def
  by (auto intro!: shrinks_then shrinks_times shrinks_basic shrinks_string)

fun state_rank :: "ParseState \<Rightarrow> nat" where
  "state_rank (ProcessingKey ty) = 2"
| "state_rank (ProcessingOpcode op) = 1"
| "state_rank (ProcessingValue ty n) = 1"
| "state_rank _ = 0"

definition parser_weight :: "ParserState \<Rightarrow> nat" where
  "parser_weight st = 3 * length (buffer st) + state_rank (parse_state st)"

definition progresses :: "nat \<Rightarrow> parse_step \<Rightarrow> bool" where
  "progresses w p \<longleftrightarrow> (fst p = Next \<or> (\<exists>cs. fst p = Return (Inr (Some cs))) \<longrightarrow> parser_weight (snd p) < w)"

lemma progresses_simps [simp]:
  "progresses w (Next, st) \<longleftrightarrow> parser_weight st < w" "progresses w (Return (Inr (Some cs)), st) \<longleftrightarrow> parser_weight st < w"
  "progresses w (Return (Inl e), st)" "progresses w (Return (Inr None), st)"
  by (auto simp: progresses_def)

lemma progresses_loading:
  assumes "shrinks m" "\<And>a buf. length buf \<le> length (buffer st) \<Longrightarrow> progresses w (k a (st\<lparr>buffer := buf\<rparr>))"
  shows "progresses w (loading st m k)"
  using assms(2) [OF shrinks_le [OF assms(1)]] by (auto simp: loading_def split: prod.split sum.split option.split)

lemma step_progresses: "progresses (parser_weight st) (parse_step st)"
proof (cases "parse_state st")
  case (Magic pos)
  then show ?thesis by (auto simp: parse_step_def parse_magic_def parser_weight_def Let_def split: sum.split)
next
  case (ProcessingOpcode op)
  then show ?thesis
    by (auto simp: parse_step_def process_opcode_def parser_weight_def split: sum.split option.split
        intro!: progresses_loading shrinks_then shrinks_basic shrinks_ignored shrinks_string)
next
  case (ProcessingValue ty n)
  then show ?thesis
    by (auto simp: parse_step_def parse_value_def parser_weight_def split: sum.split option.split
        intro!: progresses_loading shrinks_object)
next
  case (ProcessingKey ty)
  then show ?thesis
    by (auto simp: parse_step_def process_key_def parser_weight_def intro!: progresses_loading shrinks_string)
qed (auto simp: parse_step_def parse_opcode_def parse_checksum_def parser_weight_def split: list.split)

lemma step_weight:
  "parse_step st = (Next, st') \<Longrightarrow> parser_weight st' < parser_weight st"
  "parse_step st = (Return (Inr (Some cs)), st') \<Longrightarrow> parser_weight st' < parser_weight st"
  using step_progresses [of st] by auto

function parse_next :: "ParserState \<Rightarrow> parse_result \<times> ParserState" where
  "parse_next st = (case parse_step st of (Next, st1) \<Rightarrow> parse_next st1 | (Return r, st1) \<Rightarrow> (r, st1))"
  by auto
termination by (relation "measure parser_weight") (simp_all, metis step_weight(1))

declare parse_next.simps [simp del]

lemma parse_next_weight: "parse_next st = (Inr (Some cs), st') \<Longrightarrow> parser_weight st' < parser_weight st"
proof (induction st arbitrary: cs rule: parse_next.induct)
  case (1 st)
  obtain r st1 where s: "parse_step st = (r, st1)" by fastforce
  show ?case
  proof (cases r)
    case Next
    with 1 s have "parser_weight st' < parser_weight st1" by (simp add: parse_next.simps [of st])
    with step_weight(1) [of st] s Next show ?thesis by simp
  next
    case (Return x)
    with 1(2) s show ?thesis using step_weight(2) [of st] by (simp add: parse_next.simps [of st])
  qed
qed

text \<open>The loop of \<open>feed_data\<close>.\<close>

function feed_loop :: "ParserState \<Rightarrow> RawCommand list parsed \<times> ParserState" where
  "feed_loop st =
     (case parse_next st of
        (Inl e, st1) \<Rightarrow> (Inl e, st1)
      | (Inr None, st1) \<Rightarrow> (Inr [], st1)
      | (Inr (Some cmds), st1) \<Rightarrow>
          (case feed_loop st1 of
             (Inl e, st2) \<Rightarrow> (Inl e, st2)
           | (Inr commands, st2) \<Rightarrow> (Inr (cmds @ commands), st2)))"
  by auto
termination by (relation "measure parser_weight") (simp_all, metis parse_next_weight)

declare feed_loop.simps [simp del]

definition feed_data :: "ParserState \<Rightarrow> bytes \<Rightarrow> RawCommand list parsed \<times> ParserState" where
  "feed_data st data =
     (if finished st then (Inl (Failed ''already_finished''), st)
      else feed_loop (st\<lparr>buffer := buffer st @ data\<rparr>))"

text \<open>
  The NIF: only the process that created the parser may feed it, and the reply says whether the dump is complete
  (\<open>{:ok, commands}\<close>) or the parser wants more (\<open>{:ok, commands, parser}\<close>).
\<close>

record 'p RDBParser =
  rdb_pid :: 'p
  rdb_state :: ParserState

datatype rdb_reply = Done "RawCommand list" | More "RawCommand list" | Refused stream_error

definition create_parser :: "'p \<Rightarrow> 'p RDBParser" where
  "create_parser pid = \<lparr>rdb_pid = pid, rdb_state = ParserState_new\<rparr>"

definition rdb_data :: "'p \<Rightarrow> 'p RDBParser \<Rightarrow> bytes \<Rightarrow> rdb_reply \<times> 'p RDBParser" where
  "rdb_data pid parser data =
     (if rdb_pid parser \<noteq> pid then (Refused (Failed ''parser_not_owned''), parser)
      else case feed_data (rdb_state parser) data of
             (Inl e, st) \<Rightarrow> (Refused e, parser\<lparr>rdb_state := st\<rparr>)
           | (Inr commands, st) \<Rightarrow> (if finished st then Done commands else More commands, parser\<lparr>rdb_state := st\<rparr>))"

end
