(* ===== verification/RDB_Format.thy ===== *)
theory RDB_Format
  imports RDB "HOL-Library.Sublist"
begin

text \<open>
  The format the RDB parser reads, as encoders: the four forms of a length, the five forms of a string, intsets and
  listpacks, and that the readers of \<open>RDB_Load\<close> read them back. For every reader there is a fact about a complete
  encoding followed by any bytes, and one about a proper prefix of it, on which the reader waits.
\<close>

unbundle bit_operations_syntax

section \<open>Bytes\<close>

lemma byte_less [simp]: "unat (b :: u8) < 256"
  using unsigned_less [of b] by simp

lemma byte_high: "drop_bit 6 ((b :: u8) AND 0xC0) = word_of_nat (unat b div 64)"
proof -
  have "drop_bit 6 (b AND 0xC0) = drop_bit 6 b"
    by (rule bit_word_eqI) (auto simp: bit_simps bit_numeral_rec less_Suc_eq numeral_eq_Suc dest: bit_imp_le_length)
  moreover have "unat b div 64 < 256" using byte_less [of b] by linarith
  ultimately show ?thesis
    by (simp only: word_unat_eq_iff) (simp add: unat_div_distrib unat_of_nat unsigned_drop_bit_eq drop_bit_eq_div)
qed

lemma byte_low: "unat ((b :: u8) AND 0x3F) = unat b mod 64"
proof -
  have "b AND 0x3F = take_bit 6 b"
    by (rule bit_word_eqI) (auto simp: bit_simps less_Suc_eq numeral_eq_Suc)
  then show ?thesis by (simp add: take_bit_eq_mod unat_mod_distrib)
qed

lemma quarters:
  "n < 256 \<Longrightarrow> (n div 64 = 0 \<longleftrightarrow> n < 64) \<and> (n div 64 = 1 \<longleftrightarrow> 64 \<le> n \<and> n < 128) \<and>
     (n div 64 = 2 \<longleftrightarrow> 128 \<le> n \<and> n < 192) \<and> (n div 64 = 3 \<longleftrightarrow> 192 \<le> n)" for n :: nat
  by auto

lemma byte_kind:
  "drop_bit 6 ((b :: u8) AND 0xC0) = 0 \<longleftrightarrow> unat b < 64"
  "drop_bit 6 ((b :: u8) AND 0xC0) = 1 \<longleftrightarrow> 64 \<le> unat b \<and> unat b < 128"
  "drop_bit 6 ((b :: u8) AND 0xC0) = 2 \<longleftrightarrow> 128 \<le> unat b \<and> unat b < 192"
  "drop_bit 6 ((b :: u8) AND 0xC0) = 3 \<longleftrightarrow> 192 \<le> unat b"
proof -
  have "unat b div 64 < 256" using byte_less [of b] by linarith
  then have "unat (word_of_nat (unat b div 64) :: u8) = unat b div 64" by (simp add: unat_of_nat)
  then show "drop_bit 6 ((b :: u8) AND 0xC0) = 0 \<longleftrightarrow> unat b < 64"
    "drop_bit 6 ((b :: u8) AND 0xC0) = 1 \<longleftrightarrow> 64 \<le> unat b \<and> unat b < 128"
    "drop_bit 6 ((b :: u8) AND 0xC0) = 2 \<longleftrightarrow> 128 \<le> unat b \<and> unat b < 192"
    "drop_bit 6 ((b :: u8) AND 0xC0) = 3 \<longleftrightarrow> 192 \<le> unat b"
    unfolding byte_high word_unat_eq_iff using quarters [OF byte_less [of b]] by simp_all
qed

lemma unat_of_byte: "n < 256 \<Longrightarrow> unat (word_of_nat n :: u8) = n"
  by (simp add: unat_of_nat)

section \<open>Lengths\<close>

datatype rdb_len = Len6 nat | Len14 nat | Len32 nat | Len64 nat

fun len_value :: "rdb_len \<Rightarrow> nat" where
  "len_value (Len6 n) = n" | "len_value (Len14 n) = n" | "len_value (Len32 n) = n" | "len_value (Len64 n) = n"

fun wf_len :: "rdb_len \<Rightarrow> bool" where
  "wf_len (Len6 n) \<longleftrightarrow> n < 2 ^ 6"
| "wf_len (Len14 n) \<longleftrightarrow> n < 2 ^ 14"
| "wf_len (Len32 n) \<longleftrightarrow> n < 2 ^ 32"
| "wf_len (Len64 n) \<longleftrightarrow> n < 2 ^ 64"

fun enc_len :: "rdb_len \<Rightarrow> bytes" where
  "enc_len (Len6 n) = [word_of_nat n]"
| "enc_len (Len14 n) = [word_of_nat (64 + n div 256), word_of_nat (n mod 256)]"
| "enc_len (Len32 n) = 0x80 # be_bytes 4 n"
| "enc_len (Len64 n) = 0x81 # be_bytes 8 n"

lemma peek_Nil [simp]: "peek_length_at [] k = Inr None"
  by (simp add: peek_length_at_def)

lemma peek_Cons:
  "peek_length_at (b # bs) 0 =
     (if unat b < 64 then Inr (Some (unat b, 1))
      else if unat b < 128 then
        (if bs = [] then Inr None else Inr (Some ((unat b - 64) * 256 + unat (hd bs), 2)))
      else if b = 0x80 then (if length bs < 4 then Inr None else Inr (Some (be_nat (take 4 bs), 5)))
      else if b = 0x81 then (if length bs < 8 then Inr None else Inr (Some (be_nat (take 8 bs), 9)))
      else if unat b < 192 then Inl (Failed ''invalid_length_encoding'')
      else Inl (Failed ''special_encoding_in_length''))"
proof -
  have "unat b mod 64 = unat b - 64" if "64 \<le> unat b" "unat b < 128"
    using that by (simp add: mod_if)
  moreover have "unat (0x80 :: u8) = 128" "unat (0x81 :: u8) = 129" by simp_all
  ultimately show ?thesis
    unfolding peek_length_at_def Let_def nth_Cons_0 byte_kind byte_low
    by (auto simp: hd_conv_nth not_less less_Suc_eq_le)
qed

lemma peek_shift: "peek_length_at buf k = peek_length_at (drop k buf) 0"
proof (cases "k < length buf")
  case True
  have e: "length buf - k \<le> j \<longleftrightarrow> length buf \<le> k + j" for j by linarith
  show ?thesis using True unfolding peek_length_at_def Let_def length_drop e by (simp add: not_le add.commute)
qed (simp add: peek_length_at_def)

lemma peek_more: "peek_length_at b 0 = Inr None \<or> peek_length_at (b @ x) 0 = peek_length_at b 0"
  by (cases b) (auto simp: peek_Cons)

lemma peek_enc: "wf_len l \<Longrightarrow> peek_length_at (enc_len l @ rest) 0 = Inr (Some (len_value l, length (enc_len l)))"
proof (cases l)
  case (Len14 n)
  assume "wf_len l"
  then have n: "64 + n div 256 < 128" using Len14 by auto
  obtain w :: u8 where w: "word_of_nat (64 + n div 256) = w" "unat w = 64 + n div 256"
    using n unat_of_byte [of "64 + n div 256"] by auto
  show ?thesis unfolding Len14 enc_len.simps w using n w(2) by (simp add: peek_Cons unat_of_byte)
qed (auto simp: peek_Cons unat_of_byte)

lemma load_length_enc: "wf_len l \<Longrightarrow> load_length (enc_len l @ rest) = (Inr (Some (len_value l)), rest)"
  by (simp add: load_length_def peek_enc)

section \<open>Strings\<close>

datatype rdb_string =
    Plain rdb_len bytes
  | Int8 int | Int16 int | Int32 int
  | Lzf rdb_len rdb_len bytes bytes

fun string_value :: "rdb_string \<Rightarrow> bytes" where
  "string_value (Plain l s) = s"
| "string_value (Int8 n) = i64_to_string n"
| "string_value (Int16 n) = i64_to_string n"
| "string_value (Int32 n) = i64_to_string n"
| "string_value (Lzf cl ul compressed s) = s"

fun wf_string :: "rdb_string \<Rightarrow> bool" where
  "wf_string (Plain l s) \<longleftrightarrow> wf_len l \<and> len_value l = length s"
| "wf_string (Int8 n) \<longleftrightarrow> - (2 ^ 7) \<le> n \<and> n < 2 ^ 7"
| "wf_string (Int16 n) \<longleftrightarrow> - (2 ^ 15) \<le> n \<and> n < 2 ^ 15"
| "wf_string (Int32 n) \<longleftrightarrow> - (2 ^ 31) \<le> n \<and> n < 2 ^ 31"
| "wf_string (Lzf cl ul compressed s) \<longleftrightarrow>
     wf_len cl \<and> wf_len ul \<and> len_value cl = length compressed \<and> len_value ul = length s \<and>
     lzf_decompress compressed (length s) = Inr s"

fun enc_string :: "rdb_string \<Rightarrow> bytes" where
  "enc_string (Plain l s) = enc_len l @ s"
| "enc_string (Int8 n) = 0xC0 # le_bytes 1 (unsigned_int 1 n)"
| "enc_string (Int16 n) = 0xC1 # le_bytes 2 (unsigned_int 2 n)"
| "enc_string (Int32 n) = 0xC2 # le_bytes 4 (unsigned_int 4 n)"
| "enc_string (Lzf cl ul compressed s) = 0xC3 # enc_len cl @ enc_len ul @ compressed"

lemma enc_len_Cons: "wf_len l \<Longrightarrow> \<exists>b bs. enc_len l = b # bs \<and> unat b < 192"
proof (cases l)
  case (Len14 n)
  assume "wf_len l"
  then have "64 + n div 256 < 128" using Len14 by auto
  then have "unat (word_of_nat (64 + n div 256) :: u8) < 192" by (subst unat_of_byte) auto
  then show ?thesis using Len14 by (metis enc_len.simps(2))
qed (auto simp: unat_of_byte)

lemma byte_subtype:
  assumes "192 \<le> unat (b :: u8)"
  shows "b AND 0x3F = 0 \<longleftrightarrow> unat b = 192" "b AND 0x3F = 1 \<longleftrightarrow> unat b = 193"
    "b AND 0x3F = 2 \<longleftrightarrow> unat b = 194" "b AND 0x3F = 3 \<longleftrightarrow> unat b = 195"
proof -
  have "unat b mod 64 = unat b - 192" 
    using quarters [OF byte_less [of b]] assms minus_mult_div_eq_mod [of "unat b" 64] by simp
  then have e: "unat (b AND 0x3F) = unat b - 192" by (simp only: byte_low)
  have u: "unat (0 :: u8) = 0" "unat (1 :: u8) = 1" "unat (2 :: u8) = 2" "unat (3 :: u8) = 3" by simp_all
  show "b AND 0x3F = 0 \<longleftrightarrow> unat b = 192" "b AND 0x3F = 1 \<longleftrightarrow> unat b = 193"
    "b AND 0x3F = 2 \<longleftrightarrow> unat b = 194" "b AND 0x3F = 3 \<longleftrightarrow> unat b = 195"
    unfolding word_unat_eq_iff e u using assms by linarith+
qed

lemma string_size_Nil [simp]: "calculate_string_size [] k = Inr None"
  by (simp add: calculate_string_size_def)

lemma string_size_alt:
  "calculate_string_size buf k =
     (if length buf \<le> k then Inr None
      else if 192 \<le> unat (buf ! k) then
        (if unat (buf ! k) = 192 then Inr (Some 2)
         else if unat (buf ! k) = 193 then Inr (Some 3)
         else if unat (buf ! k) = 194 then Inr (Some 5)
         else if unat (buf ! k) = 195 then
           (case peek_length_at (drop (k + 1) buf) 0 of
              Inl e \<Rightarrow> Inl e
            | Inr None \<Rightarrow> Inr None
            | Inr (Some (clen, cb)) \<Rightarrow>
                (case peek_length_at (drop (k + 1 + cb) buf) 0 of
                   Inl e \<Rightarrow> Inl e
                 | Inr None \<Rightarrow> Inr None
                 | Inr (Some (ulen, ub)) \<Rightarrow> Inr (Some (usize_add (1 + cb + ub) clen))))
         else Inr None)
      else
        (case peek_length_at (drop k buf) 0 of
           Inl e \<Rightarrow> Inl e
         | Inr None \<Rightarrow> Inr None
         | Inr (Some (n, j)) \<Rightarrow> Inr (Some (usize_add j n))))"
  unfolding calculate_string_size_def Let_def byte_kind peek_shift [of buf "k + 1"] peek_shift [of buf k]
    peek_shift [of buf "k + 1 + j" for j]
  by (cases "192 \<le> unat (buf ! k)") (simp_all only: byte_subtype if_True if_False)

lemma string_size_Cons:
  "calculate_string_size (b # bs) 0 =
     (if unat b < 192 then
        (case peek_length_at (b # bs) 0 of
           Inl e \<Rightarrow> Inl e
         | Inr None \<Rightarrow> Inr None
         | Inr (Some (n, k)) \<Rightarrow> Inr (Some (usize_add k n)))
      else if unat b = 192 then Inr (Some 2)
      else if unat b = 193 then Inr (Some 3)
      else if unat b = 194 then Inr (Some 5)
      else if unat b = 195 then
        (case peek_length_at bs 0 of
           Inl e \<Rightarrow> Inl e
         | Inr None \<Rightarrow> Inr None
         | Inr (Some (clen, cb)) \<Rightarrow>
             (case peek_length_at (drop cb bs) 0 of
                Inl e \<Rightarrow> Inl e
              | Inr None \<Rightarrow> Inr None
              | Inr (Some (ulen, ub)) \<Rightarrow> Inr (Some (usize_add (1 + cb + ub) clen))))
      else Inr None)"
  by (simp add: string_size_alt not_less split: sum.split option.split)

lemma string_size_shift: "calculate_string_size buf k = calculate_string_size (drop k buf) 0"
proof (cases "k < length buf")
  case True
  have n: "drop k buf ! 0 = buf ! k" using True by simp
  have l: "(length (drop k buf) \<le> 0) = (length buf \<le> k)" by simp
  show ?thesis
    unfolding string_size_alt n l by (simp add: add.commute split: sum.split option.split)
qed (simp add: calculate_string_size_def)

lemma string_size_more:
  "calculate_string_size b 0 = Inr None \<or> calculate_string_size (b @ x) 0 = calculate_string_size b 0"
proof (cases b)
  case (Cons c bs)
  have p: "peek_length_at (c # bs) 0 = Inr None \<or> peek_length_at (c # bs @ x) 0 = peek_length_at (c # bs) 0"
    using peek_more [of "c # bs" x] by simp
  show ?thesis
  proof (cases "unat c < 192")
    case False
    have q: "peek_length_at (drop k bs) 0 = Inr None \<or> peek_length_at (drop k (bs @ x)) 0 = peek_length_at (drop k bs) 0"
      if "peek_length_at bs 0 = Inr (Some (n, k))" for n k
      using peek_more [of "drop k bs" "drop (k - length bs) x"] by simp
    show ?thesis
      unfolding Cons append_Cons string_size_Cons using peek_more [of bs x] q False
      by (auto split: sum.split option.split)
  qed (use p Cons in \<open>auto simp: string_size_Cons split: sum.split option.split\<close>)
qed simp

lemma string_size_enc:
  assumes "wf_string s" "length (enc_string s) < 2 ^ 64"
  shows "calculate_string_size (enc_string s @ rest) 0 = Inr (Some (length (enc_string s)))"
proof (cases s)
  case (Plain l v)
  obtain b bs where b: "enc_len l = b # bs" "unat b < 192" using assms Plain enc_len_Cons [of l] by auto
  have "peek_length_at (b # (bs @ v @ rest)) 0 = Inr (Some (length v, length (enc_len l)))"
    using peek_enc [of l "v @ rest"] assms Plain b by simp
  then show ?thesis using assms b by (simp add: Plain string_size_Cons)
next
  case (Lzf cl ul z v)
  have "drop (length (enc_len cl)) (enc_len cl @ enc_len ul @ z @ rest) = enc_len ul @ z @ rest" by simp
  then show ?thesis using assms peek_enc [of cl "enc_len ul @ z @ rest"] peek_enc [of ul "z @ rest"]
    by (simp add: Lzf string_size_Cons add.assoc)
qed (auto simp: string_size_Cons)

lemma load_lzf_Cons:
  "load_lzf_string (c # bs) =
     (case peek_length_at bs 0 of
        Inl e \<Rightarrow> (Inl e, c # bs)
      | Inr None \<Rightarrow> (Inr None, c # bs)
      | Inr (Some (clen, cb)) \<Rightarrow>
          (case peek_length_at (drop cb bs) 0 of
             Inl e \<Rightarrow> (Inl e, c # bs)
           | Inr None \<Rightarrow> (Inr None, c # bs)
           | Inr (Some (ulen, ub)) \<Rightarrow>
               (if length (c # bs) < usize_add (1 + cb + ub) clen then (Inr None, c # bs)
                else load_then unwrap_length (\<lambda>clen.
                     load_then unwrap_length (\<lambda>ulen.
                     load_then (split_to clen) (\<lambda>compressed. load_parsed (lzf_decompress compressed ulen)))) bs)))"
  using peek_shift [of "c # bs" 1] peek_shift [of "c # bs" "Suc k" for k]
  by (auto simp: load_lzf_string_def less_Suc_eq_le split: sum.split option.split)

lemma load_string_Cons:
  "load_string (b # bs) =
     (if 192 \<le> unat b then
        (if unat b = 192 then load_int_string 1 (b # bs)
         else if unat b = 193 then load_int_string 2 (b # bs)
         else if unat b = 194 then load_int_string 4 (b # bs)
         else if unat b = 195 then load_lzf_string (b # bs)
         else (Inr None, b # bs))
      else
        (case peek_length_at (b # bs) 0 of
           Inl e \<Rightarrow> (Inl e, b # bs)
         | Inr None \<Rightarrow> (Inr None, b # bs)
         | Inr (Some (n, k)) \<Rightarrow>
             (if length (b # bs) < usize_add k n then (Inr None, b # bs) else split_to n (drop k (b # bs)))))"
  unfolding load_string_def Let_def nth_Cons_0 byte_kind load_length_def
  by (cases "192 \<le> unat b")
    (simp_all only: byte_subtype if_True if_False list.distinct split: sum.split option.split prod.split, auto)

lemma load_string_waits:
  assumes "calculate_string_size b 0 = Inr None \<or> calculate_string_size b 0 = Inr (Some n) \<and> length b < n"
  shows "load_string b = (Inr None, b)"
proof (cases b)
  case (Cons c bs)
  consider "unat c < 192" | "unat c = 192" | "unat c = 193" | "unat c = 194" | "unat c = 195" | "195 < unat c" by linarith
  then show ?thesis
  proof cases
    case 1
    then show ?thesis using assms
      unfolding Cons string_size_Cons load_string_Cons
      by (auto split: sum.splits option.splits)
  next
    case 5
    then show ?thesis using assms
      unfolding Cons string_size_Cons load_string_Cons load_lzf_Cons
      by (auto split: sum.splits option.splits)
  qed (use assms in \<open>auto simp: Cons string_size_Cons load_string_Cons load_int_string_def\<close>)
qed (simp add: load_string_def)

lemma load_string_enc:
  assumes "wf_string s" "length (enc_string s) < 2 ^ 64"
  shows "load_string (enc_string s @ rest) = (Inr (Some (string_value s)), rest)"
proof (cases s)
  case (Plain l v)
  obtain b bs where b: "enc_len l = b # bs" "unat b < 192" using assms Plain enc_len_Cons [of l] by auto
  have "peek_length_at (b # (bs @ v @ rest)) 0 = Inr (Some (length v, length (enc_len l)))"
    using peek_enc [of l "v @ rest"] assms Plain b by simp
  then show ?thesis using assms b by (simp add: Plain load_string_Cons split_to_def)
next
  case (Lzf cl ul z v)
  have d: "drop (length (enc_len cl)) (enc_len cl @ enc_len ul @ z @ rest) = enc_len ul @ z @ rest" by simp
  have p: "peek_length_at (enc_len cl @ enc_len ul @ z @ rest) 0 = Inr (Some (length z, length (enc_len cl)))"
    "peek_length_at (enc_len ul @ z @ rest) 0 = Inr (Some (length v, length (enc_len ul)))"
    using assms peek_enc [of cl "enc_len ul @ z @ rest"] peek_enc [of ul "z @ rest"] by (simp_all add: Lzf)
  have u: "unwrap_length (enc_len cl @ enc_len ul @ z @ rest) = (Inr (Some (length z)), enc_len ul @ z @ rest)"
    "unwrap_length (enc_len ul @ z @ rest) = (Inr (Some (length v)), z @ rest)"
    using p by (simp_all add: unwrap_length_def load_length_def)
  show ?thesis using assms p d u
    by (simp add: Lzf load_string_Cons load_lzf_Cons load_then_def split_to_def load_parsed_def)
qed (use assms signed_unsigned [of 1] signed_unsigned [of 2] signed_unsigned [of 4] in
    \<open>auto simp: load_string_Cons load_int_string_def unat_of_byte\<close>)

lemma prefix_waits:
  assumes "wf_string s" "length (enc_string s) < 2 ^ 64" "strict_prefix b (enc_string s)"
  shows "load_string b = (Inr None, b)"
proof -
  obtain x where x: "enc_string s = b @ x" "x \<noteq> []" using assms(3) by (auto simp: strict_prefix_def prefix_def)
  have "calculate_string_size b 0 = Inr None \<or> calculate_string_size b 0 = Inr (Some (length (enc_string s)))"
    using string_size_more [of b x] string_size_enc [OF assms(1,2), of "[]"] x by auto
  then show ?thesis using load_string_waits [of b "length (enc_string s)"] x by auto
qed

section \<open>Intsets and listpacks\<close>

definition enc_intset :: "nat \<Rightarrow> int list \<Rightarrow> bytes" where
  "enc_intset w ns = le_bytes 4 w @ le_bytes 4 (length ns) @ concat (map (\<lambda>n. le_bytes w (unsigned_int w n)) ns)"

definition wf_intset :: "nat \<Rightarrow> int list \<Rightarrow> bool" where
  "wf_intset w ns \<longleftrightarrow> w \<in> {2, 4, 8} \<and> length ns < 2 ^ 32 \<and>
     list_all (\<lambda>n. - (2 ^ (8 * w - 1)) \<le> n \<and> n < 2 ^ (8 * w - 1)) ns"

lemma intset_loop_enc:
  assumes "w \<in> {2, 4, 8}" "list_all (\<lambda>n. - (2 ^ (8 * w - 1)) \<le> n \<and> n < 2 ^ (8 * w - 1)) ns"
  shows "intset_loop w (length ns) (concat (map (\<lambda>n. le_bytes w (unsigned_int w n)) ns)) = Inr ns"
  using assms(2)
proof (induction ns)
  case (Cons n ns)
  have "le_nat (le_bytes w (unsigned_int w n)) = unsigned_int w n"
    using signed_unsigned(2) [of w n] assms(1) Cons.prems by (auto intro!: le_nat_le_bytes)
  moreover have "signed_nat w (unsigned_int w n) = n"
    using signed_unsigned(1) [of w n] assms(1) Cons.prems by auto
  ultimately show ?case using Cons assms(1) by auto
qed simp

lemma parse_intset_enc: "wf_intset w ns \<Longrightarrow> parse_intset (enc_intset w ns) = Inr ns"
proof -
  assume wf: "wf_intset w ns"
  then have "w < 256 ^ 4" "length ns < 256 ^ 4" by (auto simp: wf_intset_def)
  then show ?thesis using wf intset_loop_enc [of w ns]
    by (simp add: parse_intset_def enc_intset_def wf_intset_def)
qed

text \<open>
  Entries of a listpack. The back length after an entry is skipped, so any bytes of the right number stand for it.
  Integers of 13 bits are here the ones that are not negative: the others are not read bl (see below).
\<close>

datatype lp_entry =
    LP_uint7 nat | LP_str6 bytes | LP_int13 int | LP_str12 bytes | LP_str32 bytes
  | LP_int16 int | LP_int24 int | LP_int32 int | LP_int64 int

fun lp_value :: "lp_entry \<Rightarrow> bytes" where
  "lp_value (LP_uint7 n) = nat_to_string n"
| "lp_value (LP_str6 s) = s"
| "lp_value (LP_int13 n) = i64_to_string n"
| "lp_value (LP_str12 s) = s"
| "lp_value (LP_str32 s) = s"
| "lp_value (LP_int16 n) = i64_to_string n"
| "lp_value (LP_int24 n) = i64_to_string n"
| "lp_value (LP_int32 n) = i64_to_string n"
| "lp_value (LP_int64 n) = i64_to_string n"

fun wf_lp_entry :: "lp_entry \<Rightarrow> bool" where
  "wf_lp_entry (LP_uint7 n) \<longleftrightarrow> n < 128"
| "wf_lp_entry (LP_str6 s) \<longleftrightarrow> length s < 64"
| "wf_lp_entry (LP_int13 n) \<longleftrightarrow> 0 \<le> n \<and> n < 4096"
| "wf_lp_entry (LP_str12 s) \<longleftrightarrow> length s < 4096"
| "wf_lp_entry (LP_str32 s) \<longleftrightarrow> length s < 2 ^ 32"
| "wf_lp_entry (LP_int16 n) \<longleftrightarrow> - (2 ^ 15) \<le> n \<and> n < 2 ^ 15"
| "wf_lp_entry (LP_int24 n) \<longleftrightarrow> - (2 ^ 23) \<le> n \<and> n < 2 ^ 23"
| "wf_lp_entry (LP_int32 n) \<longleftrightarrow> - (2 ^ 31) \<le> n \<and> n < 2 ^ 31"
| "wf_lp_entry (LP_int64 n) \<longleftrightarrow> - (2 ^ 63) \<le> n \<and> n < 2 ^ 63"

definition int13_bytes :: "int \<Rightarrow> bytes" where
  "int13_bytes n =
     (let u = nat (n mod 8192) in [word_of_nat (192 + u div 256), word_of_nat (u mod 256)])"

fun enc_lp_entry :: "lp_entry \<Rightarrow> bytes" where
  "enc_lp_entry (LP_uint7 n) = [word_of_nat n]"
| "enc_lp_entry (LP_str6 s) = word_of_nat (128 + length s) # s"
| "enc_lp_entry (LP_int13 n) = int13_bytes n"
| "enc_lp_entry (LP_str12 s) = [word_of_nat (224 + length s div 256), word_of_nat (length s mod 256)] @ s"
| "enc_lp_entry (LP_str32 s) = 0xF0 # le_bytes 4 (length s) @ s"
| "enc_lp_entry (LP_int16 n) = 0xF1 # le_bytes 2 (unsigned_int 2 n)"
| "enc_lp_entry (LP_int24 n) = 0xF2 # le_bytes 3 (unsigned_int 3 n)"
| "enc_lp_entry (LP_int32 n) = 0xF3 # le_bytes 4 (unsigned_int 4 n)"
| "enc_lp_entry (LP_int64 n) = 0xF4 # le_bytes 8 (unsigned_int 8 n)"

type_synonym lp = "lp_entry \<times> bytes"

definition wf_lp :: "lp \<Rightarrow> bool" where
  "wf_lp e \<longleftrightarrow> wf_lp_entry (fst e) \<and> length (snd e) = calculate_backlen_size (length (enc_lp_entry (fst e)))"

definition enc_lp :: "lp \<Rightarrow> bytes" where
  "enc_lp e = enc_lp_entry (fst e) @ snd e"

definition enc_listpack :: "lp list \<Rightarrow> bytes" where
  "enc_listpack es =
     (let body = concat (map enc_lp es) in le_bytes 4 (7 + length body) @ le_bytes 2 (length es) @ body @ [0xFF])"

definition wf_listpack :: "lp list \<Rightarrow> bool" where
  "wf_listpack es \<longleftrightarrow> list_all wf_lp es \<and> length es < 2 ^ 16"

definition mask_facts :: "u8 \<Rightarrow> bool" where
  "mask_facts b \<longleftrightarrow> (b AND 0x80 = 0 \<longleftrightarrow> unat b < 128) \<and> unat (b AND 0x7F) = unat b mod 128 \<and>
     unat (b AND 0x1F) = unat b mod 32 \<and> unat (b AND 0x0F) = unat b mod 16 \<and>
     (b AND 0xC0 = 0x80 \<longleftrightarrow> unat b div 64 = 2) \<and> (b AND 0xF0 = 0xC0 \<longleftrightarrow> unat b div 16 = 12) \<and>
     (b AND 0xF0 = 0xD0 \<longleftrightarrow> unat b div 16 = 13) \<and> (b AND 0xF0 = 0xE0 \<longleftrightarrow> unat b div 16 = 14)"

lemma all_bytes: "list_all mask_facts (map word_of_nat [0 ..< 256])"
  by code_simp

lemma byte_masks: "mask_facts b"
proof -
  have "b = word_of_nat (unat b)" by simp
  moreover have "unat b \<in> set [0 ..< 256]" by simp
  ultimately show ?thesis using all_bytes unfolding list_all_iff set_map by (metis image_eqI)
qed

lemma lp_entry_Cons:
  "parse_listpack_entry (b # buf) =
     (let n = unat b
      in if n < 128 then
           (if buf = [] then Inl (Failed ''listpack_entry_no_backlen'') else Inr (nat_to_string (n mod 128), drop 1 buf))
         else if n div 64 = 2 then
           (if length buf < n mod 64 + 1 then Inl (Failed ''listpack_entry_string_too_short'')
            else Inr (take (n mod 64) buf, drop (n mod 64 + 1) buf))
         else if n div 16 = 12 then
           (if length buf < 2 then Inl (Failed ''listpack_entry_int_too_short'')
            else let val = n mod 32 * 256 + unat (buf ! 0)
                 in Inr (i64_to_string (if 4096 \<le> val then int val - 8192 else int val), drop 2 buf))
         else if n div 16 = 13 then
           (if length buf < 2 then Inl (Failed ''listpack_entry_string_too_short'')
            else listpack_string 3 (be_nat (take 2 buf)) (drop 2 buf))
         else if n div 16 = 14 then
           (if buf = [] then Inl (Failed ''listpack_entry_string_too_short'')
            else listpack_string 2 (n mod 16 * 256 + unat (buf ! 0)) (drop 1 buf))
         else if n = 240 then
           (if length buf < 4 then Inl (Failed ''listpack_entry_string_too_short'')
            else listpack_string 5 (le_nat (take 4 buf)) (drop 4 buf))
         else if n = 241 then listpack_int 2 buf
         else if n = 242 then listpack_int 3 buf
         else if n = 243 then listpack_int 4 buf
         else if n = 244 then listpack_int 8 buf
         else Inl (Failed ''unknown_listpack_encoding''))"
proof -
  have e: "b = 0xF0 \<longleftrightarrow> unat b = 240" "b = 0xF1 \<longleftrightarrow> unat b = 241" "b = 0xF2 \<longleftrightarrow> unat b = 242"
    "b = 0xF3 \<longleftrightarrow> unat b = 243" "b = 0xF4 \<longleftrightarrow> unat b = 244"
    by (simp_all add: word_unat_eq_iff)
  show ?thesis
    using byte_masks [of b] unfolding mask_facts_def parse_listpack_entry_def list.case e Let_def byte_low
    by (simp only: simp_thms if_cancel)
qed

lemma take_append_exact: "length xs = n \<Longrightarrow> take n (xs @ ys) = xs" "length xs = n \<Longrightarrow> drop n (xs @ ys) = ys"
  by auto

lemma listpack_string_enc:
  "length bl = calculate_backlen_size (header + length s) \<Longrightarrow>
     listpack_string header (length s) (s @ bl @ rest) = Inr (s, rest)"
  by (simp add: listpack_string_def)

lemma listpack_int_enc:
  assumes "0 < k" "- (2 ^ (8 * k - 1)) \<le> n" "n < 2 ^ (8 * k - 1)" "length bl = 1"
  shows "listpack_int k (le_bytes k (unsigned_int k n) @ bl @ rest) = Inr (i64_to_string n, rest)"
  using assms(4) signed_unsigned [OF assms(1-3)] by (simp add: listpack_int_def)

lemma backlen_small: "n \<le> 127 \<Longrightarrow> calculate_backlen_size n = 1"
  by (simp add: calculate_backlen_size_def)

lemma unat_byte_eq: "n < 256 \<Longrightarrow> \<exists>w :: u8. word_of_nat n = w \<and> unat w = n"
  using unat_of_byte by blast

lemma lp_entry_enc:
  assumes "wf_lp e"
  shows "parse_listpack_entry (enc_lp e @ rest) = Inr (lp_value (fst e), rest)"
proof -
  obtain x bl where e: "e = (x, bl)" by fastforce
  have wf: "wf_lp_entry x" "length bl = calculate_backlen_size (length (enc_lp_entry x))"
    using assms by (simp_all add: wf_lp_def e)
  show ?thesis
  proof (cases x)
    case (LP_uint7 n)
    have "length bl = 1" "bl \<noteq> []" using wf(2) by (auto simp: LP_uint7 backlen_small)
    then show ?thesis using wf(1) by (simp add: e LP_uint7 enc_lp_def lp_entry_Cons Let_def unat_of_byte)
  next
    case (LP_str6 s)
    then obtain w :: u8 where w: "word_of_nat (128 + length s) = w" "unat w = 128 + length s"
      using wf(1) unat_byte_eq [of "128 + length s"] by auto
    have "length bl = 1" using wf LP_str6 by (simp add: backlen_small)
    moreover have d: "unat w div 64 = 2" using wf(1) w(2) LP_str6 by auto
    moreover have "unat w mod 64 = length s" using d w(2) minus_mult_div_eq_mod [of "unat w" 64] by simp
    ultimately show ?thesis using w(2)
      unfolding e LP_str6 enc_lp_def fst_conv snd_conv enc_lp_entry.simps w(1) by (simp add: lp_entry_Cons Let_def)
  next
    case (LP_int13 n)
    then have n: "nat n < 4096" "n mod 8192 = n" using wf(1) by auto
    then have m: "192 + nat n div 256 < 208" by auto
    then obtain w :: u8 where w: "word_of_nat (192 + nat n div 256) = w" "unat w = 192 + nat n div 256"
      using unat_byte_eq [of "192 + nat n div 256"] by auto
    have "length bl = 1" using wf(2) LP_int13 by (simp add: backlen_small int13_bytes_def Let_def)
    moreover have d: "unat w div 16 = 12" "unat w div 32 = 6" "unat w div 64 = 3" using m w(2) by auto
    moreover have "unat w mod 32 = nat n div 256" using d w(2) minus_mult_div_eq_mod [of "unat w" 32] by simp
    ultimately show ?thesis using w(2) n wf(1) LP_int13
      unfolding e LP_int13 enc_lp_def fst_conv snd_conv enc_lp_entry.simps int13_bytes_def n(2) Let_def w(1)
      by (simp add: lp_entry_Cons Let_def unat_of_byte)
  next
    case (LP_str12 s)
    then have m: "224 + length s div 256 < 240" using wf(1) by auto
    then obtain w :: u8 where w: "word_of_nat (224 + length s div 256) = w" "unat w = 224 + length s div 256"
      using unat_byte_eq [of "224 + length s div 256"] by auto
    have d: "unat w div 16 = 14" "unat w div 64 = 3" using m w(2) by auto
    moreover have "unat w mod 16 = length s div 256" using d w(2) minus_mult_div_eq_mod [of "unat w" 16] by simp
    ultimately show ?thesis using w(2) wf(2) LP_str12 listpack_string_enc [of bl 2 s rest]
      unfolding e LP_str12 enc_lp_def fst_conv snd_conv enc_lp_entry.simps w(1)
      by (simp add: lp_entry_Cons Let_def unat_of_byte)
  next
    case (LP_str32 s)
    then show ?thesis using wf listpack_string_enc [of bl 5 s rest]
      by (simp add: e enc_lp_def lp_entry_Cons Let_def)
  qed (use wf listpack_int_enc in \<open>auto simp: e enc_lp_def lp_entry_Cons Let_def backlen_small\<close>)
qed

lemma lp_entry_head: "wf_lp e \<Longrightarrow> \<exists>b bs. enc_lp e = b # bs \<and> b \<noteq> 0xFF"
proof -
  assume wf: "wf_lp e"
  obtain b bs where b: "enc_lp e = b # bs"
    by (cases "fst e") (auto simp: enc_lp_def int13_bytes_def Let_def)
  have "parse_listpack_entry (b # bs) = Inr (lp_value (fst e), [])" using lp_entry_enc [OF wf, of "[]"] b by simp
  then have "unat b \<noteq> 255" by (auto simp: lp_entry_Cons)
  then show ?thesis using b by auto
qed

lemma listpack_loop_enc:
  "list_all wf_lp es \<Longrightarrow>
     listpack_loop (length es) (concat (map enc_lp es) @ rest) = Inr (map (\<lambda>e. lp_value (fst e)) es)"
proof (induction es)
  case (Cons e es)
  then obtain b bs where b: "enc_lp e = b # bs" "b \<noteq> 0xFF" using lp_entry_head [of e] by auto
  have p: "parse_listpack_entry (enc_lp e @ concat (map enc_lp es) @ rest) = Inr (lp_value (fst e), concat (map enc_lp es) @ rest)"
    using Cons.prems by (intro lp_entry_enc) simp
  show ?case using Cons b p by simp
qed simp

text \<open>A listpack reads back as its entries, whatever total length its header claims.\<close>

lemma parse_listpack_enc:
  assumes "wf_listpack es"
  shows "parse_listpack (enc_listpack es) = Inr (map (\<lambda>e. lp_value (fst e)) es)"
  using assms listpack_loop_enc [of es "[0xFF]"]
  by (simp add: parse_listpack_def enc_listpack_def Let_def wf_listpack_def)

end
