(* ===== verification/RDB_Values.thy ===== *)
theory RDB_Values
  imports RDB_Format
begin

text \<open>
  The values of an RDB dump, type by type: their encoding and the commands that rebuild them. The size loop of the
  parser computes the size of the encoding, more bytes never change a size once it is known, and reading a
  complete encoding returns the commands and consumes exactly the encoding.
\<close>

section \<open>Readers in sequence\<close>

text \<open>\<open>loads m bs v\<close>: the reader consumes exactly \<open>bs\<close> and returns \<open>v\<close>, whatever follows.\<close>

definition loads :: "'a loader \<Rightarrow> bytes \<Rightarrow> 'a \<Rightarrow> bool" where
  "loads m bs v \<longleftrightarrow> (\<forall>rest. m (bs @ rest) = (Inr (Some v), rest))"

named_theorems loads_intros \<open>what the readers consume and return\<close>

lemma loads_then [loads_intros]: "loads m bs a \<Longrightarrow> loads (f a) cs b \<Longrightarrow> loads (load_then m f) (bs @ cs) b"
  by (simp add: loads_def load_then_def)

lemma loads_ret [loads_intros]: "loads (load_ret a) [] a"
  by (simp add: loads_def load_ret_def)

lemma loads_parsed [loads_intros]: "r = Inr a \<Longrightarrow> loads (load_parsed r) [] a"
  by (simp add: loads_def load_parsed_def)

lemma loads_times [loads_intros]:
  "list_all2 (loads m) bss vs \<Longrightarrow> loads (load_times (length bss) m) (concat bss) vs"
proof (induction rule: list_all2_induct)
  case (Cons bs bss v vs)
  have "loads (load_times (Suc (length bss)) m) (bs @ (concat bss @ [])) (v # vs)"
    unfolding load_times.simps by (intro loads_then [OF Cons(1)] loads_then [OF Cons(3)] loads_ret)
  then show ?case by simp
qed (simp add: loads_ret)

lemma loads_fixed [loads_intros]: "length bs = k \<Longrightarrow> loads (load_fixed k) bs (le_nat bs)"
  by (simp add: loads_def load_fixed_def)

lemma loads_container [loads_intros]: "loads load_container [b] ()"
  by (simp add: loads_def load_container_def)

lemma loads_length [loads_intros]: "wf_len l \<Longrightarrow> loads load_length (enc_len l) (len_value l)"
  by (simp add: loads_def load_length_enc)

lemma loads_string [loads_intros]:
  "wf_string s \<Longrightarrow> length (enc_string s) < 2 ^ 64 \<Longrightarrow> loads load_string (enc_string s) (string_value s)"
  by (simp add: loads_def load_string_enc)

lemma loads_ignored: "loads m bs v \<Longrightarrow> loads (load_ignored m) bs ()"
  by (simp add: loads_def load_ignored_def)

text \<open>\<open>sizes buf f bs\<close>: where the buffer continues with \<open>bs\<close>, the size loop advances by its length.\<close>

definition sizes :: "bytes \<Rightarrow> sizer \<Rightarrow> bytes \<Rightarrow> bool" where
  "sizes buf f bs \<longleftrightarrow>
     (\<forall>t c rest. drop c buf = bs @ rest \<and> c \<le> length buf \<and> t + length bs < 2 ^ 64 \<and> length buf < 2 ^ 64 \<longrightarrow>
        f (t, c) = Inr (Some (t + length bs, c + length bs)))"

named_theorems sizes_intros \<open>what the size loops add up\<close>

lemma drop_length: "drop c buf = bs @ rest \<Longrightarrow> c \<le> length buf \<Longrightarrow> c + length bs \<le> length buf"
  by (metis length_append length_drop le_add1 le_add_diff_inverse add_le_cancel_left)

lemma sizes_string [sizes_intros]:
  assumes "wf_string s"
  shows "sizes buf (size_string buf) (enc_string s)"
  unfolding sizes_def
proof (intro allI impI, elim conjE)
  fix t c rest
  assume d: "drop c buf = enc_string s @ rest" "c \<le> length buf" "t + length (enc_string s) < 2 ^ 64" "length buf < 2 ^ 64"
  have "calculate_string_size buf c = Inr (Some (length (enc_string s)))"
    using string_size_enc [OF assms, of rest] d(1,3) by (subst string_size_shift) simp
  then show "size_string buf (t, c) = Inr (Some (t + length (enc_string s), c + length (enc_string s)))"
    using d drop_length [OF d(1,2)] by (simp add: size_string_def)
qed

lemma sizes_fixed [sizes_intros]:
  assumes "length bs = k"
  shows "sizes buf (size_fixed k) bs"
  unfolding sizes_def
proof (intro allI impI, elim conjE)
  fix t c rest
  assume d: "drop c buf = bs @ rest" "c \<le> length buf" "t + length bs < 2 ^ 64" "length buf < 2 ^ 64"
  then show "size_fixed k (t, c) = Inr (Some (t + length bs, c + length bs))"
    using drop_length [OF d(1,2)] assms by (simp add: size_fixed_def)
qed

lemma sizes_container [sizes_intros]: "sizes buf (size_container buf) [b]"
  unfolding sizes_def
proof (intro allI impI, elim conjE)
  fix t c rest
  assume d: "drop c buf = [b] @ rest" "c \<le> length buf" "t + length [b] < 2 ^ 64" "length buf < 2 ^ 64"
  then show "size_container buf (t, c) = Inr (Some (t + length [b], c + length [b]))"
    using drop_length [OF d(1,2)] by (simp add: size_container_def size_fixed_def)
qed

lemma sizes_seq [sizes_intros]:
  assumes "sizes buf f bs" "sizes buf g cs"
  shows "sizes buf (size_seq f g) (bs @ cs)"
  unfolding sizes_def
proof (intro allI impI, elim conjE)
  fix t c rest
  assume d: "drop c buf = (bs @ cs) @ rest" "c \<le> length buf" "t + length (bs @ cs) < 2 ^ 64" "length buf < 2 ^ 64"
  have f: "f (t, c) = Inr (Some (t + length bs, c + length bs))"
    using assms(1) [unfolded sizes_def, rule_format, of c "cs @ rest" t] d by simp
  have "drop (length bs) (drop c buf) = cs @ rest" using d(1) by simp
  then have "drop (c + length bs) buf = cs @ rest" by (simp add: add.commute)
  moreover have "c + length bs \<le> length buf" using drop_length [OF d(1,2)] by simp
  ultimately have "g (t + length bs, c + length bs) = Inr (Some (t + length bs + length cs, c + length bs + length cs))"
    using assms(2) [unfolded sizes_def, rule_format, of "c + length bs" rest "t + length bs"] d(3,4) by simp
  with f show "size_seq f g (t, c) = Inr (Some (t + length (bs @ cs), c + length (bs @ cs)))"
    by (simp add: size_seq_def add.assoc)
qed

lemma sizes_times: "list_all (sizes buf f) bss \<Longrightarrow> sizes buf (size_times (length bss) f) (concat bss)"
proof (induction bss)
  case (Cons bs bss)
  have "sizes buf (size_seq f (size_times (length bss) f)) (bs @ concat bss)"
    using Cons by (intro sizes_seq) simp_all
  then show ?case by (simp add: sizes_def)
qed (simp add: sizes_def)

lemma size_counted_enc:
  assumes "wf_len l" "len_value l = length bss" "list_all (sizes buf f) bss" "buf = enc_len l @ concat bss @ rest"
    "length buf < 2 ^ 64"
  shows "size_counted buf 0 f = Inr (Some (length (enc_len l @ concat bss)))"
proof -
  have "size_times (length bss) f (length (enc_len l), length (enc_len l)) =
      Inr (Some (length (enc_len l) + length (concat bss), length (enc_len l) + length (concat bss)))"
    using sizes_times [OF assms(3)] assms(4,5) unfolding sizes_def by simp
  then show ?thesis using assms peek_enc [OF assms(1), of "concat bss @ rest"]
    by (simp add: size_counted_def)
qed

text \<open>More bytes never change a size that is known.\<close>

definition size_stable :: "(bytes \<Rightarrow> sizer) \<Rightarrow> bool" where
  "size_stable f \<longleftrightarrow> (\<forall>b x tc. f b tc = Inr None \<or> f (b @ x) tc = f b tc)"

lemma string_size_more_at: "calculate_string_size b k = Inr None \<or> calculate_string_size (b @ x) k = calculate_string_size b k"
  using string_size_more [of "drop k b" "drop (k - length b) x"]
  by (simp add: string_size_shift [of b k] string_size_shift [of "b @ x" k])

lemma stable_string: "size_stable size_string"
  unfolding size_stable_def size_string_def
  by (metis (no_types, lifting) option.case(1) string_size_more_at sum.case(2))

lemma stable_fixed: "size_stable (\<lambda>b. size_fixed k)"
  by (simp add: size_stable_def)

lemma stable_container: "size_stable size_container"
  by (simp add: size_stable_def size_container_def)

lemma stable_seq: "size_stable f \<Longrightarrow> size_stable g \<Longrightarrow> size_stable (\<lambda>b. size_seq (f b) (g b))"
  unfolding size_stable_def size_seq_def
  by (auto split: sum.split option.split) (metis sum.inject(1) sum.distinct(1) sum.inject(2) option.inject option.distinct(1))+

lemma stable_times: "size_stable f \<Longrightarrow> size_stable (\<lambda>b. size_times n (f b))"
proof (induction n)
  case (Suc n)
  then have "size_stable (\<lambda>b. size_seq (f b) (size_times n (f b)))" by (intro stable_seq) simp_all
  then show ?case by (simp add: size_stable_def)
qed (simp add: size_stable_def)

lemma stable_counted:
  assumes "size_stable f"
  shows "size_counted b 0 (f b) = Inr None \<or> size_counted (b @ x) 0 (f (b @ x)) = size_counted b 0 (f b)"
proof (cases "peek_length_at b 0 = Inr None")
  case False
  then have p: "peek_length_at (b @ x) 0 = peek_length_at b 0" using peek_more by blast
  have t: "size_times n (f b) tc = Inr None \<or> size_times n (f (b @ x)) tc = size_times n (f b) tc" for n tc
    using stable_times [OF assms, of n] unfolding size_stable_def by blast
  show ?thesis unfolding size_counted_def p
    by (auto split: sum.split option.split) (metis (no_types, lifting) map_sum.simps(2) option.map(1) t)
qed (simp add: size_counted_def)

lemma value_size_more:
  "calculate_value_size b ty 0 = Inr None \<or> calculate_value_size (b @ x) ty 0 = calculate_value_size b ty 0"
  unfolding calculate_value_size_def
  using string_size_more [of b x]
    stable_counted [OF stable_seq [OF stable_string stable_fixed], of b 8 x]
    stable_counted [OF stable_seq [OF stable_string stable_string], of b x]
    stable_counted [OF stable_seq [OF stable_container stable_string], of b x]
    stable_counted [OF stable_seq [OF stable_string stable_seq [OF stable_string stable_fixed]], of b 8 x]
  by (simp split: if_split)

section \<open>Values\<close>

datatype rdb_value =
    StringV rdb_string
  | ZSet2V rdb_len "(rdb_string \<times> u64) list"
  | HashV rdb_len "(rdb_string \<times> rdb_string) list"
  | Quicklist2V rdb_len "(u8 \<times> rdb_string \<times> lp list) list"
  | HashListpackV rdb_string "lp list"
  | Hash2V rdb_len "(rdb_string \<times> rdb_string \<times> u64) list"
  | SetIntsetV rdb_string nat "int list"
  | SetListpackV rdb_string "lp list"
  | ZSetListpackV rdb_string "lp list"

fun value_type :: "rdb_value \<Rightarrow> u8" where
  "value_type (StringV s) = 0"
| "value_type (ZSet2V l xs) = 5"
| "value_type (HashV l xs) = 4"
| "value_type (Quicklist2V l xs) = 18"
| "value_type (HashListpackV s es) = 16"
| "value_type (Hash2V l xs) = 22"
| "value_type (SetIntsetV s w ns) = 11"
| "value_type (SetListpackV s es) = 20"
| "value_type (ZSetListpackV s es) = 17"

fun enc_value :: "rdb_value \<Rightarrow> bytes" where
  "enc_value (StringV s) = enc_string s"
| "enc_value (ZSet2V l xs) = enc_len l @ concat (map (\<lambda>(m, s). enc_string m @ le_bytes 8 (unat s)) xs)"
| "enc_value (HashV l xs) = enc_len l @ concat (map (\<lambda>(f, v). enc_string f @ enc_string v) xs)"
| "enc_value (Quicklist2V l xs) = enc_len l @ concat (map (\<lambda>(c, s, es). [c] @ enc_string s) xs)"
| "enc_value (HashListpackV s es) = enc_string s"
| "enc_value (Hash2V l xs) = enc_len l @ concat (map (\<lambda>(f, v, e). enc_string f @ enc_string v @ le_bytes 8 (unat e)) xs)"
| "enc_value (SetIntsetV s w ns) = enc_string s"
| "enc_value (SetListpackV s es) = enc_string s"
| "enc_value (ZSetListpackV s es) = enc_string s"

definition holds_listpack :: "rdb_string \<Rightarrow> lp list \<Rightarrow> bool" where
  "holds_listpack s es \<longleftrightarrow> wf_string s \<and> wf_listpack es \<and> string_value s = enc_listpack es"

fun wf_value :: "rdb_value \<Rightarrow> bool" where
  "wf_value (StringV s) \<longleftrightarrow> wf_string s"
| "wf_value (ZSet2V l xs) \<longleftrightarrow> wf_len l \<and> len_value l = length xs \<and> list_all (\<lambda>(m, s). wf_string m) xs"
| "wf_value (HashV l xs) \<longleftrightarrow> wf_len l \<and> len_value l = length xs \<and> list_all (\<lambda>(f, v). wf_string f \<and> wf_string v) xs"
| "wf_value (Quicklist2V l xs) \<longleftrightarrow> wf_len l \<and> len_value l = length xs \<and> list_all (\<lambda>(c, s, es). holds_listpack s es) xs"
| "wf_value (HashListpackV s es) \<longleftrightarrow> holds_listpack s es \<and> even (length es)"
| "wf_value (Hash2V l xs) \<longleftrightarrow> wf_len l \<and> len_value l = length xs \<and> list_all (\<lambda>(f, v, e). wf_string f \<and> wf_string v) xs"
| "wf_value (SetIntsetV s w ns) \<longleftrightarrow> wf_string s \<and> wf_intset w ns \<and> string_value s = enc_intset w ns"
| "wf_value (SetListpackV s es) \<longleftrightarrow> holds_listpack s es"
| "wf_value (ZSetListpackV s es) \<longleftrightarrow> holds_listpack s es \<and> even (length es)"

definition lp_values :: "lp list \<Rightarrow> bytes list" where
  "lp_values es = map (\<lambda>e. lp_value (fst e)) es"

text \<open>The commands that rebuild a value under a key.\<close>

fun value_commands :: "u32 \<Rightarrow> bytes \<Rightarrow> rdb_value \<Rightarrow> RawCommand list" where
  "value_commands db key (StringV s) = [with_args db ''SET'' [key, string_value s]]"
| "value_commands db key (ZSet2V l xs) =
     [with_args db ''ZADD'' (key # concat (map (\<lambda>(m, s). [f64_to_string s, string_value m]) xs))]"
| "value_commands db key (HashV l xs) =
     [with_args db ''HSET'' (key # concat (map (\<lambda>(f, v). [string_value f, string_value v]) xs))]"
| "value_commands db key (Quicklist2V l xs) =
     (let values = concat (map (\<lambda>(c, s, es). lp_values es) xs)
      in if values = [] then [] else [with_args db ''RPUSH'' (key # values)])"
| "value_commands db key (HashListpackV s es) = [with_args db ''HSET'' (key # lp_values es)]"
| "value_commands db key (Hash2V l xs) =
     (let fvs = concat (map (\<lambda>(f, v, e). [string_value f, string_value v]) xs)
      in if fvs = [] then [] else [with_args db ''HSET'' (key # fvs)])"
| "value_commands db key (SetIntsetV s w ns) = [with_args db ''SADD'' (key # map i64_to_string ns)]"
| "value_commands db key (SetListpackV s es) = [with_args db ''SADD'' (key # lp_values es)]"
| "value_commands db key (ZSetListpackV s es) = [with_args db ''ZADD'' (key # score_member_args (lp_values es))]"

lemma le_nat_word [simp]: "le_nat (le_bytes 8 (unat (w :: u64))) = unat w"
  using unsigned_less [of w] by (intro le_nat_le_bytes) simp

lemma length_item: "x \<in> set xs \<Longrightarrow> length (f x) \<le> length (concat (map f xs))"
  by (induction xs) auto

lemma loads_items:
  assumes "\<And>x. x \<in> set xs \<Longrightarrow> loads m (f x) (g x)"
  shows "loads (load_times (length xs) m) (concat (map f xs)) (map g xs)"
  using loads_times [of m "map f xs" "map g xs"] assms by (simp add: list.rel_map list_all2_same)

lemma sizes_items:
  assumes "wf_len l" "len_value l = length xs" "\<And>x. x \<in> set xs \<Longrightarrow> sizes buf f (g x)"
    "buf = enc_len l @ concat (map g xs) @ rest" "length buf < 2 ^ 64"
  shows "size_counted buf 0 f = Inr (Some (length (enc_len l @ concat (map g xs))))"
  using assms size_counted_enc [of l "map g xs" buf f rest] by (simp add: list_all_iff)

text \<open>The size the parser computes is the size of the encoding.\<close>

lemma value_size_enc:
  assumes "wf_value v" "length (enc_value v @ rest) < 2 ^ 64"
  shows "calculate_value_size (enc_value v @ rest) (value_type v) 0 = Inr (Some (length (enc_value v)))"
proof (cases v)
  case (ZSet2V l xs)
  show ?thesis
    using assms sizes_items [of l xs "enc_value v @ rest" "size_seq (size_string (enc_value v @ rest)) (size_fixed 8)"
        "\<lambda>(m, s). enc_string m @ le_bytes 8 (unat s)" rest]
    by (force simp: ZSet2V calculate_value_size_def list_all_iff intro!: sizes_intros)
next
  case (HashV l xs)
  show ?thesis
    using assms sizes_items [of l xs "enc_value v @ rest" "size_seq (size_string (enc_value v @ rest)) (size_string (enc_value v @ rest))"
        "\<lambda>(f, v). enc_string f @ enc_string v" rest]
    by (force simp: HashV calculate_value_size_def list_all_iff intro!: sizes_intros)
next
  case (Quicklist2V l xs)
  let ?f = "size_seq (size_container (enc_value v @ rest)) (size_string (enc_value v @ rest))"
  have "sizes (enc_value v @ rest) ?f (case x of (c, s, es) \<Rightarrow> [c] @ enc_string s)" if "x \<in> set xs" for x
  proof -
    obtain c s es where x: "x = (c, s, es)" using prod_cases3 by blast
    have "wf_string s" using that assms(1) x by (auto simp: Quicklist2V list_all_iff holds_listpack_def)
    then show ?thesis unfolding x prod.case by (intro sizes_intros)
  qed
  then show ?thesis
    using assms sizes_items [of l xs "enc_value v @ rest" ?f "\<lambda>(c, s, es). [c] @ enc_string s" rest]
    by (simp add: Quicklist2V calculate_value_size_def)
next
  case (Hash2V l xs)
  show ?thesis
    using assms sizes_items [of l xs "enc_value v @ rest"
        "size_seq (size_string (enc_value v @ rest)) (size_seq (size_string (enc_value v @ rest)) (size_fixed 8))"
        "\<lambda>(f, v, e). enc_string f @ enc_string v @ le_bytes 8 (unat e)" rest]
    by (force simp: Hash2V calculate_value_size_def list_all_iff intro!: sizes_intros)
qed (use assms string_size_enc in \<open>auto simp: calculate_value_size_def holds_listpack_def\<close>)

lemmas single_loaders_def = load_object_def load_string_value_def load_hash_listpack_value_def load_set_intset_value_def
  load_set_listpack_value_def load_zset_listpack_value_def

lemma loads_counted:
  assumes "wf_len l" "len_value l = length xs" "\<And>x. x \<in> set xs \<Longrightarrow> loads m (f x) (g x)"
  shows "loads (load_then load_length (\<lambda>n. load_then (load_times n m) (\<lambda>vs. load_ret (k vs))))
    (enc_len l @ concat (map f xs)) (k (map g xs))"
proof -
  have "loads (load_then load_length (\<lambda>n. load_then (load_times n m) (\<lambda>vs. load_ret (k vs))))
    (enc_len l @ (concat (map f xs) @ [])) (k (map g xs))"
    using loads_length [OF assms(1)] loads_items [of xs m f g, OF assms(3)] assms(2)
    by (intro loads_then [of load_length _ "len_value l"] loads_then [of "load_times (len_value l) m" _ "map g xs"] loads_ret) simp_all
  then show ?thesis by simp
qed

lemma loads_then_ret: "loads m bs a \<Longrightarrow> loads (load_then m (\<lambda>x. load_ret (k x))) bs (k a)"
  using loads_then [OF _ loads_ret, of m bs a k] by simp

lemma loads_then_parsed: "loads m bs a \<Longrightarrow> r a = Inr b \<Longrightarrow> loads (load_then m (\<lambda>x. load_parsed (r x))) bs b"
  using loads_then [OF _ loads_parsed, of m bs a] by fastforce

lemma loads_then_parsed2:
  "loads m bs a \<Longrightarrow> r a = Inr b \<Longrightarrow> loads (k b) [] c \<Longrightarrow> loads (load_then m (\<lambda>x. load_then (load_parsed (r x)) k)) bs c"
  using loads_then [of m bs a "\<lambda>x. load_then (load_parsed (r x)) k" "[]" c] loads_then [OF loads_parsed, of "r a" b k "[]" c] by simp

lemma listpack_read: "holds_listpack s es \<Longrightarrow> parse_listpack (string_value s) = Inr (lp_values es)"
  by (simp add: holds_listpack_def parse_listpack_enc lp_values_def)

lemma length_lp_values [simp]: "length (lp_values es) = length es"
  by (simp add: lp_values_def)

text \<open>One element of each of the counted values.\<close>

lemma loads_zset2_item:
  assumes "loads load_string (enc_string m) (string_value m)"
  shows "loads load_zset2_item (enc_string m @ le_bytes 8 (unat s)) [f64_to_string s, string_value m]"
  unfolding load_zset2_item_def
  by (rule loads_then [OF assms])
    (use loads_then_ret [OF loads_fixed, of "le_bytes 8 (unat s)" 8 "\<lambda>score. [f64_to_string (word_of_nat score), string_value m]"] in simp)

lemma loads_hash_item:
  assumes "loads load_string (enc_string f) (string_value f)" "loads load_string (enc_string v) (string_value v)"
  shows "loads load_hash_item (enc_string f @ enc_string v) [string_value f, string_value v]"
  unfolding load_hash_item_def
  using loads_then_ret [OF assms(2), of "\<lambda>v. [string_value f, v]"] by (rule loads_then [OF assms(1)])

lemma loads_hash_2_item:
  assumes "loads load_string (enc_string f) (string_value f)" "loads load_string (enc_string v) (string_value v)"
  shows "loads load_hash_2_item (enc_string f @ enc_string v @ le_bytes 8 (unat (e :: u64))) [string_value f, string_value v]"
  unfolding load_hash_2_item_def
  using loads_then_ret [OF loads_fixed, of "le_bytes 8 (unat e)" 8 "\<lambda>_. [string_value f, string_value v]"]
  by (intro loads_then [OF assms(1)] loads_then [OF assms(2)]) simp

lemma loads_quicklist2_item:
  assumes "holds_listpack s es" "loads load_string (enc_string s) (string_value s)"
  shows "loads load_quicklist2_item (c # enc_string s) (lp_values es)"
proof -
  have "loads load_quicklist2_item ([c] @ enc_string s) (lp_values es)"
    unfolding load_quicklist2_item_def
    by (intro loads_then [OF loads_container] loads_then_parsed [OF assms(2)] listpack_read assms(1))
  then show ?thesis by simp
qed

text \<open>A string within an encoding is within the bound when the whole encoding is.\<close>

lemma loads_inner:
  assumes "enc_value v = enc_len l @ concat (map f xs)" "x \<in> set xs" "length (enc_string s) \<le> length (f x)"
    "wf_string s" "length (enc_value v) < 2 ^ 64"
  shows "loads load_string (enc_string s) (string_value s)"
  using length_item [OF assms(2), of f] assms by (intro loads_string) auto

lemma loads_counted_values:
  assumes "wf_value v" "length (enc_value v) < 2 ^ 64"
  shows "v = ZSet2V l zs \<Longrightarrow> loads (load_zset2_value db key) (enc_value v) (value_commands db key v)"
    and "v = HashV l hs \<Longrightarrow> loads (load_hash_value db key) (enc_value v) (value_commands db key v)"
    and "v = Quicklist2V l qs \<Longrightarrow> loads (load_quicklist2_value db key) (enc_value v) (value_commands db key v)"
    and "v = Hash2V l es \<Longrightarrow> loads (load_hash_2_value db key) (enc_value v) (value_commands db key v)"
proof -
  note inner = loads_inner [OF _ _ _ _ assms(2), of l]
  assume v: "v = ZSet2V l zs"
  have "loads load_zset2_item (case x of (m, s) \<Rightarrow> enc_string m @ le_bytes 8 (unat s)) (case x of (m, s) \<Rightarrow> [f64_to_string s, string_value m])"
    if "x \<in> set zs" for x
    using that assms(1) v inner [of "\<lambda>(m, s). enc_string m @ le_bytes 8 (unat s)" zs x]
    by (auto simp: list_all_iff intro!: loads_zset2_item)
  then show "loads (load_zset2_value db key) (enc_value v) (value_commands db key v)"
    using assms(1) v loads_counted [of l zs load_zset2_item, where k = "\<lambda>vs. [with_args db ''ZADD'' (key # concat vs)]"]
    by (simp add: load_zset2_value_def)
next
  note inner = loads_inner [OF _ _ _ _ assms(2), of l]
  assume v: "v = HashV l hs"
  have "loads load_hash_item (case x of (f, v) \<Rightarrow> enc_string f @ enc_string v) (case x of (f, v) \<Rightarrow> [string_value f, string_value v])"
    if "x \<in> set hs" for x
    using that assms(1) v inner [of "\<lambda>(f, v). enc_string f @ enc_string v" hs x]
    by (auto simp: list_all_iff intro!: loads_hash_item)
  then show "loads (load_hash_value db key) (enc_value v) (value_commands db key v)"
    using assms(1) v loads_counted [of l hs load_hash_item, where k = "\<lambda>vs. [with_args db ''HSET'' (key # concat vs)]"]
    by (simp add: load_hash_value_def)
next
  note inner = loads_inner [OF _ _ _ _ assms(2), of l]
  assume v: "v = Quicklist2V l qs"
  have "loads load_quicklist2_item (case x of (c, s, es) \<Rightarrow> [c] @ enc_string s) (case x of (c, s, es) \<Rightarrow> lp_values es)"
    if "x \<in> set qs" for x
  proof -
    obtain c s es where x: "x = (c, s, es)" using prod_cases3 by blast
    have "holds_listpack s es" using that assms(1) v x by (auto simp: list_all_iff)
    then show ?thesis
      using inner [of "\<lambda>(c, s, es). [c] @ enc_string s" qs x s] that v x
      by (simp add: loads_quicklist2_item holds_listpack_def)
  qed
  then show "loads (load_quicklist2_value db key) (enc_value v) (value_commands db key v)"
    using assms(1) v loads_counted [of l qs load_quicklist2_item,
        where k = "\<lambda>vs. if concat vs = [] then [] else [with_args db ''RPUSH'' (key # concat vs)]"]
    by (simp add: load_quicklist2_value_def Let_def)
next
  note inner = loads_inner [OF _ _ _ _ assms(2), of l]
  assume v: "v = Hash2V l es"
  have "loads load_hash_2_item (case x of (f, v, e) \<Rightarrow> enc_string f @ enc_string v @ le_bytes 8 (unat e))
      (case x of (f, v, e) \<Rightarrow> [string_value f, string_value v])"
    if "x \<in> set es" for x
    using that assms(1) v inner [of "\<lambda>(f, v, e). enc_string f @ enc_string v @ le_bytes 8 (unat e)" es x]
    by (auto simp: list_all_iff intro!: loads_hash_2_item)
  then show "loads (load_hash_2_value db key) (enc_value v) (value_commands db key v)"
    using assms(1) v loads_counted [of l es load_hash_2_item,
        where k = "\<lambda>vs. if concat vs = [] then [] else [with_args db ''HSET'' (key # concat vs)]"]
    by (simp add: load_hash_2_value_def Let_def)
qed

lemma loads_object:
  assumes "wf_value v" "length (enc_value v) < 2 ^ 64"
  shows "loads (load_object db (value_type v) key) (enc_value v) (value_commands db key v)"
proof -
  have s: "loads load_string (enc_string s) (string_value s)" if "wf_string s" "length (enc_string s) \<le> length (enc_value v)" for s
    using that assms(2) by (intro loads_string) auto
  have r: "parse_listpack (enc_listpack es) = Inr (lp_values es)" if "wf_listpack es" for es
    using that by (simp add: parse_listpack_enc lp_values_def)
  show ?thesis
  proof (cases v)
    case (SetIntsetV z w ns)
    then show ?thesis using assms(1) s [of z]
      by (auto simp: single_loaders_def parse_intset_enc intro!: loads_then_parsed2 loads_ret)
  qed (use assms(1) s loads_counted_values [OF assms] in
      \<open>auto simp: single_loaders_def holds_listpack_def even_iff_mod_2_eq_zero r
        intro!: loads_then_ret loads_then_parsed2 loads_ret loads_parsed\<close>)
qed

end
