(* ===== verification/RDB_Dump.thy ===== *)
theory RDB_Dump
  imports RDB_Values
begin

text \<open>
  Whole dumps. The items of a dump and the commands they stand for; the parser as an instance of the incremental
  parsers of \<open>Incremental\<close>, for streams that are dumps; and the round trip: a dump in any chunks is read back as its
  commands. Two theorems record what is not read back: small negative integers of a listpack and values of an
  unknown type.
\<close>

section \<open>Dumps\<close>

datatype rdb_item =
    AuxI rdb_string rdb_string
  | SelectDbI rdb_len
  | ResizeDbI rdb_len rdb_len
  | ExpireI u32
  | ExpireMsI u64
  | PairI rdb_string rdb_value

fun item_opcode :: "rdb_item \<Rightarrow> u8" where
  "item_opcode (AuxI k v) = 250"
| "item_opcode (SelectDbI l) = 254"
| "item_opcode (ResizeDbI l1 l2) = 251"
| "item_opcode (ExpireI s) = 253"
| "item_opcode (ExpireMsI ms) = 252"
| "item_opcode (PairI k v) = value_type v"

fun item_body :: "rdb_item \<Rightarrow> bytes" where
  "item_body (AuxI k v) = enc_string k @ enc_string v"
| "item_body (SelectDbI l) = enc_len l"
| "item_body (ResizeDbI l1 l2) = enc_len l1 @ enc_len l2"
| "item_body (ExpireI s) = le_bytes 4 (unat s)"
| "item_body (ExpireMsI ms) = le_bytes 8 (unat ms)"
| "item_body (PairI k v) = enc_string k @ enc_value v"

fun wf_item :: "rdb_item \<Rightarrow> bool" where
  "wf_item (AuxI k v) \<longleftrightarrow> wf_string k \<and> wf_string v"
| "wf_item (SelectDbI l) \<longleftrightarrow> wf_len l"
| "wf_item (ResizeDbI l1 l2) \<longleftrightarrow> wf_len l1 \<and> wf_len l2"
| "wf_item (ExpireI s) \<longleftrightarrow> True"
| "wf_item (ExpireMsI ms) \<longleftrightarrow> True"
| "wf_item (PairI k v) \<longleftrightarrow> wf_string k \<and> wf_value v"

definition enc_item :: "rdb_item \<Rightarrow> bytes" where
  "enc_item i = item_opcode i # item_body i"

definition wf_magic :: "bytes \<Rightarrow> bool" where
  "wf_magic m \<longleftrightarrow>
     (\<exists>d. length d = 4 \<and> m = ascii ''REDIS'' @ d \<and> check_version d 1 12 = Inr ()) \<or>
     (\<exists>d. length d = 3 \<and> m = ascii ''VALKEY'' @ d \<and> check_version d 80 999 = Inr ())"

definition enc_dump :: "bytes \<Rightarrow> rdb_item list \<Rightarrow> bytes \<Rightarrow> bytes" where
  "enc_dump magic items checksum = magic @ concat (map enc_item items) @ [255] @ checksum"

definition wf_dump :: "bytes \<Rightarrow> rdb_item list \<Rightarrow> bytes \<Rightarrow> bool" where
  "wf_dump magic items checksum \<longleftrightarrow>
     wf_magic magic \<and> list_all wf_item items \<and> length checksum = 8 \<and> length (enc_dump magic items checksum) < 2 ^ 64"

text \<open>
  What the items of a dump mean: the selected database and the expiry of the next key, and the commands of every
  key in the database selected before it.
\<close>

fun item_step :: "rdb_item \<Rightarrow> u32 \<times> u64 option \<Rightarrow> RawCommand list \<times> (u32 \<times> u64 option)" where
  "item_step (SelectDbI l) (db, ex) = ([], (word_of_nat (len_value l), ex))"
| "item_step (ExpireI s) (db, ex) = ([], (db, Some (word_of_nat (unat s) * 1000)))"
| "item_step (ExpireMsI ms) (db, ex) = ([], (db, Some ms))"
| "item_step (PairI k v) (db, ex) =
     (value_commands db (string_value k) v @
        (case ex of None \<Rightarrow> [] | Some ms \<Rightarrow> [with_args db ''PEXPIREAT'' [string_value k, nat_to_string (unat ms)]]),
      (db, None))"
| "item_step i c = ([], c)"

fun dump_commands :: "rdb_item list \<Rightarrow> u32 \<times> u64 option \<Rightarrow> RawCommand list" where
  "dump_commands [] c = []"
| "dump_commands (i # items) c = (case item_step i c of (cs, c1) \<Rightarrow> cs @ dump_commands items c1)"

section \<open>The parser as an incremental parser\<close>

definition rdb_action :: "ParserState \<Rightarrow> (ParserState, RawCommand, stream_error) action" where
  "rdb_action st =
     (case parse_step st of
        (Next, st1) \<Rightarrow> Go st1 []
      | (Return (Inl e), st1) \<Rightarrow> Fail e
      | (Return (Inr None), st1) \<Rightarrow> Stop st1
      | (Return (Inr (Some cs)), st1) \<Rightarrow> Go st1 cs)"

definition outcome_of :: "RawCommand list parsed \<times> 's \<Rightarrow> ('s, RawCommand, stream_error) progress" where
  "outcome_of p = (case p of (Inl e, st) \<Rightarrow> Inl e | (Inr cs, st) \<Rightarrow> Inr (cs, st))"

definition rdb_run :: "ParserState \<Rightarrow> (ParserState, RawCommand, stream_error) progress" where
  "rdb_run st = outcome_of (feed_loop st)"

definition append_data :: "ParserState \<Rightarrow> bytes \<Rightarrow> ParserState" where
  "append_data st x = st\<lparr>buffer := buffer st @ x\<rparr>"

lemma outcome_of_simps [simp]: "outcome_of (Inl e, st) = Inl e" "outcome_of (Inr cs, st) = Inr (cs, st)"
  by (simp_all add: outcome_of_def)

lemma append_data_simps [simp]:
  "buffer (append_data st x) = buffer st @ x" "parse_state (append_data st x) = parse_state st"
  "finished (append_data st x) = finished st" "append_data st [] = st" "append_data (append_data st x) y = append_data st (x @ y)"
  by (simp_all add: append_data_def)

lemma rdb_run_step:
  "rdb_run st = (case rdb_action st of Stop st1 \<Rightarrow> Inr ([], st1) | Go st1 cs \<Rightarrow> emit cs (rdb_run st1) | Fail e \<Rightarrow> Inl e)"
proof -
  obtain r st1 where s: "parse_step st = (r, st1)" by fastforce
  have some: "feed_loop st = (case feed_loop st1 of (Inl e, st2) \<Rightarrow> (Inl e, st2) | (Inr cs', st2) \<Rightarrow> (Inr (cs @ cs'), st2))"
    if "r = Return (Inr (Some cs))" for cs
    using that s by (simp add: feed_loop.simps [of st] parse_next.simps [of st])
  have "feed_loop st = feed_loop st1" if "r = Next"
    using that s by (simp add: feed_loop.simps [of st] feed_loop.simps [of st1] parse_next.simps [of st])
  then show ?thesis
    using s some
    by (auto simp: rdb_run_def rdb_action_def feed_loop.simps [of st] parse_next.simps [of st] emit_def outcome_of_def
        split: flow.split sum.split option.split prod.split)
qed

lemma rdb_action_weight: "rdb_action st = Go st1 cs \<Longrightarrow> parser_weight st1 < parser_weight st"
  by (auto simp: rdb_action_def step_weight split: prod.splits flow.splits sum.splits option.splits)

section \<open>What a well-formed stream does to the parser\<close>

definition is_tail :: "bytes \<Rightarrow> bool" where
  "is_tail t \<longleftrightarrow> (\<exists>items checksum. list_all wf_item items \<and> length checksum = 8 \<and>
     t = concat (map enc_item items) @ [255] @ checksum)"

definition is_pair :: "rdb_item \<Rightarrow> bool" where
  "is_pair i = (case i of PairI k v \<Rightarrow> True | _ \<Rightarrow> False)"

text \<open>The bytes a parser in a given state still expects, the buffered ones included.\<close>

fun expects :: "ParseState \<Rightarrow> bytes \<Rightarrow> bool" where
  "expects (Magic pos) t \<longleftrightarrow> pos = 0 \<and> (\<exists>m u. wf_magic m \<and> is_tail u \<and> t = m @ u)"
| "expects Opcode t \<longleftrightarrow> is_tail t"
| "expects (ProcessingOpcode op) t \<longleftrightarrow>
     (\<exists>i u. wf_item i \<and> \<not> is_pair i \<and> op = item_opcode i \<and> is_tail u \<and> t = item_body i @ u)"
| "expects (ProcessingKey ty) t \<longleftrightarrow>
     (\<exists>k v u. wf_string k \<and> wf_value v \<and> ty = value_type v \<and> is_tail u \<and> t = enc_string k @ enc_value v @ u)"
| "expects (ProcessingValue ty n) t \<longleftrightarrow> (\<exists>v u. wf_value v \<and> ty = value_type v \<and> is_tail u \<and> t = enc_value v @ u)"
| "expects WaitingChecksum t \<longleftrightarrow> length t = 8"
| "expects Finished t \<longleftrightarrow> t = []"

text \<open>
  \<open>eats st part p st1\<close>: in the state of \<open>st\<close> the parser waits on every proper prefix of \<open>part\<close>, and consumes it when it
  is complete.
\<close>

definition eats :: "ParserState \<Rightarrow> bytes \<Rightarrow> parse_result flow \<Rightarrow> ParserState \<Rightarrow> bool" where
  "eats st part p st1 \<longleftrightarrow>
     (\<forall>b. length (part @ b) < 2 ^ 64 \<longrightarrow> parse_step (st\<lparr>buffer := part @ b\<rparr>) = (p, st1\<lparr>buffer := b\<rparr>)) \<and>
     (\<forall>b. strict_prefix b part \<longrightarrow> parse_step (st\<lparr>buffer := b\<rparr>) = (Return (Inr None), st\<lparr>buffer := b\<rparr>))"

lemma buffer_commute:
  "st\<lparr>buffer := b, parse_state := p\<rparr> = st\<lparr>parse_state := p, buffer := b\<rparr>"
  "st\<lparr>buffer := b, saved_key := k\<rparr> = st\<lparr>saved_key := k, buffer := b\<rparr>"
  "st\<lparr>buffer := b, current_db := d\<rparr> = st\<lparr>current_db := d, buffer := b\<rparr>"
  "st\<lparr>buffer := b, expire_ms := e\<rparr> = st\<lparr>expire_ms := e, buffer := b\<rparr>"
  by (cases st; simp)+

lemma strict_prefix_single: "strict_prefix b [x] \<longleftrightarrow> b = []"
  by (cases b) auto

lemma strict_prefix_length: "strict_prefix b part \<Longrightarrow> length b < length part"
  by (rule prefix_length_less)

lemma strict_prefix_append: "strict_prefix b part \<Longrightarrow> \<exists>x. part = b @ x \<and> x \<noteq> []"
  by (auto simp: strict_prefix_def prefix_def)

lemma loading_loads: "loads m bs v \<Longrightarrow> loading (st\<lparr>buffer := bs @ b\<rparr>) m k = k v (st\<lparr>buffer := b\<rparr>)"
  by (simp add: loading_def loads_def)

lemma loading_waits: "m b = (Inr None, b) \<Longrightarrow> loading (st\<lparr>buffer := b\<rparr>) m k = (Return (Inr None), st\<lparr>buffer := b\<rparr>)"
  by (simp add: loading_def)

lemma eats_loading:
  assumes "\<And>b. parse_step (st\<lparr>buffer := b\<rparr>) = loading (st\<lparr>buffer := b\<rparr>) m k" "loads m part v"
    "\<And>b. strict_prefix b part \<Longrightarrow> m b = (Inr None, b)" "\<And>b. k v (st\<lparr>buffer := b\<rparr>) = (p, st1\<lparr>buffer := b\<rparr>)"
  shows "eats st part p st1"
  using assms by (simp add: eats_def loading_loads loading_waits)

lemma peek_within: "peek_length_at b 0 = Inr (Some (n, k)) \<Longrightarrow> k \<le> length b"
  by (cases b) (auto simp: peek_Cons Suc_le_eq split: if_splits)

lemma peek_prefix:
  assumes "wf_len l" "strict_prefix b (enc_len l)"
  shows "peek_length_at b 0 = Inr None"
proof -
  obtain x where x: "enc_len l = b @ x" "x \<noteq> []" using strict_prefix_append [OF assms(2)] by blast
  show ?thesis using peek_more [of b x] peek_enc [OF assms(1), of "[]"] peek_within [of b] x by fastforce
qed

lemma load_length_waits: "wf_len l \<Longrightarrow> strict_prefix b (enc_len l) \<Longrightarrow> load_length b = (Inr None, b)"
  by (simp add: load_length_def peek_prefix)

lemma load_fixed_waits: "length part = k \<Longrightarrow> strict_prefix b part \<Longrightarrow> load_fixed k b = (Inr None, b)"
  using strict_prefix_length [of b part] by (simp add: load_fixed_def)

text \<open>A proper prefix of two pieces ends within the first or within the second.\<close>

lemma strict_prefix_two:
  assumes "strict_prefix b (p @ q)"
  shows "strict_prefix b p \<or> (\<exists>c. b = p @ c \<and> strict_prefix c q)"
  using assms by (auto simp: strict_prefix_def prefix_append)

lemma eats_magic:
  assumes "parse_state st = Magic 0" "wf_magic m"
  shows "eats st m Next (st\<lparr>parse_state := Opcode\<rparr>)"
proof -
  have l: "length m = 9" using assms(2) by (auto simp: wf_magic_def ascii_def)
  have v: "(if take 5 m = ascii ''REDIS'' then check_version (drop 5 m) 1 12
      else if take 6 m = ascii ''VALKEY'' then check_version (drop 6 m) 80 999 else Inl (Failed ''invalid_magic'')) = Inr ()"
    using assms(2) by (auto simp: wf_magic_def ascii_def)
  have "parse_step (st\<lparr>buffer := m @ b\<rparr>) = (Next, st\<lparr>parse_state := Opcode, buffer := b\<rparr>)" for b
    using assms(1) l v by (simp add: parse_step_def parse_magic_def Let_def buffer_commute)
  moreover have "parse_step (st\<lparr>buffer := b\<rparr>) = (Return (Inr None), st\<lparr>buffer := b\<rparr>)" if "strict_prefix b m" for b
    using assms(1) l strict_prefix_length [OF that] by (simp add: parse_step_def parse_magic_def)
  ultimately show ?thesis by (simp add: eats_def)
qed

lemma eats_opcode:
  assumes "parse_state st = Opcode"
  shows "eats st [op] Next (st\<lparr>parse_state :=
    if op = 255 then WaitingChecksum else if op \<in> {254, 251, 250, 253, 252} then ProcessingOpcode op else ProcessingKey op\<rparr>)"
  using assms by (auto simp: eats_def parse_step_def parse_opcode_def strict_prefix_single buffer_commute)

lemma eats_key:
  assumes "parse_state st = ProcessingKey ty" "wf_string k" "length (enc_string k) < 2 ^ 64"
  shows "eats st (enc_string k) Next (st\<lparr>saved_key := string_value k, parse_state := ProcessingValue ty (length (string_value k))\<rparr>)"
proof (rule eats_loading)
  show "parse_step (st\<lparr>buffer := b\<rparr>) = loading (st\<lparr>buffer := b\<rparr>) load_string (\<lambda>key st1.
      (Next, st1\<lparr>saved_key := key, parse_state := ProcessingValue ty (length key)\<rparr>))" for b
    using assms(1) by (simp add: parse_step_def process_key_def)
qed (use assms in \<open>simp_all add: loads_string prefix_waits buffer_commute\<close>)

lemma eats_value:
  assumes "parse_state st = ProcessingValue (value_type v) n" "wf_value v" "length (enc_value v) < 2 ^ 64"
  shows "eats st (enc_value v)
    (Return (Inr (Some (value_commands (current_db st) (saved_key st) v @ expire_commands st (saved_key st)))))
    (st\<lparr>expire_ms := None, saved_key := [], parse_state := Opcode\<rparr>)"
proof -
  have waits: "parse_step (st\<lparr>buffer := b\<rparr>) = (Return (Inr None), st\<lparr>buffer := b\<rparr>)" if p: "strict_prefix b (enc_value v)" for b
  proof -
    obtain x where x: "enc_value v = b @ x" "x \<noteq> []" using strict_prefix_append [OF p] by blast
    have "calculate_value_size b (value_type v) 0 = Inr None \<or>
        calculate_value_size b (value_type v) 0 = Inr (Some (length (enc_value v)))"
      using value_size_more [of b "value_type v" x] value_size_enc [OF assms(2), of "[]"] assms(3) x by auto
    then show ?thesis using assms(1) x by (auto simp: parse_step_def parse_value_def)
  qed
  have "parse_step (st\<lparr>buffer := enc_value v @ b\<rparr>) =
      (Return (Inr (Some (value_commands (current_db st) (saved_key st) v @ expire_commands st (saved_key st)))),
       st\<lparr>expire_ms := None, saved_key := [], parse_state := Opcode, buffer := b\<rparr>)"
    if "length (enc_value v @ b) < 2 ^ 64" for b
    using assms(1) value_size_enc [OF assms(2) that] loads_object [OF assms(2,3), of "current_db st" "saved_key st"]
    by (simp add: parse_step_def parse_value_def loading_loads expire_commands_def buffer_commute split: option.split)
  with waits show ?thesis by (simp add: eats_def)
qed

lemma eats_select:
  assumes "parse_state st = ProcessingOpcode 254" "wf_len l"
  shows "eats st (enc_len l) Next (st\<lparr>current_db := word_of_nat (len_value l), parse_state := Opcode\<rparr>)"
proof (rule eats_loading)
  show "parse_step (st\<lparr>buffer := b\<rparr>) = loading (st\<lparr>buffer := b\<rparr>) load_length (\<lambda>db_num st1.
      (Next, st1\<lparr>current_db := word_of_nat db_num, parse_state := Opcode\<rparr>))" for b
    using assms(1) by (simp add: parse_step_def process_opcode_def)
qed (use assms in \<open>simp_all add: loads_length load_length_waits buffer_commute\<close>)

lemma eats_expire:
  assumes "parse_state st = ProcessingOpcode 253"
  shows "eats st (le_bytes 4 (unat (s :: u32))) Next (st\<lparr>expire_ms := Some (word_of_nat (unat s) * 1000), parse_state := Opcode\<rparr>)"
proof (rule eats_loading)
  show "parse_step (st\<lparr>buffer := b\<rparr>) = loading (st\<lparr>buffer := b\<rparr>) (load_fixed 4) (\<lambda>expire_sec st1.
      (Next, st1\<lparr>expire_ms := Some (word_of_nat expire_sec * 1000), parse_state := Opcode\<rparr>))" for b
    using assms by (simp add: parse_step_def process_opcode_def)
  have "le_nat (le_bytes 4 (unat s)) = unat s" using unsigned_less [of s] by (intro le_nat_le_bytes) simp
  then show "loads (load_fixed 4) (le_bytes 4 (unat s)) (unat s)" using loads_fixed [of "le_bytes 4 (unat s)" 4] by simp
qed (simp_all add: load_fixed_waits [of "le_bytes 4 (unat s)"] buffer_commute)

lemma eats_expire_ms:
  assumes "parse_state st = ProcessingOpcode 252"
  shows "eats st (le_bytes 8 (unat (ms :: u64))) Next (st\<lparr>expire_ms := Some ms, parse_state := Opcode\<rparr>)"
proof (rule eats_loading)
  show "parse_step (st\<lparr>buffer := b\<rparr>) = loading (st\<lparr>buffer := b\<rparr>) (load_fixed 8) (\<lambda>ms st1.
      (Next, st1\<lparr>expire_ms := Some (word_of_nat ms), parse_state := Opcode\<rparr>))" for b
    using assms by (simp add: parse_step_def process_opcode_def)
  show "loads (load_fixed 8) (le_bytes 8 (unat ms)) (unat ms)" using loads_fixed [of "le_bytes 8 (unat ms)" 8] by simp
qed (simp_all add: load_fixed_waits [of "le_bytes 8 (unat ms)"] buffer_commute)

lemma eats_resize:
  assumes "parse_state st = ProcessingOpcode 251" "wf_len l1" "wf_len l2"
  shows "eats st (enc_len l1 @ enc_len l2) Next (st\<lparr>parse_state := Opcode\<rparr>)"
proof -
  have first: "peek_length_at (enc_len l1 @ c) 0 = Inr (Some (len_value l1, length (enc_len l1)))"
    and second: "peek_length_at (enc_len l1 @ c) (length (enc_len l1)) = peek_length_at c 0" for c
    using peek_enc [OF assms(2)] peek_shift [of "enc_len l1 @ c" "length (enc_len l1)"] by simp_all
  have "parse_step (st\<lparr>buffer := b\<rparr>) = (Return (Inr None), st\<lparr>buffer := b\<rparr>)" if "strict_prefix b (enc_len l1 @ enc_len l2)" for b
    using strict_prefix_two [OF that] assms(1) peek_prefix [OF assms(2)] peek_prefix [OF assms(3)] first second
    by (auto simp: parse_step_def process_opcode_def)
  moreover have "parse_step (st\<lparr>buffer := (enc_len l1 @ enc_len l2) @ b\<rparr>) = (Next, st\<lparr>parse_state := Opcode, buffer := b\<rparr>)" for b
    using assms(1) first [of "enc_len l2 @ b"] second [of "enc_len l2 @ b"] peek_enc [OF assms(3), of b]
      loading_loads [OF loads_then [OF loads_ignored [OF loads_length [OF assms(2)]] loads_ignored [OF loads_length [OF assms(3)]]], where st = st and b = b]
    by (simp add: parse_step_def process_opcode_def buffer_commute)
  ultimately show ?thesis by (simp add: eats_def)
qed

lemma eats_aux:
  assumes "parse_state st = ProcessingOpcode 250" "wf_string k" "wf_string v" "length (enc_string k @ enc_string v) < 2 ^ 64"
  shows "eats st (enc_string k @ enc_string v) Next (st\<lparr>parse_state := Opcode\<rparr>)"
proof -
  have l: "length (enc_string k) < 2 ^ 64" "length (enc_string v) < 2 ^ 64" using assms(4) by simp_all
  have first: "calculate_string_size (enc_string k @ c) 0 = Inr (Some (length (enc_string k)))"
    and second: "calculate_string_size (enc_string k @ c) (length (enc_string k)) = calculate_string_size c 0" for c
    using string_size_enc [OF assms(2) l(1)] string_size_shift [of "enc_string k @ c" "length (enc_string k)"] by simp_all
  have prefix: "calculate_string_size c 0 = Inr None \<or> calculate_string_size c 0 = Inr (Some (length (enc_string s))) \<and> length c < length (enc_string s)"
    if "strict_prefix c (enc_string s)" "wf_string s" "length (enc_string s) < 2 ^ 64" for c s
    using strict_prefix_append [OF that(1)] string_size_more [of c] string_size_enc [OF that(2,3), of "[]"] by fastforce
  have short: "calculate_string_size b (length (enc_string k)) = Inr None" if "length b < length (enc_string k)" for b
    using that by (simp add: calculate_string_size_def)
  have "parse_step (st\<lparr>buffer := b\<rparr>) = (Return (Inr None), st\<lparr>buffer := b\<rparr>)" if "strict_prefix b (enc_string k @ enc_string v)" for b
    using strict_prefix_two [OF that]
  proof (elim disjE exE conjE)
    assume "strict_prefix b (enc_string k)"
    then show ?thesis using prefix [OF _ assms(2) l(1), of b] short [of b] assms(1)
      by (auto simp: parse_step_def process_opcode_def)
  next
    fix c
    assume "b = enc_string k @ c" "strict_prefix c (enc_string v)"
    then show ?thesis using prefix [OF _ assms(3) l(2), of c] first [of c] second [of c] assms(1,4)
      by (auto simp: parse_step_def process_opcode_def)
  qed
  moreover have "parse_step (st\<lparr>buffer := (enc_string k @ enc_string v) @ b\<rparr>) = (Next, st\<lparr>parse_state := Opcode, buffer := b\<rparr>)"
    for b
    using assms(1,4) first [of "enc_string v @ b"] second [of "enc_string v @ b"] string_size_enc [OF assms(3) l(2), of b]
      loading_loads [OF loads_then [OF loads_ignored [OF loads_string [OF assms(2) l(1)]] loads_ignored [OF loads_string [OF assms(3) l(2)]]], where st = st and b = b]
    by (simp add: parse_step_def process_opcode_def buffer_commute)
  ultimately show ?thesis by (simp add: eats_def)
qed

lemma eats_item:
  assumes "parse_state st = ProcessingOpcode (item_opcode i)" "wf_item i" "\<not> is_pair i" "length (item_body i) < 2 ^ 64"
  shows "eats st (item_body i) Next
    (case item_step i (current_db st, expire_ms st) of
       (cs, db, ex) \<Rightarrow> st\<lparr>current_db := db, expire_ms := ex, parse_state := Opcode\<rparr>)"
  using assms eats_aux [of st] eats_select [of st] eats_resize [of st] eats_expire [of st] eats_expire_ms [of st]
  by (cases i) (simp_all add: is_pair_def)

definition rdb_good :: "ParserState \<Rightarrow> bytes \<Rightarrow> bool" where
  "rdb_good st x \<longleftrightarrow> expects (parse_state st) (buffer st @ x) \<and> length (buffer st @ x) < 2 ^ 64 \<and>
     (finished st \<longleftrightarrow> parse_state st = Finished)"

lemma value_type_range: "value_type v \<notin> {255, 254, 251, 250, 253, 252}"
  by (cases v) simp_all

lemma opcode_range: "\<not> is_pair i \<Longrightarrow> item_opcode i \<in> {254, 251, 250, 253, 252} \<and> item_opcode i \<noteq> 255"
  by (cases i) (simp_all add: is_pair_def)

text \<open>In every state but the last two, the stream starts with a piece that the parser eats.\<close>

lemma next_piece:
  assumes "expects (parse_state st) t" "length t < 2 ^ 64" "parse_state st \<notin> {WaitingChecksum, Finished}"
  obtains part rest p st1 where "t = part @ rest" "eats st part p st1" "p = Next \<or> (\<exists>cs. p = Return (Inr (Some cs)))"
    "expects (parse_state st1) rest" "parse_state st1 \<noteq> Finished" "finished st1 = finished st"
proof (cases "parse_state st")
  case (Magic pos)
  then obtain m u where m: "wf_magic m" "is_tail u" "t = m @ u" "pos = 0" using assms(1) by auto
  then have "eats st m Next (st\<lparr>parse_state := Opcode\<rparr>)" using Magic eats_magic by simp
  then show ?thesis using m by (intro that [of m u Next "st\<lparr>parse_state := Opcode\<rparr>"]) auto
next
  case Opcode
  then obtain items checksum where t: "list_all wf_item items" "length checksum = 8"
    "t = concat (map enc_item items) @ [255] @ checksum" using assms(1) by (auto simp: is_tail_def)
  show ?thesis
  proof (cases items)
    case Nil
    then show ?thesis using t by (intro that [OF _ eats_opcode [OF Opcode, of 255], of checksum]) auto
  next
    case (Cons i items')
    let ?u = "concat (map enc_item items') @ [255] @ checksum"
    have u: "is_tail ?u" using t(1,2) Cons by (auto simp: is_tail_def)
    have e: "t = [item_opcode i] @ item_body i @ ?u" "wf_item i" using t Cons by (simp_all add: enc_item_def)
    show ?thesis
    proof (cases "is_pair i")
      case True
      then obtain k v where "i = PairI k v" by (cases i) (auto simp: is_pair_def)
      then show ?thesis using e u Opcode value_type_range [of v] eats_opcode [OF Opcode, of "value_type v"]
        by (intro that [of "[value_type v]" "enc_string k @ enc_value v @ ?u" Next "st\<lparr>parse_state := ProcessingKey (value_type v)\<rparr>"]) auto
    next
      case False
      then show ?thesis using e u opcode_range [OF False] eats_opcode [OF Opcode, of "item_opcode i"]
        by (intro that [of "[item_opcode i]" "item_body i @ ?u" Next "st\<lparr>parse_state := ProcessingOpcode (item_opcode i)\<rparr>"]) auto
    qed
  qed
next
  case (ProcessingOpcode op)
  then obtain i u where i: "wf_item i" "\<not> is_pair i" "op = item_opcode i" "is_tail u" "t = item_body i @ u"
    using assms(1) by auto
  obtain cs db ex where s: "item_step i (current_db st, expire_ms st) = (cs, db, ex)" using prod_cases3 by blast
  have "eats st (item_body i) Next (st\<lparr>current_db := db, expire_ms := ex, parse_state := Opcode\<rparr>)"
    using i eats_item [of st i] ProcessingOpcode assms(2) s by simp
  then show ?thesis using i by (intro that [of "item_body i" u Next "st\<lparr>current_db := db, expire_ms := ex, parse_state := Opcode\<rparr>"]) auto
next
  case (ProcessingKey ty)
  then obtain k v u where k: "wf_string k" "wf_value v" "ty = value_type v" "is_tail u" "t = enc_string k @ enc_value v @ u"
    using assms(1) by auto
  then show ?thesis using assms(2) by (intro that [OF _ eats_key [OF ProcessingKey, of k], of "enc_value v @ u"]) auto
next
  case (ProcessingValue ty n)
  then obtain v u where v: "wf_value v" "ty = value_type v" "is_tail u" "t = enc_value v @ u" using assms(1) by auto
  then show ?thesis using assms(2) ProcessingValue by (intro that [OF _ eats_value [of st v n], of u]) auto
qed (use assms in auto)

text \<open>In the last two states it needs the checksum, or nothing.\<close>

lemma last_states:
  assumes "rdb_good st x" "parse_state st \<in> {WaitingChecksum, Finished}"
  shows "rdb_action st = Stop st \<or> (\<exists>st1. rdb_action st = Stop st1 \<and> x = [] \<and> rdb_good st1 x \<and> rdb_action st1 = Stop st1)"
proof (cases "parse_state st = WaitingChecksum \<and> \<not> length (buffer st) < 8")
  case True
  let ?st1 = "st\<lparr>buffer := drop 8 (buffer st), finished := True, parse_state := Finished\<rparr>"
  have "length (buffer st) + length x = 8" using assms(1) True by (simp add: rdb_good_def)
  then have "length x = 0" "length (buffer st) = 8" using True by linarith+
  then have "rdb_action st = Stop ?st1 \<and> x = [] \<and> rdb_good ?st1 x \<and> rdb_action ?st1 = Stop ?st1"
    using True by (simp add: rdb_good_def rdb_action_def parse_step_def parse_checksum_def)
  then show ?thesis by blast
qed (use assms in \<open>auto simp: rdb_action_def parse_step_def parse_checksum_def\<close>)

text \<open>So more bytes only let the parser go on.\<close>

lemma rdb_good_cases:
  assumes "rdb_good st x"
  shows "(rdb_action st = Stop st) \<or>
    (\<exists>st1 cs. rdb_action st = Go st1 cs \<and> rdb_action (append_data st x) = Go (append_data st1 x) cs \<and> rdb_good st1 x) \<or>
    (\<exists>st1. rdb_action st = Stop st1 \<and> x = [] \<and> rdb_good st1 x \<and> rdb_action st1 = Stop st1)"
proof (cases "parse_state st \<in> {WaitingChecksum, Finished}")
  case True
  then show ?thesis using last_states [OF assms] by blast
next
  case False
  obtain part rest p st1 where p: "buffer st @ x = part @ rest" "eats st part p st1" "p = Next \<or> (\<exists>cs. p = Return (Inr (Some cs)))"
    "expects (parse_state st1) rest" "parse_state st1 \<noteq> Finished" "finished st1 = finished st"
    by (rule next_piece [of st "buffer st @ x"]) (use assms False in \<open>simp_all add: rdb_good_def\<close>)
  have len: "length (buffer st @ x) < 2 ^ 64" and fin: "\<not> finished st" using assms False by (auto simp: rdb_good_def)
  show ?thesis
  proof (cases "length (buffer st) < length part")
    case True
    then have "strict_prefix (buffer st) part"
      using p(1) by (metis append_eq_append_conv_if prefix_def strict_prefix_def append_take_drop_id le_less not_less_iff_gr_or_eq take_is_prefix)
    then have "rdb_action st = Stop st" using p(2) unfolding eats_def rdb_action_def by (metis (no_types, lifting) ParserState.surjective ParserState.update_convs(1) flow.case(2) option.case(1) prod.case sum.case(2))
    then show ?thesis by blast
  next
    case False
    then obtain b where b: "buffer st = part @ b" "rest = b @ x"
      using p(1) by (metis append_eq_append_conv_if append_eq_conv_conj not_less append_take_drop_id append_assoc)
    have eat: "parse_step (st\<lparr>buffer := part @ c\<rparr>) = (p, st1\<lparr>buffer := c\<rparr>)" if "length (part @ c) < 2 ^ 64" for c
      using p(2) that unfolding eats_def by blast
    have e: "st\<lparr>buffer := part @ b\<rparr> = st" using b(1) by (cases st) simp
    have "length (part @ b) < 2 ^ 64" using b len by simp
    from eat [OF this] have "parse_step st = (p, st1\<lparr>buffer := b\<rparr>)" by (simp only: e)
    moreover have "parse_step (append_data st x) = (p, append_data (st1\<lparr>buffer := b\<rparr>) x)"
      using eat [of "b @ x"] b len by (simp add: append_data_def)
    moreover have "rdb_good (st1\<lparr>buffer := b\<rparr>) x" using p(4,5,6) b len fin by (simp add: rdb_good_def)
    ultimately show ?thesis using p(3) unfolding rdb_action_def by fastforce
  qed
qed

interpretation rdb: incremental rdb_action rdb_run append_data rdb_good parser_weight
proof
  show "rdb_good s (x @ y) \<Longrightarrow> rdb_good (append_data s x) y" for s x y
    by (simp add: rdb_good_def)
  show "rdb_good s x \<Longrightarrow> rdb_action s = Stop s' \<Longrightarrow>
      rdb_good s' x \<and> rdb_run s' = Inr ([], s') \<and> rdb_run (append_data s x) = rdb_run (append_data s' x)" for s x s'
    using rdb_good_cases [of s x] rdb_run_step [of s] rdb_run_step [of s'] by auto
  show "rdb_good s x \<Longrightarrow> rdb_action s = Go s' cs \<Longrightarrow>
      rdb_good s' x \<and> rdb_run (append_data s x) = emit cs (rdb_run (append_data s' x))" for s x s' cs
    using rdb_good_cases [of s x] rdb_run_step [of "append_data s x"] by auto
  show "rdb_good s x \<Longrightarrow> rdb_action s = Fail e \<Longrightarrow> rdb_run (append_data s x) = Inl e" for s x e
    using rdb_good_cases [of s x] by auto
qed (simp_all add: rdb_run_step [symmetric] rdb_action_weight)

section \<open>Reading a dump back\<close>

definition at_opcode :: "u32 \<times> u64 option \<Rightarrow> bytes \<Rightarrow> ParserState" where
  "at_opcode c b =
     \<lparr>buffer = b, parse_state = Opcode, current_db = fst c, expire_ms = snd c, finished = False, saved_key = []\<rparr>"

lemma run_eats:
  assumes "eats st part p st1" "length (part @ b) < 2 ^ 64"
  shows "p = Next \<Longrightarrow> rdb_run (st\<lparr>buffer := part @ b\<rparr>) = rdb_run (st1\<lparr>buffer := b\<rparr>)"
    "p = Return (Inr (Some cs)) \<Longrightarrow> rdb_run (st\<lparr>buffer := part @ b\<rparr>) = emit cs (rdb_run (st1\<lparr>buffer := b\<rparr>))"
  using assms by (simp_all add: eats_def rdb_run_step [of "st\<lparr>buffer := part @ b\<rparr>"] rdb_action_def)

lemma run_item:
  assumes "wf_item i" "length (enc_item i @ b) < 2 ^ 64" "item_step i c = (cs, c1)"
  shows "rdb_run (at_opcode c (enc_item i @ b)) = emit cs (rdb_run (at_opcode c1 b))"
proof (cases "is_pair i")
  case True
  then obtain k v where i: "i = PairI k v" by (cases i) (auto simp: is_pair_def)
  let ?s0 = "at_opcode c []" and ?ty = "value_type v"
  let ?s1 = "?s0\<lparr>parse_state := ProcessingKey ?ty\<rparr>"
  let ?s2 = "?s1\<lparr>saved_key := string_value k, parse_state := ProcessingValue ?ty (length (string_value k))\<rparr>"
  have len: "length (enc_string k @ enc_value v @ b) < 2 ^ 64" using assms(2) by (simp add: i enc_item_def)
  have "eats ?s0 [?ty] Next ?s1" using eats_opcode [of ?s0 ?ty] value_type_range [of v] by (simp add: at_opcode_def)
  from run_eats(1) [OF this, of "enc_string k @ enc_value v @ b"] len assms(2)
  have "rdb_run (at_opcode c (enc_item i @ b)) = rdb_run (?s1\<lparr>buffer := enc_string k @ enc_value v @ b\<rparr>)"
    by (simp add: i enc_item_def at_opcode_def)
  also have "\<dots> = rdb_run (?s2\<lparr>buffer := enc_value v @ b\<rparr>)"
    using eats_key [of ?s1 ?ty k] len assms(1) by (intro run_eats(1)) (simp_all add: i)
  also have "\<dots> = emit cs (rdb_run (at_opcode c1 b))"
    using run_eats(2) [OF eats_value [of ?s2 v "length (string_value k)"], of b] len assms(1,3)
    by (cases c; cases "snd c") (auto simp: i at_opcode_def expire_commands_def)
  finally show ?thesis .
next
  case False
  obtain db ex where c: "c = (db, ex)" by fastforce
  obtain db1 ex1 where c1: "c1 = (db1, ex1)" by fastforce
  let ?s0 = "at_opcode c []"
  let ?s1 = "?s0\<lparr>parse_state := ProcessingOpcode (item_opcode i)\<rparr>"
  have cs: "cs = []" using False assms(3) c by (cases i) (auto simp: is_pair_def)
  have len: "length (item_body i @ b) < 2 ^ 64" using assms(2) by (simp add: enc_item_def)
  have "eats ?s0 [item_opcode i] Next ?s1"
    using eats_opcode [of ?s0 "item_opcode i"] opcode_range [OF False] by (auto simp: at_opcode_def)
  from run_eats(1) [OF this, of "item_body i @ b"] assms(2)
  have "rdb_run (at_opcode c (enc_item i @ b)) = rdb_run (?s1\<lparr>buffer := item_body i @ b\<rparr>)"
    by (simp add: enc_item_def at_opcode_def)
  also have "\<dots> = rdb_run (at_opcode c1 b)"
    using run_eats(1) [OF eats_item [of ?s1 i] len] assms False len by (simp add: at_opcode_def c c1)
  finally show ?thesis using cs by simp
qed

lemma run_items:
  assumes "list_all wf_item items" "length (concat (map enc_item items) @ b) < 2 ^ 64"
  shows "\<exists>c1. rdb_run (at_opcode c (concat (map enc_item items) @ b)) = emit (dump_commands items c) (rdb_run (at_opcode c1 b))"
  using assms
proof (induction items arbitrary: c)
  case (Cons i items)
  obtain cs c1 where s: "item_step i c = (cs, c1)" by (cases "item_step i c")
  have "rdb_run (at_opcode c (enc_item i @ concat (map enc_item items) @ b)) =
      emit cs (rdb_run (at_opcode c1 (concat (map enc_item items) @ b)))"
    using Cons.prems by (intro run_item s) simp_all
  then show ?case using Cons.IH [of c1] Cons.prems s by fastforce
qed auto

text \<open>A whole dump, in one piece.\<close>

lemma run_dump:
  assumes "wf_dump magic items checksum"
  shows "\<exists>st. rdb_run (append_data ParserState_new (enc_dump magic items checksum)) = Inr (dump_commands items (0, None), st) \<and>
    finished st \<and> buffer st = []"
proof -
  let ?b = "concat (map enc_item items) @ [255] @ checksum"
  have wf: "wf_magic magic" "list_all wf_item items" "length checksum = 8" "length (magic @ ?b) < 2 ^ 64"
    using assms by (auto simp: wf_dump_def enc_dump_def)
  then have l: "length (concat (map enc_item items) @ ([255] @ checksum)) < 2 ^ 64" by simp
  have "rdb_run (append_data ParserState_new (enc_dump magic items checksum)) = rdb_run (at_opcode (0, None) ?b)"
    using run_eats(1) [OF eats_magic [of ParserState_new magic] wf(4)] wf(1)
    by (simp add: enc_dump_def append_data_def ParserState_new_def at_opcode_def)
  also obtain c1 where "\<dots> = emit (dump_commands items (0, None)) (rdb_run (at_opcode c1 ([255] @ checksum)))"
    using run_items [OF wf(2) l, of "(0, None)"] by (elim exE)
  also have "rdb_run (at_opcode c1 ([255] @ checksum)) = rdb_run ((at_opcode c1 [])\<lparr>parse_state := WaitingChecksum, buffer := checksum\<rparr>)"
    using run_eats(1) [OF eats_opcode [of "at_opcode c1 []" 255], of checksum] wf(3) by (simp add: at_opcode_def)
  finally show ?thesis
    using wf(3) by (simp add: rdb_run_step [of "(at_opcode c1 [])\<lparr>parse_state := WaitingChecksum, buffer := checksum\<rparr>"]
        rdb_action_def parse_step_def parse_checksum_def)
qed

definition rdb_feed :: "ParserState \<Rightarrow> bytes \<Rightarrow> (ParserState, RawCommand, stream_error) progress" where
  "rdb_feed st data = outcome_of (feed_data st data)"

lemma rdb_feed_run: "\<not> finished st \<Longrightarrow> rdb_feed st data = rdb_run (append_data st data)"
  by (simp add: rdb_feed_def feed_data_def rdb_run_def append_data_def)

lemma feed_chunks_run:
  "rdb_good st (concat chunks) \<Longrightarrow> [] \<notin> set chunks \<Longrightarrow>
     feed_all rdb_feed st chunks = feed_all (\<lambda>st c. rdb_run (append_data st c)) st chunks"
proof (induction chunks arbitrary: st)
  case (Cons c chunks)
  have nf: "\<not> finished st" using Cons.prems by (auto simp: rdb_good_def)
  have g: "rdb_good (append_data st c) (concat chunks)" using Cons.prems rdb.good_app by simp
  show ?case
  proof (cases "rdb_run (append_data st c)")
    case (Inr r)
    obtain cs st1 where r: "r = (cs, st1)" by fastforce
    have "rdb_good st1 (concat chunks)" using rdb.run_result [OF g] Inr r by blast
    then show ?thesis using Cons Inr r rdb_feed_run [OF nf] by simp
  qed (simp add: rdb_feed_run [OF nf])
qed simp

text \<open>The state machine run with a bound on the number of its steps.\<close>

primrec rdb_steps :: "nat \<Rightarrow> ParserState \<Rightarrow> (ParserState, RawCommand, stream_error) progress option" where
  "rdb_steps 0 st = None"
| "rdb_steps (Suc n) st =
     (case rdb_action st of
        Stop st1 \<Rightarrow> Some (Inr ([], st1))
      | Fail e \<Rightarrow> Some (Inl e)
      | Go st1 cs \<Rightarrow> map_option (emit cs) (rdb_steps n st1))"

lemma rdb_steps_enough: "parser_weight st < n \<Longrightarrow> rdb_steps n st = Some (rdb_run st)"
proof (induction n arbitrary: st)
  case (Suc n)
  show ?case
  proof (cases "rdb_action st")
    case (Go st1 cs)
    then have "parser_weight st1 < n" using rdb_action_weight [OF Go] Suc.prems by simp
    then show ?thesis using Go Suc.IH by (simp add: rdb_run_step [of st])
  qed (simp_all add: rdb_run_step [of st])
qed simp


lemma good_dump: "wf_dump magic items checksum \<Longrightarrow> rdb_good ParserState_new (enc_dump magic items checksum)"
  by (auto simp: rdb_good_def ParserState_new_def wf_dump_def enc_dump_def is_tail_def)

lemma new_waits: "rdb_run ParserState_new = Inr ([], ParserState_new)"
  by (subst rdb_run_step) (simp add: rdb_action_def parse_step_def parse_magic_def ParserState_new_def)

lemma feed_dump:
  assumes "wf_dump magic items checksum" "concat chunks = enc_dump magic items checksum" "[] \<notin> set chunks"
  shows "\<exists>st. feed_all rdb_feed ParserState_new chunks = Inr (dump_commands items (0, None), st) \<and> finished st \<and> buffer st = []"
  using run_dump [OF assms(1)] feed_chunks_run [of ParserState_new chunks] good_dump [OF assms(1)] assms(2,3)
    rdb.chunks [OF _ new_waits, of chunks] by simp

text \<open>
  C16. Reading a dump back. Whatever the chunks in which a well-formed dump arrives (magic, auxiliary fields, database
  selections, expiries and keys with values of every supported type and encoding, checksum), no feed fails, the
  commands of all the feeds together are those of the dump in its order, and the parser ends finished with nothing
  left over.
\<close>

theorem dump_roundtrip:
  assumes "wf_dump magic items checksum" "concat chunks = enc_dump magic items checksum" "[] \<notin> set chunks"
  shows "\<exists>st. feed_all (\<lambda>st data. outcome_of (feed_data st data)) ParserState_new chunks =
      Inr (dump_commands items (0, None), st) \<and> finished st \<and> buffer st = []"
  using feed_dump [OF assms] unfolding rdb_feed_def [abs_def] .

definition example_items :: "rdb_item list" where
  "example_items =
     [AuxI (Plain (Len6 1) [118]) (Int8 7), SelectDbI (Len6 3), ResizeDbI (Len14 2) (Len32 1), ExpireMsI 5000,
      PairI (Plain (Len6 1) [107]) (StringV (Int16 (-300))),
      PairI (Plain (Len6 1) [104]) (HashV (Len6 1) [(Plain (Len14 1) [102], Plain (Len6 2) [118, 119])]),
      PairI (Plain (Len6 1) [115]) (SetIntsetV (Plain (Len6 10) (enc_intset 2 [-5])) 2 [-5])]"

definition example_magic :: bytes where
  "example_magic = ascii ''REDIS0011''"

lemma example_wf: "wf_dump example_magic example_items (replicate 8 0)"
proof -
  have "wf_magic example_magic"
    unfolding wf_magic_def example_magic_def
    by (rule disjI1, rule exI [of _ "ascii ''0011''"]) (simp add: ascii_def check_version_def parse_uint_def byte_digit_def)
  then show ?thesis
    by (simp add: wf_dump_def enc_dump_def example_items_def wf_intset_def enc_intset_def enc_item_def example_magic_def ascii_def)
qed

theorem dump_roundtrip_witness:
  "\<exists>st. feed_all (\<lambda>st data. outcome_of (feed_data st data)) ParserState_new
      (map (\<lambda>b. [b]) (enc_dump example_magic example_items (replicate 8 0))) =
    Inr ([with_args 3 ''SET'' [[107], [45, 51, 48, 48]], with_args 3 ''PEXPIREAT'' [[107], [53, 48, 48, 48]],
          with_args 3 ''HSET'' [[104], [102], [118, 119]], with_args 3 ''SADD'' [[115], [45, 53]]], st) \<and> finished st"
proof -
  have t: "i64_to_string (-300) = [45, 51, 48, 48]" "nat_to_string 5000 = [53, 48, 48, 48]" "i64_to_string (-5) = [45, 53]"
    by code_simp+
  have "dump_commands example_items (0, None) =
      [with_args 3 ''SET'' [[107], [45, 51, 48, 48]], with_args 3 ''PEXPIREAT'' [[107], [53, 48, 48, 48]],
       with_args 3 ''HSET'' [[104], [102], [118, 119]], with_args 3 ''SADD'' [[115], [45, 53]]]"
    unfolding example_items_def by (simp add: t)
  moreover have "concat (map (\<lambda>b. [b]) bs) = bs" "[] \<notin> set (map (\<lambda>b. [b]) bs)" for bs :: bytes by (induction bs) auto
  ultimately show ?thesis using dump_roundtrip [OF example_wf] by metis
qed

lemma drop_shorter:
  assumes "0 < k" "k \<le> length xs"
  shows "drop k xs \<noteq> xs"
proof
  assume "drop k xs = xs"
  then have "length xs - k = length xs" by (metis length_drop)
  with assms show False by linarith
qed

text \<open>
  C39. A small negative integer of a listpack is not read back. The 13-bit form of an integer below zero starts with a
  byte of the range \<open>0xD0\<close> to \<open>0xDF\<close>, which the parser takes for a string with a 16-bit length: whatever follows, the entry
  is never returned with the rest of the listpack as it should be.
\<close>

theorem listpack_negative_int13:
  assumes "-4096 \<le> n" "n < 0"
  shows "parse_listpack_entry (int13_bytes n @ [bl] @ rest) \<noteq> Inr (i64_to_string n, rest)"
proof -
  have "n mod 8192 = (n + 8192) mod 8192" by simp
  also have "\<dots> = n + 8192" using assms by (intro mod_pos_pos_trivial) auto
  finally have m: "n mod 8192 = n + 8192" .
  then have r: "4096 \<le> nat (n mod 8192)" "nat (n mod 8192) < 8192" using assms by auto
  then have d: "208 \<le> 192 + nat (n mod 8192) div 256" "192 + nat (n mod 8192) div 256 < 224" by auto
  obtain w :: u8 where w: "word_of_nat (192 + nat (n mod 8192) div 256) = w" "unat w = 192 + nat (n mod 8192) div 256"
    using unat_byte_eq [of "192 + nat (n mod 8192) div 256"] d by auto
  have "q div 16 = 13 \<and> q div 64 = 3" if "208 \<le> q" "q < 224" for q :: nat using that by auto
  then have k: "unat w div 16 = 13" "unat w div 64 = 3" using d w(2) by simp_all
  have "parse_listpack_entry (w # b # bl # rest) \<noteq> Inr (v, rest)" for b v
  proof
    assume e: "parse_listpack_entry (w # b # bl # rest) = Inr (v, rest)"
    have "listpack_string 3 (be_nat [b, bl]) rest = Inr (v, rest)" using e k w(2) d by (simp add: lp_entry_Cons Let_def)
    then have r: "drop (be_nat [b, bl] + calculate_backlen_size (3 + be_nat [b, bl])) rest = rest"
      "be_nat [b, bl] + calculate_backlen_size (3 + be_nat [b, bl]) \<le> length rest"
      by (simp_all add: listpack_string_def Let_def split: if_splits)
    moreover have "0 < calculate_backlen_size m" for m by (simp add: calculate_backlen_size_def)
    ultimately show False using drop_shorter [of "be_nat [b, bl] + calculate_backlen_size (3 + be_nat [b, bl])" rest] by simp
  qed
  then show ?thesis unfolding int13_bytes_def Let_def w(1) by simp
qed

theorem listpack_negative_int13_witness:
  "parse_listpack_entry (int13_bytes (-5) @ [2] @ [255]) \<noteq> Inr ([45, 53], [255])"
proof -
  have "i64_to_string (-5) = [45, 53]" by code_simp
  then show ?thesis using listpack_negative_int13 [of "-5" 2 "[255]"] by simp
qed

text \<open>
  C40. A value of a type the parser does not know is not skipped: the parser returns no command and goes on to the next
  opcode, and the bytes of the value are still in the buffer, where they will be taken for opcodes.
\<close>

theorem unknown_value_stays:
  assumes "parse_state st = ProcessingValue ty n" "ty \<notin> {0, 4, 5, 11, 16, 17, 18, 20, 22}"
  shows "parse_next st = (Inr (Some []), st\<lparr>expire_ms := None, saved_key := [], parse_state := Opcode\<rparr>)"
  using assms by (simp add: parse_next.simps [of st] parse_step_def parse_value_def calculate_value_size_def)

theorem unknown_value_stays_witness:
  "buffer (snd (parse_next (ParserState_new\<lparr>parse_state := ProcessingValue 2 1, buffer := [1, 1, 97]\<rparr>))) = [1, 1, 97]"
  by (subst unknown_value_stays [of _ 2 1]) (simp_all add: ParserState_new_def)

end
