(* ===== verification/Replica.thy ===== *)
theory Replica
  imports RDB_Dump
begin

text \<open>
  src/native/vdr\_redis\_nif/src/replica.rs: the replication stream. After the header \<open>$<size>\<close> the parser hands
  the next \<open>size\<close> bytes to an RDB parser, and then reads commands in the RESP encoding. As in \<open>RDB\<close>, a method returns
  \<open>Next\<close> for the tail call of \<open>parse_next\<close>, or its result.
\<close>

datatype ReplicaState = WaitingRdb | ReadingRdb | Streaming

record ReplicaParser =
  rbuffer :: bytes
  rstate :: ReplicaState
  rcurrent_db :: u32
  rdb_parser :: "ParserState option"
  rdb_bulk_size :: "usize option"
  rdb_bytes_read :: usize
  ping_received :: bool
  replconf_getack_received :: bool

definition ReplicaParser_new :: "bool \<Rightarrow> ReplicaParser" where
  "ReplicaParser_new skip_rdb =
     \<lparr>rbuffer = [], rstate = (if skip_rdb then Streaming else WaitingRdb), rcurrent_db = 0, rdb_parser = None,
      rdb_bulk_size = None, rdb_bytes_read = 0, ping_received = False, replconf_getack_received = False\<rparr>"

type_synonym replica_step = "parse_result flow \<times> ReplicaParser"

fun find_crlf :: "bytes \<Rightarrow> usize option" where
  "find_crlf (a # b # data) = (if a = 13 \<and> b = 10 then Some 0 else map_option Suc (find_crlf (b # data)))"
| "find_crlf data = None"

definition skip_newlines :: "bytes \<Rightarrow> bytes" where
  "skip_newlines buf = dropWhile (\<lambda>c. c = 10 \<or> c = 13) buf"

definition parse_rdb_header :: "ReplicaParser \<Rightarrow> replica_step" where
  "parse_rdb_header st0 =
     (let st = st0\<lparr>rbuffer := skip_newlines (rbuffer st0)\<rparr>; buf = rbuffer st
      in if buf = [] then (Return (Inr None), st)
         else if buf ! 0 \<noteq> 36 then (Return (Inl (Failed ''expected_bulk_string_header'')), st)
         else case find_crlf buf of
                None \<Rightarrow> (Return (Inr None), st)
              | Some pos \<Rightarrow>
                  (case parse_uint 64 (take (pos - 1) (drop 1 buf)) of
                     None \<Rightarrow> (Return (Inl (Failed ''invalid_size'')), st)
                   | Some sz \<Rightarrow>
                       (Next, st\<lparr>rbuffer := drop (pos + 2) buf, rdb_parser := Some ParserState_new,
                          rdb_bulk_size := Some sz, rdb_bytes_read := 0, rstate := ReadingRdb\<rparr>)))"

definition stream_rdb_data :: "ReplicaParser \<Rightarrow> replica_step" where
  "stream_rdb_data st =
     (case rdb_bulk_size st of
        None \<Rightarrow> (Return (Inl (Failed ''no_rdb_size'')), st)
      | Some rdb_size \<Rightarrow>
          (let bytes_remaining = (2 ^ 64 + rdb_size - rdb_bytes_read st) mod 2 ^ 64
           in if bytes_remaining = 0 then (Return (Inl (Failed ''rdb_already_complete'')), st)
              else if rbuffer st = [] then (Return (Inr None), st)
              else
                let bytes_to_feed = min (length (rbuffer st)) bytes_remaining;
                    chunk = take bytes_to_feed (rbuffer st);
                    st1 = st\<lparr>rbuffer := drop bytes_to_feed (rbuffer st),
                             rdb_bytes_read := usize_add (rdb_bytes_read st) bytes_to_feed\<rparr>
                in case rdb_parser st1 of
                     None \<Rightarrow> (Return (Inl (Failed ''no_rdb_parser'')), st1)
                   | Some parser \<Rightarrow>
                       (case feed_data parser chunk of
                          (Inl e, parser1) \<Rightarrow> (Return (Inl e), st1\<lparr>rdb_parser := Some parser1\<rparr>)
                        | (Inr commands, parser1) \<Rightarrow>
                            (if rdb_size \<le> rdb_bytes_read st1
                             then (Return (Inr (Some commands)),
                                   st1\<lparr>rdb_parser := None, rdb_bulk_size := None, rdb_bytes_read := 0, rstate := Streaming\<rparr>)
                             else (Return (Inr (Some commands)), st1\<lparr>rdb_parser := Some parser1\<rparr>)))))"

text \<open>
  The elements of an array, from a cursor on; a slice out of range panics. A length read from the stream may pass
  64 bits when it is added; once the slice exists, \<open>data_end\<close> is at most the length of the buffer and
  \<open>data_end + 2\<close> is exact.
\<close>

primrec parse_elements :: "nat \<Rightarrow> bytes \<Rightarrow> usize \<Rightarrow> (bytes list \<times> usize) option parsed" where
  "parse_elements 0 buf cursor = Inr (Some ([], cursor))"
| "parse_elements (Suc n) buf cursor =
     (if length buf \<le> cursor then Inr None
      else if buf ! cursor \<noteq> 36 then Inl (Failed ''expected_bulk_string'')
      else
        let len_start = cursor + 1
        in case find_crlf (drop len_start buf) of
             None \<Rightarrow> Inr None
           | Some pos \<Rightarrow>
               (case parse_uint 64 (take pos (drop len_start buf)) of
                  None \<Rightarrow> Inl (Failed ''invalid_length'')
                | Some len \<Rightarrow>
                    (let data_start = len_start + pos + 2; data_end = usize_add data_start len
                     in if length buf < usize_add data_end 2 then Inr None
                        else if data_end < data_start \<or> length buf < data_end then Inl Crash
                        else map_sum id (map_option (map_prod ((#) (take (data_end - data_start) (drop data_start buf))) id))
                               (parse_elements n buf (data_end + 2)))))"

text \<open>
  \<open>String::from_utf8_lossy(..).to_uppercase()\<close>, as far as a comparison with an ASCII word can tell: ASCII letters, and
  the characters whose upper case is ASCII (sharp s, dotless i, long s and the Latin ligatures).
\<close>

fun to_uppercase :: "bytes \<Rightarrow> bytes" where
  "to_uppercase [] = []"
| "to_uppercase (c # cs) =
     (if 97 \<le> c \<and> c \<le> 122 then (c - 32) # to_uppercase cs
      else if c = 0xC3 \<and> take 1 cs = [0x9F] then ascii ''SS'' @ to_uppercase (drop 1 cs)
      else if c = 0xC4 \<and> take 1 cs = [0xB1] then ascii ''I'' @ to_uppercase (drop 1 cs)
      else if c = 0xC5 \<and> take 1 cs = [0xBF] then ascii ''S'' @ to_uppercase (drop 1 cs)
      else if c = 0xEF \<and> take 2 cs = [0xAC, 0x80] then ascii ''FF'' @ to_uppercase (drop 2 cs)
      else if c = 0xEF \<and> take 2 cs = [0xAC, 0x81] then ascii ''FI'' @ to_uppercase (drop 2 cs)
      else if c = 0xEF \<and> take 2 cs = [0xAC, 0x82] then ascii ''FL'' @ to_uppercase (drop 2 cs)
      else if c = 0xEF \<and> take 2 cs = [0xAC, 0x83] then ascii ''FFI'' @ to_uppercase (drop 2 cs)
      else if c = 0xEF \<and> take 2 cs = [0xAC, 0x84] then ascii ''FFL'' @ to_uppercase (drop 2 cs)
      else if c = 0xEF \<and> (take 2 cs = [0xAC, 0x85] \<or> take 2 cs = [0xAC, 0x86]) then ascii ''ST'' @ to_uppercase (drop 2 cs)
      else c # to_uppercase cs)"

definition process_elements :: "ReplicaParser \<Rightarrow> bytes list \<Rightarrow> RawCommand list \<times> ReplicaParser" where
  "process_elements st elements =
     (case elements of
        [] \<Rightarrow> ([], st)
      | name # args \<Rightarrow>
          let cmd_name = to_uppercase name
          in if cmd_name = ascii ''SELECT'' then
               ([], case args of
                      [] \<Rightarrow> st
                    | a # _ \<Rightarrow> (case parse_uint 32 a of None \<Rightarrow> st | Some db_num \<Rightarrow> st\<lparr>rcurrent_db := word_of_nat db_num\<rparr>))
             else if cmd_name = ascii ''PING'' then ([], st\<lparr>ping_received := True\<rparr>)
             else if cmd_name = ascii ''REPLCONF'' then
               ([], case args of
                      [] \<Rightarrow> st
                    | a # _ \<Rightarrow> if to_uppercase a = ascii ''GETACK'' then st\<lparr>replconf_getack_received := True\<rparr> else st)
             else ([\<lparr>cmd_db = rcurrent_db st, cmd_name = name, cmd_args = args\<rparr>], st))"

definition parse_command :: "ReplicaParser \<Rightarrow> replica_step" where
  "parse_command st0 =
     (let st = st0\<lparr>rbuffer := skip_newlines (rbuffer st0)\<rparr>; buf = rbuffer st
      in if buf = [] then (Return (Inr None), st)
         else if buf ! 0 \<noteq> 42 then (Return (Inl (Failed ''expected_array'')), st)
         else case find_crlf buf of
                None \<Rightarrow> (Return (Inr None), st)
              | Some count_end \<Rightarrow>
                  (case parse_uint 64 (take (count_end - 1) (drop 1 buf)) of
                     None \<Rightarrow> (Return (Inl (Failed ''invalid_count'')), st)
                   | Some count \<Rightarrow>
                       (case parse_elements count buf (count_end + 2) of
                          Inl e \<Rightarrow> (Return (Inl e), st)
                        | Inr None \<Rightarrow> (Return (Inr None), st)
                        | Inr (Some (elements, cursor)) \<Rightarrow>
                            (if length buf < cursor then (Return (Inl Crash), st)
                             else case process_elements (st\<lparr>rbuffer := drop cursor buf\<rparr>) elements of
                                    (cmds, st1) \<Rightarrow> (Return (Inr (Some cmds)), st1)))))"

definition replica_parse_step :: "ReplicaParser \<Rightarrow> replica_step" where
  "replica_parse_step st =
     (case rstate st of
        WaitingRdb \<Rightarrow> parse_rdb_header st
      | ReadingRdb \<Rightarrow> stream_rdb_data st
      | Streaming \<Rightarrow> parse_command st)"

section \<open>Every feed returns\<close>

lemma skip_newlines_shorter: "length (skip_newlines buf) \<le> length buf"
  by (simp add: skip_newlines_def length_dropWhile_le)

lemma mapped_element:
  "map_sum id (map_option (map_prod ((#) x) id)) r = Inr (Some (es, c)) \<longleftrightarrow> (\<exists>es'. es = x # es' \<and> r = Inr (Some (es', c)))"
  by (cases r) (auto simp: map_prod_def split: prod.splits)

lemma parse_elements_cursor: "parse_elements n buf c = Inr (Some (es, c1)) \<Longrightarrow> c \<le> c1"
proof (induction n arbitrary: c es)
  case (Suc n)
  then obtain d es' where "parse_elements n buf d = Inr (Some (es', c1))" "c \<le> d"
    by (auto simp: Let_def mapped_element not_less split: if_splits option.splits)
  with Suc.IH show ?case by fastforce
qed simp

lemma process_elements_buffer [simp]:
  "process_elements st es = (cs, st1) \<Longrightarrow> rbuffer st1 = rbuffer st \<and> rstate st1 = rstate st"
  by (auto simp: process_elements_def Let_def split: list.splits if_splits option.splits)

lemma replica_step_shorter:
  assumes "replica_parse_step st = (r, st1)" "r = Next \<or> r = Return (Inr (Some cs))"
  shows "length (rbuffer st1) < length (rbuffer st)"
proof (cases "rstate st")
  case WaitingRdb
  then show ?thesis using assms skip_newlines_shorter [of "rbuffer st"]
    by (auto simp: replica_parse_step_def parse_rdb_header_def Let_def length_greater_0_conv [symmetric]
        simp del: length_greater_0_conv split: if_splits option.splits)
next
  case ReadingRdb
  then show ?thesis using assms
    by (auto simp: replica_parse_step_def stream_rdb_data_def Let_def length_greater_0_conv [symmetric]
        simp del: length_greater_0_conv split: if_splits option.splits prod.splits sum.splits)
next
  case Streaming
  then show ?thesis using assms skip_newlines_shorter [of "rbuffer st"]
    by (auto simp: replica_parse_step_def parse_command_def Let_def length_greater_0_conv [symmetric]
        simp del: length_greater_0_conv split: if_splits option.splits prod.splits sum.splits
        dest!: process_elements_buffer parse_elements_cursor)
qed

function replica_parse_next :: "ReplicaParser \<Rightarrow> parse_result \<times> ReplicaParser" where
  "replica_parse_next st =
     (case replica_parse_step st of (Next, st1) \<Rightarrow> replica_parse_next st1 | (Return r, st1) \<Rightarrow> (r, st1))"
  by auto
termination
  by (relation "measure (\<lambda>st. length (rbuffer st))") (simp_all, metis replica_step_shorter)

declare replica_parse_next.simps [simp del]

lemma replica_next_shorter: "replica_parse_next st = (Inr (Some cs), st1) \<Longrightarrow> length (rbuffer st1) < length (rbuffer st)"
proof (induction st arbitrary: cs rule: replica_parse_next.induct)
  case (1 st)
  obtain r st2 where s: "replica_parse_step st = (r, st2)" by fastforce
  show ?case
  proof (cases r)
    case Next
    with 1 s have "length (rbuffer st1) < length (rbuffer st2)" by (simp add: replica_parse_next.simps [of st])
    with replica_step_shorter [OF s] Next show ?thesis by simp
  next
    case (Return x)
    with 1(2) s show ?thesis using replica_step_shorter [OF s] by (simp add: replica_parse_next.simps [of st])
  qed
qed

function replica_feed_loop :: "ReplicaParser \<Rightarrow> RawCommand list parsed \<times> ReplicaParser" where
  "replica_feed_loop st =
     (case replica_parse_next st of
        (Inl e, st1) \<Rightarrow> (Inl e, st1)
      | (Inr None, st1) \<Rightarrow> (Inr [], st1)
      | (Inr (Some cmds), st1) \<Rightarrow>
          (case replica_feed_loop st1 of
             (Inl e, st2) \<Rightarrow> (Inl e, st2)
           | (Inr commands, st2) \<Rightarrow> (Inr (cmds @ commands), st2)))"
  by auto
termination
  by (relation "measure (\<lambda>st. length (rbuffer st))") (simp_all, metis replica_next_shorter)

declare replica_feed_loop.simps [simp del]

definition replica_feed_data :: "ReplicaParser \<Rightarrow> bytes \<Rightarrow> (RawCommand list \<times> bool \<times> bool) parsed \<times> ReplicaParser" where
  "replica_feed_data st data =
     (let st0 = st\<lparr>ping_received := False, replconf_getack_received := False\<rparr>
      in case replica_feed_loop (st0\<lparr>rbuffer := rbuffer st0 @ data\<rparr>) of
           (Inl e, st1) \<Rightarrow> (Inl e, st1)
         | (Inr commands, st1) \<Rightarrow> (Inr (commands, ping_received st1, replconf_getack_received st1), st1))"

text \<open>The NIFs: the owner may feed the parser, and anybody may ask for its state.\<close>

record 'p ReplicaResource =
  replica_pid :: 'p
  replica_parser :: ReplicaParser

definition replica_create :: "'p \<Rightarrow> bool \<Rightarrow> 'p ReplicaResource" where
  "replica_create pid skip_rdb = \<lparr>replica_pid = pid, replica_parser = ReplicaParser_new skip_rdb\<rparr>"

definition replica_data ::
  "'p \<Rightarrow> 'p ReplicaResource \<Rightarrow> bytes \<Rightarrow> (RawCommand list \<times> bool \<times> bool) parsed \<times> 'p ReplicaResource" where
  "replica_data pid resource data =
     (if replica_pid resource \<noteq> pid then (Inl (Failed ''parser_not_owned''), resource)
      else case replica_feed_data (replica_parser resource) data of
             (r, parser) \<Rightarrow> (r, resource\<lparr>replica_parser := parser\<rparr>))"

definition replica_state :: "'p ReplicaResource \<Rightarrow> string" where
  "replica_state resource =
     (case rstate (replica_parser resource) of
        WaitingRdb \<Rightarrow> ''waiting_rdb''
      | ReadingRdb \<Rightarrow> ''reading_rdb''
      | Streaming \<Rightarrow> ''streaming'')"

end
