(* ===== verification/F64_Text.thy ===== *)
theory F64_Text
  imports F64
begin

text \<open>
  The decimal text of a number reads back as the number: seventeen digits are enough to tell every finite binary64
  number from its neighbours, so the search of \<open>f64_to_string\<close> always ends with digits that round to it. The statement
  is about the digits, before and after the point, so that it serves every parser of decimals.
\<close>

section \<open>Rounding\<close>

lemma floorlog2_unique: "2 ^ n \<le> x \<Longrightarrow> x < 2 ^ Suc n \<Longrightarrow> floorlog 2 x = Suc n"
  by (intro antisym floorlog_leI floorlog_ge_SucI) simp_all

text \<open>Half-to-even rounding, away from the ties.\<close>

lemma round_off:
  fixes x s k :: nat
  assumes "s * 2 ^ k < x + h" "x < s * 2 ^ k + h" "2 ^ k = 2 * h"
  shows "(if 2 * (x mod 2 ^ k) > 2 ^ k \<or> (2 * (x mod 2 ^ k) = 2 ^ k \<and> odd (x div 2 ^ k)) then x div 2 ^ k + 1 else x div 2 ^ k) = s"
proof (cases "s * 2 ^ k \<le> x")
  case True
  then obtain r where r: "x = r + s * 2 ^ k" by (metis le_add_diff_inverse2)
  with assms have "r < 2 ^ k" "r < h" by simp_all
  with r assms(3) show ?thesis by simp
next
  case False
  then have "s \<noteq> 0" by (intro notI) simp
  then obtain s' where s: "s = Suc s'" by (cases s) auto
  define r where "r = x - s' * 2 ^ k"
  have "s' * 2 ^ k \<le> x" using assms(1,3) s by simp
  then have r: "x = r + s' * 2 ^ k" by (simp add: r_def)
  with assms False s have "r < 2 ^ k" "h < r" by simp_all
  with r assms(3) s show ?thesis by simp
qed

lemma round_mag_nearest:
  assumes "sig < 2 ^ 53" "E = 0 \<or> 2 ^ 52 \<le> sig" "E * 2 ^ 52 + sig \<le> f64_inf_mag"
    "sig * 2 ^ (E + 2) < x + 2 ^ (E + 1)" "x < sig * 2 ^ (E + 2) + 2 ^ (E + 1)"
    "E \<noteq> 0 \<Longrightarrow> sig = 2 ^ 52 \<Longrightarrow> sig * 2 ^ (E + 2) < x + 2 ^ E"
  shows "f64_round_mag 2 x = E * 2 ^ 52 + sig"
proof -
  have half: "2 ^ (n + 2) = 2 * 2 ^ (n + 1)" for n :: nat by simp
  have fl: "x < 2 ^ (E + 55)"
  proof -
    have "x < (sig + 1) * 2 ^ (E + 2)" using assms(5) by simp
    also have "\<dots> \<le> 2 ^ 53 * 2 ^ (E + 2)" using assms(1) by (intro mult_right_mono) simp_all
    finally show ?thesis by (simp add: power_add)
  qed
  show ?thesis
  proof (cases "E = 0 \<or> 2 ^ (E + 54) \<le> x")
    case True
    have k: "max (floorlog 2 x - 53) 2 = E + 2"
    proof (cases "E = 0")
      case True
      have "floorlog 2 x \<le> 55" using fl True by (intro floorlog_leI) simp_all
      with True show ?thesis by simp
    next
      case False
      with True fl have "floorlog 2 x = Suc (E + 54)" by (intro floorlog2_unique) (simp_all add: power_add)
      then show ?thesis by simp
    qed
    show ?thesis unfolding f64_round_mag_def Let_def k round_off [OF assms(4,5) half] using assms(3) by simp
  next
    case False
    then obtain F where F: "E = Suc F" by (cases E) auto
    have "sig = 2 ^ 52"
    proof (rule ccontr)
      assume "sig \<noteq> 2 ^ 52"
      with assms(2) F have "(2 ^ 52 + 1) * 2 ^ (E + 2) \<le> sig * 2 ^ (E + 2)" by (intro mult_right_mono) simp_all
      moreover have "2 ^ (E + 54) = 2 ^ 52 * (2 ^ (E + 2) :: nat)" "2 ^ (E + 2) = 2 * (2 ^ (E + 1) :: nat)" by (simp_all add: power_add)
      ultimately show False using assms(4) False by (simp only: add_mult_distrib) linarith
    qed
    with assms(6) F have lo: "2 ^ 53 * 2 ^ (F + 2) < x + 2 ^ (F + 1)" by (simp add: power_add)
    have hi: "x < 2 ^ 53 * 2 ^ (F + 2)" using False F by (simp add: power_add)
    have fl: "floorlog 2 x = Suc (F + 54)"
      using False lo F by (intro floorlog2_unique) (simp_all add: power_add)
    have k: "max (floorlog 2 x - 53) 2 = F + 2" unfolding fl by simp
    show ?thesis
      unfolding f64_round_mag_def Let_def k round_off [OF lo trans_less_add1 [OF hi] half] using assms(3) F \<open>sig = 2 ^ 52\<close> by simp
  qed
qed

lemma sticky_bounds:
  fixes P q c :: nat
  defines "x \<equiv> 2 * (P div q) + (if P mod q = 0 then 0 else 1)"
  assumes "0 < q"
  shows "real c < real P / real q \<Longrightarrow> 2 * c < x" "real P / real q < real c \<Longrightarrow> x < 2 * c"
proof -
  show "2 * c < x" if "real c < real P / real q"
  proof -
    have "real (c * q) < real P" using assms(2) that by (simp add: field_simps)
    then have c: "c * q < P" by (simp only: of_nat_less_iff)
    then have "c \<le> P div q" using assms(2) by (metis div_le_mono div_mult_self_is_m less_imp_le)
    moreover have "P mod q \<noteq> 0" if "c = P div q" using c that by (intro notI) auto
    ultimately show ?thesis unfolding x_def by (cases "c = P div q") simp_all
  qed
  show "x < 2 * c" if "real P / real q < real c"
  proof -
    have "real P < real (c * q)" using assms(2) that by (simp add: field_simps)
    then have "P < c * q" by (simp only: of_nat_less_iff)
    then have "P div q < c" by (rule less_mult_imp_div_less)
    then show ?thesis unfolding x_def by simp
  qed
qed

text \<open>A finite magnitude: the significand and the exponent of its last bit.\<close>

definition mag_parts :: "nat \<Rightarrow> nat \<Rightarrow> nat \<Rightarrow> bool" where
  "mag_parts mag sig E \<longleftrightarrow>
     sig < 2 ^ 53 \<and> (E = 0 \<or> 2 ^ 52 \<le> sig) \<and> mag = E * 2 ^ 52 + sig \<and> mag \<le> f64_inf_mag"

lemma half_below: "2 * \<bar>a - b\<bar> < c \<Longrightarrow> b * 2 - c < a * (2 :: real)"
  by (simp add: abs_real_def split: if_splits)

text \<open>The last two bits of \<open>f64_of_ratio\<close> are enough: a ratio closer to a magnitude than half its distance to the next rounds to it.\<close>

lemma ratio_nearest:
  assumes "mag_parts mag sig E" "0 < q"
    and near: "\<bar>real p / real q * 2 ^ 1075 - real sig * 2 ^ (E + 1)\<bar> < 2 ^ E"
    and edge: "sig = 2 ^ 52 \<Longrightarrow> 2 * \<bar>real p / real q * 2 ^ 1075 - real sig * 2 ^ (E + 1)\<bar> < 2 ^ E"
  shows "f64_of_ratio p q = mag"
proof -
  define P where "P = p * 2 ^ 1075"
  define x where "x = 2 * (P div q) + (if P mod q = 0 then 0 else 1)"
  have X: "real p / real q * 2 ^ 1075 = real P / real q" by (simp only: P_def of_nat_mult of_nat_power of_nat_numeral) simp
  note less = sticky_bounds(1) [OF assms(2), of _ P, folded x_def] and greater = sticky_bounds(2) [OF assms(2), of P, folded x_def]
  have hi: "x < sig * 2 ^ (E + 2) + 2 ^ (E + 1)"
    using greater [of "sig * 2 ^ (E + 1) + 2 ^ E"] near unfolding X by (simp add: abs_less_iff)
  have lo: "sig * 2 ^ (E + 2) < x + 2 ^ (E + 1)"
  proof (cases sig)
    case (Suc s)
    have "2 * (s * 2 ^ (E + 1) + 2 ^ E) < x" using near Suc unfolding X by (intro less) (simp add: abs_less_iff algebra_simps)
    then show ?thesis using Suc by simp
  qed simp
  have "sig * 2 ^ (E + 2) < x + 2 ^ E" if E: "E \<noteq> 0" "sig = 2 ^ 52"
  proof -
    obtain F where F: "E = Suc F" using E by (cases E) auto
    have d: "2 * ((2 ^ 54 - 1) * 2 ^ F) + 2 ^ E = sig * 2 ^ (E + 2)" using E(2) F by simp
    have "real ((2 ^ 54 - 1) * 2 ^ F) * 2 = real sig * 2 ^ (E + 1) * 2 - 2 ^ E" using arg_cong [OF d, of real] by simp
    moreover have "real sig * 2 ^ (E + 1) * 2 - 2 ^ E < real P / real q * 2"
      by (rule half_below) (use edge [OF E(2)] in \<open>simp only: X\<close>)
    ultimately have "real ((2 ^ 54 - 1) * 2 ^ F) * 2 < real P / real q * 2" by simp
    then have "2 * ((2 ^ 54 - 1) * 2 ^ F) < x" by (intro less) (simp only: mult_less_cancel_right_pos zero_less_numeral)
    with d show ?thesis by linarith
  qed
  with lo hi assms(1) have "f64_round_mag 2 x = mag"
    unfolding mag_parts_def by (metis round_mag_nearest)
  then show ?thesis unfolding f64_of_ratio_def Let_def x_def P_def .
qed

lemma decimal_nearest:
  assumes "mag_parts mag sig E" and near: "\<bar>real d * 10 powi e - real (sig * 2 ^ E) / 2 ^ 1074\<bar> \<le> 10 powi e / 2"
    and small: "10 powi e * 10 ^ 16 \<le> real (sig * 2 ^ E) / 2 ^ 1074"
  shows "decimal_ratio d e = mag"
proof -
  define B :: real where "B = 2 ^ 1074"
  have B: "0 < B" "2 ^ 1075 = 2 * B" by (simp_all add: B_def)
  let ?y = "real d * 10 powi e" and ?u = "10 powi e :: real" and ?m = "real (sig * 2 ^ E)"
  let ?err = "\<bar>?y * (2 * B) - real sig * 2 ^ (E + 1)\<bar>"
  have "?y * (2 * B) - real sig * 2 ^ (E + 1) = (?y - ?m / B) * (2 * B)" using B(1) by (simp add: algebra_simps)
  then have "?err = \<bar>?y - ?m / B\<bar> * (2 * B)" using B(1) by (simp add: abs_mult)
  also have "\<dots> \<le> ?u / 2 * (2 * B)" using near B(1) by (intro mult_right_mono) (simp_all add: B_def)
  also have "\<dots> = ?u * 10 ^ 16 * (B / 10 ^ 16)" by simp
  also have "\<dots> \<le> ?m / B * (B / 10 ^ 16)" using small B(1) unfolding B_def [symmetric] by (intro mult_right_mono) simp_all
  also have "\<dots> = real sig / 10 ^ 16 * 2 ^ E" using B(1) by simp
  finally have err: "?err \<le> real sig / 10 ^ 16 * 2 ^ E" .
  have sig: "real sig < 2 ^ 53" using assms(1) unfolding mag_parts_def by (metis of_nat_less_iff of_nat_numeral of_nat_power)
  have "real sig / 10 ^ 16 * 2 ^ E < 1 * 2 ^ E" using sig by (intro mult_strict_right_mono) simp_all
  with err have n: "?err < 2 ^ E" by linarith
  have ed: "2 * ?err < 2 ^ E" if "sig = 2 ^ 52"
  proof -
    have "2 * ?err \<le> 2 * (real sig / 10 ^ 16 * 2 ^ E)" using err by (intro mult_left_mono) simp_all
    also have "\<dots> < 2 ^ E" using that by simp
    finally show ?thesis .
  qed
  have "f64_of_ratio p q = mag" if "?y = real p / real q" "0 < q" for p q
    by (rule ratio_nearest [OF assms(1) that(2)]) (use n ed in \<open>simp_all only: that(1) B(2)\<close>)
  from this [of "d * 10 ^ nat e" 1] this [of d "10 ^ nat (- e)"] show ?thesis
    by (cases "e \<ge> 0") (simp_all add: decimal_ratio_def power_int_def field_simps)
qed

lemma div_bounds: "0 < d \<Longrightarrow> real (n div d) \<le> real n / real d \<and> real n / real d < real (n div d) + 1"
proof
  assume d: "0 < d"
  show "real (n div d) \<le> real n / real d" by (rule of_nat_div_le_of_nat)
  have "n < (n div d + 1) * d" using d dividend_less_div_times [of d n] by simp
  then have "real n < real ((n div d + 1) * d)" by (simp only: of_nat_less_iff)
  then show "real n / real d < real (n div d) + 1" using d by (simp add: field_simps)
qed

lemma decimal_point_below:
  assumes "0 < m"
  shows "10 powi (decimal_point m - 1) \<le> real m / 2 ^ 1074"
proof -
  define B :: nat where "B = 2 ^ 1074"
  have B: "real B = 2 ^ 1074" "0 < B" by (simp_all only: B_def of_nat_power of_nat_numeral) simp
  have p: "decimal_point m = (if B \<le> m then int (floorlog 10 (m div B)) else 1 - int (floorlog 10 ((B - 1) div m)))"
    by (simp only: decimal_point_def B_def)
  have "10 powi (decimal_point m - 1) \<le> real m / real B"
  proof (cases "B \<le> m")
    case True
    let ?w = "m div B"
    have w: "0 < ?w" using True B(2) by (simp add: div_greater_zero_iff)
    then have "10 ^ (floorlog 10 ?w - 1) \<le> ?w" using floorlog_bounds [of ?w 10] by simp
    then have le: "real (10 ^ (floorlog 10 ?w - 1)) \<le> real ?w" by (simp only: of_nat_le_iff)
    have "0 < floorlog 10 ?w" using w by (metis floorlog_eq_zero_iff gr0I not_le one_less_numeral_iff semiring_norm(76))
    then have "real (10 ^ (floorlog 10 ?w - 1)) = 10 powi (decimal_point m - 1)"
      using True by (simp add: p power_int_def nat_diff_distrib)
    then have "10 powi (decimal_point m - 1) \<le> real ?w" using le by (simp only:)
    also have "\<dots> \<le> real m / real B" by (rule of_nat_div_le_of_nat)
    finally show ?thesis .
  next
    case False
    let ?F = "floorlog 10 ((B - 1) div m)"
    have "(B - 1) div m < 10 ^ ?F" by (rule floorlog_leD) simp_all
    then have "B - 1 < 10 ^ ?F * m" using assms by (simp add: div_less_iff_less_mult)
    then have "real B \<le> real (10 ^ ?F * m)" by (simp only: of_nat_le_iff)
    then have "1 / 10 ^ ?F \<le> real m / real B" using B(2) by (simp add: field_simps)
    moreover have "1 / 10 ^ ?F = (10 :: real) powi (decimal_point m - 1)"
      using False by (simp add: p power_int_def field_simps)
    ultimately show ?thesis by simp
  qed
  then show ?thesis by (simp only: B(1))
qed

lemma digits_found:
  assumes "mag_parts mag sig E" "0 < sig * 2 ^ E"
  shows "fst (digits_at mag (sig * 2 ^ E) 17)"
proof -
  let ?m = "sig * 2 ^ E"
  define B :: nat where "B = 2 ^ 1074"
  have B: "real B = 2 ^ 1074" "0 < B" by (simp_all only: B_def of_nat_power of_nat_numeral) simp
  define e where "e = decimal_point ?m - int 17"
  define num where "num = (if e \<le> 0 then ?m * 10 ^ nat (- e) else ?m)"
  define den where "den = (if e \<le> 0 then B else B * 10 ^ nat e)"
  let ?lo = "num div den" and ?u = "10 powi e :: real" and ?q = "real num / real den"
  have small: "?u * 10 ^ 16 \<le> real ?m / 2 ^ 1074"
  proof -
    have "decimal_point ?m - 1 = e + 16" by (simp add: e_def)
    then show ?thesis using decimal_point_below [OF assms(2)] by (simp add: power_int_add)
  qed
  have den: "0 < den" using B(2) by (simp add: den_def)
  have q: "?q * ?u = real ?m / real B"
    using B(2) by (auto simp: num_def den_def power_int_def field_simps)
  have near: "decimal_ratio c e = mag" if "\<bar>real c - ?q\<bar> \<le> 1 / 2" for c
  proof (rule decimal_nearest [OF assms(1) _ small])
    have "real c * ?u - real ?m / real B = (real c - ?q) * ?u" by (simp only: left_diff_distrib q)
    then have "\<bar>real c * ?u - real ?m / real B\<bar> = \<bar>real c - ?q\<bar> * ?u" by (simp add: abs_mult)
    also have "\<dots> \<le> 1 / 2 * ?u" using that by (rule mult_right_mono) simp
    finally show "\<bar>real c * ?u - real ?m / 2 ^ 1074\<bar> \<le> ?u / 2" by (simp only: B(1))
  qed
  have "decimal_ratio ?lo e = mag \<or> decimal_ratio (?lo + 1) e = mag"
    using near [of ?lo] near [of "?lo + 1"] div_bounds [OF den, of num] by (cases "?q - real ?lo \<le> 1 / 2") auto
  then show ?thesis
    unfolding digits_at_def Let_def e_def [symmetric] fst_conv num_def den_def B_def by blast
qed

lemma digits_at_reads:
  assumes "fst (digits_at mag m n)" "snd (digits_at mag m n) = (d, e)"
  shows "decimal_ratio d e = mag"
proof -
  obtain num den where p: "digits_at mag m n =
      (decimal_ratio (num div den) (decimal_point m - int n) = mag \<or> decimal_ratio (num div den + 1) (decimal_point m - int n) = mag,
       if decimal_ratio (num div den + 1) (decimal_point m - int n) = mag \<and>
          (decimal_ratio (num div den) (decimal_point m - int n) \<noteq> mag \<or> den \<le> 2 * (num mod den))
       then num div den + 1 else num div den, decimal_point m - int n)"
    unfolding digits_at_def Let_def by blast
  show ?thesis using assms unfolding p by (auto split: if_splits)
qed

lemma shortest_reads_back:
  "fst (digits_at mag m (n + fuel)) \<Longrightarrow> shortest_digits mag m fuel n = (d, e) \<Longrightarrow> decimal_ratio d e = mag"
proof (induction fuel arbitrary: n)
  case 0
  then show ?case using digits_at_reads [of mag m n] by simp
next
  case (Suc fuel)
  then show ?case using digits_at_reads [of mag m n] Suc.IH [of "Suc n"] by (cases "digits_at mag m n") (auto split: if_splits)
qed

section \<open>Texts\<close>

lemma ratio_scale: "0 < c \<Longrightarrow> f64_of_ratio (c * p) (c * q) = f64_of_ratio p q"
proof -
  assume c: "0 < c"
  have "c * p * n div (c * q) = p * n div q" "(c * p * n mod (c * q) = 0) = (p * n mod q = 0)" for n
    using c by (simp_all add: mult.assoc mult_mod_right [symmetric])
  then show ?thesis unfolding f64_of_ratio_def Let_def by (simp only:)
qed

lemma decimal_ratio_neg: "decimal_ratio d (- int k) = f64_of_ratio d (10 ^ k)"
  by (cases k) (simp_all add: decimal_ratio_def nat_add_distrib)

lemma decimal_ratio_shift: "decimal_ratio (10 * d) e = decimal_ratio d (e + 1)"
proof (cases "e \<ge> 0")
  case True
  then show ?thesis by (simp add: decimal_ratio_def nat_add_distrib ac_simps)
next
  case False
  define k where "k = nat (- e) - 1"
  have k: "e = - int (Suc k)" using False by (simp add: k_def)
  have "f64_of_ratio (10 * d) (10 * 10 ^ k) = f64_of_ratio d (10 ^ k)" by (rule ratio_scale) simp
  moreover have "e + 1 = - int k" using k by simp
  ultimately show ?thesis unfolding k by (simp only: decimal_ratio_neg power_Suc)
qed

lemma strip_zeros_value: "strip_zeros d e = (d', e') \<Longrightarrow> decimal_ratio d' e' = decimal_ratio d e \<and> (d \<noteq> 0 \<longrightarrow> d' \<noteq> 0)"
proof (induction d e rule: strip_zeros.induct)
  case (1 d e)
  show ?case
  proof (cases "d \<noteq> 0 \<and> d mod 10 = 0")
    case True
    then have d: "10 * (d div 10) = d" by presburger
    with True 1 show ?thesis using decimal_ratio_shift [of "d div 10" e] by (simp add: strip_zeros.simps [of d])
  next
    case False
    with 1(2) show ?thesis by (auto simp: strip_zeros.simps [of d] split: if_splits)
  qed
qed

lemma digits_value_append: "digits_value (xs @ ys) = digits_value xs * 10 ^ length ys + digits_value ys"
proof (induction ys rule: rev_induct)
  case (snoc y ys)
  then show ?case by (simp add: digits_value_def)
qed (simp add: digits_value_def)

lemma digits_value_zeros [simp]: "digits_value (replicate n 48) = 0"
  by (induction n) (simp_all add: replicate_append_same [symmetric] digits_value_append del: replicate_Suc, simp_all add: digits_value_def)

lemma digit_byte_value: "n < 10 \<Longrightarrow> unat (digit_byte n) = 48 + n"
  by (simp add: digit_byte_def unat_word_ariths unat_of_nat)

lemma nat_to_string_digits: "list_all is_digit (nat_to_string n) \<and> digits_value (nat_to_string n) = n \<and> nat_to_string n \<noteq> []"
proof (induction n rule: nat_to_string.induct)
  case (1 n)
  have d: "is_digit (digit_byte m) \<and> digits_value [digit_byte m] = m" if "m < 10" for m
    using that digit_byte_value [of m] by (simp add: is_digit_def digits_value_def word_le_nat_alt)
  show ?case
  proof (cases "n < 10")
    case True
    then show ?thesis using d by (simp add: nat_to_string.simps [of n])
  next
    case False
    with 1 d [of "n mod 10"] show ?thesis by (simp add: nat_to_string.simps [of n] digits_value_append)
  qed
qed

definition decimal_text :: "bytes \<Rightarrow> bytes \<Rightarrow> bytes" where
  "decimal_text whole fr = whole @ (if fr = [] then [] else 46 # fr)"

lemma plain_decimal_parts:
  assumes "list_all is_digit ds" "ds \<noteq> []"
  shows "\<exists>whole fr. plain_decimal ds e = decimal_text whole fr \<and> whole \<noteq> [] \<and> list_all is_digit (whole @ fr) \<and>
    decimal_ratio (digits_value (whole @ fr)) (- int (length fr)) = decimal_ratio (digits_value ds) e"
proof (cases "e \<ge> 0")
  case True
  have "is_digit 48" by (simp add: is_digit_def)
  with True assms show ?thesis
    by - (rule exI [of _ "ds @ replicate (nat e) 48"], rule exI [of _ "[]"],
        simp add: plain_decimal_def decimal_text_def digits_value_append list_all_iff ball_Un set_replicate_conv_if decimal_ratio_def)
next
  case False
  define k where "k = nat (- e)"
  have k: "0 < k" "e = - int k" using False by (simp_all add: k_def)
  have z: "is_digit 48" by (simp add: is_digit_def)
  show ?thesis
  proof (cases "k < length ds")
    case True
    then have p: "plain_decimal ds e = take (length ds - k) ds @ [46] @ drop (length ds - k) ds"
      using False by (simp add: plain_decimal_def k_def Let_def)
    have "decimal_text (take (length ds - k) ds) (drop (length ds - k) ds) = plain_decimal ds e"
      using True k(1) by (auto simp: p decimal_text_def)
    with True k assms show ?thesis
      by (intro exI [of _ "take (length ds - k) ds", OF exI [of _ "drop (length ds - k) ds"]]) simp
  next
    case F: False
    have p: "plain_decimal ds e = [48] @ [46] @ replicate (k - length ds) 48 @ ds"
      using False F by (simp add: plain_decimal_def k_def Let_def)
    have v: "digits_value ([48] @ replicate (k - length ds) 48 @ ds) = digits_value ds"
      by (simp only: digits_value_append digits_value_zeros) (simp add: digits_value_def)
    show ?thesis
    proof (intro exI conjI)
      show "plain_decimal ds e = decimal_text [48] (replicate (k - length ds) 48 @ ds)"
        using assms by (simp add: p decimal_text_def)
      show "list_all is_digit ([48] @ replicate (k - length ds) 48 @ ds)" using assms z by (simp add: list_all_iff ball_Un set_replicate_conv_if)
      show "decimal_ratio (digits_value ([48] @ replicate (k - length ds) 48 @ ds)) (- int (length (replicate (k - length ds) 48 @ ds))) =
          decimal_ratio (digits_value ds) e"
        unfolding v using F k by simp
    qed simp
  qed
qed

text \<open>The bits of a finite number.\<close>

lemma finite_parts:
  assumes "f64_mag w < f64_inf_mag"
  shows "\<exists>sig E. mag_parts (f64_mag w) sig E \<and> nat \<bar>f64_scaled w\<bar> = sig * 2 ^ E"
proof (cases "f64_mag w div 2 ^ 52 = 0")
  case True
  then have "f64_mag w < 2 ^ 52" by (simp only: div_eq_0_iff) simp
  then show ?thesis using True assms
    by - (rule exI [of _ "f64_mag w"], rule exI [of _ 0], simp add: mag_parts_def f64_scaled_def Let_def)
next
  case False
  let ?e = "f64_mag w div 2 ^ 52" and ?f = "f64_mag w mod 2 ^ 52"
  obtain E where E: "?e = Suc E" using False by (cases ?e) auto
  have f: "?f < 2 ^ 52" by simp
  have "f64_mag w = ?e * 2 ^ 52 + ?f" by (rule div_mult_mod_eq [symmetric])
  then have "f64_mag w = E * 2 ^ 52 + (2 ^ 52 + ?f)" unfolding E by (simp only: mult_Suc ac_simps)
  then have "mag_parts (f64_mag w) (2 ^ 52 + ?f) E" using assms f by (simp add: mag_parts_def)
  moreover have "nat \<bar>f64_scaled w\<bar> = (2 ^ 52 + ?f) * 2 ^ E"
    unfolding f64_scaled_def Let_def E by (simp add: nat_mult_distrib nat_add_distrib nat_power_eq)
  ultimately show ?thesis by blast
qed

lemma f64_of_mag_parts: "f64_of_mag (f64_neg_bit w) (f64_mag w) = w"
proof -
  have "unat w < 2 ^ 64" using unsigned_less [of w] by simp
  then have "(if f64_neg_bit w then f64_mag w + 2 ^ 63 else f64_mag w) = unat w"
    unfolding f64_neg_bit_def f64_mag_def by (auto simp: mod_if [of _ "9223372036854775808"] le_mod_geq)
  then show ?thesis unfolding f64_of_mag_def by simp
qed

lemma to_string_decimal:
  assumes "f64_mag w < f64_inf_mag"
  shows "\<exists>whole fr. f64_to_string w = (if f64_neg_bit w then [45] else []) @ decimal_text whole fr \<and> whole \<noteq> [] \<and>
    list_all is_digit (whole @ fr) \<and> decimal_ratio (digits_value (whole @ fr)) (- int (length fr)) = f64_mag w"
proof (cases "f64_mag w = 0")
  case True
  have "f64_of_ratio 0 1 = 0"
    by (simp only: f64_of_ratio_def f64_round_mag_def Let_def mult_0 div_0 mod_0 if_True) (simp add: floorlog_def)
  then have "decimal_ratio (digits_value [48]) 0 = 0" by (simp add: decimal_ratio_def digits_value_def)
  then show ?thesis using True assms
    by - (rule exI [of _ "[48]"], rule exI [of _ "[]"],
        simp add: f64_to_string_def f64_is_nan_def f64_is_inf_def decimal_text_def is_digit_def)
next
  case False
  obtain sig E where p: "mag_parts (f64_mag w) sig E" "nat \<bar>f64_scaled w\<bar> = sig * 2 ^ E"
    using finite_parts [OF assms] by blast
  have pos: "0 < sig * 2 ^ E" using p(1) False by (auto simp: mag_parts_def)
  obtain d0 e0 where d0: "shortest_digits (f64_mag w) (sig * 2 ^ E) 16 1 = (d0, e0)" by fastforce
  obtain d e where d: "strip_zeros d0 e0 = (d, e)" by fastforce
  have "decimal_ratio d0 e0 = f64_mag w"
    using digits_found [OF p(1) pos] by (intro shortest_reads_back [OF _ d0]) simp
  then have "decimal_ratio (digits_value (nat_to_string d)) e = f64_mag w"
    using strip_zeros_value [OF d] nat_to_string_digits [of d] by simp
  moreover have "f64_to_string w = (if f64_neg_bit w then [45] else []) @ plain_decimal (nat_to_string d) e"
    using False assms p(2) d0 d by (simp add: f64_to_string_def f64_is_nan_def f64_is_inf_def)
  ultimately show ?thesis
    using plain_decimal_parts [of "nat_to_string d" e] nat_to_string_digits [of d] by metis
qed

end
