(* ===== verification/Elixir_Lib.thy ===== *)
theory Elixir_Lib
  imports Handlers Replica F64_Text
begin

text \<open>
  What the Elixir code uses of its standard library: the exceptions it can raise, as values, and the functions that read
  numbers from text. Integers are unbounded; a float is a finite binary64 number, so a text that denotes a larger one is
  not a float. \<open>String.upcase\<close> is only used to compare with ASCII words, as is \<open>to_uppercase\<close> of theory \<open>Replica\<close>.
\<close>

datatype elixir_error =
    FunctionClauseError | CaseClauseError | MatchError | ArgumentError | ArithmeticError | NifPanicked

type_synonym 'a elixir = "elixir_error + 'a"

definition and_then :: "'a elixir \<Rightarrow> ('a \<Rightarrow> 'b elixir) \<Rightarrow> 'b elixir" where
  "and_then m f = (case m of Inl e \<Rightarrow> Inl e | Inr a \<Rightarrow> f a)"

lemma and_then_simps [simp]: "and_then (Inl e) f = Inl e" "and_then (Inr a) f = f a"
  by (simp_all add: and_then_def)

lemma and_then_Inr: "and_then m f = Inr b \<longleftrightarrow> (\<exists>a. m = Inr a \<and> f a = Inr b)"
  by (cases m) simp_all

primrec Enum_map :: "('a \<Rightarrow> 'b elixir) \<Rightarrow> 'a list \<Rightarrow> 'b list elixir" where
  "Enum_map f [] = Inr []"
| "Enum_map f (x # xs) = and_then (f x) (\<lambda>y. and_then (Enum_map f xs) (\<lambda>ys. Inr (y # ys)))"

lemma Enum_map_Inr: "(\<And>x. x \<in> set xs \<Longrightarrow> f x = Inr (g x)) \<Longrightarrow> Enum_map f xs = Inr (map g xs)"
  by (induction xs) simp_all

text \<open>\<open>Enum.split\<close>: a negative count counts from the end.\<close>

definition Enum_split :: "'a list \<Rightarrow> int \<Rightarrow> 'a list \<times> 'a list" where
  "Enum_split xs n =
     (let k = (if n < 0 then length xs - nat (- n) else nat n) in (take k xs, drop k xs))"

text \<open>\<open>Enum.uniq\<close> keeps the first of equal elements.\<close>

definition Enum_uniq :: "'a list \<Rightarrow> 'a list" where
  "Enum_uniq xs = rev (remdups (rev xs))"

lemma set_Enum_uniq [simp]: "set (Enum_uniq xs) = set xs"
  by (simp add: Enum_uniq_def)

section \<open>Numbers in texts\<close>

definition split_sign :: "bytes \<Rightarrow> bool \<times> bytes" where
  "split_sign bs = (bs \<noteq> [] \<and> hd bs = 45, if bs \<noteq> [] \<and> (hd bs = 45 \<or> hd bs = 43) then tl bs else bs)"

definition String_to_integer :: "bytes \<Rightarrow> int elixir" where
  "String_to_integer bs =
     (case split_sign bs of
        (neg, ds) \<Rightarrow>
          if ds \<noteq> [] \<and> list_all is_digit ds
          then Inr (if neg then - int (digits_value ds) else int (digits_value ds))
          else Inl ArgumentError)"

definition Integer_parse :: "bytes \<Rightarrow> (int \<times> bytes) option" where
  "Integer_parse bs =
     (case split_sign bs of
        (neg, r) \<Rightarrow>
          let ds = takeWhile is_digit r
          in if ds = [] then None
             else Some (if neg then - int (digits_value ds) else int (digits_value ds), dropWhile is_digit r))"

text \<open>
  \<open>Float.parse\<close> reads the longest prefix that is a decimal number: a sign, digits, a point when a digit follows, an exponent
  when digits follow.
\<close>

definition exponent_prefix :: "bytes \<Rightarrow> int \<times> bytes" where
  "exponent_prefix r =
     (if r \<noteq> [] \<and> (hd r = 101 \<or> hd r = 69) then
        (case split_sign (tl r) of
           (neg, ds) \<Rightarrow>
             if ds \<noteq> [] \<and> is_digit (hd ds)
             then (let n = int (digits_value (takeWhile is_digit ds)) in (if neg then - n else n), dropWhile is_digit ds)
             else (0, r))
      else (0, r))"

definition Float_parse :: "bytes \<Rightarrow> (f64 \<times> bytes) option" where
  "Float_parse bs =
     (case split_sign bs of
        (neg, r) \<Rightarrow>
          let whole = takeWhile is_digit r; r1 = dropWhile is_digit r;
              point = (r1 \<noteq> [] \<and> hd r1 = 46 \<and> tl r1 \<noteq> [] \<and> is_digit (hd (tl r1)));
              fr = (if point then takeWhile is_digit (tl r1) else []);
              r2 = (if point then dropWhile is_digit (tl r1) else r1)
          in if whole = [] then None
             else case exponent_prefix r2 of
                    (e, r3) \<Rightarrow>
                      let mag = decimal_ratio (digits_value (whole @ fr)) (e - int (length fr))
                      in if mag = f64_inf_mag then None else Some (f64_of_mag neg mag, r3))"

text \<open>An integer times \<open>1.0\<close>.\<close>

definition int_to_float :: "int \<Rightarrow> f64 elixir" where
  "int_to_float n =
     (let mag = f64_of_ratio (nat \<bar>n\<bar>) 1
      in if mag = f64_inf_mag then Inl ArithmeticError else Inr (f64_of_mag (n < 0) mag))"

section \<open>Reading back what Rust prints\<close>

lemma takeWhile_digits:
  assumes "list_all is_digit ds"
  shows "takeWhile is_digit (ds @ 46 # r) = ds" "dropWhile is_digit (ds @ 46 # r) = 46 # r"
    "takeWhile is_digit ds = ds" "dropWhile is_digit ds = []"
proof -
  have "\<not> is_digit 46" by (simp add: is_digit_def)
  then show "takeWhile is_digit (ds @ 46 # r) = ds" "dropWhile is_digit (ds @ 46 # r) = 46 # r"
    "takeWhile is_digit ds = ds" "dropWhile is_digit ds = []"
    using assms by (simp_all add: list_all_iff takeWhile_append dropWhile_append)
qed

lemma split_sign_digit: "r \<noteq> [] \<Longrightarrow> is_digit (hd r) \<Longrightarrow> split_sign ((if neg then [45] else []) @ r) = (neg, r)"
  by (cases r) (auto simp: split_sign_def is_digit_def)

lemma Float_parse_to_string:
  assumes "f64_mag w < f64_inf_mag"
  shows "Float_parse (f64_to_string w) = Some (w, [])"
proof -
  obtain whole fr where t: "f64_to_string w = (if f64_neg_bit w then [45] else []) @ decimal_text whole fr" "whole \<noteq> []"
    and d: "list_all is_digit (whole @ fr)" "decimal_ratio (digits_value (whole @ fr)) (- int (length fr)) = f64_mag w"
    using to_string_decimal [OF assms] by blast
  have dw: "list_all is_digit whole" "list_all is_digit fr" using d(1) by simp_all
  have "is_digit (hd (decimal_text whole fr))" "decimal_text whole fr \<noteq> []"
    using t(2) dw by (auto simp: decimal_text_def list_all_iff)
  then have s: "split_sign (f64_to_string w) = (f64_neg_bit w, decimal_text whole fr)"
    unfolding t(1) by (intro split_sign_digit)
  show ?thesis
  proof (cases "fr = []")
    case True
    then show ?thesis
      using t(2) dw d(2) assms
      by (simp add: Float_parse_def s decimal_text_def takeWhile_digits [OF dw(1)] exponent_prefix_def f64_of_mag_parts)
  next
    case False
    then have "is_digit (hd fr)" using dw(2) by (cases fr) simp_all
    with False show ?thesis
      using t(2) dw d(2) assms
      by (simp only: Float_parse_def s decimal_text_def prod.case Let_def if_False takeWhile_digits [OF dw(1)])
        (simp add: takeWhile_digits [OF dw(2)] exponent_prefix_def f64_of_mag_parts)
  qed
qed

lemma String_to_integer_nat: "String_to_integer (nat_to_string n) = Inr (int n)"
proof -
  have n: "list_all is_digit (nat_to_string n)" "digits_value (nat_to_string n) = n" "nat_to_string n \<noteq> []"
    using nat_to_string_digits by blast+
  then have "is_digit (hd (nat_to_string n))" by (simp add: list_all_iff)
  then show ?thesis using n split_sign_digit [of "nat_to_string n" False] by (simp add: String_to_integer_def)
qed

end
