(* ===== verification/Command_Parser.thy ===== *)
theory Command_Parser
  imports Elixir_Lib
begin

text \<open>
  src/lib/veidrodelis/redis\_stream/command\_parser.ex: a command of the replication stream, a list of binaries, becomes the
  tuple the storage NIF takes, with the keys it is about; a command it does not know, or with other arguments, becomes
  \<open>{:generic, args}\<close>, which the storage never sees. \<open>String.slice(s, 1..-1)\<close> drops the first grapheme, which depends on the
  tables of Unicode: it is the argument \<open>G\<close>.
\<close>

section \<open>Terms\<close>

type_synonym parsed_command = "eterm \<times> bytes list"

abbreviation cmd :: "atom \<Rightarrow> eterm list \<Rightarrow> eterm" where
  "cmd name args \<equiv> E_tuple (E_atom name # args)"

definition binaries :: "bytes list \<Rightarrow> eterm" where
  "binaries bs = E_list (map E_bin bs)"

definition pairs_term :: "(bytes \<times> bytes) list \<Rightarrow> eterm" where
  "pairs_term ps = E_list (map (\<lambda>(a, b). E_tuple [E_bin a, E_bin b]) ps)"

definition bool_term :: "bool \<Rightarrow> eterm" where
  "bool_term b = E_atom (if b then ''true'' else ''false'')"

abbreviation ok :: "eterm \<Rightarrow> bytes list \<Rightarrow> parsed_command elixir" where
  "ok command ks \<equiv> Inr (command, ks)"

definition generic :: "bytes list \<Rightarrow> parsed_command elixir" where
  "generic args = ok (cmd ''generic'' [binaries args]) []"

section \<open>Arguments\<close>

text \<open>A \<open>case String.upcase(arg)\<close> without a default.\<close>

definition upcase_case :: "bytes \<Rightarrow> (string \<times> atom) list \<Rightarrow> atom elixir" where
  "upcase_case arg clauses =
     (case map_of (map (map_prod ascii id) clauses) (to_uppercase arg) of
        None \<Rightarrow> Inl CaseClauseError | Some a \<Rightarrow> Inr a)"

fun parse_pairs :: "bytes list \<Rightarrow> (bytes \<times> bytes) list elixir" where
  "parse_pairs [] = Inr []"
| "parse_pairs (k # v # rest) = and_then (parse_pairs rest) (\<lambda>ps. Inr ((k, v) # ps))"
| "parse_pairs [k] = Inl FunctionClauseError"

definition parse_float :: "bytes \<Rightarrow> eterm elixir" where
  "parse_float bin =
     (if bin = ascii ''inf'' \<or> bin = ascii ''+inf'' then Inr (E_atom ''pos_inf'')
      else if bin = ascii ''-inf'' then Inr (E_atom ''neg_inf'')
      else if bin = ascii ''nan'' then Inr (E_atom ''nan'')
      else case Float_parse bin of
             Some (x, _) \<Rightarrow> Inr (E_float x)
           | None \<Rightarrow>
               (case Integer_parse bin of
                  Some (n, _) \<Rightarrow> and_then (int_to_float n) (\<lambda>x. Inr (E_float x))
                | None \<Rightarrow> Inr (E_float f64_zero)))"

definition zadd_words :: "(bytes \<times> atom) list" where
  "zadd_words =
     [(ascii ''NX'', ''nx''), (ascii ''XX'', ''xx''), (ascii ''GT'', ''gt''), (ascii ''LT'', ''lt''), (ascii ''CH'', ''ch''),
      (ascii ''INCR'', ''incr'')]"

fun extract_zadd_options :: "bytes list \<Rightarrow> atom list \<times> bytes list" where
  "extract_zadd_options [] = ([], [])"
| "extract_zadd_options (arg # rest) =
     (case map_of zadd_words (to_uppercase arg) of
        Some a \<Rightarrow> map_prod ((#) a) id (extract_zadd_options rest)
      | None \<Rightarrow> ([], arg # rest))"

fun parse_score_member_pairs :: "bytes list \<Rightarrow> eterm list elixir" where
  "parse_score_member_pairs [] = Inr []"
| "parse_score_member_pairs (score_str # member # rest) =
     and_then (parse_float score_str) (\<lambda>score.
       and_then (parse_score_member_pairs rest) (\<lambda>ps. Inr (E_tuple [score, E_bin member] # ps)))"
| "parse_score_member_pairs [score_str] = Inl FunctionClauseError"

definition parse_zadd_args :: "bytes list \<Rightarrow> (atom list \<times> eterm list) elixir" where
  "parse_zadd_args args =
     (case extract_zadd_options args of
        (options, rest) \<Rightarrow> and_then (parse_score_member_pairs rest) (\<lambda>members. Inr (options, members)))"

definition parse_zstore_command :: "bytes \<Rightarrow> bytes list \<Rightarrow> atom \<Rightarrow> parsed_command elixir" where
  "parse_zstore_command dest_key args name =
     (let stop = (\<lambda>w. w \<noteq> ascii ''WEIGHTS'' \<and> w \<noteq> ascii ''AGGREGATE'');
          source_keys = takeWhile stop args; rest = dropWhile stop args;
          weighted = (rest \<noteq> [] \<and> hd rest = ascii ''WEIGHTS'');
          weight_strs = takeWhile (\<lambda>w. w \<noteq> ascii ''AGGREGATE'') (tl rest);
          rest2 = (if weighted then dropWhile (\<lambda>w. w \<noteq> ascii ''AGGREGATE'') (tl rest) else rest)
      in and_then (if weighted then Enum_map parse_float weight_strs else Inr (map (\<lambda>_. E_float f64_one) source_keys))
           (\<lambda>weights.
              and_then
                (case rest2 of
                   a # agg_str # _ \<Rightarrow>
                     if a = ascii ''AGGREGATE''
                     then upcase_case agg_str [(''SUM'', ''sum''), (''MIN'', ''min''), (''MAX'', ''max'')]
                     else Inr ''sum''
                 | _ \<Rightarrow> Inr ''sum'')
                (\<lambda>aggregate.
                   ok (cmd name [E_bin dest_key, binaries source_keys, E_list weights, E_atom aggregate])
                     (dest_key # source_keys))))"

fun extract_hsetex_options :: "bytes list \<Rightarrow> atom \<Rightarrow> atom \<times> bytes list" where
  "extract_hsetex_options [] mode = (mode, [])"
| "extract_hsetex_options (arg # rest) mode =
     (let word = to_uppercase arg
      in if word = ascii ''FNX'' then extract_hsetex_options rest ''nx''
         else if word = ascii ''FXX'' then extract_hsetex_options rest ''xx''
         else if word = ascii ''NX'' \<or> word = ascii ''XX'' \<or> word = ascii ''KEEPTTL'' then extract_hsetex_options rest mode
         else if word = ascii ''PXAT'' then extract_hsetex_options (drop 1 rest) mode
         else (mode, arg # rest))"

definition parse_hsetex :: "bytes \<Rightarrow> bytes list \<Rightarrow> parsed_command elixir" where
  "parse_hsetex key args =
     (case extract_hsetex_options args ''nil'' of
        (mode, rest) \<Rightarrow>
          (case rest of
             w # numfields # field_value_args \<Rightarrow>
               (if w = ascii ''FIELDS''
                then and_then (parse_pairs field_value_args)
                       (\<lambda>fields. ok (cmd ''hsetex'' [E_bin key, E_atom mode, pairs_term fields]) [key])
                else generic (ascii ''HSETEX'' # key # args))
           | _ \<Rightarrow> generic (ascii ''HSETEX'' # key # args)))"

fun extract_hexpire_condition :: "bytes list \<Rightarrow> atom \<times> bytes list" where
  "extract_hexpire_condition [] = (''nil'', [])"
| "extract_hexpire_condition (arg # rest) =
     (let word = to_uppercase arg
      in if word = ascii ''NX'' then (''nx'', rest)
         else if word = ascii ''XX'' then (''xx'', rest)
         else if word = ascii ''GT'' then (''gt'', rest)
         else if word = ascii ''LT'' then (''lt'', rest)
         else (''nil'', arg # rest))"

definition extract_hexpire_fields :: "bytes list \<Rightarrow> bytes list" where
  "extract_hexpire_fields args =
     (case args of w # numfields # field_list \<Rightarrow> if w = ascii ''FIELDS'' then field_list else [] | _ \<Rightarrow> [])"

definition parse_hexpire_args :: "bytes list \<Rightarrow> atom \<times> bytes list" where
  "parse_hexpire_args args =
     (case extract_hexpire_condition args of (condition, rest) \<Rightarrow> (condition, extract_hexpire_fields rest))"

definition parse_score_to_float :: "bytes \<Rightarrow> eterm elixir" where
  "parse_score_to_float str =
     (if str = ascii ''-inf'' then Inr (E_atom ''neg_infinity'')
      else if str = ascii ''+inf'' \<or> str = ascii ''inf'' then Inr (E_atom ''infinity'')
      else case Float_parse str of
             Some (x, _) \<Rightarrow> Inr (E_float x)
           | None \<Rightarrow> and_then (String_to_integer str) (\<lambda>n. and_then (int_to_float n) (\<lambda>x. Inr (E_float x))))"

definition parse_score_bound :: "(bytes \<Rightarrow> bytes) \<Rightarrow> bytes \<Rightarrow> eterm elixir" where
  "parse_score_bound G str =
     (if take 1 str = ascii ''('' then
        and_then (parse_score_to_float (G str)) (\<lambda>score. Inr (E_tuple [E_atom ''excluded'', score]))
      else
        and_then (parse_score_to_float str) (\<lambda>score.
          Inr (if score = E_atom ''neg_infinity'' \<or> score = E_atom ''infinity'' then E_atom ''unbounded''
               else E_tuple [E_atom ''included'', score])))"

definition parse_lex_bound :: "(bytes \<Rightarrow> bytes) \<Rightarrow> bytes \<Rightarrow> eterm" where
  "parse_lex_bound G str =
     (if str = ascii ''-'' \<or> str = ascii ''+'' then E_atom ''unbounded''
      else if take 1 str = ascii ''['' then E_tuple [E_atom ''included'', E_bin (G str)]
      else if take 1 str = ascii ''('' then E_tuple [E_atom ''excluded'', E_bin (G str)]
      else E_tuple [E_atom ''included'', E_bin str])"

section \<open>Commands\<close>

definition parse_named :: "(bytes \<Rightarrow> bytes) \<Rightarrow> bytes \<Rightarrow> bytes list \<Rightarrow> parsed_command elixir" where
  "parse_named G name rest =
     (if name = ascii ''SET'' then
        (case rest of
           key # v # options \<Rightarrow> ok (cmd ''set'' [E_bin key, E_bin v]) [key]
         | _ \<Rightarrow> generic (name # rest))
      else if name = ascii ''MSET'' then
        and_then (parse_pairs rest) (\<lambda>pairs. ok (cmd ''mset'' [pairs_term pairs]) (map fst pairs))
      else if name = ascii ''MSETEX'' then
        (case rest of
           numkeys # args \<Rightarrow>
             and_then (String_to_integer numkeys) (\<lambda>n. and_then (parse_pairs (fst (Enum_split args (n * 2))))
               (\<lambda>pairs. ok (cmd ''msetex'' [pairs_term pairs]) (map fst pairs)))
         | _ \<Rightarrow> generic (name # rest))
      else if name = ascii ''APPEND'' then
        (case rest of
           [key, v] \<Rightarrow> ok (cmd ''append'' [E_bin key, E_bin v]) [key]
         | _ \<Rightarrow> generic (name # rest))
      else if name = ascii ''SETRANGE'' then
        (case rest of
           [key, offset, v] \<Rightarrow>
             and_then (String_to_integer offset) (\<lambda>n. ok (cmd ''setrange'' [E_bin key, E_int n, E_bin v]) [key])
         | _ \<Rightarrow> generic (name # rest))
      else if name = ascii ''SETBIT'' then
        (case rest of
           [key, offset, v] \<Rightarrow>
             and_then (String_to_integer v) (\<lambda>b. and_then (String_to_integer offset)
               (\<lambda>n. ok (cmd ''setbit'' [E_bin key, E_int n, E_int b]) [key]))
         | _ \<Rightarrow> generic (name # rest))
      else if name = ascii ''INCR'' then
        (case rest of
           [key] \<Rightarrow> ok (cmd ''incr'' [E_bin key]) [key]
         | _ \<Rightarrow> generic (name # rest))
      else if name = ascii ''INCRBY'' then
        (case rest of
           [key, increment] \<Rightarrow>
             and_then (String_to_integer increment) (\<lambda>n. ok (cmd ''incrby'' [E_bin key, E_int n]) [key])
         | _ \<Rightarrow> generic (name # rest))
      else if name = ascii ''DECR'' then
        (case rest of
           [key] \<Rightarrow> ok (cmd ''decr'' [E_bin key]) [key]
         | _ \<Rightarrow> generic (name # rest))
      else if name = ascii ''DECRBY'' then
        (case rest of
           [key, decrement] \<Rightarrow>
             and_then (String_to_integer decrement) (\<lambda>n. ok (cmd ''decrby'' [E_bin key, E_int n]) [key])
         | _ \<Rightarrow> generic (name # rest))
      else if name = ascii ''SETNX'' then
        (case rest of
           [key, v] \<Rightarrow> ok (cmd ''setnx'' [E_bin key, E_bin v]) [key]
         | _ \<Rightarrow> generic (name # rest))
      else if name = ascii ''MSETNX'' then
        and_then (parse_pairs rest) (\<lambda>pairs. ok (cmd ''msetnx'' [pairs_term pairs]) (map fst pairs))
      else if name = ascii ''LPUSH'' then
        (case rest of
           key # vs \<Rightarrow> ok (cmd ''lpush'' [E_bin key, binaries vs]) [key]
         | _ \<Rightarrow> generic (name # rest))
      else if name = ascii ''RPUSH'' then
        (case rest of
           key # vs \<Rightarrow> ok (cmd ''rpush'' [E_bin key, binaries vs]) [key]
         | _ \<Rightarrow> generic (name # rest))
      else if name = ascii ''LPUSHX'' then
        (case rest of
           key # vs \<Rightarrow> ok (cmd ''lpushx'' [E_bin key, binaries vs]) [key]
         | _ \<Rightarrow> generic (name # rest))
      else if name = ascii ''RPUSHX'' then
        (case rest of
           key # vs \<Rightarrow> ok (cmd ''rpushx'' [E_bin key, binaries vs]) [key]
         | _ \<Rightarrow> generic (name # rest))
      else if name = ascii ''LPOP'' then
        (case rest of
           [key] \<Rightarrow> ok (cmd ''lpop'' [E_bin key]) [key]
         | [key, count] \<Rightarrow>
             and_then (String_to_integer count) (\<lambda>n. ok (cmd ''lpop_count'' [E_bin key, E_int n]) [key])
         | _ \<Rightarrow> generic (name # rest))
      else if name = ascii ''RPOP'' then
        (case rest of
           [key] \<Rightarrow> ok (cmd ''rpop'' [E_bin key]) [key]
         | [key, count] \<Rightarrow>
             and_then (String_to_integer count) (\<lambda>n. ok (cmd ''rpop_count'' [E_bin key, E_int n]) [key])
         | _ \<Rightarrow> generic (name # rest))
      else if name = ascii ''LREM'' then
        (case rest of
           [key, count, v] \<Rightarrow>
             and_then (String_to_integer count) (\<lambda>n. ok (cmd ''lrem'' [E_bin key, E_int n, E_bin v]) [key])
         | _ \<Rightarrow> generic (name # rest))
      else if name = ascii ''LTRIM'' then
        (case rest of
           [key, start, stop] \<Rightarrow>
             and_then (String_to_integer start) (\<lambda>a. and_then (String_to_integer stop)
               (\<lambda>b. ok (cmd ''ltrim'' [E_bin key, E_int a, E_int b]) [key]))
         | _ \<Rightarrow> generic (name # rest))
      else if name = ascii ''LSET'' then
        (case rest of
           [key, idx, v] \<Rightarrow>
             and_then (String_to_integer idx) (\<lambda>n. ok (cmd ''lset'' [E_bin key, E_int n, E_bin v]) [key])
         | _ \<Rightarrow> generic (name # rest))
      else if name = ascii ''LINSERT'' then
        (case rest of
           [key, before_after, pivot, element] \<Rightarrow>
             and_then (upcase_case before_after [(''BEFORE'', ''before''), (''AFTER'', ''after'')])
               (\<lambda>ba. ok (cmd ''linsert'' [E_bin key, E_atom ba, E_bin pivot, E_bin element]) [key])
         | _ \<Rightarrow> generic (name # rest))
      else if name = ascii ''RPOPLPUSH'' then
        (case rest of
           [source, destination] \<Rightarrow>
             ok (cmd ''rpoplpush'' [E_bin source, E_bin destination]) [source, destination]
         | _ \<Rightarrow> generic (name # rest))
      else if name = ascii ''LMOVE'' then
        (case rest of
           [source_key, dest_key, wherefrom, whereto] \<Rightarrow>
             and_then (upcase_case wherefrom [(''LEFT'', ''left''), (''RIGHT'', ''right'')])
               (\<lambda>a. and_then (upcase_case whereto [(''LEFT'', ''left''), (''RIGHT'', ''right'')])
                 (\<lambda>b. ok (cmd ''lmove'' [E_bin source_key, E_bin dest_key, E_atom a, E_atom b]) [source_key, dest_key]))
         | _ \<Rightarrow> generic (name # rest))
      else if name = ascii ''SADD'' then
        (case rest of
           key # members \<Rightarrow> ok (cmd ''sadd'' [E_bin key, binaries members]) [key]
         | _ \<Rightarrow> generic (name # rest))
      else if name = ascii ''SREM'' then
        (case rest of
           key # members \<Rightarrow> ok (cmd ''srem'' [E_bin key, binaries members]) [key]
         | _ \<Rightarrow> generic (name # rest))
      else if name = ascii ''SMOVE'' then
        (case rest of
           [source_key, dest_key, member] \<Rightarrow>
             ok (cmd ''smove'' [E_bin source_key, E_bin dest_key, E_bin member]) [source_key, dest_key]
         | _ \<Rightarrow> generic (name # rest))
      else if name = ascii ''SINTERSTORE'' then
        (case rest of
           dest_key # source_keys \<Rightarrow>
             ok (cmd ''sinterstore'' [E_bin dest_key, binaries source_keys]) (dest_key # source_keys)
         | _ \<Rightarrow> generic (name # rest))
      else if name = ascii ''SUNIONSTORE'' then
        (case rest of
           dest_key # source_keys \<Rightarrow>
             ok (cmd ''sunionstore'' [E_bin dest_key, binaries source_keys]) (dest_key # source_keys)
         | _ \<Rightarrow> generic (name # rest))
      else if name = ascii ''SDIFFSTORE'' then
        (case rest of
           dest_key # source_keys \<Rightarrow>
             ok (cmd ''sdiffstore'' [E_bin dest_key, binaries source_keys]) (dest_key # source_keys)
         | _ \<Rightarrow> generic (name # rest))
      else if name = ascii ''ZADD'' then
        (case rest of
           key # args \<Rightarrow>
             and_then (parse_zadd_args args) (\<lambda>(options, members).
               ok (cmd ''zadd'' [E_bin key, E_list members, E_list (map E_atom options)]) [key])
         | _ \<Rightarrow> generic (name # rest))
      else if name = ascii ''ZINCRBY'' then
        (case rest of
           [key, increment, member] \<Rightarrow>
             and_then (parse_float increment) (\<lambda>d. ok (cmd ''zincrby'' [E_bin key, d, E_bin member]) [key])
         | _ \<Rightarrow> generic (name # rest))
      else if name = ascii ''ZREM'' then
        (case rest of
           key # members \<Rightarrow> ok (cmd ''zrem'' [E_bin key, binaries members]) [key]
         | _ \<Rightarrow> generic (name # rest))
      else if name = ascii ''ZPOPMAX'' then
        (case rest of
           [key] \<Rightarrow> ok (cmd ''zpopmax'' [E_bin key, E_int 1]) [key]
         | [key, count] \<Rightarrow>
             and_then (String_to_integer count) (\<lambda>n. ok (cmd ''zpopmax'' [E_bin key, E_int n]) [key])
         | _ \<Rightarrow> generic (name # rest))
      else if name = ascii ''ZPOPMIN'' then
        (case rest of
           [key] \<Rightarrow> ok (cmd ''zpopmin'' [E_bin key, E_int 1]) [key]
         | [key, count] \<Rightarrow>
             and_then (String_to_integer count) (\<lambda>n. ok (cmd ''zpopmin'' [E_bin key, E_int n]) [key])
         | _ \<Rightarrow> generic (name # rest))
      else if name = ascii ''ZREMRANGEBYRANK'' then
        (case rest of
           [key, start, stop] \<Rightarrow>
             and_then (String_to_integer start) (\<lambda>a. and_then (String_to_integer stop)
               (\<lambda>b. ok (cmd ''zremrangebyrank'' [E_bin key, E_int a, E_int b]) [key]))
         | _ \<Rightarrow> generic (name # rest))
      else if name = ascii ''ZREMRANGEBYSCORE'' then
        (case rest of
           [key, min_str, max_str] \<Rightarrow>
             and_then (parse_score_bound G min_str) (\<lambda>a. and_then (parse_score_bound G max_str)
               (\<lambda>b. ok (cmd ''zremrangebyscore'' [E_bin key, a, b]) [key]))
         | _ \<Rightarrow> generic (name # rest))
      else if name = ascii ''ZREMRANGEBYLEX'' then
        (case rest of
           [key, min_str, max_str] \<Rightarrow>
             ok (cmd ''zremrangebylex'' [E_bin key, parse_lex_bound G min_str, parse_lex_bound G max_str]) [key]
         | _ \<Rightarrow> generic (name # rest))
      else if name = ascii ''ZRANGESTORE'' then
        (case rest of
           dest_key # source_key # min_str # max_str # options \<Rightarrow>
             ok (cmd ''zrangestore'' [E_bin dest_key, E_bin source_key, E_bin min_str, E_bin max_str, binaries (map to_uppercase options)])
               [dest_key, source_key]
         | _ \<Rightarrow> generic (name # rest))
      else if name = ascii ''ZUNIONSTORE'' then
        (case rest of
           destination # numkeys # args \<Rightarrow> parse_zstore_command destination args ''zunionstore''
         | _ \<Rightarrow> generic (name # rest))
      else if name = ascii ''ZINTERSTORE'' then
        (case rest of
           destination # numkeys # args \<Rightarrow> parse_zstore_command destination args ''zinterstore''
         | _ \<Rightarrow> generic (name # rest))
      else if name = ascii ''ZDIFFSTORE'' then
        (case rest of
           dest_key # numkeys # source_keys \<Rightarrow>
             ok (cmd ''zdiffstore'' [E_bin dest_key, binaries source_keys]) (dest_key # source_keys)
         | _ \<Rightarrow> generic (name # rest))
      else if name = ascii ''HSET'' then
        (case rest of
           key # args \<Rightarrow>
             and_then (parse_pairs args) (\<lambda>fields. ok (cmd ''hmset'' [E_bin key, pairs_term fields]) [key])
         | _ \<Rightarrow> generic (name # rest))
      else if name = ascii ''HMSET'' then
        (case rest of
           key # args \<Rightarrow>
             and_then (parse_pairs args) (\<lambda>fields. ok (cmd ''hmset'' [E_bin key, pairs_term fields]) [key])
         | _ \<Rightarrow> generic (name # rest))
      else if name = ascii ''HSETNX'' then
        (case rest of
           [key, field, v] \<Rightarrow> ok (cmd ''hsetnx'' [E_bin key, E_bin field, E_bin v]) [key]
         | _ \<Rightarrow> generic (name # rest))
      else if name = ascii ''HINCRBY'' then
        (case rest of
           [key, field, increment] \<Rightarrow>
             and_then (String_to_integer increment) (\<lambda>n. ok (cmd ''hincrby'' [E_bin key, E_bin field, E_int n]) [key])
         | _ \<Rightarrow> generic (name # rest))
      else if name = ascii ''HDEL'' then
        (case rest of
           key # field_list \<Rightarrow> ok (cmd ''hdel'' [E_bin key, binaries field_list]) [key]
         | _ \<Rightarrow> generic (name # rest))
      else if name = ascii ''HGETDEL'' then
        (case rest of
           key # args \<Rightarrow> ok (cmd ''hgetdel'' [E_bin key, binaries (extract_hexpire_fields args)]) [key]
         | _ \<Rightarrow> generic (name # rest))
      else if name = ascii ''HPEXPIREAT'' then
        (case rest of
           key # timestamp_ms # args \<Rightarrow>
             (case parse_hexpire_args args of (condition, field_list) \<Rightarrow>
               and_then (String_to_integer timestamp_ms)
                 (\<lambda>n. ok (cmd ''hpexpireat'' [E_bin key, E_int n, E_atom condition, binaries field_list]) [key]))
         | _ \<Rightarrow> generic (name # rest))
      else if name = ascii ''HPERSIST'' then
        (case rest of
           key # args \<Rightarrow> ok (cmd ''hpersist'' [E_bin key, binaries (snd (parse_hexpire_args args))]) [key]
         | _ \<Rightarrow> generic (name # rest))
      else if name = ascii ''HSETEX'' then
        (case rest of
           key # args \<Rightarrow> parse_hsetex key args
         | _ \<Rightarrow> generic (name # rest))
      else if name = ascii ''DEL'' then
        ok (cmd ''del'' [binaries rest]) rest
      else if name = ascii ''UNLINK'' then
        ok (cmd ''del'' [binaries rest]) rest
      else if name = ascii ''COPY'' then
        (case rest of
           source # destination # options \<Rightarrow>
             ok (cmd ''copy'' [E_bin source, E_bin destination, bool_term (ascii ''REPLACE'' \<in> set (map to_uppercase options))])
               [source, destination]
         | _ \<Rightarrow> generic (name # rest))
      else if name = ascii ''RENAME'' then
        (case rest of
           [old_key, new_key] \<Rightarrow> ok (cmd ''rename'' [E_bin old_key, E_bin new_key]) [old_key, new_key]
         | _ \<Rightarrow> generic (name # rest))
      else if name = ascii ''RENAMENX'' then
        (case rest of
           [old_key, new_key] \<Rightarrow> ok (cmd ''renamenx'' [E_bin old_key, E_bin new_key]) [old_key, new_key]
         | _ \<Rightarrow> generic (name # rest))
      else if name = ascii ''MOVE'' then
        (case rest of
           [key, target_db] \<Rightarrow>
             and_then (String_to_integer target_db) (\<lambda>n. ok (cmd ''move_key'' [E_bin key, E_int n]) [key])
         | _ \<Rightarrow> generic (name # rest))
      else if name = ascii ''PEXPIREAT'' then
        (case rest of
           [key, timestamp_ms] \<Rightarrow>
             and_then (String_to_integer timestamp_ms) (\<lambda>n. ok (cmd ''pexpireat'' [E_bin key, E_int n]) [key])
         | _ \<Rightarrow> generic (name # rest))
      else if name = ascii ''PERSIST'' then
        (case rest of
           [key] \<Rightarrow> ok (cmd ''persist'' [E_bin key]) [key]
         | _ \<Rightarrow> generic (name # rest))
      else if name = ascii ''FLUSHALL'' then
        ok (cmd ''flushall'' []) []
      else if name = ascii ''FLUSHDB'' then
        ok (cmd ''flushdb'' []) []
      else if name = ascii ''SWAPDB'' then
        (case rest of
           [db1, db2] \<Rightarrow>
             and_then (String_to_integer db1) (\<lambda>a. and_then (String_to_integer db2)
               (\<lambda>b. ok (cmd ''swapdb'' [E_int a, E_int b]) []))
         | _ \<Rightarrow> generic (name # rest))
      else generic (name # rest))"

definition parse :: "(bytes \<Rightarrow> bytes) \<Rightarrow> bytes list \<Rightarrow> parsed_command elixir" where
  "parse G args = (case args of [] \<Rightarrow> generic [] | name # rest \<Rightarrow> parse_named G name rest)"

section \<open>The storage decodes what the parser builds\<close>

text \<open>What \<open>rustler\<close> documents of the decoding of terms.\<close>

locale term_codec = rustler_codec D
  for D :: "eterm rustler" +
  assumes get_tuple_tuple [simp]: "get_tuple D (E_tuple ts) = Some ts"
    and dec_atom_atom [simp]: "dec_atom D (E_atom a) = Some a"
    and dec_atom_float [simp]: "dec_atom D (E_float x) = None"
    and dec_atom_tuple [simp]: "dec_atom D (E_tuple ts) = None"
    and dec_f64_float [simp]: "dec_f64 D (E_float x) = Some x"
    and dec_binary_bin [simp]: "dec_binary D (E_bin b) = Some b"
    and dec_binaries_list [simp]: "dec_binaries D (E_list (map E_bin bs)) = Some bs"
    and dec_pairs_list [simp]: "dec_pairs D (E_list (map (\<lambda>(a, b). E_tuple [E_bin a, E_bin b]) ps)) = Some ps"
    and dec_terms_list [simp]: "dec_terms D (E_list ts) = Some ts"
    and dec_term_binary_pair [simp]: "dec_term_binary D (E_tuple [t, E_bin b]) = Some (t, b)"
    and dec_atoms_list [simp]: "dec_atoms D (E_list (map E_atom as)) = Some as"
    and dec_u64_int [simp]: "0 \<le> n \<Longrightarrow> n < 2 ^ 64 \<Longrightarrow> dec_u64 D (E_int n) = Some (word_of_int n)"
    and dec_u64_decoded: "dec_u64 D (E_int n) = Some w \<Longrightarrow> 0 \<le> n \<and> n < 2 ^ 64 \<and> w = word_of_int n"
    and dec_usize_int [simp]: "0 \<le> n \<Longrightarrow> n < 2 ^ 64 \<Longrightarrow> dec_usize D (E_int n) = Some (nat n)"
    and dec_i64_int [simp]: "i64_range n \<Longrightarrow> dec_i64 D (E_int n) = Some n"
    and dec_bool_true [simp]: "dec_bool D (E_atom ''true'') = Some True"
    and dec_bool_false [simp]: "dec_bool D (E_atom ''false'') = Some False"
begin

lemma dec_binaries_term [simp]: "dec_binaries D (binaries bs) = Some bs"
  by (simp add: binaries_def)

lemma dec_pairs_term [simp]: "dec_pairs D (pairs_term ps) = Some ps"
  by (simp add: pairs_term_def)

lemma dec_bool_term [simp]: "dec_bool D (bool_term b) = Some b"
  by (simp add: bool_term_def)

lemma decode_tuple:
  "0 \<le> db \<Longrightarrow> db < 2 ^ 64 \<Longrightarrow>
     decode_term D (E_tuple [E_int db, cmd name args]) = map_sum id (Pair (word_of_int db)) (decode_command D name args)"
  by (simp add: decode_term_def)

end

lemma those_map_Some: "those (map (\<lambda>x. Some (f x)) xs) = Some (map f xs)"
  by (induction xs) simp_all

interpretation erlang_terms: term_codec erlang
proof unfold_locales
  show "dec_binaries erlang (E_list (map E_bin bs)) = Some bs" for bs
    using those_map_Some [of "\<lambda>b. b" bs] by (simp add: erlang_defs comp_def)
  show "dec_pairs erlang (E_list (map (\<lambda>(a, b). E_tuple [E_bin a, E_bin b]) ps)) = Some ps" for ps
    using those_map_Some [of "\<lambda>p. p" ps] by (simp add: erlang_defs comp_def case_prod_unfold)
  show "dec_terms erlang (E_list ts) = Some ts" for ts
    using those_map_Some [of "\<lambda>t. t" ts] by (simp add: erlang_defs)
  show "dec_atoms erlang (E_list (map E_atom as)) = Some as" for as
    using those_map_Some [of "\<lambda>a. a" as] by (simp add: erlang_defs comp_def)
  show "0 \<le> n \<and> n < 2 ^ 64 \<and> w = word_of_int n" if "dec_u64 erlang (E_int n) = Some w" for n w
    using that by (auto simp: erlang_defs split: if_splits)
qed (simp_all add: erlang_defs)

end
