(* ===== verification/Parsed_Commands.thy ===== *)
theory Parsed_Commands
  imports Command_Parser
begin

text \<open>
  What holds of every command the parser returns. \<open>yields P r\<close> says that a result, unless it is an exception, satisfies
  \<open>P\<close>; the rules \<open>yields_intros\<close> push it through the clauses of the parser.
\<close>

definition yields :: "(eterm \<Rightarrow> bytes list \<Rightarrow> bool) \<Rightarrow> parsed_command elixir \<Rightarrow> bool" where
  "yields P r \<longleftrightarrow> (\<forall>c ks. r = Inr (c, ks) \<longrightarrow> P c ks)"

named_theorems yields_intros \<open>how a property of all parsed commands splits over the clauses\<close>

lemma yields_if [yields_intros]: "yields P x \<Longrightarrow> yields P y \<Longrightarrow> yields P (if b then x else y)"
  by (simp add: yields_def)

lemma yields_list [yields_intros]: "yields P x \<Longrightarrow> (\<And>a as. yields P (f a as)) \<Longrightarrow> yields P (case_list x f xs)"
  by (cases xs) simp_all

lemma yields_and_then [yields_intros]: "(\<And>a. m = Inr a \<Longrightarrow> yields P (f a)) \<Longrightarrow> yields P (and_then m f)"
  by (cases m) (simp_all add: yields_def)

lemma yields_prod [yields_intros]: "(\<And>a b. yields P (f a b)) \<Longrightarrow> yields P (case_prod f p)"
  by (cases p) simp

lemma yields_ok [yields_intros]: "P c ks \<Longrightarrow> yields P (ok c ks)"
  by (simp add: yields_def)

definition calm :: "eterm rustler \<Rightarrow> eterm \<Rightarrow> bytes list \<Rightarrow> bool" where
  "calm D c ks \<longleftrightarrow> (\<exists>name args. c = cmd name args \<and> decode_command D name args \<noteq> Err Panic)"

lemma calm_cmd: "decode_command D name args \<noteq> Err Panic \<Longrightarrow> calm D (cmd name args) ks"
  by (auto simp: calm_def)

lemma zstore_calm:
  "yields (calm D) (parse_zstore_command dest_key args ''zunionstore'')"
  "yields (calm D) (parse_zstore_command dest_key args ''zinterstore'')"
  unfolding parse_zstore_command_def Let_def
  by (intro yields_intros calm_cmd; simp add: decode_command_def args4_def split: option.splits)+

lemma generic_calm [yields_intros]: "yields (calm D) (generic args)"
  unfolding generic_def
  by (intro yields_intros calm_cmd) (simp add: decode_command_def)

lemma hsetex_calm: "yields (calm D) (parse_hsetex key args)"
  unfolding parse_hsetex_def
  by (intro yields_intros calm_cmd) (simp add: decode_command_def args3_def split: option.splits)

lemmas args_defs = args1_def args2_def args3_def args4_def args5_def

lemma named_calm: "yields (calm D) (parse_named G name rest)"
  unfolding parse_named_def
  by (intro yields_intros zstore_calm hsetex_calm calm_cmd)
    (simp_all add: decode_command_def args_defs split: option.splits prod.splits)

text \<open>Decoding a concrete term.\<close>

lemma erlang_fields:
  "dec_i64 erlang t = (case t of E_int n \<Rightarrow> if i64_range n then Some n else None | _ \<Rightarrow> None)"
  "dec_f64 erlang t = (case t of E_float x \<Rightarrow> Some x | _ \<Rightarrow> None)"
  "dec_atom_f64 erlang = e_pair e_atom e_float" "dec_atom_binary erlang = e_pair e_atom e_bin"
  by (simp_all add: erlang_def e_float_def)

lemma erlang_lists: "dec_binaries erlang t = e_seq e_bin t" "dec_atoms erlang t = e_seq e_atom t"
  by (simp_all add: erlang_def)

lemmas decode_erlang = erlang_terms.decode_tuple decode_command_def args_defs erlang_fields e_atom_def e_float_def e_bin_def

end
