(* ===== verification/Watch.thy ===== *)
theory Watch
  imports BTree "HOL-Library.Sublist"
begin

text \<open>
  lib.rs, lines 19 to 145: the prefix watch tree. A radix node keeps the identifiers watching the prefix
  that leads to it and a child per next byte; the tree keeps a root per database. \<open>delete_at\<close> descends
  with an offset into the prefix; the model descends with the remaining bytes. The roots are a \<open>HashMap\<close>
  that is only accessed by key.
\<close>

datatype RadixNode = RadixNode (watchers: "i64 btree_set") (children: "(u8 \<times> RadixNode) list")

definition RadixNode_default :: RadixNode where
  "RadixNode_default = RadixNode [] []"

definition rn_is_empty :: "RadixNode \<Rightarrow> bool" where
  "rn_is_empty node \<longleftrightarrow> watchers node = [] \<and> children node = []"

fun rn_insert :: "bytes \<Rightarrow> i64 \<Rightarrow> RadixNode \<Rightarrow> RadixNode" where
  "rn_insert [] idx (RadixNode w c) = RadixNode (bs_insert idx w) c"
| "rn_insert (b # bs) idx (RadixNode w c) =
     RadixNode w (bm_insert b
       (rn_insert bs idx (case bm_get c b of None \<Rightarrow> RadixNode_default | Some child \<Rightarrow> child)) c)"

fun rn_delete_at :: "bytes \<Rightarrow> i64 \<Rightarrow> RadixNode \<Rightarrow> bool \<times> RadixNode" where
  "rn_delete_at [] idx (RadixNode w c) =
     (let node = RadixNode (bs_remove idx w) c in (rn_is_empty node, node))"
| "rn_delete_at (b # bs) idx (RadixNode w c) =
     (let node =
        (case bm_get c b of
           None \<Rightarrow> RadixNode w c
         | Some child \<Rightarrow>
             (case rn_delete_at bs idx child of
                (True, _) \<Rightarrow> RadixNode w (bm_remove b c)
              | (False, child') \<Rightarrow> RadixNode w (bm_insert b child' c)))
      in (rn_is_empty node, node))"

definition rn_delete :: "bytes \<Rightarrow> i64 \<Rightarrow> RadixNode \<Rightarrow> bool \<times> RadixNode" where
  "rn_delete pfx idx node = (case rn_delete_at pfx idx node of (_, node') \<Rightarrow> (rn_is_empty node', node'))"

text \<open>The walk of \<open>lookup\<close>: every node on the path adds its watchers to \<open>out\<close>.\<close>

fun rn_lookup :: "RadixNode \<Rightarrow> bytes \<Rightarrow> i64 btree_set \<Rightarrow> i64 btree_set" where
  "rn_lookup (RadixNode w c) [] out = bs_extend w out"
| "rn_lookup (RadixNode w c) (b # bs) out =
     (case bm_get c b of
        None \<Rightarrow> bs_extend w out
      | Some child \<Rightarrow> rn_lookup child bs (bs_extend w out))"

record PrefixWatchTree =
  roots :: "(u64, RadixNode) btree_map"

definition watch_prefix_tree_create :: PrefixWatchTree where
  "watch_prefix_tree_create = \<lparr>roots = []\<rparr>"

definition watch_prefix_tree_insert :: "PrefixWatchTree \<Rightarrow> u64 \<Rightarrow> bytes \<Rightarrow> i64 \<Rightarrow> PrefixWatchTree" where
  "watch_prefix_tree_insert tree db pfx idx =
     (let root = (case bm_get (roots tree) db of None \<Rightarrow> RadixNode_default | Some n \<Rightarrow> n)
      in tree\<lparr>roots := bm_insert db (rn_insert pfx idx root) (roots tree)\<rparr>)"

definition watch_prefix_tree_delete :: "PrefixWatchTree \<Rightarrow> u64 \<Rightarrow> bytes \<Rightarrow> i64 \<Rightarrow> PrefixWatchTree" where
  "watch_prefix_tree_delete tree db pfx idx =
     (case bm_get (roots tree) db of
        None \<Rightarrow> tree
      | Some root \<Rightarrow>
          (case rn_delete pfx idx root of
             (True, _) \<Rightarrow> tree\<lparr>roots := bm_remove db (roots tree)\<rparr>
           | (False, root') \<Rightarrow> tree\<lparr>roots := bm_insert db root' (roots tree)\<rparr>))"

definition watch_prefix_tree_lookup :: "PrefixWatchTree \<Rightarrow> u64 \<Rightarrow> bytes \<Rightarrow> i64 list" where
  "watch_prefix_tree_lookup tree db key =
     (case bm_get (roots tree) db of None \<Rightarrow> [] | Some root \<Rightarrow> rn_lookup root key [])"

section \<open>The contract\<close>

text \<open>
  What the tree promises: it holds a set of watches (database, prefix, identifier), and a lookup lists, in
  order and without repetition, the identifiers whose prefix the key starts with.
\<close>

type_synonym watch = "u64 \<times> bytes \<times> i64"

datatype watch_op = Watch u64 bytes i64 | Unwatch u64 bytes i64

fun watch_effect :: "watch_op \<Rightarrow> watch set \<Rightarrow> watch set" where
  "watch_effect (Watch db p i) W = insert (db, p, i) W"
| "watch_effect (Unwatch db p i) W = W - {(db, p, i)}"

definition watchers_of :: "watch set \<Rightarrow> u64 \<Rightarrow> bytes \<Rightarrow> i64 set" where
  "watchers_of W db key = {i. \<exists>p. (db, p, i) \<in> W \<and> prefix p key}"

fun apply_watch ::
  "('t \<Rightarrow> u64 \<Rightarrow> bytes \<Rightarrow> i64 \<Rightarrow> 't) \<Rightarrow> ('t \<Rightarrow> u64 \<Rightarrow> bytes \<Rightarrow> i64 \<Rightarrow> 't) \<Rightarrow> watch_op \<Rightarrow> 't \<Rightarrow> 't" where
  "apply_watch ins del (Watch db p i) t = ins t db p i"
| "apply_watch ins del (Unwatch db p i) t = del t db p i"

locale prefix_watch =
  fixes new :: 't
    and ins :: "'t \<Rightarrow> u64 \<Rightarrow> bytes \<Rightarrow> i64 \<Rightarrow> 't"
    and del :: "'t \<Rightarrow> u64 \<Rightarrow> bytes \<Rightarrow> i64 \<Rightarrow> 't"
    and look :: "'t \<Rightarrow> u64 \<Rightarrow> bytes \<Rightarrow> i64 list"
    and ok :: "'t \<Rightarrow> bool"
    and watches :: "'t \<Rightarrow> watch set"
  assumes ok_new: "ok new" and watches_new: "watches new = {}"
    and ok_ins: "ok t \<Longrightarrow> ok (ins t db p i)"
    and watches_ins: "ok t \<Longrightarrow> watches (ins t db p i) = insert (db, p, i) (watches t)"
    and ok_del: "ok t \<Longrightarrow> ok (del t db p i)"
    and watches_del: "ok t \<Longrightarrow> watches (del t db p i) = watches t - {(db, p, i)}"
    and look_set: "ok t \<Longrightarrow> set (look t db key) = watchers_of (watches t) db key"
    and look_sorted: "ok t \<Longrightarrow> sorted_wrt (<) (look t db key)"
    and empty_new: "ok t \<Longrightarrow> watches t = {} \<Longrightarrow> t = new"
begin

lemma run_watches: "ok t \<Longrightarrow> ok (fold (apply_watch ins del) ops t) \<and>
    watches (fold (apply_watch ins del) ops t) = fold watch_effect ops (watches t)"
proof (induction ops arbitrary: t)
  case (Cons c cs)
  then show ?case by (cases c) (simp_all add: ok_ins ok_del watches_ins watches_del)
qed simp

text \<open>After any history of insertions and deletions, a lookup is the one answer the history determines.\<close>

lemma look_history:
  "set (look (fold (apply_watch ins del) ops new) db key) = watchers_of (fold watch_effect ops {}) db key"
  "sorted_wrt (<) (look (fold (apply_watch ins del) ops new) db key)"
  using run_watches [OF ok_new, of ops] look_set look_sorted by (simp_all add: watches_new)

text \<open>Undoing every watch gives the empty tree back: no node is left behind.\<close>

lemma no_leak: "fold watch_effect ops {} = {} \<Longrightarrow> fold (apply_watch ins del) ops new = new"
  using run_watches [OF ok_new, of ops] empty_new by (simp add: watches_new)

end

section \<open>The radix tree implements it\<close>

text \<open>The identifiers registered at a path, and the shape every reachable node has: sorted, and no child without a watcher below it.\<close>

fun rn_at :: "bytes \<Rightarrow> RadixNode \<Rightarrow> i64 list" where
  "rn_at [] (RadixNode w c) = w"
| "rn_at (b # bs) (RadixNode w c) = (case bm_get c b of None \<Rightarrow> [] | Some child \<Rightarrow> rn_at bs child)"

inductive rn_ok :: "RadixNode \<Rightarrow> bool" where
  "bs_sorted w \<Longrightarrow> bm_sorted c \<Longrightarrow> (\<And>b child. bm_get c b = Some child \<Longrightarrow> rn_ok child) \<Longrightarrow>
     (\<And>b child. bm_get c b = Some child \<Longrightarrow> \<not> rn_is_empty child) \<Longrightarrow> rn_ok (RadixNode w c)"

inductive_simps rn_ok_node: "rn_ok (RadixNode w c)"

lemma rn_at_default [simp]: "rn_at p RadixNode_default = []"
  by (cases p) (simp_all add: RadixNode_default_def)

lemma rn_ok_default [simp]: "rn_ok RadixNode_default"
  by (simp add: RadixNode_default_def rn_ok_node)

lemma rn_at_insert: "set (rn_at p (rn_insert q i t)) = (if p = q then insert i (set (rn_at p t)) else set (rn_at p t))"
proof (induction q arbitrary: p t)
  case Nil
  then show ?case by (cases t; cases p) (simp_all add: set_bs_insert)
next
  case (Cons b bs)
  then show ?case
    by (cases t; cases p) (auto simp: bm_get_insert Cons split: option.split)
qed

lemma rn_insert_nonempty: "\<not> rn_is_empty (rn_insert q i t)"
proof (cases t)
  case (RadixNode w c)
  have "bs_insert i w \<noteq> []" "bm_insert b n c \<noteq> []" for b n
    by (cases w, simp_all) (cases c, simp_all)
  then show ?thesis
    by (cases q) (simp_all add: RadixNode rn_is_empty_def)
qed

lemma rn_ok_insert: "rn_ok t \<Longrightarrow> rn_ok (rn_insert q i t)"
proof (induction q arbitrary: t)
  case Nil
  then show ?case by (cases t) (auto simp: rn_ok_node bs_sorted_insert)
next
  case (Cons b bs)
  then show ?case
    by (cases t)
      (auto simp: rn_ok_node bm_sorted_insert bm_get_insert rn_insert_nonempty split: if_splits option.split)
qed

text \<open>In such a tree only a tree without watchers is empty.\<close>

lemma rn_nonempty_watched: "rn_ok t \<Longrightarrow> \<not> rn_is_empty t \<Longrightarrow> \<exists>p. rn_at p t \<noteq> []"
proof (induction rule: rn_ok.induct)
  case (1 w c)
  show ?case
  proof (cases "w = []")
    case True
    then obtain e c' where "c = e # c'"
      using 1(6) by (cases c) (auto simp: rn_is_empty_def)
    then obtain b child where "bm_get c b = Some child"
      by (intro that [of "fst e" "snd e"]) (simp add: bm_get_def)
    moreover then obtain p where "rn_at p child \<noteq> []" using 1 by blast
    ultimately show ?thesis by (intro exI [of _ "b # p"]) simp
  next
    case False
    then show ?thesis by (intro exI [of _ "[]"]) simp
  qed
qed

lemma rn_empty_at: "rn_is_empty t \<Longrightarrow> rn_at p t = []"
  by (cases t; cases p) (simp_all add: rn_is_empty_def)

lemma rn_delete_at_fst: "fst (rn_delete_at q i t) = rn_is_empty (snd (rn_delete_at q i t))"
  by (cases t; cases q) (simp_all add: Let_def)

lemma rn_at_delete:
  "rn_ok t \<Longrightarrow> set (rn_at p (snd (rn_delete_at q i t))) =
     (if p = q then set (rn_at p t) - {i} else set (rn_at p t))"
proof (induction q arbitrary: p t)
  case Nil
  then show ?case by (cases t; cases p) (auto simp: Let_def bs_remove_def)
next
  case (Cons b bs)
  obtain w c where t: "t = RadixNode w c" by (cases t)
  show ?case
  proof (cases "bm_get c b")
    case None
    then show ?thesis by (cases p) (auto simp: t Let_def split: option.splits)
  next
    case (Some child)
    have "rn_ok child" using Cons.prems Some by (auto simp: t rn_ok_node)
    note IH = Cons.IH [OF this]
    obtain e n where d: "rn_delete_at bs i child = (e, n)" by fastforce
    have e: "e = rn_is_empty n" using rn_delete_at_fst [of bs i child] d by simp
    show ?thesis
    proof (cases p)
      case (Cons a as)
      show ?thesis
        using IH [of as] rn_empty_at [of n as]
        by (cases e) (auto simp: t Cons Some d e Let_def bm_get_insert bm_get_remove split: option.splits)
    qed (cases e; simp add: t Some d Let_def)
  qed
qed

lemma rn_ok_delete: "rn_ok t \<Longrightarrow> rn_ok (snd (rn_delete_at q i t))"
proof (induction q arbitrary: t)
  case Nil
  then show ?case by (cases t) (auto simp: rn_ok_node Let_def bs_sorted_remove)
next
  case (Cons b bs)
  obtain w c where t: "t = RadixNode w c" by (cases t)
  show ?case
  proof (cases "bm_get c b")
    case (Some child)
    have "rn_ok child" using Cons.prems Some by (auto simp: t rn_ok_node)
    from Cons.IH [OF this] rn_delete_at_fst [of bs i child] show ?thesis
      using Cons.prems
      by (cases "rn_delete_at bs i child")
        (auto simp: t Some rn_ok_node Let_def bm_sorted_insert bm_sorted_remove bm_get_insert bm_get_remove
          split: bool.splits if_splits)
  qed (use Cons.prems t in \<open>simp add: Let_def\<close>)
qed

lemma rn_lookup_set: "set (rn_lookup t key out) = set out \<union> {i. \<exists>p. prefix p key \<and> i \<in> set (rn_at p t)}"
proof (induction key arbitrary: t out)
  case Nil
  then show ?case by (cases t) (auto simp: set_bs_extend)
next
  case (Cons b bs)
  obtain w c where t: "t = RadixNode w c" by (cases t)
  have "(\<exists>p. prefix p (b # bs) \<and> Q p) \<longleftrightarrow> Q [] \<or> (\<exists>p. prefix p bs \<and> Q (b # p))" for Q
    by (auto simp: prefix_Cons)
  then have "{i. \<exists>p. prefix p (b # bs) \<and> i \<in> set (rn_at p t)} =
      set w \<union> {i. \<exists>p. prefix p bs \<and> i \<in> set (rn_at (b # p) t)}"
    by (simp add: t Un_def)
  then show ?case
    using Cons by (auto simp: t set_bs_extend split: option.split)
qed

lemma rn_lookup_sorted: "bs_sorted out \<Longrightarrow> bs_sorted (rn_lookup t key out)"
  by (induction t key out rule: rn_lookup.induct) (auto simp: bs_sorted_extend split: option.split)

definition watch_tree_ok :: "PrefixWatchTree \<Rightarrow> bool" where
  "watch_tree_ok tree \<longleftrightarrow>
     bm_sorted (roots tree) \<and> (\<forall>db n. bm_get (roots tree) db = Some n \<longrightarrow> rn_ok n \<and> \<not> rn_is_empty n)"

definition tree_watches :: "PrefixWatchTree \<Rightarrow> watch set" where
  "tree_watches tree = {(db, p, i). \<exists>n. bm_get (roots tree) db = Some n \<and> i \<in> set (rn_at p n)}"

interpretation watch_tree: prefix_watch watch_prefix_tree_create watch_prefix_tree_insert
  watch_prefix_tree_delete watch_prefix_tree_lookup watch_tree_ok tree_watches
proof
  fix t :: PrefixWatchTree and db :: u64 and p :: bytes and i :: i64 and key :: bytes
  show "watch_tree_ok watch_prefix_tree_create" "tree_watches watch_prefix_tree_create = {}"
    by (simp_all add: watch_tree_ok_def tree_watches_def watch_prefix_tree_create_def)
  assume ok: "watch_tree_ok t"
  show "watch_tree_ok (watch_prefix_tree_insert t db p i)"
    using ok
    by (auto simp: watch_tree_ok_def watch_prefix_tree_insert_def bm_sorted_insert bm_get_insert rn_ok_insert
        rn_insert_nonempty Let_def split: option.split)
  show "tree_watches (watch_prefix_tree_insert t db p i) = insert (db, p, i) (tree_watches t)"
    by (auto simp: tree_watches_def watch_prefix_tree_insert_def bm_get_insert rn_at_insert Let_def
        split: option.splits if_splits)
  show "watch_tree_ok (watch_prefix_tree_delete t db p i)"
    using ok
    by (auto simp: watch_tree_ok_def watch_prefix_tree_delete_def rn_delete_def bm_sorted_insert bm_sorted_remove
        bm_get_insert bm_get_remove case_prod_beta rn_ok_delete split: option.splits bool.splits if_splits)
  show "tree_watches (watch_prefix_tree_delete t db p i) = tree_watches t - {(db, p, i)}"
  proof (cases "bm_get (roots t) db")
    case None
    then show ?thesis by (auto simp: watch_prefix_tree_delete_def tree_watches_def)
  next
    case (Some root)
    let ?r = "snd (rn_delete_at p i root)"
    have at: "set (rn_at q ?r) = (if q = p then set (rn_at q root) - {i} else set (rn_at q root))" for q
      using ok Some by (intro rn_at_delete) (simp add: watch_tree_ok_def)
    have "q = p \<and> x = i" if "rn_is_empty ?r" "x \<in> set (rn_at q root)" for q x
      using at [of q] rn_empty_at [OF that(1), of q] that(2) by (auto split: if_splits)
    then show ?thesis
      using at
      by (cases "rn_is_empty ?r")
        (auto simp: Some watch_prefix_tree_delete_def rn_delete_def case_prod_beta tree_watches_def bm_get_insert
          bm_get_remove split: if_splits)
  qed
  show "set (watch_prefix_tree_lookup t db key) = watchers_of (tree_watches t) db key"
    by (cases "bm_get (roots t) db")
      (auto simp: watch_prefix_tree_lookup_def watchers_of_def tree_watches_def rn_lookup_set)
  show "sorted_wrt (<) (watch_prefix_tree_lookup t db key)"
    by (simp add: watch_prefix_tree_lookup_def rn_lookup_sorted split: option.split)
  show "t = watch_prefix_tree_create" if "tree_watches t = {}"
  proof -
    have "bm_get (roots t) db = None" for db
      using that ok rn_nonempty_watched
      by (cases "bm_get (roots t) db") (fastforce simp: watch_tree_ok_def tree_watches_def)+
    then have "roots t = []"
      using bm.entries_empty_iff [of "roots t"] ok by (auto simp: watch_tree_ok_def)
    then show ?thesis by (simp add: watch_prefix_tree_create_def)
  qed
qed

section \<open>Properties\<close>

text \<open>
  After any history of insertions and deletions, a lookup lists, in increasing order, exactly the identifiers
  that watch a prefix of the key in that database.
\<close>

lemma watch_history:
  "set (watch_prefix_tree_lookup
          (fold (apply_watch watch_prefix_tree_insert watch_prefix_tree_delete) ops watch_prefix_tree_create) db key) =
     {i. \<exists>p. (db, p, i) \<in> fold watch_effect ops {} \<and> prefix p key} \<and>
   sorted_wrt (<) (watch_prefix_tree_lookup
          (fold (apply_watch watch_prefix_tree_insert watch_prefix_tree_delete) ops watch_prefix_tree_create) db key)"
  using watch_tree.look_history [of ops db key] by (simp add: watchers_of_def)

text \<open>
  C30. When every watch has been deleted the tree is the empty tree again: no node is left behind.
\<close>

theorem watch_no_leak:
  assumes "fold watch_effect ops {} = {}"
  shows "fold (apply_watch watch_prefix_tree_insert watch_prefix_tree_delete) ops watch_prefix_tree_create =
    watch_prefix_tree_create"
  by (rule watch_tree.no_leak [OF assms])

theorem watch_no_leak_witness:
  "watch_prefix_tree_delete (watch_prefix_tree_insert watch_prefix_tree_create 0 [97, 98] 7) 0 [97, 98] 7 =
     watch_prefix_tree_create"
  using watch_no_leak [of "[Watch 0 [97, 98] 7, Unwatch 0 [97, 98] 7]"] by simp

end
