(* ===== verification/Watch_Registry.thy ===== *)
theory Watch_Registry
  imports Elixir_Lib Watch
begin

text \<open>
  src/lib/veidrodelis/ts/watch.ex: who watches which key and which prefix. The maps that are traversed are the ordered maps of
  \<open>BTree\<close> (the order in which an Elixir map is traversed only orders the messages); those that are only accessed by key are
  partial functions; a \<open>MapSet\<close> is a list without repetition. The prefixes are kept in the radix tree of theory \<open>Watch\<close>, which
  knows a process by an integer; a new one comes from \<open>System.unique_integer\<close> and is an argument. A reference is never
  \<open>nil\<close>.
\<close>

section \<open>Maps of watchers\<close>

type_synonym ('p, 'r) value_pids = "(u64, (bytes, ('p, 'r) btree_map) btree_map) btree_map"

definition or_empty :: "'a list option \<Rightarrow> 'a list" where
  "or_empty m = (case m of None \<Rightarrow> [] | Some xs \<Rightarrow> xs)"

definition get_pids :: "('p, 'r) value_pids \<Rightarrow> u64 \<Rightarrow> bytes \<Rightarrow> ('p, 'r) btree_map" where
  "get_pids m db v = or_empty (bm_get (or_empty (bm_get m db)) v)"

definition get_ref :: "('p, 'r) value_pids \<Rightarrow> u64 \<Rightarrow> bytes \<Rightarrow> 'p \<Rightarrow> 'r option" where
  "get_ref m db v pid = bm_get (get_pids m db v) pid"

definition put_ref :: "u64 \<Rightarrow> bytes \<Rightarrow> 'p::linorder \<Rightarrow> 'r \<Rightarrow> ('p, 'r) value_pids \<Rightarrow> ('p, 'r) value_pids" where
  "put_ref db v pid ref m =
     bm_insert db (bm_insert v (bm_insert pid ref (get_pids m db v)) (or_empty (bm_get m db))) m"

text \<open>\<open>update_in\<close> raises when there is no map for the database.\<close>

definition delete_pid_from_db_value ::
  "('p::linorder, 'r) value_pids \<Rightarrow> u64 \<Rightarrow> bytes \<Rightarrow> 'p \<Rightarrow> ('p, 'r) value_pids elixir" where
  "delete_pid_from_db_value m db v pid =
     (case bm_get m db of
        None \<Rightarrow> Inl ArgumentError
      | Some db_map \<Rightarrow>
          (let new_pid_map = bm_remove pid (or_empty (bm_get db_map v))
           in if new_pid_map = [] then
                (let new_db_map = bm_remove v db_map
                 in if new_db_map = [] then Inr (bm_remove db m) else Inr (bm_insert db new_db_map m))
              else Inr (bm_insert db (bm_insert v new_pid_map db_map) m)))"

section \<open>The registry\<close>

record ('p, 'r) watch_registry =
  key_to_pids :: "('p, 'r) value_pids"
  pid_to_keys :: "'p \<rightharpoonup> (u64 \<times> bytes) list"
  prefix_tree :: PrefixWatchTree
  prefix_to_pids :: "('p, 'r) value_pids"
  pid_to_prefixes :: "'p \<rightharpoonup> (u64 \<times> bytes) list"
  pid_by_idx :: "i64 \<rightharpoonup> 'p"
  idx_by_pid :: "'p \<rightharpoonup> i64"

definition watch_create :: "('p, 'r) watch_registry" where
  "watch_create =
     \<lparr>key_to_pids = [], pid_to_keys = Map.empty, prefix_tree = watch_prefix_tree_create, prefix_to_pids = [],
      pid_to_prefixes = Map.empty, pid_by_idx = Map.empty, idx_by_pid = Map.empty\<rparr>"

datatype watch_error = AlreadyRegistered | NotFound

definition watch_add ::
  "('p::linorder, 'r) watch_registry \<Rightarrow> 'p \<Rightarrow> u64 \<Rightarrow> bytes \<Rightarrow> 'r \<Rightarrow> watch_error + ('p, 'r) watch_registry" where
  "watch_add w pid db key ref =
     (if get_ref (key_to_pids w) db key pid \<noteq> None then Inl AlreadyRegistered
      else Inr (w\<lparr>key_to_pids := put_ref db key pid ref (key_to_pids w),
                   pid_to_keys := (pid_to_keys w)(pid \<mapsto> List.insert (db, key) (or_empty (pid_to_keys w pid)))\<rparr>))"

definition ensure_pid_idx ::
  "i64 \<Rightarrow> ('p, 'r) watch_registry \<Rightarrow> 'p \<Rightarrow> i64 \<times> (i64 \<rightharpoonup> 'p) \<times> ('p \<rightharpoonup> i64)" where
  "ensure_pid_idx unique w pid =
     (case idx_by_pid w pid of
        None \<Rightarrow> (unique, (pid_by_idx w)(unique \<mapsto> pid), (idx_by_pid w)(pid \<mapsto> unique))
      | Some idx \<Rightarrow> (idx, pid_by_idx w, idx_by_pid w))"

definition watch_add_prefix ::
  "i64 \<Rightarrow> ('p::linorder, 'r) watch_registry \<Rightarrow> 'p \<Rightarrow> u64 \<Rightarrow> bytes \<Rightarrow> 'r \<Rightarrow> watch_error + ('p, 'r) watch_registry" where
  "watch_add_prefix unique w pid db pfx ref =
     (if get_ref (prefix_to_pids w) db pfx pid \<noteq> None then Inl AlreadyRegistered
      else case ensure_pid_idx unique w pid of
             (idx, by_idx, by_pid) \<Rightarrow>
               Inr (w\<lparr>prefix_tree := watch_prefix_tree_insert (prefix_tree w) db pfx idx,
                      prefix_to_pids := put_ref db pfx pid ref (prefix_to_pids w),
                      pid_to_prefixes := (pid_to_prefixes w)(pid \<mapsto> List.insert (db, pfx) (or_empty (pid_to_prefixes w pid))),
                      pid_by_idx := by_idx, idx_by_pid := by_pid\<rparr>))"

definition exact_watch_count :: "('p, 'r) watch_registry \<Rightarrow> 'p \<Rightarrow> nat" where
  "exact_watch_count w pid = length (or_empty (pid_to_keys w pid))"

definition prefix_watch_count :: "('p, 'r) watch_registry \<Rightarrow> 'p \<Rightarrow> nat" where
  "prefix_watch_count w pid = length (or_empty (pid_to_prefixes w pid))"

text \<open>An empty set of watches is dropped from the map of the process.\<close>

definition drop_watch :: "('p \<rightharpoonup> 'a list) \<Rightarrow> 'p \<Rightarrow> 'a \<Rightarrow> ('p \<rightharpoonup> 'a list) \<times> nat" where
  "drop_watch m pid v =
     (let new = removeAll v (or_empty (m pid)) in (m(pid := if new = [] then None else Some new), length new))"

definition watch_delete ::
  "('p::linorder, 'r) watch_registry \<Rightarrow> 'p \<Rightarrow> u64 \<Rightarrow> bytes \<Rightarrow>
     (watch_error + ('p, 'r) watch_registry \<times> nat) elixir" where
  "watch_delete w pid db key =
     (if get_ref (key_to_pids w) db key pid = None then Inr (Inl NotFound)
      else and_then (delete_pid_from_db_value (key_to_pids w) db key pid) (\<lambda>m.
        case drop_watch (pid_to_keys w) pid (db, key) of
          (keys, exact_count) \<Rightarrow>
            Inr (Inr (w\<lparr>key_to_pids := m, pid_to_keys := keys\<rparr>, exact_count + prefix_watch_count w pid))))"

definition watch_delete_prefix ::
  "('p::linorder, 'r) watch_registry \<Rightarrow> 'p \<Rightarrow> u64 \<Rightarrow> bytes \<Rightarrow>
     (watch_error + ('p, 'r) watch_registry \<times> nat) elixir" where
  "watch_delete_prefix w pid db pfx =
     (if get_ref (prefix_to_pids w) db pfx pid = None then Inr (Inl NotFound)
      else case idx_by_pid w pid of
        None \<Rightarrow> Inl ArgumentError
      | Some idx \<Rightarrow>
          and_then (delete_pid_from_db_value (prefix_to_pids w) db pfx pid) (\<lambda>m.
            case drop_watch (pid_to_prefixes w) pid (db, pfx) of
              (pset, prefix_count) \<Rightarrow>
                Inr (Inr (w\<lparr>prefix_tree := watch_prefix_tree_delete (prefix_tree w) db pfx idx,
                            prefix_to_pids := m, pid_to_prefixes := pset,
                            pid_by_idx := (if prefix_count = 0 then (pid_by_idx w)(idx := None) else pid_by_idx w),
                            idx_by_pid := (if prefix_count = 0 then (idx_by_pid w)(pid := None) else idx_by_pid w)\<rparr>,
                          exact_watch_count w pid + prefix_count))))"

primrec delete_values ::
  "(u64 \<times> bytes) list \<Rightarrow> 'p::linorder \<Rightarrow> ('p, 'r) value_pids \<Rightarrow> ('p, 'r) value_pids elixir" where
  "delete_values [] pid m = Inr m"
| "delete_values (x # xs) pid m =
     and_then (delete_pid_from_db_value m (fst x) (snd x) pid) (delete_values xs pid)"

definition watch_delete_all ::
  "('p::linorder, 'r) watch_registry \<Rightarrow> 'p \<Rightarrow> ('p, 'r) watch_registry elixir" where
  "watch_delete_all w pid =
     (let db_keys = or_empty (pid_to_keys w pid); db_prefixes = or_empty (pid_to_prefixes w pid); idx = idx_by_pid w pid
      in and_then (delete_values db_keys pid (key_to_pids w)) (\<lambda>ks.
           and_then (delete_values db_prefixes pid (prefix_to_pids w)) (\<lambda>ps.
             Inr (w\<lparr>key_to_pids := ks, pid_to_keys := (pid_to_keys w)(pid := None),
                    prefix_tree := (case idx of
                        None \<Rightarrow> prefix_tree w
                      | Some i \<Rightarrow> fold (\<lambda>(db, p) t. watch_prefix_tree_delete t db p i) db_prefixes (prefix_tree w)),
                    prefix_to_pids := ps, pid_to_prefixes := (pid_to_prefixes w)(pid := None),
                    pid_by_idx := (case idx of None \<Rightarrow> pid_by_idx w | Some i \<Rightarrow> (pid_by_idx w)(i := None)),
                    idx_by_pid := (idx_by_pid w)(pid := None)\<rparr>))))"

section \<open>Lookups\<close>

definition swap_pair :: "'a \<times> 'b \<Rightarrow> 'b \<times> 'a" where
  "swap_pair p = (snd p, fst p)"

definition watch_lookup :: "('p, 'r) watch_registry \<Rightarrow> u64 \<Rightarrow> bytes \<Rightarrow> ('r \<times> 'p) list" where
  "watch_lookup w db key = map swap_pair (get_pids (key_to_pids w) db key)"

definition prefix_refs :: "('p, 'r) watch_registry \<Rightarrow> u64 \<Rightarrow> bytes \<Rightarrow> 'p \<Rightarrow> ('r \<times> 'p) list" where
  "prefix_refs w db key pid =
     concat (map (\<lambda>db_prefix.
       if fst db_prefix = db \<and> prefix (snd db_prefix) key then
         (case get_ref (prefix_to_pids w) db (snd db_prefix) pid of None \<Rightarrow> [] | Some ref \<Rightarrow> [(ref, pid)])
       else []) (or_empty (pid_to_prefixes w pid)))"

definition watch_lookup_prefix :: "('p, 'r) watch_registry \<Rightarrow> u64 \<Rightarrow> bytes \<Rightarrow> ('r \<times> 'p) list" where
  "watch_lookup_prefix w db key =
     Enum_uniq (concat (map
       (\<lambda>idx. case pid_by_idx w idx of None \<Rightarrow> [] | Some pid \<Rightarrow> prefix_refs w db key pid)
       (watch_prefix_tree_lookup (prefix_tree w) db key)))"

definition value_watchers :: "(bytes, ('p, 'r) btree_map) btree_map \<Rightarrow> ('p \<times> 'r) list" where
  "value_watchers db_map = concat (map snd db_map)"

definition watch_all_watchers :: "('p, 'r) watch_registry \<Rightarrow> ('p \<times> 'r) list" where
  "watch_all_watchers w =
     Enum_uniq (concat (map (value_watchers \<circ> snd) (key_to_pids w)) @ concat (map (value_watchers \<circ> snd) (prefix_to_pids w)))"

definition watch_lookup_by_db :: "('p, 'r) watch_registry \<Rightarrow> u64 \<Rightarrow> ('r \<times> 'p) list" where
  "watch_lookup_by_db w db =
     Enum_uniq (map swap_pair (value_watchers (or_empty (bm_get (key_to_pids w) db)) @
                              value_watchers (or_empty (bm_get (prefix_to_pids w) db))))"

section \<open>Nested maps\<close>

definition nested_ok :: "('p::linorder, 'r) value_pids \<Rightarrow> bool" where
  "nested_ok m \<longleftrightarrow>
     bm_sorted m \<and> (\<forall>db d. bm_get m db = Some d \<longrightarrow> bm_sorted d \<and> (\<forall>v ps. bm_get d v = Some ps \<longrightarrow> bm_sorted ps))"

lemma or_empty_simps [simp]: "or_empty None = []" "or_empty (Some xs) = xs"
  by (simp_all add: or_empty_def)

lemma nested_ok_Nil [simp]: "nested_ok []"
  by (simp add: nested_ok_def)

lemma get_ref_Nil [simp]: "get_ref [] db v pid = None"
  by (simp add: get_ref_def get_pids_def)

lemma nested_get_sorted: "nested_ok m \<Longrightarrow> bm_sorted (or_empty (bm_get m db)) \<and> bm_sorted (get_pids m db v)"
  by (cases "bm_get m db"; cases "bm_get (or_empty (bm_get m db)) v") (auto simp: nested_ok_def get_pids_def)

lemma get_ref_put:
  "get_ref (put_ref db v pid ref m) db' v' pid' =
     (if db' = db \<and> v' = v \<and> pid' = pid then Some ref else get_ref m db' v' pid')"
  by (simp add: get_ref_def get_pids_def put_ref_def bm_get_insert)

lemma put_ref_present:
  "get_ref (put_ref db v pid ref m) db' v' pid' \<noteq> None \<longleftrightarrow> (db' = db \<and> v' = v \<and> pid' = pid) \<or> get_ref m db' v' pid' \<noteq> None"
  by (auto simp: get_ref_put)

lemma nested_ok_put: "nested_ok m \<Longrightarrow> nested_ok (put_ref db v pid ref m)"
  using nested_get_sorted [of m db v]
  by (auto simp: nested_ok_def put_ref_def bm_get_insert bm_sorted_insert or_empty_def split: if_splits option.splits)

definition without :: "('p, 'r) value_pids \<Rightarrow> u64 \<Rightarrow> bytes \<Rightarrow> 'p \<Rightarrow> ('p, 'r) value_pids \<Rightarrow> bool" where
  "without m db v pid m' \<longleftrightarrow>
     (\<forall>db' v' pid'. get_ref m' db' v' pid' = (if db' = db \<and> v' = v \<and> pid' = pid then None else get_ref m db' v' pid'))"

lemma nested_remove:
  assumes "nested_ok m" "get_ref m db v pid \<noteq> None"
  shows "\<exists>m'. delete_pid_from_db_value m db v pid = Inr m' \<and> nested_ok m' \<and> without m db v pid m'"
proof (cases "bm_get m db")
  case None
  with assms(2) show ?thesis by (simp add: get_ref_def get_pids_def)
next
  case (Some d)
  let ?new = "bm_remove pid (or_empty (bm_get d v))" and ?d = "bm_remove v d"
  have s: "bm_sorted m" "bm_sorted d" "bm_sorted (or_empty (bm_get d v))"
    using assms(1) Some nested_get_sorted [OF assms(1), of db v] by (auto simp: nested_ok_def get_pids_def)
  have inner: "bm_sorted ps" if "bm_get d v' = Some ps" for v' ps using that assms(1) Some by (auto simp: nested_ok_def)
  have none: "bm_get (or_empty (bm_get d v)) pid' = None" if "?new = []" "pid' \<noteq> pid" for pid'
    using that fun_cong [OF bm_get_remove, of pid "or_empty (bm_get d v)" pid'] by simp
  have none2: "bm_get d v' = None" if "?d = []" "v' \<noteq> v" for v'
    using that fun_cong [OF bm_get_remove, of v d v'] by simp
  have both: "bm_get (or_empty (bm_get d v')) pid' = None" if "?d = []" "?new = []" "v' \<noteq> v \<or> pid' \<noteq> pid" for v' pid'
    using none [OF that(2), of pid'] none2 [OF that(1), of v'] that(3) by (cases "v' = v") simp_all
  show ?thesis
  proof (cases "?new = []")
    case True
    show ?thesis
    proof (cases "?d = []")
      case d: True
      show ?thesis
        unfolding without_def delete_pid_from_db_value_def Some Let_def option.case if_P [OF True] if_P [OF d] sum.inject
      proof (intro exI conjI allI)
        show "nested_ok (bm_remove db m)"
          using assms(1) by (auto simp: nested_ok_def bm_get_remove bm_sorted_remove split: if_splits)
        show "get_ref (bm_remove db m) db' v' pid' = (if db' = db \<and> v' = v \<and> pid' = pid then None else get_ref m db' v' pid')"
          for db' v' pid'
          using both [OF d True, of v' pid'] by (cases "db' = db") (simp_all add: get_ref_def get_pids_def bm_get_remove Some)
      qed (rule refl)
    next
      case False
      then show ?thesis
        using assms(1) s True none inner
        by (auto simp: without_def delete_pid_from_db_value_def Some Let_def nested_ok_def get_ref_def get_pids_def bm_get_remove
            bm_get_insert bm_sorted_remove bm_sorted_insert split: if_splits)
    qed
  next
    case False
    then show ?thesis
      using assms(1) s inner
      by (auto simp: without_def delete_pid_from_db_value_def Some Let_def nested_ok_def get_ref_def get_pids_def bm_get_remove
          bm_get_insert bm_sorted_remove bm_sorted_insert split: if_splits)
  qed
qed

section \<open>The invariant\<close>

text \<open>
  Both views of the watches agree, a process with prefix watches has an integer of its own, and the tree holds the
  prefixes under these integers.
\<close>

definition listed :: "('p \<rightharpoonup> (u64 \<times> bytes) list) \<Rightarrow> ('p::linorder, 'r) value_pids \<Rightarrow> bool" where
  "listed l m \<longleftrightarrow>
     (\<forall>pid. distinct (or_empty (l pid)) \<and> l pid \<noteq> Some [] \<and>
        set (or_empty (l pid)) = {(db, v). get_ref m db v pid \<noteq> None})"

definition registry_ok :: "('p::linorder, 'r) watch_registry \<Rightarrow> bool" where
  "registry_ok w \<longleftrightarrow>
     nested_ok (key_to_pids w) \<and> nested_ok (prefix_to_pids w) \<and>
     listed (pid_to_keys w) (key_to_pids w) \<and> listed (pid_to_prefixes w) (prefix_to_pids w) \<and>
     (\<forall>pid i. idx_by_pid w pid = Some i \<longleftrightarrow> pid_by_idx w i = Some pid) \<and>
     (\<forall>pid. idx_by_pid w pid = None \<longleftrightarrow> pid_to_prefixes w pid = None) \<and>
     watch_tree_ok (prefix_tree w) \<and>
     (\<forall>db p i. (db, p, i) \<in> tree_watches (prefix_tree w) \<longleftrightarrow>
        (\<exists>pid. idx_by_pid w pid = Some i \<and> get_ref (prefix_to_pids w) db p pid \<noteq> None))"

lemma registry_okD:
  assumes "registry_ok w"
  shows "nested_ok (key_to_pids w)" "nested_ok (prefix_to_pids w)"
    "listed (pid_to_keys w) (key_to_pids w)" "listed (pid_to_prefixes w) (prefix_to_pids w)"
    "idx_by_pid w pid = Some i \<longleftrightarrow> pid_by_idx w i = Some pid"
    "idx_by_pid w pid = None \<longleftrightarrow> pid_to_prefixes w pid = None"
    "watch_tree_ok (prefix_tree w)"
    "(db, p, i) \<in> tree_watches (prefix_tree w) \<longleftrightarrow>
       (\<exists>pid. idx_by_pid w pid = Some i \<and> get_ref (prefix_to_pids w) db p pid \<noteq> None)"
  using assms unfolding registry_ok_def by blast+

lemma registry_ok_create: "registry_ok watch_create"
  by (simp add: registry_ok_def watch_create_def listed_def watch_tree.ok_new watch_tree.watches_new)

lemma insert_nonempty [simp]: "List.insert x xs \<noteq> []"
  by (cases xs) (auto simp: List.insert_def)

lemma listed_put:
  "listed l m \<Longrightarrow> listed (l(pid \<mapsto> List.insert (db, v) (or_empty (l pid)))) (put_ref db v pid ref m)"
  by (auto simp: listed_def get_ref_put)

lemma drop_watch_list:
  "or_empty (fst (drop_watch l pid x) pid') = (if pid' = pid then removeAll x (or_empty (l pid)) else or_empty (l pid'))"
  by (simp add: drop_watch_def Let_def)

lemma drop_watch_set:
  "set (or_empty (fst (drop_watch l pid x) pid')) = (if pid' = pid then set (or_empty (l pid)) - {x} else set (or_empty (l pid')))"
  by (simp add: drop_watch_list)

lemma drop_watch_count: "snd (drop_watch l pid x) = length (or_empty (fst (drop_watch l pid x) pid))"
  by (simp add: drop_watch_def Let_def)

lemma listed_drop:
  assumes "listed l m" "without m db v pid m'"
  shows "listed (fst (drop_watch l pid (db, v))) m'"
proof -
  have "distinct (or_empty (fst (drop_watch l pid (db, v)) pid'))" "fst (drop_watch l pid (db, v)) pid' \<noteq> Some []" for pid'
    using assms(1) by (auto simp: drop_watch_def Let_def distinct_removeAll listed_def)
  then show ?thesis
    using assms by (auto simp: listed_def drop_watch_set without_def)
qed

lemma listed_None: "listed l m \<Longrightarrow> l pid = None \<longleftrightarrow> (\<forall>db v. get_ref m db v pid = None)"
proof (cases "l pid")
  case (Some xs)
  assume l: "listed l m"
  then have "xs \<noteq> []" "set xs = {(db, v). get_ref m db v pid \<noteq> None}"
    using Some unfolding listed_def by (metis, metis or_empty_simps(2))
  then have "\<exists>x. x \<in> {(db, v). get_ref m db v pid \<noteq> None}" by (metis list.set_intros(1) neq_Nil_conv)
  then show ?thesis using Some by auto
next
  case None
  assume "listed l m"
  then have "{(db, v). get_ref m db v pid \<noteq> None} = {}" using None unfolding listed_def by (metis or_empty_simps(1) list.set(1))
  then show ?thesis using None by auto
qed

lemma watch_add_ok:
  assumes "registry_ok w" "watch_add w pid db key ref = Inr w'"
  shows "registry_ok w' \<and> key_to_pids w' = put_ref db key pid ref (key_to_pids w) \<and> prefix_to_pids w' = prefix_to_pids w"
  using assms
  by (auto simp: watch_add_def registry_ok_def nested_ok_put listed_put split: if_splits)

lemma watch_add_prefix_ok:
  assumes "registry_ok w" "watch_add_prefix unique w pid db p ref = Inr w'" "pid_by_idx w unique = None"
  shows "registry_ok w' \<and> prefix_to_pids w' = put_ref db p pid ref (prefix_to_pids w) \<and> key_to_pids w' = key_to_pids w"
proof -
  note ok = registry_okD [OF assms(1)]
  obtain idx by_idx by_pid where e: "ensure_pid_idx unique w pid = (idx, by_idx, by_pid)" by (cases "ensure_pid_idx unique w pid")
  have w': "w' = w\<lparr>prefix_tree := watch_prefix_tree_insert (prefix_tree w) db p idx,
                   prefix_to_pids := put_ref db p pid ref (prefix_to_pids w),
                   pid_to_prefixes := (pid_to_prefixes w)(pid \<mapsto> List.insert (db, p) (or_empty (pid_to_prefixes w pid))),
                   pid_by_idx := by_idx, idx_by_pid := by_pid\<rparr>"
    using assms(2) e by (simp add: watch_add_prefix_def split: if_splits)
  have inv: "by_pid pid' = Some i \<longleftrightarrow> by_idx i = Some pid'" for pid' i
    using e ok(5) [of pid i] ok(5) [of pid' i] ok(5) [of pid' unique] assms(3)
    by (cases "idx_by_pid w pid") (auto simp: ensure_pid_idx_def split: if_splits)
  have self: "by_pid pid = Some idx" using e by (auto simp: ensure_pid_idx_def split: option.splits)
  have other: "by_pid pid' = idx_by_pid w pid'" if "pid' \<noteq> pid" for pid'
    using e that by (auto simp: ensure_pid_idx_def split: option.splits)
  have same: "by_pid pid = idx_by_pid w pid \<or> (\<forall>db v. get_ref (prefix_to_pids w) db v pid = None)"
    using e listed_None [OF ok(4), of pid] ok(6) [of pid] by (auto simp: ensure_pid_idx_def split: option.splits)
  have p: "prefix_to_pids w' = put_ref db p pid ref (prefix_to_pids w)" "idx_by_pid w' = by_pid" by (simp_all add: w')
  have "registry_ok w'"
    unfolding registry_ok_def
  proof (intro conjI allI)
    show "nested_ok (key_to_pids w')" "nested_ok (prefix_to_pids w')" "listed (pid_to_keys w') (key_to_pids w')"
      "listed (pid_to_prefixes w') (prefix_to_pids w')" "watch_tree_ok (prefix_tree w')"
      using ok(1-4,7) by (simp_all add: w' nested_ok_put listed_put watch_tree.ok_ins)
    show "(idx_by_pid w' pid' = Some i) = (pid_by_idx w' i = Some pid')" for pid' i using inv by (simp add: w')
    show "(idx_by_pid w' pid' = None) = (pid_to_prefixes w' pid' = None)" for pid'
      using ok(6) [of pid'] self other [of pid'] by (cases "pid' = pid") (simp_all add: w')
    show "((db', v, i) \<in> tree_watches (prefix_tree w')) =
        (\<exists>pid'. idx_by_pid w' pid' = Some i \<and> get_ref (prefix_to_pids w') db' v pid' \<noteq> None)" for db' v i
    proof -
      have "((db', v, i) \<in> tree_watches (prefix_tree w')) \<longleftrightarrow> (db', v, i) = (db, p, idx) \<or>
          (\<exists>pid'. idx_by_pid w pid' = Some i \<and> get_ref (prefix_to_pids w) db' v pid' \<noteq> None)"
        using ok(7,8) by (simp add: w' watch_tree.watches_ins)
      also have "(\<exists>pid'. idx_by_pid w pid' = Some i \<and> get_ref (prefix_to_pids w) db' v pid' \<noteq> None) \<longleftrightarrow>
          (\<exists>pid'. by_pid pid' = Some i \<and> get_ref (prefix_to_pids w) db' v pid' \<noteq> None)"
        using same other by metis
      finally have t: "((db', v, i) \<in> tree_watches (prefix_tree w')) \<longleftrightarrow> (db' = db \<and> v = p \<and> Some i = by_pid pid) \<or>
          (\<exists>pid'. by_pid pid' = Some i \<and> get_ref (prefix_to_pids w) db' v pid' \<noteq> None)" using self by auto
      show ?thesis unfolding p put_ref_present t by metis
    qed
  qed
  then show ?thesis by (simp add: w')
qed

lemma idx_listed:
  assumes "registry_ok w" "get_ref (prefix_to_pids w) db p pid \<noteq> None"
  shows "\<exists>i. idx_by_pid w pid = Some i"
  using assms(2) listed_None [OF registry_okD(4) [OF assms(1)], of pid] registry_okD(6) [OF assms(1), of pid] by auto

lemma watch_delete_ok:
  assumes "registry_ok w" "get_ref (key_to_pids w) db key pid \<noteq> None"
  shows "\<exists>w' n. watch_delete w pid db key = Inr (Inr (w', n)) \<and> registry_ok w' \<and>
    without (key_to_pids w) db key pid (key_to_pids w') \<and> prefix_to_pids w' = prefix_to_pids w \<and>
    n = exact_watch_count w' pid + prefix_watch_count w' pid"
proof -
  obtain m where m: "delete_pid_from_db_value (key_to_pids w) db key pid = Inr m" "nested_ok m" "without (key_to_pids w) db key pid m"
    using nested_remove [OF _ assms(2)] assms(1) unfolding registry_ok_def by blast
  obtain l n where l: "drop_watch (pid_to_keys w) pid (db, key) = (l, n)" by fastforce
  have "listed l m" using listed_drop [OF _ m(3), of "pid_to_keys w"] assms(1) l by (simp add: registry_ok_def)
  moreover have "n = length (or_empty (l pid))" using drop_watch_count [of "pid_to_keys w" pid "(db, key)"] l by simp
  moreover have "watch_delete w pid db key =
      Inr (Inr (w\<lparr>key_to_pids := m, pid_to_keys := l\<rparr>, n + prefix_watch_count w pid))"
    using assms(2) m(1) l by (simp add: watch_delete_def)
  moreover have "registry_ok (w\<lparr>key_to_pids := m, pid_to_keys := l\<rparr>)" if "listed l m"
    using assms(1) m(2) that by (simp add: registry_ok_def)
  ultimately show ?thesis using m(3) by (simp add: exact_watch_count_def prefix_watch_count_def)
qed

lemma watch_delete_prefix_ok:
  assumes "registry_ok w" "get_ref (prefix_to_pids w) db p pid \<noteq> None"
  shows "\<exists>w' n. watch_delete_prefix w pid db p = Inr (Inr (w', n)) \<and> registry_ok w' \<and>
    without (prefix_to_pids w) db p pid (prefix_to_pids w') \<and> key_to_pids w' = key_to_pids w \<and>
    n = exact_watch_count w' pid + prefix_watch_count w' pid"
proof -
  obtain idx where idx: "idx_by_pid w pid = Some idx" using idx_listed [OF assms] by blast
  obtain m where m: "delete_pid_from_db_value (prefix_to_pids w) db p pid = Inr m" "nested_ok m" "without (prefix_to_pids w) db p pid m"
    using nested_remove [OF _ assms(2)] assms(1) unfolding registry_ok_def by blast
  obtain l n where l: "drop_watch (pid_to_prefixes w) pid (db, p) = (l, n)" by fastforce
  have li: "listed l m" using listed_drop [OF _ m(3), of "pid_to_prefixes w"] assms(1) l by (simp add: registry_ok_def)
  have n: "n = length (or_empty (l pid))" using drop_watch_count [of "pid_to_prefixes w" pid "(db, p)"] l by simp
  have other: "l pid' = pid_to_prefixes w pid'" if "pid' \<noteq> pid" for pid'
    using l that by (auto simp: drop_watch_def Let_def)
  have empty: "n = 0 \<longleftrightarrow> l pid = None"
    using n li unfolding listed_def by (metis length_0_conv option.exhaust or_empty_simps)
  define w' where "w' = w\<lparr>prefix_tree := watch_prefix_tree_delete (prefix_tree w) db p idx,
                            prefix_to_pids := m, pid_to_prefixes := l,
                            pid_by_idx := (if n = 0 then (pid_by_idx w)(idx := None) else pid_by_idx w),
                            idx_by_pid := (if n = 0 then (idx_by_pid w)(pid := None) else idx_by_pid w)\<rparr>"
  have run: "watch_delete_prefix w pid db p = Inr (Inr (w', exact_watch_count w pid + n))"
    using assms(2) m(1) l idx by (simp add: watch_delete_prefix_def w'_def)
  have inj: "pid_by_idx w i = Some pid' \<longleftrightarrow> idx_by_pid w pid' = Some i" for i pid' using assms(1) by (simp add: registry_ok_def)
  have inj2: "pid' = pid" if "idx_by_pid w pid' = Some idx" for pid' using that idx inj [of idx pid'] inj [of idx pid] by simp
  have none: "db' = db \<and> v' = p \<or> get_ref (prefix_to_pids w) db' v' pid = None" if "n = 0" for db' v'
  proof -
    have "get_ref m db' v' pid = None" using that empty listed_None [OF li, of pid] by blast
    then show ?thesis using m(3) [unfolded without_def, rule_format, of db' v' pid] by presburger
  qed
  have gone: "get_ref (prefix_to_pids w') db' v pid' \<noteq> None \<longleftrightarrow>
      get_ref (prefix_to_pids w) db' v pid' \<noteq> None \<and> \<not> (db' = db \<and> v = p \<and> pid' = pid)" for db' v pid'
    using m(3) by (simp add: w'_def without_def)
  have by1: "idx_by_pid w' pid' = Some i \<longleftrightarrow> idx_by_pid w pid' = Some i \<and> \<not> (n = 0 \<and> pid' = pid)" for pid' i
    by (simp add: w'_def)
  have "registry_ok w'"
    unfolding registry_ok_def
  proof (intro conjI)
    show "nested_ok (key_to_pids w')" "nested_ok (prefix_to_pids w')" "listed (pid_to_keys w') (key_to_pids w')"
      "listed (pid_to_prefixes w') (prefix_to_pids w')" "watch_tree_ok (prefix_tree w')"
      using assms(1) m(2) li by (simp_all add: registry_ok_def w'_def watch_tree.ok_del)
    show "\<forall>pid i. (idx_by_pid w' pid = Some i) = (pid_by_idx w' i = Some pid)"
    proof (intro allI)
      fix pid' i
      show "(idx_by_pid w' pid' = Some i) = (pid_by_idx w' i = Some pid')"
        using idx inj [of i pid'] inj [of idx pid'] inj [of i pid] by (cases "n = 0"; cases "pid' = pid"; cases "i = idx") (simp_all add: w'_def)
    qed
    show "\<forall>pid. (idx_by_pid w' pid = None) = (pid_to_prefixes w' pid = None)"
    proof
      fix pid'
      show "(idx_by_pid w' pid' = None) = (pid_to_prefixes w' pid' = None)"
        using registry_okD(6) [OF assms(1), of pid'] other [of pid'] empty idx by (cases "pid' = pid"; cases "n = 0") (simp_all add: w'_def)
    qed
    show "\<forall>db' v i. ((db', v, i) \<in> tree_watches (prefix_tree w')) =
        (\<exists>pid'. idx_by_pid w' pid' = Some i \<and> get_ref (prefix_to_pids w') db' v pid' \<noteq> None)"
    proof (intro allI)
      fix db' v i
      have t: "(db', v, i) \<in> tree_watches (prefix_tree w') \<longleftrightarrow>
          (\<exists>pid'. idx_by_pid w pid' = Some i \<and> get_ref (prefix_to_pids w) db' v pid' \<noteq> None) \<and> (db', v, i) \<noteq> (db, p, idx)"
        using assms(1) by (simp add: w'_def registry_ok_def watch_tree.watches_del)
      show "((db', v, i) \<in> tree_watches (prefix_tree w')) =
          (\<exists>pid'. idx_by_pid w' pid' = Some i \<and> get_ref (prefix_to_pids w') db' v pid' \<noteq> None)"
        unfolding t gone by1 using inj2 idx none by (metis prod.inject option.inject)
    qed
  qed
  moreover have "exact_watch_count w pid + n = exact_watch_count w' pid + prefix_watch_count w' pid"
    by (simp add: n w'_def exact_watch_count_def prefix_watch_count_def)
  ultimately show ?thesis using run m(3) by (auto simp: w'_def)
qed

lemma delete_values_ok:
  "nested_ok m \<Longrightarrow> distinct xs \<Longrightarrow> (\<And>db v. (db, v) \<in> set xs \<Longrightarrow> get_ref m db v pid \<noteq> None) \<Longrightarrow>
     \<exists>m'. delete_values xs pid m = Inr m' \<and> nested_ok m' \<and>
       (\<forall>db v pid'. get_ref m' db v pid' = (if (db, v) \<in> set xs \<and> pid' = pid then None else get_ref m db v pid'))"
proof (induction xs arbitrary: m)
  case (Cons x xs)
  obtain db v where x: "x = (db, v)" by fastforce
  then have "get_ref m db v pid \<noteq> None" using Cons.prems(3) by simp
  from nested_remove [OF Cons.prems(1) this] obtain m1 where
    m1: "delete_pid_from_db_value m db v pid = Inr m1" "nested_ok m1" "without m db v pid m1" by blast
  have "get_ref m1 db' v' pid \<noteq> None" if "(db', v') \<in> set xs" for db' v'
    using that Cons.prems(2,3) m1(3) x by (auto simp: without_def)
  from Cons.IH [OF m1(2) _ this] obtain m2 where m2: "delete_values xs pid m1 = Inr m2" "nested_ok m2"
      "\<forall>db v pid'. get_ref m2 db v pid' = (if (db, v) \<in> set xs \<and> pid' = pid then None else get_ref m1 db v pid')"
    using Cons.prems(2) by auto
  have "get_ref m2 db' v' pid' = (if (db', v') \<in> set (x # xs) \<and> pid' = pid then None else get_ref m db' v' pid')"
    for db' v' pid'
    using m2(3) m1(3) x by (auto simp: without_def)
  then show ?case using m1(1) m2(1,2) x by auto
qed simp

lemma tree_deletes:
  "watch_tree_ok t \<Longrightarrow> watch_tree_ok (fold (\<lambda>(db, p) t. watch_prefix_tree_delete t db p i) xs t) \<and>
     tree_watches (fold (\<lambda>(db, p) t. watch_prefix_tree_delete t db p i) xs t) =
       tree_watches t - {(db, p, j). (db, p) \<in> set xs \<and> j = i}"
proof (induction xs arbitrary: t)
  case (Cons x xs)
  obtain db p where x: "x = (db, p)" by fastforce
  have d: "watch_tree_ok (watch_prefix_tree_delete t db p i)"
    "tree_watches (watch_prefix_tree_delete t db p i) = tree_watches t - {(db, p, i)}"
    using watch_tree.ok_del [OF Cons.prems] watch_tree.watches_del [OF Cons.prems] by blast+
  have "tree_watches t - {(db, p, i)} - {(db, p, j). (db, p) \<in> set xs \<and> j = i} =
      tree_watches t - {(db', p', j). (db', p') \<in> set (x # xs) \<and> j = i}" by (auto simp: x)
  then show ?case using Cons.IH [OF d(1)] by (simp add: x d(2))
qed auto

lemma watch_delete_all_ok:
  assumes "registry_ok w"
  shows "\<exists>w'. watch_delete_all w pid = Inr w' \<and> registry_ok w' \<and>
    (\<forall>db v pid'. get_ref (key_to_pids w') db v pid' = (if pid' = pid then None else get_ref (key_to_pids w) db v pid')) \<and>
    (\<forall>db v pid'. get_ref (prefix_to_pids w') db v pid' = (if pid' = pid then None else get_ref (prefix_to_pids w) db v pid')) \<and>
    dom (pid_by_idx w') \<subseteq> dom (pid_by_idx w)"
proof -
  note ok = registry_okD [OF assms]
  have ks: "distinct (or_empty (pid_to_keys w pid))"
    "set (or_empty (pid_to_keys w pid)) = {(db, v). get_ref (key_to_pids w) db v pid \<noteq> None}"
    and ps: "distinct (or_empty (pid_to_prefixes w pid))"
    "set (or_empty (pid_to_prefixes w pid)) = {(db, v). get_ref (prefix_to_pids w) db v pid \<noteq> None}"
    using ok(3,4) unfolding listed_def by blast+
  obtain km where km: "delete_values (or_empty (pid_to_keys w pid)) pid (key_to_pids w) = Inr km" "nested_ok km"
    "\<forall>db v pid'. get_ref km db v pid' = (if pid' = pid then None else get_ref (key_to_pids w) db v pid')"
    using delete_values_ok [OF ok(1) ks(1), of pid] ks(2) by auto
  obtain pm where pm: "delete_values (or_empty (pid_to_prefixes w pid)) pid (prefix_to_pids w) = Inr pm" "nested_ok pm"
    "\<forall>db v pid'. get_ref pm db v pid' = (if pid' = pid then None else get_ref (prefix_to_pids w) db v pid')"
    using delete_values_ok [OF ok(2) ps(1), of pid] ps(2) by auto
  obtain w' where run: "watch_delete_all w pid = Inr w'" using km(1) pm(1) by (simp add: watch_delete_all_def Let_def)
  define t where "t = (case idx_by_pid w pid of None \<Rightarrow> prefix_tree w
    | Some i \<Rightarrow> fold (\<lambda>(db, p) t. watch_prefix_tree_delete t db p i) (or_empty (pid_to_prefixes w pid)) (prefix_tree w))"
  have f: "key_to_pids w' = km" "prefix_to_pids w' = pm" "pid_to_keys w' = (pid_to_keys w)(pid := None)"
    "pid_to_prefixes w' = (pid_to_prefixes w)(pid := None)" "idx_by_pid w' = (idx_by_pid w)(pid := None)"
    "pid_by_idx w' = (case idx_by_pid w pid of None \<Rightarrow> pid_by_idx w | Some i \<Rightarrow> (pid_by_idx w)(i := None))"
    "prefix_tree w' = t"
    using run km(1) pm(1) by (auto simp: watch_delete_all_def Let_def t_def)
  have t: "watch_tree_ok t" "(db, v, i) \<in> tree_watches t \<longleftrightarrow>
      (db, v, i) \<in> tree_watches (prefix_tree w) \<and> (idx_by_pid w pid = Some i \<longrightarrow> get_ref (prefix_to_pids w) db v pid = None)" for db v i
    using ok(7) tree_deletes [OF ok(7)] ps(2) by (auto simp: t_def split: option.splits)
  have "registry_ok w'"
    unfolding registry_ok_def
  proof (intro conjI allI)
    show "nested_ok (key_to_pids w')" "nested_ok (prefix_to_pids w')" "watch_tree_ok (prefix_tree w')"
      using km(2) pm(2) t(1) by (simp_all add: f)
    show "listed (pid_to_keys w') (key_to_pids w')" using ok(3) km(3) by (auto simp: f listed_def)
    show "listed (pid_to_prefixes w') (prefix_to_pids w')" using ok(4) pm(3) by (auto simp: f listed_def)
    show "(idx_by_pid w' pid' = None) = (pid_to_prefixes w' pid' = None)" for pid' using ok(6) [of pid'] by (simp add: f)
    show "(idx_by_pid w' pid' = Some i) = (pid_by_idx w' i = Some pid')" for pid' i
      using ok(5) [of pid' i] ok(5) [of pid i] by (auto simp: f split: option.splits)
    show "((db, v, i) \<in> tree_watches (prefix_tree w')) =
        (\<exists>pid'. idx_by_pid w' pid' = Some i \<and> get_ref (prefix_to_pids w') db v pid' \<noteq> None)" for db v i
    proof -
      have inj: "pid' = pid" if "idx_by_pid w pid' = Some i" "idx_by_pid w pid = Some i" for pid'
        using that ok(5) [of pid' i] ok(5) [of pid i] by simp
      have left: "idx_by_pid w' pid' = Some i \<and> get_ref (prefix_to_pids w') db v pid' \<noteq> None \<longleftrightarrow>
          pid' \<noteq> pid \<and> idx_by_pid w pid' = Some i \<and> get_ref (prefix_to_pids w) db v pid' \<noteq> None" for pid'
        using pm(3) by (simp add: f)
      show ?thesis unfolding left f(7) t ok(8) using inj by metis
    qed
  qed
  moreover have "dom (pid_by_idx w') \<subseteq> dom (pid_by_idx w)" by (auto simp: f split: option.splits if_splits)
  ultimately show ?thesis using run km(3) pm(3) by (auto simp: f)
qed

lemma deletes_forget:
  "watch_delete w pid db key = Inr (Inr (w', n)) \<Longrightarrow> pid_by_idx w' = pid_by_idx w"
  "watch_delete_prefix w pid db key = Inr (Inr (w', n)) \<Longrightarrow> dom (pid_by_idx w') \<subseteq> dom (pid_by_idx w)"
  "watch_add w pid db key ref = Inr w' \<Longrightarrow> pid_by_idx w' = pid_by_idx w"
  "watch_add_prefix unique w pid db key ref = Inr w' \<Longrightarrow> dom (pid_by_idx w') \<subseteq> insert unique (dom (pid_by_idx w))"
  by (auto simp: watch_delete_def watch_delete_prefix_def watch_add_def watch_add_prefix_def ensure_pid_idx_def and_then_Inr
      case_prod_unfold
      split: if_splits option.splits)

section \<open>Lookups\<close>

lemma in_sorted_map: "bm_sorted m \<Longrightarrow> (k, x) \<in> set m \<longleftrightarrow> bm_get m k = Some x"
  unfolding bm_get_def by (rule map_of_eq_Some_iff [OF bm_sorted_distinct, symmetric])

lemma in_swap_pair [simp]: "(a, b) \<in> swap_pair ` A \<longleftrightarrow> (b, a) \<in> A"
  by (force simp: swap_pair_def image_iff)

lemma watch_lookup_set:
  "registry_ok w \<Longrightarrow> (ref, pid) \<in> set (watch_lookup w db key) \<longleftrightarrow> get_ref (key_to_pids w) db key pid = Some ref"
  using nested_get_sorted [OF registry_okD(1), of w db key]
  by (simp add: watch_lookup_def in_sorted_map get_ref_def)

lemma watch_lookup_prefix_set:
  assumes "registry_ok w"
  shows "(ref, pid) \<in> set (watch_lookup_prefix w db key) \<longleftrightarrow>
    (\<exists>p. prefix p key \<and> get_ref (prefix_to_pids w) db p pid = Some ref)"
proof -
  note ok = registry_okD [OF assms]
  have ids: "i \<in> set (watch_prefix_tree_lookup (prefix_tree w) db key) \<longleftrightarrow>
      (\<exists>p pid. prefix p key \<and> idx_by_pid w pid = Some i \<and> get_ref (prefix_to_pids w) db p pid \<noteq> None)" for i
    using watch_tree.look_set [OF ok(7)] ok(8) by (auto simp: watchers_of_def)
  have "set (or_empty (pid_to_prefixes w pid)) = {(db, v). get_ref (prefix_to_pids w) db v pid \<noteq> None}" for pid
    using ok(4) unfolding listed_def by blast
  then have own: "(db, v) \<in> set (or_empty (pid_to_prefixes w pid)) \<longleftrightarrow> get_ref (prefix_to_pids w) db v pid \<noteq> None" for v pid
    by blast
  have refs: "(ref, pid) \<in> set (prefix_refs w db key q) \<longleftrightarrow>
      q = pid \<and> (\<exists>p. prefix p key \<and> get_ref (prefix_to_pids w) db p pid = Some ref)" for q
  proof -
    have "(ref, pid) \<in> set (prefix_refs w db key q) \<longleftrightarrow> q = pid \<and>
        (\<exists>p. (db, p) \<in> set (or_empty (pid_to_prefixes w q)) \<and> prefix p key \<and> get_ref (prefix_to_pids w) db p q = Some ref)"
      proof
      assume "(ref, pid) \<in> set (prefix_refs w db key q)"
      then obtain p where "(db, p) \<in> set (or_empty (pid_to_prefixes w q))" "prefix p key"
          "(ref, pid) \<in> set (case get_ref (prefix_to_pids w) db p q of None \<Rightarrow> [] | Some r \<Rightarrow> [(r, q)])"
        by (auto simp: prefix_refs_def split: if_splits)
      then show "q = pid \<and> (\<exists>p. (db, p) \<in> set (or_empty (pid_to_prefixes w q)) \<and> prefix p key \<and>
          get_ref (prefix_to_pids w) db p q = Some ref)"
        by (cases "get_ref (prefix_to_pids w) db p q") auto
    next
      assume "q = pid \<and> (\<exists>p. (db, p) \<in> set (or_empty (pid_to_prefixes w q)) \<and> prefix p key \<and>
          get_ref (prefix_to_pids w) db p q = Some ref)"
      then show "(ref, pid) \<in> set (prefix_refs w db key q)"
        by (auto simp: prefix_refs_def intro!: bexI)
    qed
    then show ?thesis unfolding own by (metis option.distinct(1))
  qed
  have "(ref, pid) \<in> set (watch_lookup_prefix w db key) \<longleftrightarrow>
      (\<exists>i p. i \<in> set (watch_prefix_tree_lookup (prefix_tree w) db key) \<and> pid_by_idx w i = Some pid \<and>
      prefix p key \<and> get_ref (prefix_to_pids w) db p pid = Some ref)"
    by (force simp: watch_lookup_prefix_def refs split: option.splits)
  moreover have "\<exists>i. i \<in> set (watch_prefix_tree_lookup (prefix_tree w) db key) \<and> pid_by_idx w i = Some pid"
    if p: "prefix p key" "get_ref (prefix_to_pids w) db p pid = Some ref" for p
  proof -
    obtain i where i: "idx_by_pid w pid = Some i" using idx_listed [OF assms, of db p pid] p(2) by auto
    then have "pid_by_idx w i = Some pid" using ok(5) by blast
    moreover have "i \<in> set (watch_prefix_tree_lookup (prefix_tree w) db key)" unfolding ids using p i by auto
    ultimately show ?thesis by blast
  qed
  ultimately show ?thesis by blast
qed

lemma value_watchers_set:
  assumes "nested_ok m"
  shows "(pid, ref) \<in> set (value_watchers (or_empty (bm_get m db))) \<longleftrightarrow> (\<exists>v. get_ref m db v pid = Some ref)"
proof (cases "bm_get m db")
  case None
  then show ?thesis by (simp add: value_watchers_def get_ref_def get_pids_def)
next
  case (Some d)
  then have d: "bm_sorted d" "\<And>v ps. bm_get d v = Some ps \<Longrightarrow> bm_sorted ps" using assms by (auto simp: nested_ok_def)
  have "(pid, ref) \<in> set (value_watchers d) \<longleftrightarrow> (\<exists>v ps. bm_get d v = Some ps \<and> bm_get ps pid = Some ref)"
    using d by (force simp: value_watchers_def in_sorted_map [symmetric])
  then show ?thesis using Some by (auto simp: get_ref_def get_pids_def or_empty_def split: option.splits)
qed

lemma watch_lookup_by_db_set:
  assumes "registry_ok w"
  shows "(ref, pid) \<in> set (watch_lookup_by_db w db) \<longleftrightarrow>
    (\<exists>v. get_ref (key_to_pids w) db v pid = Some ref \<or> get_ref (prefix_to_pids w) db v pid = Some ref)"
  unfolding watch_lookup_by_db_def set_Enum_uniq set_map in_swap_pair set_append Un_iff
    value_watchers_set [OF registry_okD(1) [OF assms]] value_watchers_set [OF registry_okD(2) [OF assms]] by blast

lemma concat_watchers_set:
  assumes "nested_ok m"
  shows "(pid, ref) \<in> set (concat (map (value_watchers \<circ> snd) m)) \<longleftrightarrow> (\<exists>db v. get_ref m db v pid = Some ref)"
proof -
  have empty: "(pid, ref) \<notin> set (value_watchers [])" by (simp add: value_watchers_def)
  have m: "(db, d) \<in> set m \<longleftrightarrow> bm_get m db = Some d" for db d
    by (rule in_sorted_map) (use assms in \<open>simp add: nested_ok_def\<close>)
  have "(pid, ref) \<in> set (concat (map (value_watchers \<circ> snd) m)) \<longleftrightarrow>
      (\<exists>db d. (db, d) \<in> set m \<and> (pid, ref) \<in> set (value_watchers d))" by force
  also have "\<dots> \<longleftrightarrow> (\<exists>db. (pid, ref) \<in> set (value_watchers (or_empty (bm_get m db))))"
    unfolding m using empty by (metis option.exhaust or_empty_simps)
  finally show ?thesis by (simp add: value_watchers_set [OF assms])
qed

lemma watch_all_watchers_set:
  assumes "registry_ok w"
  shows "(pid, ref) \<in> set (watch_all_watchers w) \<longleftrightarrow>
    (\<exists>db v. get_ref (key_to_pids w) db v pid = Some ref \<or> get_ref (prefix_to_pids w) db v pid = Some ref)"
proof -
  have "(pid, ref) \<in> set (watch_all_watchers w) \<longleftrightarrow>
      (pid, ref) \<in> set (concat (map (value_watchers \<circ> snd) (key_to_pids w))) \<or>
      (pid, ref) \<in> set (concat (map (value_watchers \<circ> snd) (prefix_to_pids w)))"
    unfolding watch_all_watchers_def set_Enum_uniq set_append by blast
  then show ?thesis
    unfolding concat_watchers_set [OF registry_okD(1) [OF assms]] concat_watchers_set [OF registry_okD(2) [OF assms]] by blast
qed


section \<open>Histories\<close>

text \<open>
  The calls a process makes, one after the other; a call that is refused changes nothing. The specification keeps, for
  keys and for prefixes, the reference of each process.
\<close>

datatype ('p, 'r) registry_op =
    WatchKey 'p u64 bytes 'r
  | WatchPrefix i64 'p u64 bytes 'r
  | UnwatchKey 'p u64 bytes
  | UnwatchPrefix 'p u64 bytes
  | Forget 'p

fun registry_step :: "('p::linorder, 'r) registry_op \<Rightarrow> ('p, 'r) watch_registry \<Rightarrow> ('p, 'r) watch_registry elixir" where
  "registry_step (WatchKey pid db key ref) w = Inr (case watch_add w pid db key ref of Inl _ \<Rightarrow> w | Inr w' \<Rightarrow> w')"
| "registry_step (WatchPrefix unique pid db p ref) w =
     Inr (case watch_add_prefix unique w pid db p ref of Inl _ \<Rightarrow> w | Inr w' \<Rightarrow> w')"
| "registry_step (UnwatchKey pid db key) w =
     and_then (watch_delete w pid db key) (\<lambda>r. Inr (case r of Inl _ \<Rightarrow> w | Inr (w', n) \<Rightarrow> w'))"
| "registry_step (UnwatchPrefix pid db p) w =
     and_then (watch_delete_prefix w pid db p) (\<lambda>r. Inr (case r of Inl _ \<Rightarrow> w | Inr (w', n) \<Rightarrow> w'))"
| "registry_step (Forget pid) w = watch_delete_all w pid"

primrec registry_run ::
  "('p::linorder, 'r) registry_op list \<Rightarrow> ('p, 'r) watch_registry \<Rightarrow> ('p, 'r) watch_registry elixir" where
  "registry_run [] w = Inr w"
| "registry_run (c # cs) w = and_then (registry_step c w) (registry_run cs)"

type_synonym ('p, 'r) refs = "u64 \<Rightarrow> bytes \<Rightarrow> 'p \<Rightarrow> 'r option"

definition set_ref :: "u64 \<Rightarrow> bytes \<Rightarrow> 'p \<Rightarrow> 'r option \<Rightarrow> ('p, 'r) refs \<Rightarrow> ('p, 'r) refs" where
  "set_ref db v pid r f = (\<lambda>db' v' pid'. if db' = db \<and> v' = v \<and> pid' = pid then r else f db' v' pid')"

fun registry_spec :: "('p, 'r) registry_op \<Rightarrow> ('p, 'r) refs \<times> ('p, 'r) refs \<Rightarrow> ('p, 'r) refs \<times> ('p, 'r) refs" where
  "registry_spec (WatchKey pid db key ref) (K, P) = (if K db key pid = None then set_ref db key pid (Some ref) K else K, P)"
| "registry_spec (WatchPrefix unique pid db p ref) (K, P) = (K, if P db p pid = None then set_ref db p pid (Some ref) P else P)"
| "registry_spec (UnwatchKey pid db key) (K, P) = (set_ref db key pid None K, P)"
| "registry_spec (UnwatchPrefix pid db p) (K, P) = (K, set_ref db p pid None P)"
| "registry_spec (Forget pid) (K, P) =
     (\<lambda>db v pid'. if pid' = pid then None else K db v pid', \<lambda>db v pid'. if pid' = pid then None else P db v pid')"

definition registry_refs :: "('p, 'r) watch_registry \<Rightarrow> ('p, 'r) refs \<times> ('p, 'r) refs" where
  "registry_refs w = (get_ref (key_to_pids w), get_ref (prefix_to_pids w))"

fun new_ids :: "('p, 'r) registry_op list \<Rightarrow> i64 list" where
  "new_ids [] = []"
| "new_ids (WatchPrefix unique pid db p ref # cs) = unique # new_ids cs"
| "new_ids (_ # cs) = new_ids cs"

lemma without_set_ref: "without m db v pid m' \<longleftrightarrow> get_ref m' = set_ref db v pid None (get_ref m)"
  by (auto simp: without_def set_ref_def fun_eq_iff)

lemma put_set_ref: "get_ref (put_ref db v pid ref m) = set_ref db v pid (Some ref) (get_ref m)"
  by (auto simp: get_ref_put set_ref_def fun_eq_iff)

lemma set_ref_absent: "f db v pid = None \<Longrightarrow> set_ref db v pid None f = f"
  by (auto simp: set_ref_def fun_eq_iff)

lemma registry_step_refines:
  assumes "registry_ok w" "set (new_ids [c]) \<inter> dom (pid_by_idx w) = {}"
  shows "\<exists>w'. registry_step c w = Inr w' \<and> registry_ok w' \<and> registry_refs w' = registry_spec c (registry_refs w) \<and>
    dom (pid_by_idx w') \<subseteq> set (new_ids [c]) \<union> dom (pid_by_idx w)"
proof (cases c)
  case (WatchKey pid db key ref)
  show ?thesis
  proof (cases "watch_add w pid db key ref")
    case (Inl e)
    then have "get_ref (key_to_pids w) db key pid \<noteq> None" by (simp add: watch_add_def split: if_splits)
    with Inl assms(1) WatchKey show ?thesis by (auto simp: registry_refs_def)
  next
    case (Inr w')
    then have "get_ref (key_to_pids w) db key pid = None" by (simp add: watch_add_def split: if_splits)
    with Inr assms(1) WatchKey watch_add_ok [OF assms(1) Inr] deletes_forget(3) [OF Inr] show ?thesis
      by (simp add: registry_refs_def put_set_ref)
  qed
next
  case (WatchPrefix unique pid db p ref)
  show ?thesis
  proof (cases "watch_add_prefix unique w pid db p ref")
    case (Inl e)
    then have "get_ref (prefix_to_pids w) db p pid \<noteq> None"
      by (simp add: watch_add_prefix_def split: if_splits prod.splits)
    with Inl assms(1) WatchPrefix show ?thesis by (auto simp: registry_refs_def)
  next
    case (Inr w')
    then have "get_ref (prefix_to_pids w) db p pid = None" by (simp add: watch_add_prefix_def split: if_splits)
    moreover have "pid_by_idx w unique = None" using assms(2) WatchPrefix by auto
    ultimately show ?thesis
      using Inr WatchPrefix watch_add_prefix_ok [OF assms(1) Inr] deletes_forget(4) [OF Inr]
      by (simp add: registry_refs_def put_set_ref)
  qed
next
  case (UnwatchKey pid db key)
  show ?thesis
  proof (cases "get_ref (key_to_pids w) db key pid")
    case None
    then show ?thesis using assms(1) UnwatchKey by (simp add: watch_delete_def registry_refs_def set_ref_absent)
  next
    case (Some r)
    then obtain w' n where w': "watch_delete w pid db key = Inr (Inr (w', n))" "registry_ok w'"
        "without (key_to_pids w) db key pid (key_to_pids w')" "prefix_to_pids w' = prefix_to_pids w"
      using watch_delete_ok [OF assms(1), of db key pid] by auto
    then show ?thesis using UnwatchKey deletes_forget(1) [OF w'(1)] by (simp add: registry_refs_def without_set_ref)
  qed
next
  case (UnwatchPrefix pid db p)
  show ?thesis
  proof (cases "get_ref (prefix_to_pids w) db p pid")
    case None
    then show ?thesis using assms(1) UnwatchPrefix by (simp add: watch_delete_prefix_def registry_refs_def set_ref_absent)
  next
    case (Some r)
    then obtain w' n where w': "watch_delete_prefix w pid db p = Inr (Inr (w', n))" "registry_ok w'"
        "without (prefix_to_pids w) db p pid (prefix_to_pids w')" "key_to_pids w' = key_to_pids w"
      using watch_delete_prefix_ok [OF assms(1), of db p pid] by auto
    then show ?thesis using UnwatchPrefix deletes_forget(2) [OF w'(1)] by (simp add: registry_refs_def without_set_ref)
  qed
next
  case (Forget pid)
  obtain w' where "watch_delete_all w pid = Inr w'" "registry_ok w'" "dom (pid_by_idx w') \<subseteq> dom (pid_by_idx w)"
    "\<forall>db v pid'. get_ref (key_to_pids w') db v pid' = (if pid' = pid then None else get_ref (key_to_pids w) db v pid')"
    "\<forall>db v pid'. get_ref (prefix_to_pids w') db v pid' = (if pid' = pid then None else get_ref (prefix_to_pids w) db v pid')"
    using watch_delete_all_ok [OF assms(1), of pid] by blast
  then show ?thesis using Forget by (simp add: registry_refs_def fun_eq_iff)
qed

lemma new_ids_Cons: "new_ids (c # cs) = new_ids [c] @ new_ids cs"
  by (cases c) simp_all

lemma registry_run_refines:
  "registry_ok w \<Longrightarrow> distinct (new_ids cs) \<Longrightarrow> set (new_ids cs) \<inter> dom (pid_by_idx w) = {} \<Longrightarrow>
     \<exists>w'. registry_run cs w = Inr w' \<and> registry_ok w' \<and> registry_refs w' = fold registry_spec cs (registry_refs w)"
proof (induction cs arbitrary: w)
  case (Cons c cs)
  have "set (new_ids [c]) \<inter> dom (pid_by_idx w) = {}" using Cons.prems(3) unfolding new_ids_Cons [of c cs] by auto
  from registry_step_refines [OF Cons.prems(1) this] obtain w1 where
    w1: "registry_step c w = Inr w1" "registry_ok w1" "registry_refs w1 = registry_spec c (registry_refs w)"
      "dom (pid_by_idx w1) \<subseteq> set (new_ids [c]) \<union> dom (pid_by_idx w)" by blast
  have d: "distinct (new_ids cs)" "set (new_ids cs) \<inter> dom (pid_by_idx w1) = {}"
    using Cons.prems(2,3) w1(4) unfolding new_ids_Cons [of c cs] distinct_append set_append by blast+
  from Cons.IH [OF w1(2) d] show ?case using w1 by simp
qed simp



end
