(* ===== verification/Projection.thy ===== *)
theory Projection
  imports Command_Parser Watch_Registry
begin

text \<open>
  src/lib/veidrodelis/ts\_proj.ex: the process that applies the commands to the storage. Commands are buffered and flushed
  as one transaction of the storage NIF, at the end of every call of \<open>handle_commands\<close>, or, between \<open>SET __vdr_tx\<close> and
  \<open>DEL __vdr_tx\<close>, when the transaction ends. What a function does beside changing the state is a list of effects: the
  transactions it runs and the messages it sends. An exception, a panic of the NIF among them, ends the process.
\<close>

section \<open>State and effects\<close>

record replica_command =
  rc_db :: int
  rc_command :: eterm
  rc_raw_command :: "bytes list"
  rc_affected_keys :: "bytes list"

datatype watch_event = InitEvent | UpdateEvent eterm int

datatype ('p, 'r) proj_effect = Tx "eterm list" | Send 'p 'r watch_event

record ('v, 'i, 'p, 'r) TSProj =
  ts_storage :: "('v, 'i) StorageInner option"
  new_ts_storage :: "('v, 'i) StorageInner option"
  ready :: bool
  tx_buffer :: "(int \<times> eterm) list"
  in_transaction :: bool
  watch :: "('p, 'r) watch_registry"
  monitors :: "'p set"

definition initialize_state :: "('v, 'i, 'p, 'r) TSProj" where
  "initialize_state =
     \<lparr>ts_storage = Some StorageInner_new, new_ts_storage = None, ready = False, tx_buffer = [], in_transaction = False,
      watch = watch_create, monitors = {}\<rparr>"

definition handle_replication_start :: "('v, 'i, 'p, 'r) TSProj \<Rightarrow> ('v, 'i, 'p, 'r) TSProj" where
  "handle_replication_start st = st\<lparr>new_ts_storage := Some StorageInner_new, tx_buffer := [], in_transaction := False\<rparr>"

definition handle_streaming_start ::
  "('v, 'i, 'p, 'r) TSProj \<Rightarrow> ('v, 'i, 'p, 'r) TSProj \<times> ('p, 'r) proj_effect list" where
  "handle_streaming_start st =
     (st\<lparr>ts_storage := new_ts_storage st, new_ts_storage := None, ready := True\<rparr>,
      map (\<lambda>(pid, ref). Send pid ref InitEvent) (watch_all_watchers (watch st)))"

section \<open>Commands\<close>

definition tx_key :: bytes where
  "tx_key = ascii ''__vdr_tx''"

definition convert_command :: "int \<Rightarrow> eterm \<Rightarrow> eterm option" where
  "convert_command db command =
     (case command of
        E_tuple ts \<Rightarrow>
          (case ts of
             [t] \<Rightarrow> Some (E_tuple [E_int (if t = E_atom ''flushall'' then 0 else db), command])
           | [t, a] \<Rightarrow> if t = E_atom ''generic'' then None else Some (E_tuple [E_int db, command])
           | [t, a, b] \<Rightarrow> Some (E_tuple [E_int (if t = E_atom ''swapdb'' then 0 else db), command])
           | _ \<Rightarrow> Some (E_tuple [E_int db, command]))
      | _ \<Rightarrow> None)"

text \<open>The lists of keys within a command.\<close>

fun bin_keys :: "eterm \<Rightarrow> bytes list" where
  "bin_keys (E_list ts) = List.map_filter (\<lambda>t. case t of E_bin b \<Rightarrow> Some b | _ \<Rightarrow> None) ts"
| "bin_keys t = []"

fun pair_keys :: "eterm \<Rightarrow> bytes list" where
  "pair_keys (E_list ts) = List.map_filter (\<lambda>t. case t of E_tuple [E_bin k, v] \<Rightarrow> Some k | _ \<Rightarrow> None) ts"
| "pair_keys t = []"

definition one_key :: "eterm \<Rightarrow> bytes list" where
  "one_key t = (case t of E_bin b \<Rightarrow> [b] | _ \<Rightarrow> [])"

definition extract_affected_keys_for_notification :: "eterm \<Rightarrow> bytes list" where
  "extract_affected_keys_for_notification command =
     (case command of
        E_tuple [E_atom a, x] \<Rightarrow>
          (if a = ''del'' then bin_keys x
           else if a = ''mset'' \<or> a = ''msetex'' \<or> a = ''msetnx'' then pair_keys x
           else one_key x)
      | E_tuple [E_atom a, x, y] \<Rightarrow>
          (if a = ''rpoplpush'' \<or> a = ''rename'' \<or> a = ''renamenx'' then one_key x @ one_key y
           else if a = ''sunionstore'' \<or> a = ''sinterstore'' \<or> a = ''sdiffstore'' \<or> a = ''zdiffstore''
           then one_key x @ bin_keys y
           else one_key x)
      | E_tuple [E_atom a, x, y, z] \<Rightarrow>
          (if a = ''smove'' \<or> a = ''copy'' then one_key x @ one_key y else one_key x)
      | E_tuple [E_atom a, x, y, z, u] \<Rightarrow>
          (if a = ''lmove'' then one_key x @ one_key y
           else if a = ''zunionstore'' \<or> a = ''zinterstore'' then one_key x @ bin_keys y
           else one_key x)
      | E_tuple [E_atom a, x, y, z, u, v] \<Rightarrow>
          (if a = ''zrangestore'' then one_key x @ one_key y else [])
      | _ \<Rightarrow> [])"

definition update_to :: "eterm \<Rightarrow> int \<Rightarrow> 'r \<times> 'p \<Rightarrow> ('p, 'r) proj_effect" where
  "update_to command db w = Send (snd w) (fst w) (UpdateEvent command db)"

definition notify_watchers ::
  "('v, 'i, 'p, 'r) TSProj \<Rightarrow> int \<Rightarrow> eterm \<Rightarrow> bytes list \<Rightarrow> ('p, 'r) proj_effect list" where
  "notify_watchers st db command affected_keys =
     (if \<not> ready st then []
      else case command of
        E_tuple [E_atom a] \<Rightarrow>
          (if a = ''flushall'' then map (\<lambda>(pid, ref). Send pid ref (UpdateEvent command db)) (watch_all_watchers (watch st))
           else if a = ''flushdb'' then map (update_to command db) (watch_lookup_by_db (watch st) (word_of_int db))
           else concat (map (\<lambda>key. map (update_to command db)
             (Enum_uniq (watch_lookup (watch st) (word_of_int db) key @ watch_lookup_prefix (watch st) (word_of_int db) key)))
             affected_keys))
      | E_tuple [E_atom a, E_int db1, E_int db2] \<Rightarrow>
          (if a = ''swapdb'' then
             map (update_to command db)
               (Enum_uniq (watch_lookup_by_db (watch st) (word_of_int db1) @ watch_lookup_by_db (watch st) (word_of_int db2)))
           else concat (map (\<lambda>key. map (update_to command db)
             (Enum_uniq (watch_lookup (watch st) (word_of_int db) key @ watch_lookup_prefix (watch st) (word_of_int db) key)))
             affected_keys))
      | _ \<Rightarrow>
          concat (map (\<lambda>key. map (update_to command db)
            (Enum_uniq (watch_lookup (watch st) (word_of_int db) key @ watch_lookup_prefix (watch st) (word_of_int db) key)))
            affected_keys))"

text \<open>The storage that receives the writes.\<close>

definition write_target :: "('v, 'i, 'p, 'r) TSProj \<Rightarrow> ('v, 'i) StorageInner option" where
  "write_target st = (case new_ts_storage st of None \<Rightarrow> ts_storage st | Some s \<Rightarrow> Some s)"

definition put_target :: "('v, 'i) StorageInner \<Rightarrow> ('v, 'i, 'p, 'r) TSProj \<Rightarrow> ('v, 'i, 'p, 'r) TSProj" where
  "put_target s st = (case new_ts_storage st of None \<Rightarrow> st\<lparr>ts_storage := Some s\<rparr> | Some _ \<Rightarrow> st\<lparr>new_ts_storage := Some s\<rparr>)"

type_synonym ('v, 'i, 'p, 'r) proj_run = "(('v, 'i, 'p, 'r) TSProj \<times> ('p, 'r) proj_effect list) elixir"

definition flush_tx_buffer ::
  "eterm rustler \<Rightarrow> 'v vec_ops \<Rightarrow> score_ops \<Rightarrow> 'i index_ops \<Rightarrow> ('v, 'i, 'p, 'r) TSProj \<Rightarrow> ('v, 'i, 'p, 'r) proj_run" where
  "flush_tx_buffer D V S I st =
     (if tx_buffer st = [] then Inr (st, [])
      else
        let commands = rev (tx_buffer st);
            cmd_tuples = List.map_filter (\<lambda>(db, command). convert_command db command) commands;
            sends = (\<lambda>st. concat (map (\<lambda>(db, command).
              notify_watchers st db command (extract_affected_keys_for_notification command)) commands))
        in if cmd_tuples = [] then Inr (st\<lparr>tx_buffer := []\<rparr>, sends st)
           else case write_target st of
                  None \<Rightarrow> Inl ArgumentError
                | Some storage \<Rightarrow>
                    (case execute_write_commands D V S I cmd_tuples storage of
                       (None, _) \<Rightarrow> Inl NifPanicked
                     | (Some _, storage1) \<Rightarrow>
                         (let st1 = put_target storage1 st in Inr (st1\<lparr>tx_buffer := []\<rparr>, Tx cmd_tuples # sends st1))))"

definition buffered :: "replica_command \<Rightarrow> ('v, 'i, 'p, 'r) TSProj \<Rightarrow> ('v, 'i, 'p, 'r) TSProj" where
  "buffered rc st = st\<lparr>tx_buffer := (rc_db rc, rc_command rc) # tx_buffer st\<rparr>"

definition starts_tx :: "eterm \<Rightarrow> bool" where
  "starts_tx command = (case command of E_tuple [a, k, v] \<Rightarrow> a = E_atom ''set'' \<and> k = E_bin tx_key | _ \<Rightarrow> False)"

definition ends_tx :: "eterm \<Rightarrow> bool" where
  "ends_tx command = (case command of E_tuple [a, ks] \<Rightarrow> a = E_atom ''del'' \<and> tx_key \<in> set (bin_keys ks) | _ \<Rightarrow> False)"

definition process_single_command ::
  "eterm rustler \<Rightarrow> 'v vec_ops \<Rightarrow> score_ops \<Rightarrow> 'i index_ops \<Rightarrow> replica_command \<Rightarrow> ('v, 'i, 'p, 'r) TSProj \<Rightarrow>
     ('v, 'i, 'p, 'r) proj_run" where
  "process_single_command D V S I rc st =
     (if starts_tx (rc_command rc) then
        and_then (flush_tx_buffer D V S I st) (\<lambda>(st1, es).
          Inr (st1\<lparr>in_transaction := True, tx_buffer := [(rc_db rc, rc_command rc)]\<rparr>, es))
      else if ends_tx (rc_command rc) then
        and_then (flush_tx_buffer D V S I (buffered rc st)) (\<lambda>(st1, es). Inr (st1\<lparr>in_transaction := False\<rparr>, es))
      else Inr (buffered rc st, []))"

primrec process_commands ::
  "eterm rustler \<Rightarrow> 'v vec_ops \<Rightarrow> score_ops \<Rightarrow> 'i index_ops \<Rightarrow> replica_command list \<Rightarrow> ('v, 'i, 'p, 'r) TSProj \<Rightarrow>
     ('v, 'i, 'p, 'r) proj_run" where
  "process_commands D V S I [] st = Inr (st, [])"
| "process_commands D V S I (rc # rcs) st =
     and_then (process_single_command D V S I rc st) (\<lambda>(st1, es1).
       and_then (process_commands D V S I rcs st1) (\<lambda>(st2, es2). Inr (st2, es1 @ es2)))"

definition handle_commands ::
  "eterm rustler \<Rightarrow> 'v vec_ops \<Rightarrow> score_ops \<Rightarrow> 'i index_ops \<Rightarrow> replica_command list \<Rightarrow> ('v, 'i, 'p, 'r) TSProj \<Rightarrow>
     ('v, 'i, 'p, 'r) proj_run" where
  "handle_commands D V S I commands st =
     and_then (process_commands D V S I commands st) (\<lambda>(st1, es1).
       if in_transaction st1 then Inr (st1, es1)
       else and_then (flush_tx_buffer D V S I st1) (\<lambda>(st2, es2). Inr (st2, es1 @ es2)))"

section \<open>Calls of the watchers\<close>

datatype ('p, 'r) watch_call =
    CallWatch 'p u64 bytes 'r | CallWatchPrefix i64 'p u64 bytes 'r | CallUnwatch 'p u64 bytes | CallUnwatchPrefix 'p u64 bytes

definition put_watch_and_monitor ::
  "('v, 'i, 'p, 'r) TSProj \<Rightarrow> ('p, 'r) watch_registry \<Rightarrow> 'p \<Rightarrow> ('v, 'i, 'p, 'r) TSProj" where
  "put_watch_and_monitor st w pid = st\<lparr>watch := w, monitors := insert pid (monitors st)\<rparr>"

definition unwatched ::
  "('v, 'i, 'p, 'r) TSProj \<Rightarrow> 'p \<Rightarrow> (watch_error + ('p, 'r) watch_registry \<times> nat) elixir \<Rightarrow>
     ((watch_error + unit) \<times> ('v, 'i, 'p, 'r) TSProj) elixir" where
  "unwatched st pid r =
     and_then r (\<lambda>r. Inr (case r of
        Inl e \<Rightarrow> (Inl e, st)
      | Inr (w, remaining) \<Rightarrow>
          (Inr (), if remaining = 0 then st\<lparr>watch := w, monitors := monitors st - {pid}\<rparr> else st\<lparr>watch := w\<rparr>)))"

fun handle_call ::
  "('p::linorder, 'r) watch_call \<Rightarrow> ('v, 'i, 'p, 'r) TSProj \<Rightarrow> ((watch_error + unit) \<times> ('v, 'i, 'p, 'r) TSProj) elixir" where
  "handle_call (CallWatch pid db key ref) st =
     Inr (case watch_add (watch st) pid db key ref of
            Inl e \<Rightarrow> (Inl e, st) | Inr w \<Rightarrow> (Inr (), put_watch_and_monitor st w pid))"
| "handle_call (CallWatchPrefix unique pid db pfx ref) st =
     Inr (case watch_add_prefix unique (watch st) pid db pfx ref of
            Inl e \<Rightarrow> (Inl e, st) | Inr w \<Rightarrow> (Inr (), put_watch_and_monitor st w pid))"
| "handle_call (CallUnwatch pid db key) st = unwatched st pid (watch_delete (watch st) pid db key)"
| "handle_call (CallUnwatchPrefix pid db pfx) st = unwatched st pid (watch_delete_prefix (watch st) pid db pfx)"

definition handle_down :: "'p::linorder \<Rightarrow> ('v, 'i, 'p, 'r) TSProj \<Rightarrow> ('v, 'i, 'p, 'r) TSProj elixir" where
  "handle_down pid st =
     and_then (watch_delete_all (watch st) pid) (\<lambda>w. Inr (st\<lparr>watch := w, monitors := monitors st - {pid}\<rparr>))"

end
