(* ===== verification/Notifications.thy ===== *)
theory Notifications
  imports Parsed_Commands Projection
begin

text \<open>
  The projection tells the watchers of a key about every command that changes it: the keys it extracts from a parsed command
  cover the keys the storage writes.
\<close>

section \<open>The keys of a parsed command\<close>

definition told :: "eterm \<Rightarrow> u64 \<Rightarrow> u64 \<Rightarrow> bytes \<Rightarrow> bool" where
  "told c db d key \<longleftrightarrow>
     c = cmd ''flushall'' [] \<or> c = cmd ''flushdb'' [] \<and> d = db \<or>
     (\<exists>x y. c = cmd ''swapdb'' [E_int x, E_int y] \<and> (d = word_of_int x \<or> d = word_of_int y)) \<or>
     (\<exists>name args. c = cmd name args \<and> name \<notin> {''flushall'', ''flushdb'', ''swapdb''} \<and>
        key \<in> set (extract_affected_keys_for_notification c) \<and> (d = db \<or> name = ''move_key''))"

definition covers :: "eterm rustler \<Rightarrow> eterm \<Rightarrow> bytes list \<Rightarrow> bool" where
  "covers D c ks \<longleftrightarrow>
     (\<exists>name args. c = cmd name args \<and>
        (\<forall>w db d key. decode_command D name args = Ok w \<longrightarrow> (d, key) \<in> writes db w \<longrightarrow> told c db d key))"

lemma covers_cmd:
  "(\<And>w db d key. decode_command D name args = Ok w \<Longrightarrow> (d, key) \<in> writes db w \<Longrightarrow> told (cmd name args) db d key) \<Longrightarrow>
     covers D (cmd name args) ks"
  by (auto simp: covers_def)

lemma told_key:
  "name \<notin> {''flushall'', ''flushdb'', ''swapdb''} \<Longrightarrow>
     told (cmd name args) db d key \<longleftrightarrow>
       key \<in> set (extract_affected_keys_for_notification (cmd name args)) \<and> (d = db \<or> name = ''move_key'')"
  by (auto simp: told_def)

lemma told_all [simp]:
  "told (cmd ''flushall'' []) db d key" "told (cmd ''flushdb'' []) db db key"
  "d = word_of_int x \<or> d = word_of_int y \<Longrightarrow> told (cmd ''swapdb'' [E_int x, E_int y]) db d key"
  by (auto simp: told_def)

lemma keys_of_lists [simp]: "bin_keys (binaries ks) = ks" "pair_keys (pairs_term ps) = map fst ps"
proof -
  show "bin_keys (binaries ks) = ks" by (induction ks) (simp_all add: binaries_def List.map_filter_def)
  show "pair_keys (pairs_term ps) = map fst ps" by (induction ps) (auto simp: pairs_term_def List.map_filter_def)
qed

lemmas told_simps = told_key extract_affected_keys_for_notification_def one_key_def

context term_codec
begin

lemma generic_covers [yields_intros]: "yields (covers D) (generic args)"
  unfolding generic_def by (intro yields_intros covers_cmd) (simp add: decode_command_def)

lemma zstore_covers:
  "yields (covers D) (parse_zstore_command dest_key args ''zunionstore'')"
  "yields (covers D) (parse_zstore_command dest_key args ''zinterstore'')"
  unfolding parse_zstore_command_def Let_def
  by (intro yields_intros covers_cmd; auto simp: decode_command_def args4_def told_simps split: option.splits if_splits)+

lemma hsetex_covers: "yields (covers D) (parse_hsetex key args)"
  unfolding parse_hsetex_def
  by (intro yields_intros covers_cmd) (auto simp: decode_command_def args3_def told_simps split: option.splits)

lemma named_covers: "yields (covers D) (parse_named G name rest)"
  unfolding parse_named_def
  by (intro yields_intros zstore_covers hsetex_covers covers_cmd)
    (auto simp: decode_command_def args_defs told_simps dest!: dec_u64_decoded split: option.splits prod.splits if_splits)

lemma parse_covers: "yields (covers D) (parse G args)"
  by (auto simp: parse_def named_covers generic_covers split: list.split)

end

section \<open>The watchers of a key\<close>

definition watched :: "('p::linorder, 'r) watch_registry \<Rightarrow> u64 \<Rightarrow> bytes \<Rightarrow> 'p \<Rightarrow> 'r \<Rightarrow> bool" where
  "watched w db key pid ref \<longleftrightarrow>
     get_ref (key_to_pids w) db key pid = Some ref \<or>
     (\<exists>p. prefix p key \<and> get_ref (prefix_to_pids w) db p pid = Some ref)"

lemma key_watchers:
  "registry_ok w \<Longrightarrow> watched w db key pid ref \<Longrightarrow>
     (ref, pid) \<in> set (Enum_uniq (watch_lookup w db key @ watch_lookup_prefix w db key))"
  by (auto simp: watched_def watch_lookup_set watch_lookup_prefix_set)

lemma db_watchers:
  "registry_ok w \<Longrightarrow> watched w db key pid ref \<Longrightarrow> (ref, pid) \<in> set (watch_lookup_by_db w db)"
  "registry_ok w \<Longrightarrow> watched w db key pid ref \<Longrightarrow> (pid, ref) \<in> set (watch_all_watchers w)"
  by (auto simp: watched_def watch_lookup_by_db_set watch_all_watchers_set)

lemma update_sent: "(ref, pid) \<in> set ws \<Longrightarrow> Send pid ref (UpdateEvent c db) \<in> set (map (update_to c db) ws)"
  by (force simp: update_to_def)

lemma keys_sent:
  assumes "registry_ok w" "key \<in> set ks" "watched w (word_of_int db) key pid ref"
  shows "Send pid ref (UpdateEvent c db) \<in> set (concat (map (\<lambda>key. map (update_to c db)
    (Enum_uniq (watch_lookup w (word_of_int db) key @ watch_lookup_prefix w (word_of_int db) key))) ks))"
  unfolding set_concat set_map by (rule UN_I [OF imageI [OF assms(2)]]) (rule update_sent [OF key_watchers [OF assms(1,3)]])

lemma notify_keys:
  assumes "ready st" "name \<notin> {''flushall'', ''flushdb'', ''swapdb''}"
  shows "notify_watchers st db (cmd name args) ks =
    concat (map (\<lambda>key. map (update_to (cmd name args) db)
      (Enum_uniq (watch_lookup (watch st) (word_of_int db) key @ watch_lookup_prefix (watch st) (word_of_int db) key))) ks)"
proof (cases "\<exists>x y. args = [E_int x, E_int y]")
  case True
  then show ?thesis using assms by (auto simp: notify_watchers_def)
next
  case False
  have "(case cmd name args of E_tuple [E_atom a, E_int db1, E_int db2] \<Rightarrow> f a db1 db2 | _ \<Rightarrow> g) = g" for f g
    using False by (auto split: list.split eterm.split)
  then show ?thesis using assms False by (cases args) (auto simp: notify_watchers_def split: list.split eterm.split)
qed

lemma told_sent:
  assumes "registry_ok (watch st)" "ready st" "told c (word_of_int db) d key" "watched (watch st) d key pid ref"
    "d = word_of_int db \<or> (\<forall>args. c \<noteq> cmd ''move_key'' args)"
  shows "Send pid ref (UpdateEvent c db) \<in> set (notify_watchers st db c (extract_affected_keys_for_notification c))"
proof -
  have move: "name = ''move_key'' \<Longrightarrow> c = cmd name args \<Longrightarrow> d = word_of_int db" for name args
    using assms(5) by metis
  consider "c = cmd ''flushall'' []" | "c = cmd ''flushdb'' []" "d = word_of_int db"
    | x y where "c = cmd ''swapdb'' [E_int x, E_int y]" "d = word_of_int x \<or> d = word_of_int y"
    | name args where "c = cmd name args" "name \<notin> {''flushall'', ''flushdb'', ''swapdb''}"
      "key \<in> set (extract_affected_keys_for_notification c)" "d = word_of_int db"
    using assms(3) unfolding told_def by (elim disjE exE conjE) (use move in metis)+
  then show ?thesis
  proof cases
    case 1
    have "notify_watchers st db c ks = map (\<lambda>(pid, ref). Send pid ref (UpdateEvent c db)) (watch_all_watchers (watch st))" for ks
      using assms(2) 1 by (simp add: notify_watchers_def)
    then show ?thesis using imageI [OF db_watchers(2) [OF assms(1,4)], of "\<lambda>(pid, ref). Send pid ref (UpdateEvent c db)"]
      by simp
  next
    case 2
    have "notify_watchers st db c ks = map (update_to c db) (watch_lookup_by_db (watch st) (word_of_int db))" for ks
      using assms(2) 2(1) by (simp add: notify_watchers_def)
    then show ?thesis using update_sent [OF db_watchers(1) [OF assms(1,4)], of c db] 2(2) by simp
  next
    case (3 x y)
    let ?ws = "Enum_uniq (watch_lookup_by_db (watch st) (word_of_int x) @ watch_lookup_by_db (watch st) (word_of_int y))"
    have "notify_watchers st db c ks = map (update_to c db) ?ws" for ks
      using assms(2) 3(1) by (simp add: notify_watchers_def)
    moreover have "(ref, pid) \<in> set ?ws" using 3(2) db_watchers(1) [OF assms(1,4)] by auto
    ultimately show ?thesis using update_sent [of ref pid ?ws c db] by simp
  next
    case (4 name args)
    have "watched (watch st) (word_of_int db) key pid ref" using assms(4) 4(4) by simp
    from keys_sent [OF assms(1) 4(3) this, of c] show ?thesis
      unfolding 4(1) notify_keys [OF assms(2) 4(2)] .
  qed
qed

text \<open>
  C8. Watchers miss no change. When a command of the stream changes what the storage holds at a key, then every process that
  watches the key, or a prefix of it, in that database is sent an update with the command; the one exception is the
  database a \<open>MOVE\<close> moves to, whose watchers are not told.
\<close>

theorem changes_notified:
  assumes "term_codec D" "nif V S I D" "storage_ok S I s" "parse G args = Inr (c, ks)" "0 \<le> db" "db < 2 ^ 64"
    "convert_command db c = Some t" "request_ranges_ok S (decode_term D t)"
    "abs_storage V (snd (execute D V S I s t)) d key \<noteq> abs_storage V s d key"
    "registry_ok (watch st)" "ready st" "watched (watch st) d key pid ref"
    "d = word_of_int db \<or> (\<forall>args. c \<noteq> cmd ''move_key'' args)"
  shows "Send pid ref (UpdateEvent c db) \<in> set (notify_watchers st db c (extract_affected_keys_for_notification c))"
proof -
  obtain name as where c: "c = cmd name as"
    "\<And>w db d key. decode_command D name as = Ok w \<Longrightarrow> (d, key) \<in> writes db w \<Longrightarrow> told c db d key"
    using term_codec.parse_covers [OF assms(1), of G args] assms(4) by (auto simp: yields_def covers_def)
  obtain db1 where t: "t = E_tuple [E_int db1, c]" "0 \<le> db1" "db1 < 2 ^ 64"
    "db1 = db \<or> c = cmd ''flushall'' [] \<or> (\<exists>x y. c = cmd ''swapdb'' [x, y])"
    using assms(5-7) c(1) by (auto simp: convert_command_def split: list.splits if_splits)
  have dt: "decode_term D t = map_sum id (Pair (word_of_int db1)) (decode_command D name as)"
    using term_codec.decode_tuple [OF assms(1) t(2,3)] t(1) c(1) by simp
  have e: "snd (spec_request S (decode_term D t) (abs_storage V s)) = abs_storage V (snd (execute D V S I s t))"
    using nif.execute_step(2) [OF assms(2,3,8)] by simp
  show ?thesis
  proof (cases "decode_command D name as")
    case (Inl er)
    then show ?thesis using e dt assms(9) by (simp add: spec_request_def)
  next
    case (Inr w)
    then have "(d, key) \<in> writes (word_of_int db1) w"
      using e dt assms(9) spec_command_frame [of d key "word_of_int db1" w S "abs_storage V s"] by (auto simp: spec_request_def)
    from c(2) [OF Inr this] have "told c (word_of_int db1) d key" .
    then have "told c (word_of_int db) d key" using t(4) by (auto simp: told_def)
    from told_sent [OF assms(10,11) this assms(12,13)] show ?thesis .
  qed
qed

theorem changes_notified_witness:
  "\<exists>w. watch_add watch_create (1 :: nat) 3 [107] True = Inr w \<and>
     Send 1 True (UpdateEvent (cmd ''incr'' [E_bin [107]]) 3) \<in>
       set (notify_watchers (initialize_state\<lparr>watch := w, ready := True\<rparr> :: (bytes list, ZSetIndexKey list, nat, bool) TSProj)
         3 (cmd ''incr'' [E_bin [107]]) (extract_affected_keys_for_notification (cmd ''incr'' [E_bin [107]])))"
proof -
  let ?c = "cmd ''incr'' [E_bin [107]]" and ?t = "E_tuple [E_int 3, cmd ''incr'' [E_bin [107]]]"
  let ?s = "StorageInner_new :: (bytes list, ZSetIndexKey list) StorageInner"
  obtain w :: "(nat, bool) watch_registry" where w: "watch_add watch_create 1 3 [107] True = Inr w"
    by (simp add: watch_add_def get_ref_def get_pids_def watch_create_def or_empty_def)
  have p: "parse (drop 1) [ascii ''INCR'', [107]] = Inr (?c, [[107]])" by (simp add: parse_def parse_named_def ascii_def)
  have k: "convert_command 3 ?c = Some ?t" by (simp add: convert_command_def)
  have d: "decode_term erlang ?t = Ok (3, C_incr [107])" by (simp add: decode_erlang)
  have r: "request_ranges_ok f64_ops (decode_term erlang ?t)" by (simp add: d ranges_ok_def)
  have "snd (spec_request f64_ops (decode_term erlang ?t) (abs_storage list_vec ?s)) =
      abs_storage list_vec (snd (execute erlang list_vec f64_ops f64_index ?s ?t))"
    using erlang_nif.execute_step(2) [OF storage_ok_new r] by simp
  moreover have "snd (spec_request f64_ops (decode_term erlang ?t) (abs_storage list_vec ?s)) 3 [107] \<noteq> None"
    by (simp add: d spec_request_def at_key_def ks_update_apply i64_range_def abs_storage_def lookup_new)
  ultimately have ch: "abs_storage list_vec (snd (execute erlang list_vec f64_ops f64_index ?s ?t)) 3 [107] \<noteq>
      abs_storage list_vec ?s 3 [107]"
    by (simp add: abs_storage_def lookup_new)
  let ?st = "initialize_state\<lparr>watch := w, ready := True\<rparr> :: (bytes list, ZSetIndexKey list, nat, bool) TSProj"
  have "registry_ok (watch ?st)" "watched (watch ?st) 3 [107] 1 True"
    using watch_add_ok [OF registry_ok_create w] by (simp_all add: watched_def get_ref_put)
  from changes_notified [OF erlang_terms.term_codec_axioms erlang_nif.nif_axioms storage_ok_new p _ _ k r ch this(1) _ this(2)]
  show ?thesis using w by auto
qed

end
