(* ===== verification/Replica_Stream.thy ===== *)
theory Replica_Stream
  imports Replica
begin

text \<open>
  The replication stream parser of \<open>Replica\<close> is a chunked parser in the sense of \<open>Incremental\<close>: the interface holds for it
  because it holds for the RDB parser within. The theory then shows what the parser returns for a whole stream.
\<close>

section \<open>The flags\<close>

text \<open>The two flags say what came with the last feed; nothing depends on them.\<close>

definition plain :: "ReplicaParser \<Rightarrow> ReplicaParser" where
  "plain st = st\<lparr>ping_received := False, replconf_getack_received := False\<rparr>"

lemma plain_simps [simp]:
  "rbuffer (plain st) = rbuffer st" "rstate (plain st) = rstate st" "rcurrent_db (plain st) = rcurrent_db st"
  "rdb_parser (plain st) = rdb_parser st" "rdb_bulk_size (plain st) = rdb_bulk_size st"
  "rdb_bytes_read (plain st) = rdb_bytes_read st" "plain (plain st) = plain st"
  "plain (st\<lparr>ping_received := p\<rparr>) = plain st" "plain (st\<lparr>replconf_getack_received := g\<rparr>) = plain st"
  "plain (st\<lparr>rbuffer := b\<rparr>) = (plain st)\<lparr>rbuffer := b\<rparr>" "plain (st\<lparr>rstate := r\<rparr>) = (plain st)\<lparr>rstate := r\<rparr>"
  "plain (st\<lparr>rcurrent_db := d\<rparr>) = (plain st)\<lparr>rcurrent_db := d\<rparr>" "plain (st\<lparr>rdb_parser := q\<rparr>) = (plain st)\<lparr>rdb_parser := q\<rparr>"
  "plain (st\<lparr>rdb_bulk_size := s\<rparr>) = (plain st)\<lparr>rdb_bulk_size := s\<rparr>"
  "plain (st\<lparr>rdb_bytes_read := n\<rparr>) = (plain st)\<lparr>rdb_bytes_read := n\<rparr>"
  by (cases st; simp add: plain_def)+

lemma process_elements_plain:
  "map_prod id plain (process_elements (plain st) es) = map_prod id plain (process_elements st es)"
proof (cases es)
  case (Cons name args)
  show ?thesis
  proof (cases args)
    case Nil
    then show ?thesis by (simp add: process_elements_def Let_def Cons)
  next
    case (Cons a as)
    then show ?thesis by (cases "parse_uint 32 a") (simp_all add: process_elements_def Let_def \<open>es = name # args\<close>)
  qed
qed (simp add: process_elements_def)

lemma header_plain: "map_prod id plain (parse_rdb_header (plain st)) = map_prod id plain (parse_rdb_header st)"
proof (cases "find_crlf (skip_newlines (rbuffer st))")
  case (Some c)
  then show ?thesis
    by (cases "parse_uint 64 (take (c - 1) (drop 1 (skip_newlines (rbuffer st))))") (simp_all add: parse_rdb_header_def Let_def)
qed (simp add: parse_rdb_header_def Let_def)

lemma command_plain: "map_prod id plain (parse_command (plain st)) = map_prod id plain (parse_command st)"
proof (cases "find_crlf (skip_newlines (rbuffer st))")
  case (Some c)
  let ?b = "skip_newlines (rbuffer st)"
  show ?thesis
  proof (cases "parse_uint 64 (take (c - 1) (drop 1 ?b))")
    case None
    then show ?thesis using Some by (simp add: parse_command_def Let_def)
  next
    case n: (Some n)
    show ?thesis
    proof (cases "parse_elements n ?b (c + 2)")
      case (Inr r)
      show ?thesis
      proof (cases r)
        case (Some ec)
        obtain es cur where ec: "ec = (es, cur)" by fastforce
        have "map_prod id plain (process_elements ((plain st)\<lparr>rbuffer := drop cur ?b\<rparr>) es) =
            map_prod id plain (process_elements (st\<lparr>rbuffer := drop cur ?b\<rparr>) es)"
          using process_elements_plain [of "st\<lparr>rbuffer := drop cur ?b\<rparr>" es] by simp
        then show ?thesis using \<open>find_crlf ?b = Some c\<close> n Inr Some ec
          by (auto simp: parse_command_def Let_def split: prod.splits)
      qed (use \<open>find_crlf ?b = Some c\<close> n Inr in \<open>simp add: parse_command_def Let_def\<close>)
    qed (use \<open>find_crlf ?b = Some c\<close> n in \<open>simp add: parse_command_def Let_def\<close>)
  qed
qed (simp add: parse_command_def Let_def)

lemma rdb_data_plain: "map_prod id plain (stream_rdb_data (plain st)) = map_prod id plain (stream_rdb_data st)"
proof (cases "rdb_bulk_size st")
  case (Some n)
  then show ?thesis
    by (cases "rdb_parser st") (simp_all add: stream_rdb_data_def Let_def split: sum.split prod.split)
qed (simp add: stream_rdb_data_def)

lemma step_plain:
  "map_prod id plain (replica_parse_step (plain st)) = map_prod id plain (replica_parse_step st)"
  by (cases "rstate st") (simp_all add: replica_parse_step_def header_plain command_plain rdb_data_plain)

definition replica_action :: "ReplicaParser \<Rightarrow> (ReplicaParser, RawCommand, stream_error) action" where
  "replica_action st =
     (case replica_parse_step st of
        (Next, st1) \<Rightarrow> Go (plain st1) []
      | (Return (Inl e), st1) \<Rightarrow> Fail e
      | (Return (Inr None), st1) \<Rightarrow> Stop (plain st1)
      | (Return (Inr (Some cs)), st1) \<Rightarrow> Go (plain st1) cs)"

definition replica_run :: "ReplicaParser \<Rightarrow> (ReplicaParser, RawCommand, stream_error) progress" where
  "replica_run st = outcome_of (map_prod id plain (replica_feed_loop st))"

definition append_stream :: "ReplicaParser \<Rightarrow> bytes \<Rightarrow> ReplicaParser" where
  "append_stream st x = st\<lparr>rbuffer := rbuffer st @ x\<rparr>"

lemma append_stream_simps [simp]:
  "rbuffer (append_stream st x) = rbuffer st @ x" "rstate (append_stream st x) = rstate st"
  "rdb_parser (append_stream st x) = rdb_parser st" "rdb_bulk_size (append_stream st x) = rdb_bulk_size st"
  "rdb_bytes_read (append_stream st x) = rdb_bytes_read st"
  "append_stream st [] = st" "append_stream (append_stream st x) y = append_stream st (x @ y)"
  "plain (append_stream st x) = append_stream (plain st) x"
  by (simp_all add: append_stream_def)

lemma replica_loop_step:
  "replica_run st =
     (case replica_parse_step st of
        (Next, st1) \<Rightarrow> replica_run st1
      | (Return (Inl e), st1) \<Rightarrow> Inl e
      | (Return (Inr None), st1) \<Rightarrow> Inr ([], plain st1)
      | (Return (Inr (Some cs)), st1) \<Rightarrow> emit cs (replica_run st1))"
proof -
  obtain r st1 where s: "replica_parse_step st = (r, st1)" by fastforce
  have some: "replica_feed_loop st = (case replica_feed_loop st1 of (Inl e, st2) \<Rightarrow> (Inl e, st2) | (Inr cs', st2) \<Rightarrow> (Inr (cs @ cs'), st2))"
    if "r = Return (Inr (Some cs))" for cs
    using that s by (simp add: replica_feed_loop.simps [of st] replica_parse_next.simps [of st])
  have "replica_feed_loop st = replica_feed_loop st1" if "r = Next"
    using that s
    by (simp add: replica_feed_loop.simps [of st] replica_feed_loop.simps [of st1] replica_parse_next.simps [of st])
  then show ?thesis
    using s some
    by (auto simp: replica_run_def replica_feed_loop.simps [of st] replica_parse_next.simps [of st] emit_def outcome_of_def
        split: flow.split sum.split option.split prod.split)
qed

lemma run_plain: "replica_run (plain st) = replica_run st"
proof (induction "length (rbuffer st)" arbitrary: st rule: less_induct)
  case less
  obtain r st1 where s: "replica_parse_step st = (r, st1)" by fastforce
  obtain st2 where t: "replica_parse_step (plain st) = (r, st2)" "plain st2 = plain st1"
    using step_plain [of st] s by (cases "replica_parse_step (plain st)") auto
  have "replica_run st2 = replica_run st1" if "r = Next \<or> r = Return (Inr (Some cs))" for cs
  proof -
    have "length (rbuffer st1) < length (rbuffer st)" "length (rbuffer st2) < length (rbuffer st)"
      using replica_step_shorter [OF s] replica_step_shorter [OF t(1)] that by auto
    then show ?thesis using less [of st1] less [of st2] t(2) by simp
  qed
  then show ?case using s t
    by (simp add: replica_loop_step [of st] replica_loop_step [of "plain st"] split: flow.split sum.split option.split)
qed

lemma replica_run_step:
  "replica_run st =
     (case replica_action st of Stop st1 \<Rightarrow> Inr ([], st1) | Go st1 cs \<Rightarrow> emit cs (replica_run st1) | Fail e \<Rightarrow> Inl e)"
  by (subst replica_loop_step) (simp add: replica_action_def run_plain split: prod.split flow.split sum.split option.split)

lemma replica_action_weight: "replica_action st = Go st1 cs \<Longrightarrow> length (rbuffer st1) < length (rbuffer st)"
  by (auto simp: replica_action_def replica_step_shorter split: prod.splits flow.splits sum.splits option.splits)

lemma replica_run_append_plain: "replica_run (append_stream (plain st) x) = replica_run (append_stream st x)"
  using run_plain [of "append_stream st x"] by simp

section \<open>More bytes\<close>

lemma find_crlf_more: "find_crlf b = Some p \<Longrightarrow> find_crlf (b @ x) = Some p"
  by (induction b arbitrary: p rule: find_crlf.induct) (auto split: if_splits)

lemma find_crlf_within: "find_crlf b = Some p \<Longrightarrow> p + 2 \<le> length b"
  by (induction b arbitrary: p rule: find_crlf.induct) (auto split: if_splits)

lemma find_crlf_at: "13 \<notin> set ds \<Longrightarrow> find_crlf (ds @ [13, 10] @ r) = Some (length ds)"
proof (induction ds)
  case (Cons d ds)
  then show ?case by (cases ds) auto
qed simp

lemma skip_newlines_append:
  "skip_newlines (skip_newlines b @ x) = skip_newlines (b @ x)"
  "skip_newlines b \<noteq> [] \<Longrightarrow> skip_newlines (b @ x) = skip_newlines b @ x"
  by (induction b) (auto simp: skip_newlines_def)

lemma parse_elements_more:
  "length (b @ x) < 2 ^ 63 \<Longrightarrow> parse_elements n b c \<noteq> Inr None \<Longrightarrow> parse_elements n (b @ x) c = parse_elements n b c"
proof (induction n arbitrary: c)
  case (Suc n)
  from Suc.prems(2) have c: "c < length b" by (auto split: if_splits)
  show ?case
  proof (cases "b ! c = 36")
    case True
    then obtain p where p: "find_crlf (drop (c + 1) b) = Some p" using Suc.prems(2) c
      by (cases "find_crlf (drop (c + 1) b)") auto
    have w: "c + 1 + p + 2 \<le> length b" using find_crlf_within [OF p] c by auto
    have p': "find_crlf (drop (c + 1) (b @ x)) = Some p" "take p (drop (c + 1) (b @ x)) = take p (drop (c + 1) b)"
      using find_crlf_more [OF p] c w by simp_all
    show ?thesis
    proof (cases "parse_uint 64 (take p (drop (c + 1) b))")
      case (Some len)
      let ?e = "usize_add (c + 1 + p + 2) len"
      have more: "\<not> length b < usize_add ?e 2"
        using Suc.prems(2) c True p Some by (auto simp: Let_def split: if_splits)
      show ?thesis
      proof (cases "?e < c + 1 + p + 2 \<or> length b < ?e")
        case True
        have "?e < 2 ^ 64" by (simp add: usize_add_def)
        have "length (b @ x) < ?e" if "length b < ?e"
        proof (rule ccontr)
          assume "\<not> length (b @ x) < ?e"
          then have "?e + 2 < 2 ^ 64" using Suc.prems(1) by simp
          then show False using more that by simp
        qed
        then show ?thesis using True \<open>b ! c = 36\<close> c p p' Some more by (auto simp: Let_def nth_append)
      next
        case False
        have "parse_elements n b (?e + 2) \<noteq> Inr None"
          using Suc.prems(2) c \<open>b ! c = 36\<close> p Some more False by (auto simp: Let_def)
        moreover have "usize_add (Suc (Suc (Suc (c + p)))) len - Suc (Suc (Suc (length b - 3))) = 0"
          using False w by (simp add: not_less) arith
        ultimately show ?thesis
          using Suc.IH [OF Suc.prems(1), of "?e + 2"] False \<open>b ! c = 36\<close> c p p' Some more by (simp add: Let_def nth_append)
      qed
    qed (use c True p p' w in \<open>simp add: nth_append Let_def\<close>)
  qed (use c in \<open>simp add: nth_append\<close>)
qed simp

lemma process_elements_append:
  "process_elements (append_stream st x) es = (cs, st1) \<longleftrightarrow>
     (\<exists>st2. process_elements st es = (cs, st2) \<and> st1 = append_stream st2 x)"
proof (cases es)
  case (Cons name args)
  show ?thesis
  proof (cases args)
    case Nil
    then show ?thesis by (auto simp: process_elements_def Let_def Cons append_stream_def)
  next
    case (Cons a as)
    then show ?thesis
      by (cases "parse_uint 32 a") (auto simp: process_elements_def Let_def \<open>es = name # args\<close> append_stream_def)
  qed
qed (auto simp: process_elements_def)

lemma parse_elements_end: "parse_elements n buf c = Inr (Some (es, c1)) \<Longrightarrow> length buf < 2 ^ 63 \<Longrightarrow> c \<le> length buf \<Longrightarrow> c1 \<le> length buf"
proof (induction n arbitrary: c es)
  case (Suc n)
  then obtain d es' where "parse_elements n buf d = Inr (Some (es', c1))" "d \<le> length buf"
    by (auto simp: Let_def mapped_element not_less split: if_splits option.splits)
  with Suc.IH Suc.prems(2) show ?case by blast
qed simp

lemma command_stops: "parse_command st = (Return (Inr None), st1) \<Longrightarrow> st1 = st\<lparr>rbuffer := skip_newlines (rbuffer st)\<rparr>"
  by (auto simp: parse_command_def Let_def split: if_splits option.splits sum.splits prod.splits)

lemma command_more:
  assumes "parse_command st = (r, st1)" "r \<noteq> Return (Inr None)" "length (rbuffer st @ x) < 2 ^ 63"
  shows "parse_command (append_stream st x) = (r, append_stream st1 x)"
proof -
  let ?b = "skip_newlines (rbuffer st)"
  have b: "?b \<noteq> []" using assms(1,2) by (auto simp: parse_command_def)
  then have s: "skip_newlines (rbuffer st @ x) = ?b @ x" by (rule skip_newlines_append)
  have len: "length (?b @ x) < 2 ^ 63" using assms(3) skip_newlines_shorter [of "rbuffer st"] by simp
  show ?thesis
  proof (cases "?b ! 0 = 42")
    case True
    then obtain c where c: "find_crlf ?b = Some c"
      using assms(1,2) b by (cases "find_crlf ?b") (auto simp: parse_command_def Let_def)
    note c2 = find_crlf_within [OF c]
    have m: "find_crlf (?b @ x) = Some c" "take (c - 1) (drop 1 (?b @ x)) = take (c - 1) (drop 1 ?b)"
      using find_crlf_more [OF c] c2 by simp_all
    show ?thesis
    proof (cases "parse_uint 64 (take (c - 1) (drop 1 ?b))")
      case None
      then show ?thesis using assms(1) b s True c m by (auto simp: parse_command_def Let_def nth_append append_stream_def)
    next
      case n: (Some n)
      have "parse_elements n ?b (c + 2) \<noteq> Inr None" using assms(1,2) b True c n by (auto simp: parse_command_def Let_def)
      then have e: "parse_elements n (?b @ x) (c + 2) = parse_elements n ?b (c + 2)" by (rule parse_elements_more [OF len])
      have st: "append_stream st x\<lparr>rbuffer := drop k (?b @ x)\<rparr> = append_stream (st\<lparr>rbuffer := drop k ?b\<rparr>) x"
        if "k \<le> length ?b" for k using that by (simp add: append_stream_def)
      show ?thesis
      proof (cases "parse_elements n ?b (c + 2)")
        case (Inl y)
        then show ?thesis using assms(1) b s True c m n e
          by (auto simp: parse_command_def Let_def nth_append append_stream_def)
      next
        case (Inr y)
        then obtain es cur where y: "parse_elements n ?b (c + 2) = Inr (Some (es, cur))"
          using \<open>parse_elements n ?b (c + 2) \<noteq> Inr None\<close> by (cases y) auto
        have cur: "cur \<le> length ?b" using parse_elements_end [OF y] c2 len by simp
        obtain cs st2 where p: "process_elements (st\<lparr>rbuffer := drop cur ?b\<rparr>) es = (cs, st2)" by fastforce
        then have "process_elements (append_stream (st\<lparr>rbuffer := drop cur ?b\<rparr>) x) es = (cs, append_stream st2 x)"
          by (simp add: process_elements_append)
        then show ?thesis using assms(1) b s True c m n e y p cur st [OF cur]
          by (auto simp: parse_command_def Let_def nth_append)
      qed
    qed
  qed (use assms(1) b s in \<open>auto simp: parse_command_def Let_def nth_append append_stream_def\<close>)
qed

section \<open>The snapshot within the stream\<close>

definition bulk_header :: "nat \<Rightarrow> bytes" where
  "bulk_header n = 36 # nat_to_string n @ [13, 10]"

definition newline_free :: "bytes \<Rightarrow> bool" where
  "newline_free ds \<longleftrightarrow> 10 \<notin> set ds \<and> 13 \<notin> set ds"

lemma digits_newline_free: "newline_free (nat_to_string n)"
  using digits_only [of 10 n] digits_only [of 13 n] by (auto simp: newline_free_def)

lemma bulk_header_crlf: "find_crlf (bulk_header n @ r) = Some (Suc (length (nat_to_string n)))"
  using find_crlf_at [of "36 # nat_to_string n" r] digits_newline_free [of n]
  by (simp add: bulk_header_def newline_free_def)

text \<open>
  What a parser before or within the snapshot must find: newlines, the header and a well-formed dump of the announced
  size; or the rest of one, as much as is still to come. Commands may follow, valid or not.
\<close>

definition replica_good :: "ReplicaParser \<Rightarrow> bytes \<Rightarrow> bool" where
  "replica_good st x \<longleftrightarrow> length (rbuffer st @ x) < 2 ^ 63 \<and>
     (case rstate st of
        Streaming \<Rightarrow> True
      | WaitingRdb \<Rightarrow>
          (\<exists>magic items checksum rest. wf_dump magic items checksum \<and>
             skip_newlines (rbuffer st @ x) =
               bulk_header (length (enc_dump magic items checksum)) @ enc_dump magic items checksum @ rest)
      | ReadingRdb \<Rightarrow>
          (\<exists>p n left. rdb_parser st = Some p \<and> rdb_bulk_size st = Some n \<and> n < 2 ^ 63 \<and> n = rdb_bytes_read st + left \<and>
             0 < left \<and> left \<le> length (rbuffer st @ x) \<and> rdb_good p (take left (rbuffer st @ x))))"

lemma replica_good_plain [simp]: "replica_good (plain st) x = replica_good st x"
  by (cases "rstate st") (simp_all add: replica_good_def)

lemma header_stops: "parse_rdb_header st = (Return (Inr None), st1) \<Longrightarrow> st1 = st\<lparr>rbuffer := skip_newlines (rbuffer st)\<rparr>"
  by (auto simp: parse_rdb_header_def Let_def split: if_splits option.splits)

lemma header_more:
  assumes "parse_rdb_header st = (r, st1)" "r \<noteq> Return (Inr None)"
  shows "parse_rdb_header (append_stream st x) = (r, append_stream st1 x)"
proof -
  let ?b = "skip_newlines (rbuffer st)"
  have b: "?b \<noteq> []" using assms by (auto simp: parse_rdb_header_def)
  then have s: "skip_newlines (rbuffer st @ x) = ?b @ x" by (rule skip_newlines_append)
  show ?thesis
  proof (cases "?b ! 0 = 36")
    case True
    then obtain c where c: "find_crlf ?b = Some c"
      using assms b by (cases "find_crlf ?b") (auto simp: parse_rdb_header_def Let_def)
    note c2 = find_crlf_within [OF c]
    have "find_crlf (?b @ x) = Some c" "take (c - 1) (drop 1 (?b @ x)) = take (c - 1) (drop 1 ?b)"
      "drop (c + 2) (?b @ x) = drop (c + 2) ?b @ x"
      using find_crlf_more [OF c] c2 by simp_all
    then show ?thesis using assms(1) b s True c
      by (cases "parse_uint 64 (take (c - 1) (drop 1 ?b))") (auto simp: parse_rdb_header_def Let_def nth_append append_stream_def)
  qed (use assms(1) b s in \<open>auto simp: parse_rdb_header_def Let_def nth_append append_stream_def\<close>)
qed

text \<open>With the whole header in the buffer, the parser starts to read the snapshot.\<close>

lemma header_read:
  assumes "skip_newlines (rbuffer st) = bulk_header n @ r" "n < 2 ^ 64"
  shows "parse_rdb_header st =
    (Next, st\<lparr>rbuffer := r, rdb_parser := Some ParserState_new, rdb_bulk_size := Some n, rdb_bytes_read := 0, rstate := ReadingRdb\<rparr>)"
proof -
  have "take (length (nat_to_string n)) (drop 1 (bulk_header n @ r)) = nat_to_string n"
    "drop (Suc (length (nat_to_string n)) + 2) (bulk_header n @ r) = r" "(bulk_header n @ r) ! 0 = 36" "bulk_header n @ r \<noteq> []"
    by (simp_all add: bulk_header_def)
  then show ?thesis using assms bulk_header_crlf [of n r] parse_uint_digits [OF assms(2)]
    by (simp add: parse_rdb_header_def Let_def)
qed

lemma prefix_of_append:
  assumes "b @ x = h @ r" "length h \<le> length b"
  shows "\<exists>c. b = h @ c \<and> c @ x = r"
proof (intro exI conjI)
  have "take (length h) b = h" using arg_cong [OF assms(1), of "take (length h)"] assms(2) by simp
  then show "b = h @ drop (length h) b" using append_take_drop_id [of "length h" b] by simp
  show "drop (length h) b @ x = r" using arg_cong [OF assms(1), of "drop (length h)"] assms(2) by simp
qed

lemma header_good:
  assumes "replica_good st x" "rstate st = WaitingRdb" "parse_rdb_header st = (r, st1)" "r \<noteq> Return (Inr None)"
  shows "r = Next \<and> replica_good st1 x"
proof -
  obtain magic items checksum rest where d: "wf_dump magic items checksum"
    "skip_newlines (rbuffer st @ x) =
       bulk_header (length (enc_dump magic items checksum)) @ enc_dump magic items checksum @ rest"
    using assms(1,2) by (auto simp: replica_good_def)
  let ?d = "enc_dump magic items checksum" and ?b = "skip_newlines (rbuffer st)"
  have b: "?b \<noteq> []" using assms(3,4) by (auto simp: parse_rdb_header_def)
  then have bx: "?b @ x = bulk_header (length ?d) @ ?d @ rest" using d(2) skip_newlines_append(2) [OF b, of x] by (simp only:)
  have "?b ! 0 = 36" using arg_cong [OF bx, of "\<lambda>l. l ! 0"] b by (simp add: bulk_header_def nth_append)
  then obtain c where c: "find_crlf ?b = Some c"
    using assms(3,4) b by (cases "find_crlf ?b") (auto simp: parse_rdb_header_def Let_def)
  have "c = Suc (length (nat_to_string (length ?d)))"
    using find_crlf_more [OF c, of x] bulk_header_crlf [of "length ?d" "?d @ rest"] unfolding bx by simp
  then have "length (bulk_header (length ?d)) \<le> length ?b" using find_crlf_within [OF c] by (simp add: bulk_header_def)
  then obtain e where e: "?b = bulk_header (length ?d) @ e" "e @ x = ?d @ rest" using prefix_of_append [OF bx] by blast
  have l: "length (?b @ x) < 2 ^ 63" using assms(1) skip_newlines_shorter [of "rbuffer st"] by (simp add: replica_good_def)
  have n: "length ?d < 2 ^ 63" using l unfolding bx by simp
  have m: "length (e @ x) < 2 ^ 63" using l unfolding e(1) by simp
  have p: "0 < length ?d" by (simp add: enc_dump_def)
  have g: "rdb_good ParserState_new (take (length ?d) (e @ x))" using good_dump [OF d(1)] by (simp only: e(2)) simp
  have q: "length ?d \<le> length (e @ x)" by (simp only: e(2)) simp
  have "r = Next" "st1 = st\<lparr>rbuffer := e, rdb_parser := Some ParserState_new, rdb_bulk_size := Some (length ?d),
      rdb_bytes_read := 0, rstate := ReadingRdb\<rparr>"
    using header_read [OF e(1)] n assms(3) by simp_all
  then show ?thesis using m n p q g by (simp add: replica_good_def)
qed

text \<open>One step within the snapshot: the RDB parser gets what the buffer has of it.\<close>

definition rest_of :: "ReplicaParser \<Rightarrow> nat \<Rightarrow> ParserState \<Rightarrow> ReplicaParser" where
  "rest_of st left p =
     (if left \<le> length (rbuffer st)
      then st\<lparr>rbuffer := drop left (rbuffer st), rdb_parser := None, rdb_bulk_size := None, rdb_bytes_read := 0, rstate := Streaming\<rparr>
      else st\<lparr>rbuffer := [], rdb_bytes_read := rdb_bytes_read st + length (rbuffer st), rdb_parser := Some p\<rparr>)"

lemma unfinished: "rdb_good p x \<Longrightarrow> x \<noteq> [] \<Longrightarrow> \<not> finished p"
  by (auto simp: rdb_good_def)

lemma snapshot_step:
  assumes "rstate st = ReadingRdb" "rdb_parser st = Some p" "rdb_bulk_size st = Some (rdb_bytes_read st + left)"
    "rdb_bytes_read st + left < 2 ^ 63" "0 < left" "rbuffer st \<noteq> []" "\<not> finished p"
  shows "replica_action st =
    (case rdb_run (append_data p (take left (rbuffer st))) of
       Inl e \<Rightarrow> Fail e
     | Inr (cs, p1) \<Rightarrow> Go (plain (rest_of st left p1)) cs)"
proof -
  let ?b = "rbuffer st"
  have f: "outcome_of (feed_data p (take left ?b)) = rdb_run (append_data p (take left ?b))"
    using rdb_feed_run [OF assms(7)] by (simp add: rdb_feed_def)
  obtain res p1 where r: "feed_data p (take left ?b) = (res, p1)" by fastforce
  have m: "(2 ^ 64 + (rdb_bytes_read st + left) - rdb_bytes_read st) mod 2 ^ 64 = left"
    using assms(4) by (simp add: mod_add_self1 del: mod_self)
  have t: "take (min (length ?b) left) ?b = take left ?b" by (simp add: min_def)
  have "rdb_bytes_read st + min (length ?b) left < 2 ^ 64" using assms(4) by simp
  then have u: "usize_add (rdb_bytes_read st) (min (length ?b) left) = rdb_bytes_read st + min (length ?b) left"
    by (simp add: usize_add_def)
  show ?thesis
    using assms f [symmetric] r by (cases res)
      (auto simp: replica_action_def replica_parse_step_def stream_rdb_data_def Let_def m t u rest_of_def)
qed

lemma snapshot_good:
  assumes "replica_good st x" "rstate st = ReadingRdb"
  obtains p left where "rdb_parser st = Some p" "rdb_bulk_size st = Some (rdb_bytes_read st + left)"
    "rdb_bytes_read st + left < 2 ^ 63" "0 < left" "left \<le> length (rbuffer st @ x)"
    "rdb_good p (take left (rbuffer st @ x))" "\<not> finished p"
proof -
  obtain p left where a: "rdb_parser st = Some p" "rdb_bulk_size st = Some (rdb_bytes_read st + left)"
    "rdb_bytes_read st + left < 2 ^ 63" "0 < left" "left \<le> length (rbuffer st @ x)"
    "rdb_good p (take left (rbuffer st @ x))"
    using assms by (auto simp: replica_good_def)
  then have "take left (rbuffer st @ x) \<noteq> []" by (metis length_0_conv length_take min.absorb2 not_gr0)
  with a that unfinished show ?thesis by blast
qed

lemma rest_of_append:
  "left \<le> length (rbuffer st) \<Longrightarrow> append_stream (rest_of st left p) x = rest_of (append_stream st x) left p"
  by (simp add: rest_of_def append_stream_def)

lemma snapshot_more:
  assumes "replica_good st x" "rstate st = ReadingRdb" "rbuffer st \<noteq> []"
  shows "(replica_action st = Go st1 cs \<longrightarrow>
      replica_good st1 x \<and> replica_run (append_stream st x) = emit cs (replica_run (append_stream st1 x))) \<and>
    (replica_action st = Fail e \<longrightarrow> replica_run (append_stream st x) = Inl e) \<and> replica_action st \<noteq> Stop st2"
proof -
  obtain p left where s: "rdb_parser st = Some p" "rdb_bulk_size st = Some (rdb_bytes_read st + left)"
    "rdb_bytes_read st + left < 2 ^ 63" "0 < left" "left \<le> length (rbuffer st @ x)"
    "rdb_good p (take left (rbuffer st @ x))" "\<not> finished p"
    using snapshot_good [OF assms(1,2)] .
  let ?b = "rbuffer st"
  note step = snapshot_step [OF assms(2) s(1-4) assms(3) s(7)]
  have more: "replica_action (append_stream st x) =
    (case rdb_run (append_data p (take left (?b @ x))) of
       Inl e \<Rightarrow> Fail e | Inr (cs, p1) \<Rightarrow> Go (plain (rest_of (append_stream st x) left p1)) cs)"
    using snapshot_step [of "append_stream st x" p left] assms s by simp
  have len: "length (?b @ x) < 2 ^ 63" using assms(1) by (simp add: replica_good_def)
  show ?thesis
  proof (cases "left \<le> length ?b")
    case True
    then have "replica_good (rest_of st left p1) x" for p1 using len by (simp add: rest_of_def replica_good_def)
    then show ?thesis using True step more rest_of_append [OF True]
      by (auto simp: replica_run_step [of "append_stream st x"] replica_run_append_plain run_plain split: sum.splits)
  next
    case False
    define y where "y = take (left - length ?b) x"
    have y: "take left (?b @ x) = ?b @ y" "take left ?b = ?b" using False by (simp_all add: y_def)
    have g: "rdb_good (append_data p ?b) y" using s(6) rdb.good_app unfolding y by blast
    have run: "rdb_run (append_data p (?b @ y)) = resume (rdb_run (append_data p ?b)) (\<lambda>p'. rdb_run (append_data p' y))"
      using rdb.run_app [OF g] by (simp add: rdb.app_app)
    show ?thesis
    proof (cases "rdb_run (append_data p ?b)")
      case (Inl a)
      then show ?thesis using step more run y by (simp add: replica_run_step [of "append_stream st x"])
    next
      case (Inr r)
      obtain ds p1 where r: "r = (ds, p1)" by fastforce
      let ?t = "rest_of st left p1"
      have g1: "rdb_good p1 y" using rdb.run_result [OF g] Inr r by blast
      have x: "left - length ?b \<le> length x" "x \<noteq> []" using s(5) False by auto
      obtain k where k: "left = length ?b + k" "0 < k" using False by (metis less_imp_add_positive not_le)
      then have "\<not> left \<le> length ?b" "k \<le> length x" "rdb_good p1 (take k x)" using x g1 by (simp_all add: y_def)
      then have t: "replica_good ?t x"
        using k s(2,3) len assms(2) by (simp add: rest_of_def replica_good_def)
      have "y \<noteq> []" using x False unfolding y_def by simp
      then have nf: "\<not> finished p1" using unfinished [OF g1] by blast
      have tk: "?t = st\<lparr>rbuffer := [], rdb_bytes_read := rdb_bytes_read st + length ?b, rdb_parser := Some p1\<rparr>"
        using False by (simp add: rest_of_def)
      have "replica_action (append_stream ?t x) =
        (case rdb_run (append_data p1 y) of
           Inl e \<Rightarrow> Fail e | Inr (cs, p2) \<Rightarrow> Go (plain (rest_of (append_stream ?t x) k p2)) cs)"
        using snapshot_step [of "append_stream ?t x" p1 k] k s(2,3) nf assms(2) x(2) unfolding tk by (simp add: y_def)
      moreover have "rest_of (append_stream ?t x) k p2 = rest_of (append_stream st x) left p2" for p2
        using k x unfolding tk by (simp add: rest_of_def append_stream_def)
      ultimately have "replica_run (append_stream st x) = emit ds (replica_run (append_stream ?t x))"
        using more run Inr r y
        by (simp add: replica_run_step [of "append_stream st x"] replica_run_step [of "append_stream ?t x"] run_plain split: sum.split)
      then show ?thesis using step y Inr r t by (auto simp: replica_run_append_plain)
    qed
  qed
qed

lemma waiting_stop:
  assumes "replica_action st = Stop st1" "rstate st \<noteq> ReadingRdb"
  shows "st1 = plain (st\<lparr>rbuffer := skip_newlines (rbuffer st)\<rparr>)"
  using assms header_stops [of st] command_stops [of st]
  by (cases "rstate st") (auto simp: replica_action_def replica_parse_step_def split: prod.splits flow.splits sum.splits option.splits)

lemma skip_again:
  "parse_command (append_stream (st\<lparr>rbuffer := skip_newlines (rbuffer st)\<rparr>) x) = parse_command (append_stream st x)"
  "parse_rdb_header (append_stream (st\<lparr>rbuffer := skip_newlines (rbuffer st)\<rparr>) x) = parse_rdb_header (append_stream st x)"
  by (simp_all add: parse_command_def parse_rdb_header_def skip_newlines_append(1) append_stream_def)

lemma skip_run:
  assumes "rstate st \<noteq> ReadingRdb"
  shows "replica_run (append_stream (st\<lparr>rbuffer := skip_newlines (rbuffer st)\<rparr>) x) = replica_run (append_stream st x)"
proof -
  have "replica_action (append_stream (st\<lparr>rbuffer := skip_newlines (rbuffer st)\<rparr>) x) = replica_action (append_stream st x)"
    using assms skip_again [of st x] by (cases "rstate st") (simp_all add: replica_action_def replica_parse_step_def)
  then show ?thesis by (simp add: replica_run_step [of "append_stream st x"] replica_run_step [of "append_stream (st\<lparr>rbuffer := _\<rparr>) x"])
qed

lemma stop_more:
  assumes "replica_good st x" "replica_action st = Stop st1"
  shows "replica_good st1 x \<and> replica_run st1 = Inr ([], st1) \<and> replica_run (append_stream st x) = replica_run (append_stream st1 x)"
proof (cases "rstate st = ReadingRdb")
  case True
  then have "rbuffer st = []" using snapshot_more [OF assms(1) True] assms(2) by blast
  then have "st1 = plain st" using assms(2) True
    by (auto simp: replica_action_def replica_parse_step_def stream_rdb_data_def Let_def split: option.splits if_splits)
  then show ?thesis using assms by (simp add: run_plain replica_run_append_plain replica_run_step [of st])
next
  case False
  let ?t = "st\<lparr>rbuffer := skip_newlines (rbuffer st)\<rparr>"
  have t: "st1 = plain ?t" by (rule waiting_stop [OF assms(2) False])
  have "replica_good ?t x" using assms(1) False skip_newlines_shorter [of "rbuffer st"]
    by (cases "rstate st") (auto simp: replica_good_def skip_newlines_append(1))
  moreover have "replica_run st1 = replica_run st" using skip_run [OF False, of "[]"] t run_plain [of ?t] by simp
  moreover have "replica_run st = Inr ([], st1)" using assms(2) by (simp add: replica_run_step [of st])
  moreover have "replica_run (append_stream st1 x) = replica_run (append_stream st x)"
    using t skip_run [OF False] replica_run_append_plain [of ?t x] by simp
  ultimately show ?thesis using t replica_good_plain [of ?t x] by simp
qed

lemma step_more:
  assumes "replica_good st x" "replica_parse_step st = (r, st1)" "r \<noteq> Return (Inr None)" "rstate st \<noteq> ReadingRdb"
  shows "replica_parse_step (append_stream st x) = (r, append_stream st1 x) \<and>
    (r = Next \<or> (\<exists>cs. r = Return (Inr (Some cs))) \<longrightarrow> replica_good st1 x)"
proof (cases "rstate st")
  case WaitingRdb
  then show ?thesis using assms header_more [of st r st1 x] header_good [OF assms(1), of r st1] by (simp add: replica_parse_step_def)
next
  case Streaming
  have len: "length (rbuffer st @ x) < 2 ^ 63" using assms(1) by (simp add: replica_good_def)
  have step: "parse_command st = (r, st1)" using Streaming assms(2) by (simp add: replica_parse_step_def)
  have "rstate st1 = Streaming" using step Streaming
    by (auto simp: parse_command_def Let_def split: if_splits option.splits sum.splits prod.splits dest!: process_elements_buffer)
  moreover have "length (rbuffer st1) < length (rbuffer st)" if "r = Next \<or> r = Return (Inr (Some cs))" for cs
    using replica_step_shorter [OF assms(2) that] .
  ultimately have "r = Next \<or> r = Return (Inr (Some cs)) \<Longrightarrow> replica_good st1 x" for cs
    using len by (fastforce simp: replica_good_def)
  then show ?thesis using Streaming command_more [OF step assms(3) len] by (auto simp: replica_parse_step_def)
qed (use assms in simp)

lemma other_more:
  assumes "replica_good st x" "rstate st \<noteq> ReadingRdb"
  shows "replica_action st = Go st1 cs \<Longrightarrow>
      replica_good st1 x \<and> replica_run (append_stream st x) = emit cs (replica_run (append_stream st1 x))"
    and "replica_action st = Fail e \<Longrightarrow> replica_run (append_stream st x) = Inl e"
proof -
  obtain r s where s: "replica_parse_step st = (r, s)" by fastforce
  note more = step_more [OF assms(1) s _ assms(2)]
  show "replica_good st1 x \<and> replica_run (append_stream st x) = emit cs (replica_run (append_stream st1 x))"
    if "replica_action st = Go st1 cs"
    using that more s
    by (auto simp: replica_action_def replica_loop_step [of "append_stream st x"] replica_run_append_plain
        split: flow.splits sum.splits option.splits)
  show "replica_run (append_stream st x) = Inl e" if "replica_action st = Fail e"
    using that more s
    by (auto simp: replica_action_def replica_loop_step [of "append_stream st x"] split: flow.splits sum.splits option.splits)
qed

lemma go_more:
  assumes "replica_good s x" "replica_action s = Go s' cs"
  shows "replica_good s' x \<and> replica_run (append_stream s x) = emit cs (replica_run (append_stream s' x))"
proof (cases "rstate s = ReadingRdb")
  case True
  then have "rbuffer s \<noteq> []" using replica_action_weight [OF assms(2)] by auto
  with snapshot_more [OF assms(1) True] assms(2) show ?thesis by blast
qed (rule other_more(1) [OF assms(1) _ assms(2)])

lemma fail_more:
  assumes "replica_good s x" "replica_action s = Fail e"
  shows "replica_run (append_stream s x) = Inl e"
proof (cases "rstate s = ReadingRdb")
  case True
  obtain left where l: "rdb_bulk_size s = Some (rdb_bytes_read s + left)" "rdb_bytes_read s + left < 2 ^ 63" "0 < left"
    using snapshot_good [OF assms(1) True] .
  have "rbuffer s \<noteq> []"
  proof
    assume b: "rbuffer s = []"
    have "(2 ^ 64 + (rdb_bytes_read s + left) - rdb_bytes_read s) mod 2 ^ 64 = left"
      using l(2) by (simp add: mod_add_self1 del: mod_self)
    then have "replica_parse_step s = (Return (Inr None), s)"
      using True l b by (simp add: replica_parse_step_def stream_rdb_data_def Let_def)
    then show False using assms(2) by (simp add: replica_action_def)
  qed
  with snapshot_more [OF assms(1) True] assms(2) show ?thesis by blast
qed (rule other_more(2) [OF assms(1) _ assms(2)])

lemma replica_good_append: "replica_good st (x @ y) \<Longrightarrow> replica_good (append_stream st x) y"
  by (cases "rstate st") (simp_all add: replica_good_def)

text \<open>The interface of the chunked parsers holds for the replication stream, on top of that of the RDB parser.\<close>

interpretation replica: incremental replica_action replica_run append_stream replica_good "\<lambda>st. length (rbuffer st)"
  by unfold_locales
    (fact replica_run_step replica_action_weight stop_more go_more fail_more replica_good_append | simp)+

section \<open>The feeds\<close>

text \<open>The outcome of a feed: its commands and the parser it leaves. The flags it reports as well are those of the parser.\<close>

definition replica_feed :: "ReplicaParser \<Rightarrow> bytes \<Rightarrow> (ReplicaParser, RawCommand, stream_error) progress" where
  "replica_feed st data = outcome_of (map_prod (map_sum id fst) id (replica_feed_data st data))"

definition without_flags ::
  "(ReplicaParser, RawCommand, stream_error) progress \<Rightarrow> (ReplicaParser, RawCommand, stream_error) progress" where
  "without_flags r = map_sum id (map_prod id plain) r"

lemma without_flags_simps [simp]:
  "without_flags (Inl e) = Inl e" "without_flags (Inr (cs, st)) = Inr (cs, plain st)"
  "without_flags (emit cs r) = emit cs (without_flags r)"
  by (cases r; auto simp: without_flags_def)+

lemma outcome_of_plain: "outcome_of (map_prod id plain r) = without_flags (outcome_of r)"
proof (cases r)
  case (Pair a b)
  then show ?thesis by (cases a) simp_all
qed

lemma replica_feed_run: "without_flags (replica_feed st data) = replica_run (append_stream (plain st) data)"
proof -
  obtain r st1 where l: "replica_feed_loop (append_stream (plain st) data) = (r, st1)" by fastforce
  have "replica_feed_data st data =
      (case r of Inl e \<Rightarrow> (Inl e, st1) | Inr cs \<Rightarrow> (Inr (cs, ping_received st1, replconf_getack_received st1), st1))"
    using l by (simp add: replica_feed_data_def Let_def plain_def append_stream_def split: sum.split)
  then show ?thesis using l by (cases r) (simp_all add: replica_feed_def replica_run_def)
qed

lemma replica_feeds_run:
  "without_flags (feed_all replica_feed st chunks) = feed_all (\<lambda>st c. replica_run (append_stream st c)) (plain st) chunks"
proof (induction chunks arbitrary: st)
  case (Cons c chunks)
  show ?case
  proof (cases "replica_feed st c")
    case (Inr r)
    obtain cs st1 where r: "r = (cs, st1)" by fastforce
    then have "replica_run (append_stream (plain st) c) = Inr (cs, plain st1)" using replica_feed_run [of st c] Inr by simp
    then show ?thesis using Inr r Cons.IH by simp
  next
    case (Inl e)
    then have "replica_run (append_stream (plain st) c) = Inl e" using replica_feed_run [of st c] by simp
    then show ?thesis using Inl by simp
  qed
qed simp

lemma replica_chunks:
  assumes "replica_good st (concat chunks)" "replica_run st = Inr ([], st)" "plain st = st"
  shows "without_flags (feed_all replica_feed st chunks) = replica_run (append_stream st (concat chunks))"
  using replica.chunks [OF assms(1,2)] replica_feeds_run [of st chunks] assms(3) by simp

lemma new_plain [simp]: "plain (ReplicaParser_new skip_rdb) = ReplicaParser_new skip_rdb"
  by (simp add: ReplicaParser_new_def plain_def)

lemma new_stream_waits: "replica_run (ReplicaParser_new skip_rdb) = Inr ([], ReplicaParser_new skip_rdb)"
  by (subst replica_run_step)
    (simp add: replica_action_def replica_parse_step_def parse_rdb_header_def parse_command_def ReplicaParser_new_def
      skip_newlines_def plain_def)

section \<open>Commands in the stream\<close>

text \<open>The encoding of a command as an array of bulk strings.\<close>

definition enc_bulk :: "bytes \<Rightarrow> bytes" where
  "enc_bulk s = bulk_header (length s) @ s @ [13, 10]"

definition enc_command :: "bytes list \<Rightarrow> bytes" where
  "enc_command es = 42 # nat_to_string (length es) @ [13, 10] @ concat (map enc_bulk es)"

text \<open>
  The commands of the stream that reach the storage, each with the database selected when it comes; the ones that
  belong to the replication itself do not.
\<close>

fun stream_commands :: "u32 \<Rightarrow> bytes list list \<Rightarrow> RawCommand list" where
  "stream_commands db [] = []"
| "stream_commands db ([] # css) = stream_commands db css"
| "stream_commands db ((name # args) # css) =
     (if to_uppercase name = ascii ''SELECT'' then
        stream_commands
          (case args of [] \<Rightarrow> db | a # _ \<Rightarrow> (case parse_uint 32 a of None \<Rightarrow> db | Some n \<Rightarrow> word_of_nat n)) css
      else if to_uppercase name = ascii ''PING'' \<or> to_uppercase name = ascii ''REPLCONF'' then stream_commands db css
      else \<lparr>cmd_db = db, cmd_name = name, cmd_args = args\<rparr> # stream_commands db css)"

lemma stream_commands_process:
  assumes "process_elements st es = (cs, st1)"
  shows "stream_commands (rcurrent_db st) (es # css) = cs @ stream_commands (rcurrent_db st1) css"
proof (cases es)
  case (Cons name args)
  show ?thesis
  proof (cases args)
    case Nil
    then show ?thesis using assms Cons by (auto simp: process_elements_def Let_def split: if_splits)
  next
    case (Cons a as)
    then show ?thesis using assms \<open>es = name # args\<close>
      by (cases "parse_uint 32 a") (auto simp: process_elements_def Let_def ascii_def split: if_splits)
  qed
qed (use assms in \<open>simp add: process_elements_def\<close>)

lemma parse_elements_bulks:
  assumes "length buf < 2 ^ 63" "drop c buf = concat (map enc_bulk es) @ r" "c \<le> length buf"
  shows "parse_elements (length es) buf c = Inr (Some (es, length buf - length r))"
  using assms(2,3)
proof (induction es arbitrary: c)
  case Nil
  then show ?case using assms(1) by (metis One_nat_def append_Nil concat.simps(1) diff_diff_cancel length_drop list.simps(8) list.size(3) parse_elements.simps(1))
next
  case (Cons s es)
  let ?n = "length (nat_to_string (length s))" and ?rest = "concat (map enc_bulk es) @ r"
  have d: "drop c buf = bulk_header (length s) @ s @ [13, 10] @ ?rest" using Cons.prems(1) by (simp add: enc_bulk_def [of s])
  have "length buf - c = 3 + ?n + length s + 2 + length ?rest"
    using arg_cong [OF d, of length] unfolding length_drop by (simp add: bulk_header_def)
  then have len: "length buf = c + (3 + ?n + length s + 2 + length ?rest)" using Cons.prems(2) by linarith
  have c: "c < length buf" "buf ! c = 36" using len d
    by (simp_all add: bulk_header_def hd_drop_conv_nth [symmetric])
  have d1: "drop (c + 1) buf = nat_to_string (length s) @ [13, 10] @ s @ [13, 10] @ ?rest"
    using arg_cong [OF d, of "drop 1"] by (simp add: bulk_header_def)
  have f: "find_crlf (drop (c + 1) buf) = Some ?n"
    unfolding d1 by (rule find_crlf_at) (use digits_newline_free [of "length s"] in \<open>simp add: newline_free_def\<close>)
  have t: "take ?n (drop (c + 1) buf) = nat_to_string (length s)" unfolding d1 by simp
  have p: "parse_uint 64 (nat_to_string (length s)) = Some (length s)"
    using len assms(1) by (intro parse_uint_digits) simp
  let ?a = "c + 1 + ?n + 2"
  have e: "usize_add ?a (length s) = ?a + length s" "usize_add (?a + length s) 2 = ?a + length s + 2"
    using len assms(1) by (simp_all add: usize_add_def)
  have ds: "drop ?a buf = s @ [13, 10] @ ?rest"
    using arg_cong [OF d1, of "drop (?n + 2)"] by (simp add: add.commute add.left_commute)
  have dr: "drop (?a + length s + 2) buf = ?rest"
    using arg_cong [OF ds, of "drop (length s + 2)"] by (simp add: add.commute add.left_commute)
  have "parse_elements (length es) buf (?a + length s + 2) = Inr (Some (es, length buf - length r))"
    using Cons.IH [OF dr] len by simp
  then show ?case using c f t p e ds len by (simp add: Let_def)
qed

lemma command_returns:
  assumes "skip_newlines (rbuffer st) = b" "b \<noteq> []" "b ! 0 = 42" "find_crlf b = Some c"
    "parse_uint 64 (take (c - 1) (drop 1 b)) = Some n" "parse_elements n b (c + 2) = Inr (Some (es, k))" "k \<le> length b"
    "process_elements (st\<lparr>rbuffer := drop k b\<rparr>) es = (cs, st1)"
  shows "parse_command st = (Return (Inr (Some cs)), st1)"
  using assms by (simp add: parse_command_def Let_def)

lemma command_read:
  assumes "rbuffer st = enc_command es @ r" "length (rbuffer st) < 2 ^ 63"
    "process_elements (st\<lparr>rbuffer := r\<rparr>) es = (cs, st1)"
  shows "parse_command st = (Return (Inr (Some cs)), st1)"
proof -
  let ?b = "rbuffer st" and ?ds = "nat_to_string (length es)"
  have b: "?b = (42 # ?ds) @ [13, 10] @ concat (map enc_bulk es) @ r" using assms(1) by (simp add: enc_command_def)
  then have s: "skip_newlines ?b = ?b" "?b ! 0 = 42" "?b \<noteq> []" by (simp_all add: skip_newlines_def)
  have c: "find_crlf ?b = Some (length (42 # ?ds))"
    unfolding b by (rule find_crlf_at) (use digits_newline_free [of "length es"] in \<open>simp add: newline_free_def\<close>)
  have t: "take (length (42 # ?ds) - 1) (drop 1 ?b) = ?ds" unfolding b by simp
  have d: "drop (length (42 # ?ds) + 2) ?b = concat (map enc_bulk es) @ r" unfolding b by simp
  have "length es \<le> length (concat (map enc_bulk es))" by (induction es) (simp_all add: enc_bulk_def bulk_header_def)
  then have "length es < 2 ^ 64" using assms(2) unfolding b by simp
  then have p: "parse_uint 64 ?ds = Some (length es)" by (rule parse_uint_digits)
  have e: "parse_elements (length es) ?b (length (42 # ?ds) + 2) = Inr (Some (es, length ?b - length r))"
    by (rule parse_elements_bulks [OF assms(2) d]) (simp add: b)
  have "drop (length ?b - length r) ?b = r" unfolding assms(1) by simp
  then show ?thesis using command_returns [OF s(1,3,2) c _ e, of cs st1] t p assms(3) by (simp only: diff_le_self simp_thms)
qed

lemma run_commands:
  assumes "rstate st = Streaming" "rbuffer st = concat (map enc_command css)" "length (rbuffer st) < 2 ^ 63"
  shows "\<exists>st1. replica_run st = Inr (stream_commands (rcurrent_db st) css, st1) \<and> rstate st1 = Streaming \<and> rbuffer st1 = []"
  using assms
proof (induction css arbitrary: st)
  case Nil
  then show ?case
    by (simp add: replica_run_step [of st] replica_action_def replica_parse_step_def parse_command_def skip_newlines_def)
next
  case (Cons es css)
  let ?r = "concat (map enc_command css)"
  obtain cs st1 where p: "process_elements (st\<lparr>rbuffer := ?r\<rparr>) es = (cs, st1)" by fastforce
  have "rbuffer st = enc_command es @ ?r" using Cons.prems(2) by simp
  note step = command_read [OF this Cons.prems(3) p]
  have st1: "rstate st1 = Streaming" "rbuffer st1 = ?r" using process_elements_buffer [OF p] Cons.prems(1) by simp_all
  have "length ?r < 2 ^ 63" using Cons.prems(2,3) by simp
  then obtain st2 where st2: "replica_run st1 = Inr (stream_commands (rcurrent_db st1) css, st2)"
    "rstate st2 = Streaming" "rbuffer st2 = []" using Cons.IH [OF st1] st1 by auto
  have "stream_commands (rcurrent_db st) (es # css) = cs @ stream_commands (rcurrent_db st1) css"
    using stream_commands_process [OF p] by simp
  then show ?case using st2 step Cons.prems(1) by (simp add: replica_loop_step [of st] replica_parse_step_def)
qed

lemma run_replication:
  assumes "wf_dump magic items checksum" "set newlines \<subseteq> {10, 13}"
    "bs = newlines @ bulk_header (length (enc_dump magic items checksum)) @ enc_dump magic items checksum @
       concat (map enc_command css)"
    "length bs < 2 ^ 63"
  shows "\<exists>st. replica_run (append_stream (ReplicaParser_new False) bs) =
      Inr (dump_commands items (0, None) @ stream_commands 0 css, st) \<and> rstate st = Streaming \<and> rbuffer st = []"
proof -
  let ?d = "enc_dump magic items checksum" and ?c = "concat (map enc_command css)"
  let ?s = "append_stream (ReplicaParser_new False) bs"
  let ?t = "?s\<lparr>rbuffer := ?d @ ?c, rdb_parser := Some ParserState_new, rdb_bulk_size := Some (length ?d), rdb_bytes_read := 0,
      rstate := ReadingRdb\<rparr>"
  have new: "rbuffer ?s = bs" "rstate ?s = WaitingRdb" by (simp_all add: ReplicaParser_new_def)
  have "skip_newlines newlines = []" using assms(2) by (auto simp: skip_newlines_def)
  then have "skip_newlines (rbuffer ?s) = bulk_header (length ?d) @ ?d @ ?c"
    using skip_newlines_append(1) [of newlines "bulk_header (length ?d) @ ?d @ ?c"] new(1) assms(3)
    by (simp add: skip_newlines_def bulk_header_def)
  moreover have n: "length ?d < 2 ^ 63" "length ?c < 2 ^ 63" using assms(3,4) by auto
  ultimately have "replica_parse_step ?s = (Next, ?t)" using header_read [of ?s "length ?d" "?d @ ?c"] new
    by (simp add: replica_parse_step_def)
  then have r1: "replica_run ?s = replica_run ?t" by (simp add: replica_loop_step [of ?s])
  obtain p where p: "rdb_run (append_data ParserState_new ?d) = Inr (dump_commands items (0, None), p)"
    using run_dump [OF assms(1)] by blast
  have "0 < length ?d" by (simp add: enc_dump_def)
  then have "replica_action ?t = Go (plain (rest_of ?t (length ?d) p)) (dump_commands items (0, None))"
    using snapshot_step [of ?t ParserState_new "length ?d"] n p by (auto simp: ParserState_new_def)
  then have r2: "replica_run ?t = emit (dump_commands items (0, None)) (replica_run (rest_of ?t (length ?d) p))"
    by (simp add: replica_run_step [of ?t] run_plain)
  have "rstate (rest_of ?t (length ?d) p) = Streaming" "rbuffer (rest_of ?t (length ?d) p) = ?c"
    "rcurrent_db (rest_of ?t (length ?d) p) = 0" by (simp_all add: rest_of_def append_stream_def ReplicaParser_new_def)
  then show ?thesis using r1 r2 run_commands [of "rest_of ?t (length ?d) p" css] n by auto
qed

lemma feed_replication:
  assumes "wf_dump magic items checksum" "set newlines \<subseteq> {10, 13}"
    "concat chunks = newlines @ bulk_header (length (enc_dump magic items checksum)) @ enc_dump magic items checksum @
       concat (map enc_command css)"
    "length (concat chunks) < 2 ^ 63"
  shows "\<exists>st. feed_all replica_feed (ReplicaParser_new False) chunks =
      Inr (dump_commands items (0, None) @ stream_commands 0 css, st) \<and> rstate st = Streaming \<and> rbuffer st = []"
proof -
  let ?new = "ReplicaParser_new False" and ?d = "enc_dump magic items checksum"
  have "skip_newlines newlines = []" using assms(2) by (auto simp: skip_newlines_def)
  then have "skip_newlines (concat chunks) = bulk_header (length ?d) @ ?d @ concat (map enc_command css)"
    using skip_newlines_append(1) [of newlines "bulk_header (length ?d) @ ?d @ concat (map enc_command css)"] assms(3)
    by (simp add: skip_newlines_def bulk_header_def)
  then have "replica_good ?new (concat chunks)"
    using assms(1,4) by (auto simp: replica_good_def ReplicaParser_new_def)
  then have "without_flags (feed_all replica_feed ?new chunks) = replica_run (append_stream ?new (concat chunks))"
    by (rule replica_chunks) (simp_all add: new_stream_waits)
  then show ?thesis using run_replication [OF assms]
    by (cases "feed_all replica_feed ?new chunks") auto
qed

text \<open>
  C15. The whole replication stream. A master sends newlines, the header of the snapshot, a well-formed dump of the announced
  size and then commands, in chunks of any size that may end anywhere, in the header, in the dump or in a command. No
  feed fails, and the commands of all the feeds together are those of the dump followed by those of the stream, in their
  order and each for the database selected when it comes (\<open>PING\<close> and \<open>REPLCONF\<close> are kept back); the parser is left
  streaming, with no byte unused.
\<close>

theorem replica_roundtrip:
  assumes "wf_dump magic items checksum" "set newlines \<subseteq> {10, 13}"
    "concat chunks = newlines @ bulk_header (length (enc_dump magic items checksum)) @ enc_dump magic items checksum @
       concat (map enc_command css)"
    "length (concat chunks) < 2 ^ 63"
  shows "\<exists>st. feed_all replica_feed (ReplicaParser_new False) chunks =
      Inr (dump_commands items (0, None) @ stream_commands 0 css, st) \<and> rstate st = Streaming \<and> rbuffer st = []"
  by (rule feed_replication [OF assms])

definition example_commands :: "bytes list list" where
  "example_commands =
     [[ascii ''PING''], [ascii ''select'', ascii ''2''], [ascii ''SET'', [107], []], [ascii ''REPLCONF'', ascii ''GETACK'', [42]],
      [ascii ''DEL'', [107]]]"

definition example_stream :: bytes where
  "example_stream = [10, 10] @ bulk_header (length (enc_dump example_magic [] (replicate 8 0))) @
     enc_dump example_magic [] (replicate 8 0) @ concat (map enc_command example_commands)"

theorem replica_roundtrip_witness:
  "\<exists>st. feed_all replica_feed (ReplicaParser_new False) (map (\<lambda>b. [b]) example_stream) =
      Inr ([with_args 2 ''SET'' [[107], []], with_args 2 ''DEL'' [[107]]], st) \<and> rstate st = Streaming"
proof -
  have wf: "wf_dump example_magic [] (replicate 8 0)"
    using example_wf by (simp add: wf_dump_def enc_dump_def)
  have one: "concat (map (\<lambda>b. [b]) bs) = bs" for bs :: bytes by (induction bs) auto
  have len: "length example_stream < 2 ^ 63"
    by (simp add: example_stream_def enc_dump_def example_magic_def ascii_def example_commands_def enc_command_def enc_bulk_def
        bulk_header_def nat_to_string.simps)
  have "parse_uint 32 [50] = Some 2" by (simp add: parse_uint_def byte_digit_def)
  then have "stream_commands 0 example_commands = [with_args 2 ''SET'' [[107], []], with_args 2 ''DEL'' [[107]]]"
    by (simp add: example_commands_def ascii_def with_args_def)
  moreover have "dump_commands [] (0, None) = []" by simp
  ultimately show ?thesis
    using replica_roundtrip [OF wf, of "[10, 10]" "map (\<lambda>b. [b]) example_stream" example_commands] len
    unfolding one by (auto simp: example_stream_def)
qed

text \<open>
  C18. On the stream of commands the chunks do not matter, whatever the bytes: feeding them piece by piece gives the commands
  and the parser that feeding all of them at once gives, or the same error. Only the flags, which tell what came with
  the last feed, depend on the chunks.
\<close>

theorem stream_chunks:
  assumes "length (concat chunks) < 2 ^ 63"
  shows "without_flags (feed_all replica_feed (ReplicaParser_new True) chunks) =
    without_flags (replica_feed (ReplicaParser_new True) (concat chunks))"
proof -
  have "replica_good (ReplicaParser_new True) (concat chunks)"
    using assms by (simp add: replica_good_def ReplicaParser_new_def)
  then show ?thesis using replica_chunks new_stream_waits replica_feed_run by simp
qed

theorem stream_chunks_witness:
  "without_flags (feed_all replica_feed (ReplicaParser_new True) [[13, 10], [10], [120]]) = Inl (Failed ''expected_array'')"
proof -
  have "replica_feed (ReplicaParser_new True) [13, 10, 10, 120] = Inl (Failed ''expected_array'')"
    by (simp add: replica_feed_def replica_feed_data_def Let_def replica_feed_loop.simps replica_parse_next.simps
        replica_parse_step_def parse_command_def skip_newlines_def ReplicaParser_new_def)
  then show ?thesis using stream_chunks [of "[[13, 10], [10], [120]]"] by simp
qed

end
