(* ===== verification/Replica_Process.thy ===== *)
theory Replica_Process
  imports Projection Replica_Stream
begin

text \<open>
  src/lib/veidrodelis/redis\_stream/replica.ex: the process that connects to the server, negotiates the replication and feeds
  what arrives to the parser and the projection. A handler takes the state and returns what the process does next, the new
  state and its effects, or an exception. What the network answers comes with the event: whether the connection succeeds and
  whether a message can be sent (\<open>sent\<close>). Which server is connected to (the direct address or what the sentinels say), the
  transport options and the log are left out, as are the \<open>post_handle\<close> functions of the command filter, whose \<open>pre_handle\<close>
  is the argument \<open>F\<close>; data and closings of a socket that is no longer current are ignored by the source and are not events.
\<close>

section \<open>State\<close>

datatype replica_phase =
    Ph_init | Ph_ping | Ph_auth | Ph_listening_port | Ph_capa | Ph_psync | Ph_replication

record ('v, 'i, 'p, 'r) replica =
  callback_state :: "('v, 'i, 'p, 'r) TSProj"
  username :: "bytes option"
  password :: "bytes option"
  reconnect_enabled :: bool
  reconnect_delay_ms :: int
  max_reconnect_delay_ms :: int
  current_reconnect_delay_ms :: int
  ack_timer :: bool
  reconnect_timer :: bool
  socket :: bool
  saved_replication_id :: "bytes option"
  saved_replication_offset :: int
  replication_id :: "bytes option"
  replication_offset :: int
  stream_parser :: "ReplicaParser option"
  resp_buffer :: bytes
  phase :: replica_phase

datatype ('p, 'r) replica_effect =
    Socket_send bytes | Socket_close | Reconnect_after int | Notify "('p, 'r) proj_effect"

datatype next_action = Noreply | Reconnect | Stop

type_synonym ('v, 'i, 'p, 'r) handled =
  "next_action \<times> ('v, 'i, 'p, 'r) replica \<times> ('p, 'r) replica_effect list"

definition replica_init ::
  "bytes option \<Rightarrow> bytes option \<Rightarrow> bool \<Rightarrow> int \<Rightarrow> int \<Rightarrow> ('v, 'i, 'p, 'r) replica" where
  "replica_init user pass enabled delay max_delay =
     \<lparr>callback_state = initialize_state, username = user, password = pass, reconnect_enabled = enabled,
      reconnect_delay_ms = delay, max_reconnect_delay_ms = max_delay, current_reconnect_delay_ms = delay,
      ack_timer = False, reconnect_timer = False, socket = False, saved_replication_id = None,
      saved_replication_offset = 0, replication_id = None, replication_offset = 0, stream_parser = None,
      resp_buffer = [], phase = Ph_init\<rparr>"

section \<open>Messages to the server\<close>

definition transmit ::
  "bool \<Rightarrow> bytes list \<Rightarrow> replica_phase \<Rightarrow> ('v, 'i, 'p, 'r) replica \<Rightarrow>
     (('v, 'i, 'p, 'r) replica \<times> ('p, 'r) replica_effect list) option" where
  "transmit sent words ph st = (if sent then Some (st\<lparr>phase := ph\<rparr>, [Socket_send (enc_command words)]) else None)"

definition send_ping where
  "send_ping sent st = transmit sent [ascii ''PING''] Ph_ping st"

definition send_auth where
  "send_auth sent st =
     transmit sent
       (case username st of
          Some user \<Rightarrow> [ascii ''AUTH'', user, the (password st)]
        | None \<Rightarrow> [ascii ''AUTH'', the (password st)]) Ph_auth st"

definition send_replconf_listening_port where
  "send_replconf_listening_port sent st =
     transmit sent [ascii ''REPLCONF'', ascii ''listening-port'', ascii ''99999''] Ph_listening_port st"

definition send_replconf_capa where
  "send_replconf_capa sent st = transmit sent [ascii ''REPLCONF'', ascii ''capa'', ascii ''psync2''] Ph_capa st"

definition send_psync where
  "send_psync sent st =
     (case saved_replication_id st of
        Some repl_id \<Rightarrow> transmit sent [ascii ''PSYNC'', repl_id, i64_to_string (saved_replication_offset st)] Ph_psync st
      | None \<Rightarrow> transmit sent [ascii ''PSYNC'', ascii ''?'', ascii ''-1''] Ph_psync st)"

definition streaming :: "('v, 'i, 'p, 'r) replica \<Rightarrow> bool" where
  "streaming st =
     (phase st = Ph_replication \<and> (case stream_parser st of None \<Rightarrow> False | Some p \<Rightarrow> rstate p = Streaming))"

definition send_replconf_ack :: "bool \<Rightarrow> ('v, 'i, 'p, 'r) replica \<Rightarrow> ('p, 'r) replica_effect list" where
  "send_replconf_ack sent st =
     (if socket st \<and> streaming st \<and> sent
      then [Socket_send (enc_command [ascii ''REPLCONF'', ascii ''ACK'', i64_to_string (replication_offset st)])]
      else [])"

section \<open>Connecting and disconnecting\<close>

definition proceed_after_connect where
  "proceed_after_connect sent st =
     (case password st of
        Some pass \<Rightarrow> send_auth sent (st\<lparr>phase := Ph_auth\<rparr>)
      | None \<Rightarrow> send_ping sent (st\<lparr>phase := Ph_ping\<rparr>))"

definition connect_directly where
  "connect_directly reached sent st = (if reached then proceed_after_connect sent (st\<lparr>socket := True\<rparr>) else None)"

definition schedule_reconnect :: "('v, 'i, 'p, 'r) replica \<Rightarrow> ('v, 'i, 'p, 'r) handled" where
  "schedule_reconnect st =
     (let es = (if socket st then [Socket_close] else []); st1 = st\<lparr>reconnect_timer := False\<rparr>
      in if reconnect_enabled st then
           (Noreply,
            st1\<lparr>current_reconnect_delay_ms := min (current_reconnect_delay_ms st * 2) (max_reconnect_delay_ms st),
                reconnect_timer := True, resp_buffer := [], phase := Ph_init\<rparr>,
            es @ [Reconnect_after (current_reconnect_delay_ms st)])
         else (Stop, st1, es))"

definition handle_connect :: "bool \<Rightarrow> bool \<Rightarrow> ('v, 'i, 'p, 'r) replica \<Rightarrow> ('v, 'i, 'p, 'r) handled" where
  "handle_connect reached sent st =
     (case connect_directly reached sent st of
        Some (st1, es) \<Rightarrow>
          (Noreply, st1\<lparr>current_reconnect_delay_ms := reconnect_delay_ms st, reconnect_timer := False\<rparr>, es)
      | None \<Rightarrow> schedule_reconnect st)"

definition handle_disconnect :: "('v, 'i, 'p, 'r) replica \<Rightarrow> ('v, 'i, 'p, 'r) handled" where
  "handle_disconnect st =
     (let st1 = st\<lparr>ack_timer := False, socket := False,
                   saved_replication_id := (case replication_id st of None \<Rightarrow> saved_replication_id st | Some i \<Rightarrow> Some i),
                   saved_replication_offset := replication_offset st, stream_parser := None, resp_buffer := [],
                   phase := Ph_init\<rparr>
      in case schedule_reconnect st1 of (a, st2, es) \<Rightarrow> (a, st2, (if socket st then [Socket_close] else []) @ es))"

definition handle_reconnect_timeout :: "bool \<Rightarrow> bool \<Rightarrow> ('v, 'i, 'p, 'r) replica \<Rightarrow> ('v, 'i, 'p, 'r) handled" where
  "handle_reconnect_timeout reached sent st =
     (if reconnect_timer st then handle_connect reached sent (st\<lparr>reconnect_timer := False\<rparr>) else (Noreply, st, []))"

definition handle_periodic_ack :: "bool \<Rightarrow> ('v, 'i, 'p, 'r) replica \<Rightarrow> ('v, 'i, 'p, 'r) handled" where
  "handle_periodic_ack sent st = (Noreply, st\<lparr>ack_timer := True\<rparr>, send_replconf_ack sent st)"

section \<open>The replication stream\<close>

text \<open>parser.ex: what the parser returns becomes a command of the projection.\<close>

definition convert_raw :: "(bytes \<Rightarrow> bytes) \<Rightarrow> RawCommand \<Rightarrow> replica_command elixir" where
  "convert_raw G r =
     and_then (parse G (cmd_name r # cmd_args r)) (\<lambda>(command, affected_keys).
       Inr \<lparr>rc_db = uint (cmd_db r), rc_command = command, rc_raw_command = cmd_name r # cmd_args r,
            rc_affected_keys = affected_keys\<rparr>)"

definition process_replica_commands where
  "process_replica_commands D V S I F replica_commands callback =
     (let filtered = List.map_filter F replica_commands
      in if filtered = [] then Inr (callback, []) else handle_commands D V S I filtered callback)"

definition handle_replication_data ::
  "eterm rustler \<Rightarrow> 'v vec_ops \<Rightarrow> score_ops \<Rightarrow> 'i index_ops \<Rightarrow> (bytes \<Rightarrow> bytes) \<Rightarrow> (replica_command \<Rightarrow> replica_command option) \<Rightarrow>
     bool \<Rightarrow> bytes \<Rightarrow> ('v, 'i, 'p::linorder, 'r) replica \<Rightarrow> ('v, 'i, 'p, 'r) handled elixir" where
  "handle_replication_data D V S I G F sent data st =
     (case stream_parser st of
        None \<Rightarrow> Inl ArgumentError
      | Some parser \<Rightarrow>
          (case replica_feed_data parser data of
             (Inl Crash, _) \<Rightarrow> Inl NifPanicked
           | (Inl (Failed reason), _) \<Rightarrow> Inr (Reconnect, st, [])
           | (Inr (raw_commands, ping, replconf_getack), new_parser) \<Rightarrow>
               and_then (Enum_map (convert_raw G) raw_commands) (\<lambda>commands.
                 let acks = (if ping \<or> replconf_getack then send_replconf_ack sent (st\<lparr>stream_parser := Some new_parser\<rparr>) else []);
                     new_offset = (if rstate parser = Streaming then replication_offset st + int (length data)
                                   else replication_offset st);
                     started = (if rstate parser \<noteq> Streaming \<and> rstate new_parser = Streaming
                                then handle_streaming_start (callback_state st) else (callback_state st, []))
                 in and_then (process_replica_commands D V S I F commands (fst started)) (\<lambda>(callback, es).
                      Inr (Noreply,
                           st\<lparr>stream_parser := Some new_parser, replication_offset := new_offset, callback_state := callback\<rparr>,
                           acks @ map Notify (snd started @ es))))))"

section \<open>The handshake\<close>

datatype resp_response = Resp_ok bytes bytes | Resp_incomplete | Resp_error bytes

definition parse_simple_response :: "bytes \<Rightarrow> resp_response" where
  "parse_simple_response buf =
     (let b = skip_newlines buf
      in if b \<noteq> [] \<and> (b ! 0 = 43 \<or> b ! 0 = 45) then
           (case find_crlf b of
              None \<Rightarrow> Resp_incomplete
            | Some p \<Rightarrow>
                (if b ! 0 = 43 then Resp_ok (drop 1 (take p b)) (drop (p + 2) b) else Resp_error (drop 1 (take p b))))
         else Resp_incomplete)"

datatype psync_response = Psync_full bytes int bytes | Psync_continue bytes | Psync_incomplete | Psync_error bytes

definition starts_with :: "bytes \<Rightarrow> bytes \<Rightarrow> bool" where
  "starts_with w b = (take (length w) b = w)"

definition parse_psync_response :: "bytes \<Rightarrow> psync_response elixir" where
  "parse_psync_response buf =
     (let b = skip_newlines buf
      in if starts_with (ascii ''+FULLRESYNC '') b then
           (case find_crlf b of
              None \<Rightarrow> Inr Psync_incomplete
            | Some p \<Rightarrow>
                (let params = drop 12 (take p b); offset_str = dropWhile (\<lambda>c. c \<noteq> 32) params
                 in if offset_str = [] then Inl MatchError
                    else and_then (String_to_integer (tl offset_str)) (\<lambda>offset.
                           Inr (Psync_full (takeWhile (\<lambda>c. c \<noteq> 32) params) offset (drop (p + 2) b)))))
         else if starts_with (ascii ''+CONTINUE'') b then
           Inr (case find_crlf b of None \<Rightarrow> Psync_incomplete | Some p \<Rightarrow> Psync_continue (drop (p + 2) b))
         else if starts_with [45] b then
           Inr (case find_crlf b of None \<Rightarrow> Psync_incomplete | Some p \<Rightarrow> Psync_error (drop 1 (take p b)))
         else Inr Psync_incomplete)"

definition after_send ::
  "next_action \<Rightarrow> ('v, 'i, 'p, 'r) replica \<Rightarrow> (('v, 'i, 'p, 'r) replica \<times> ('p, 'r) replica_effect list) option \<Rightarrow>
     ('v, 'i, 'p, 'r) handled" where
  "after_send failure st r = (case r of Some (st1, es) \<Rightarrow> (Noreply, st1, es) | None \<Rightarrow> (failure, st, []))"

definition handle_simple_response where
  "handle_simple_response send failure st =
     (case parse_simple_response (resp_buffer st) of
        Resp_ok response rest \<Rightarrow> (let st1 = st\<lparr>resp_buffer := rest\<rparr> in after_send failure st1 (send st1))
      | Resp_incomplete \<Rightarrow> (Noreply, st, [])
      | Resp_error e \<Rightarrow> (Reconnect, st, []))"

definition psync_fullresync :: "bytes \<Rightarrow> int \<Rightarrow> ('v, 'i, 'p, 'r) replica \<Rightarrow> ('v, 'i, 'p, 'r) replica" where
  "psync_fullresync repl_id offset st =
     st\<lparr>callback_state := handle_replication_start (callback_state st), replication_id := Some repl_id,
        replication_offset := offset, stream_parser := Some (ReplicaParser_new False), phase := Ph_replication\<rparr>"

definition psync_continue :: "('v, 'i, 'p, 'r) replica \<Rightarrow> ('v, 'i, 'p, 'r) replica" where
  "psync_continue st =
     st\<lparr>replication_id := saved_replication_id st, replication_offset := saved_replication_offset st,
        stream_parser := Some (ReplicaParser_new True), phase := Ph_replication\<rparr>"

definition psync_completed where
  "psync_completed D V S I G F sent st =
     (let st1 = st\<lparr>ack_timer := True\<rparr>
      in if resp_buffer st1 = [] then Inr (Noreply, st1, [])
         else handle_replication_data D V S I G F sent (resp_buffer st1) (st1\<lparr>resp_buffer := []\<rparr>))"

definition handle_psync_response where
  "handle_psync_response D V S I G F sent st =
     and_then (parse_psync_response (resp_buffer st)) (\<lambda>response.
       case response of
         Psync_incomplete \<Rightarrow> Inr (Noreply, st, [])
       | Psync_error e \<Rightarrow> Inr (Reconnect, st, [])
       | Psync_full repl_id offset rest \<Rightarrow>
           psync_completed D V S I G F sent (psync_fullresync repl_id offset (st\<lparr>resp_buffer := rest\<rparr>))
       | Psync_continue rest \<Rightarrow> psync_completed D V S I G F sent (psync_continue (st\<lparr>resp_buffer := rest\<rparr>)))"

definition handle_response ::
  "eterm rustler \<Rightarrow> 'v vec_ops \<Rightarrow> score_ops \<Rightarrow> 'i index_ops \<Rightarrow> (bytes \<Rightarrow> bytes) \<Rightarrow> (replica_command \<Rightarrow> replica_command option) \<Rightarrow>
     bool \<Rightarrow> ('v, 'i, 'p::linorder, 'r) replica \<Rightarrow> ('v, 'i, 'p, 'r) handled elixir" where
  "handle_response D V S I G F sent st =
     (case phase st of
        Ph_ping \<Rightarrow> Inr (handle_simple_response (send_replconf_listening_port sent) Stop st)
      | Ph_auth \<Rightarrow> Inr (handle_simple_response (send_ping sent) Reconnect st)
      | Ph_listening_port \<Rightarrow> Inr (handle_simple_response (send_replconf_capa sent) Stop st)
      | Ph_capa \<Rightarrow> Inr (handle_simple_response (send_psync sent) Stop st)
      | Ph_psync \<Rightarrow> handle_psync_response D V S I G F sent st
      | _ \<Rightarrow> Inl CaseClauseError)"

definition handle_data ::
  "eterm rustler \<Rightarrow> 'v vec_ops \<Rightarrow> score_ops \<Rightarrow> 'i index_ops \<Rightarrow> (bytes \<Rightarrow> bytes) \<Rightarrow> (replica_command \<Rightarrow> replica_command option) \<Rightarrow>
     bool \<Rightarrow> bytes \<Rightarrow> ('v, 'i, 'p::linorder, 'r) replica \<Rightarrow> ('v, 'i, 'p, 'r) handled elixir" where
  "handle_data D V S I G F sent data st =
     and_then
       (if phase st = Ph_replication then handle_replication_data D V S I G F sent data st
        else handle_response D V S I G F sent (st\<lparr>resp_buffer := resp_buffer st @ data\<rparr>))
       (\<lambda>(a, st1, es).
          Inr (if a = Reconnect then (case handle_disconnect st1 of (a2, st2, es2) \<Rightarrow> (a2, st2, es @ es2)) else (a, st1, es)))"

section \<open>Calls and messages\<close>

datatype call_reply = Call_done | Call_failed watch_error | Not_connected

definition handle_callback_call ::
  "('p::linorder, 'r) watch_call \<Rightarrow> ('v, 'i, 'p, 'r) replica \<Rightarrow> (call_reply \<times> ('v, 'i, 'p, 'r) replica) elixir" where
  "handle_callback_call message st =
     (if phase st = Ph_replication then
        and_then (handle_call message (callback_state st)) (\<lambda>(reply, callback).
          Inr (case reply of Inl e \<Rightarrow> Call_failed e | Inr _ \<Rightarrow> Call_done, st\<lparr>callback_state := callback\<rparr>))
      else Inr (Not_connected, st))"

definition handle_info_down :: "'p::linorder \<Rightarrow> ('v, 'i, 'p, 'r) replica \<Rightarrow> ('v, 'i, 'p, 'r) replica elixir" where
  "handle_info_down pid st = and_then (handle_down pid (callback_state st)) (\<lambda>callback. Inr (st\<lparr>callback_state := callback\<rparr>))"

text \<open>Whatever reaches the process. Data and closings come from a socket.\<close>

datatype ('p, 'r) replica_event =
    On_connect bool bool | On_data bool bytes | On_closed | On_reconnect_timeout bool bool | On_periodic_ack bool
  | On_call "('p, 'r) watch_call" | On_down 'p

definition enabled :: "('p, 'r) replica_event \<Rightarrow> ('v, 'i, 'p, 'r) replica \<Rightarrow> bool" where
  "enabled e st =
     (case e of
        On_connect _ _ \<Rightarrow> False
      | On_data _ _ \<Rightarrow> socket st
      | On_closed \<Rightarrow> socket st
      | _ \<Rightarrow> True)"

fun handle_event ::
  "eterm rustler \<Rightarrow> 'v vec_ops \<Rightarrow> score_ops \<Rightarrow> 'i index_ops \<Rightarrow> (bytes \<Rightarrow> bytes) \<Rightarrow> (replica_command \<Rightarrow> replica_command option) \<Rightarrow>
     ('p, 'r) replica_event \<Rightarrow> ('v, 'i, 'p::linorder, 'r) replica \<Rightarrow> ('v, 'i, 'p, 'r) handled elixir" where
  "handle_event D V S I G F (On_connect reached sent) st = Inr (handle_connect reached sent st)"
| "handle_event D V S I G F (On_data sent data) st = handle_data D V S I G F sent data st"
| "handle_event D V S I G F On_closed st = Inr (handle_disconnect st)"
| "handle_event D V S I G F (On_reconnect_timeout reached sent) st = Inr (handle_reconnect_timeout reached sent st)"
| "handle_event D V S I G F (On_periodic_ack sent) st = Inr (handle_periodic_ack sent st)"
| "handle_event D V S I G F (On_call message) st =
     and_then (handle_callback_call message st) (\<lambda>(reply, st1). Inr (Noreply, st1, []))"
| "handle_event D V S I G F (On_down pid) st = and_then (handle_info_down pid st) (\<lambda>st1. Inr (Noreply, st1, []))"

end
