(* ===== verification/No_Panic.thy ===== *)
theory No_Panic
  imports Parsed_Commands Projection
begin

text \<open>
  The commands of a replication stream do not make the storage panic: what the parser builds is decoded without one, and the
  commands themselves panic only on a lexicographic range whose ends are inverted.
\<close>

section \<open>The commands\<close>

definition lex_range_ok :: "write_command \<Rightarrow> bool" where
  "lex_range_ok c =
     (case c of
        C_zremrangebylex k lo hi \<Rightarrow> range_ok lo hi
      | C_zrangestore d src lo hi by_score by_lex rv limit \<Rightarrow>
          by_lex \<longrightarrow> (\<forall>a b. ZSet_Stores.parse_lex_bound lo = Inr a \<longrightarrow> ZSet_Stores.parse_lex_bound hi = Inr b \<longrightarrow> range_ok a b)
      | _ \<Rightarrow> True)"

definition quiet :: "transformer \<Rightarrow> bool" where
  "quiet f \<longleftrightarrow> (\<forall>a. fst (f a) \<noteq> Err Panic)"

lemma quiet_at_key: "quiet f \<Longrightarrow> fst (at_key db k f K) \<noteq> Err Panic"
  by (auto simp: quiet_def at_key_def split: prod.split)

lemma quiet_cases:
  assumes "fst (f None) \<noteq> Err Panic" "\<And>b. fst (f (Some (AString b))) \<noteq> Err Panic"
    "\<And>x. fst (f (Some (ASet x))) \<noteq> Err Panic" "\<And>l. fst (f (Some (AList l))) \<noteq> Err Panic"
    "\<And>h. fst (f (Some (AHash h))) \<noteq> Err Panic" "\<And>z. fst (f (Some (AZSet z))) \<noteq> Err Panic"
  shows "quiet f"
  unfolding quiet_def by (metis assms avalue.exhaust option.exhaust)

lemma quiet_strings:
  "quiet (spec_set v)" "quiet (spec_append v)" "quiet (spec_setrange i v)" "quiet (spec_counter IncrOverflow n)"
  "quiet (spec_counter DecrOverflow n)"
  by (rule quiet_cases; auto simp: spec_set_def split: option.split)+

lemma quiet_sets_lists:
  "quiet (spec_sadd ms)" "quiet (spec_srem ms)" "quiet (spec_list_mut f)" "quiet (spec_push b vs)"
  by (rule quiet_cases; auto)+

lemma quiet_hash: "(\<And>h. fst (f h) \<noteq> Err Panic) \<Longrightarrow> quiet (spec_hash f)"
  by (rule quiet_cases) (auto simp: case_prod_beta split: prod.split)

lemma quiet_hashes:
  "quiet (spec_hset fd v)" "quiet (spec_hmset fvs)" "quiet (spec_hsetnx fd v)" "quiet (spec_hsetex mode fvs)"
  "quiet (spec_hdel fs)" "quiet (spec_hincrby fd n)" "quiet (spec_hincrbyfloat fd d)"
proof -
  show "quiet (spec_hset fd v)" "quiet (spec_hmset fvs)" "quiet (spec_hsetnx fd v)" "quiet (spec_hsetex mode fvs)"
    "quiet (spec_hincrby fd n)" "quiet (spec_hincrbyfloat fd d)"
    unfolding spec_hset_def spec_hmset_def spec_hsetnx_def spec_hsetex_def spec_hincrby_def spec_hincrbyfloat_def
    by (rule quiet_hash; auto split: option.split)+
  show "quiet (spec_hdel fs)" by (rule quiet_cases) auto
qed

lemma quiet_zset_mut: "(\<And>m. fst (f m) \<noteq> Err Panic) \<Longrightarrow> quiet (spec_zset_mut f)" "quiet (spec_zset_new h)"
  by (rule quiet_cases; auto)+

lemma quiet_zsets:
  "quiet (spec_zrem xs)" "quiet (spec_zpopmin S n)" "quiet (spec_zpopmax S n)" "quiet (spec_zremrangebyrank S i j)"
  "quiet (spec_zremrangebyscore S lo hi)" "range_ok a b \<Longrightarrow> quiet (spec_zremrangebylex a b)" "quiet (spec_zincrby S d x)"
  "quiet (spec_zadd S ps opts)"
proof -
  show "quiet (spec_zrem xs)" "quiet (spec_zpopmin S n)" "quiet (spec_zpopmax S n)" "quiet (spec_zremrangebyrank S i j)"
    "quiet (spec_zremrangebyscore S lo hi)" "range_ok a b \<Longrightarrow> quiet (spec_zremrangebylex a b)"
    unfolding spec_zrem_def spec_zpopmin_def spec_zpopmax_def spec_zremrangebyrank_def spec_zremrangebyscore_def
      spec_zremrangebylex_def
    by (rule quiet_zset_mut; auto simp: Let_def)+
  show "quiet (spec_zincrby S d x)" unfolding spec_zincrby_def by (rule quiet_zset_mut)
  show "quiet (spec_zadd S ps opts)"
    using quiet_zset_mut(2) [of "fold (zadd_pair S opts) ps"]
    by (auto simp: quiet_def spec_zadd_def zadd_error_def split: option.splits if_splits)
qed

lemmas quiets = quiet_strings quiet_sets_lists quiet_hashes quiet_zsets

lemma bounds_quiet: "ZSet_Stores.parse_lex_bound x \<noteq> Inl Panic" "ZSet_Stores.parse_score_bound x \<noteq> Inl Panic"
  by (auto simp: ZSet_Stores.parse_lex_bound_def ZSet_Stores.parse_score_bound_def split: if_splits option.splits)

lemma operand_quiet: "operand a \<noteq> Inl Panic"
  by (cases a rule: operand.cases) auto

lemma set_folds_quiet: "ks_union as X \<noteq> Inl Panic" "ks_inter as X \<noteq> Inl Panic" "ks_diff as X \<noteq> Inl Panic"
  by (induction as arbitrary: X) (auto simp: operand_quiet split: sum.split)

lemma stores_quiet:
  "fst (spec_store db d (spec_sunion db ks) K) \<noteq> Err Panic" "fst (spec_store db d (spec_sinter db ks) K) \<noteq> Err Panic"
  "fst (spec_store db d (spec_sdiff db ks) K) \<noteq> Err Panic" "fst (spec_zstore db d (spec_zunion S ws agg db ks) K) \<noteq> Err Panic"
  "fst (spec_zstore db d (spec_zinter S ws agg db ks) K) \<noteq> Err Panic" "fst (spec_zstore db d (spec_zdiff db ks) K) \<noteq> Err Panic"
  by (auto simp: spec_store_def spec_zstore_def spec_sunion_def spec_sinter_def spec_sdiff_def spec_zunion_def spec_zinter_def
      spec_zdiff_def Let_def operand_quiet set_folds_quiet split: sum.splits if_splits list.splits option.splits avalue.splits)

lemma select_quiet:
  "(\<And>a b. by_lex \<Longrightarrow> ZSet_Stores.parse_lex_bound lo = Inr a \<Longrightarrow> ZSet_Stores.parse_lex_bound hi = Inr b \<Longrightarrow> range_ok a b) \<Longrightarrow>
     spec_select S by_score by_lex rv lo hi m \<noteq> Err Panic"
  using bounds_quiet by (auto simp: spec_select_def Let_def split: sum.splits option.splits)

lemma map_sum_Inl: "map_sum id f r = Inl e \<longleftrightarrow> r = Inl e"
  by (cases r) simp_all

lemma rangestore_quiet:
  "lex_range_ok (C_zrangestore d src lo hi by_score by_lex rv limit) \<Longrightarrow>
     fst (spec_zstore db d (spec_zrange_sel S by_score by_lex rv lo hi limit db src) K) \<noteq> Err Panic"
  using select_quiet [of by_lex lo hi S by_score rv]
  by (auto simp: lex_range_ok_def spec_zstore_def spec_zrange_sel_def Let_def map_sum_Inl split: sum.splits option.splits avalue.splits if_splits)

lemma two_keys_quiet:
  "fst (spec_copy db a b r K) \<noteq> Err Panic" "fst (spec_rename db a b K) \<noteq> Err Panic" "fst (spec_renamenx db a b K) \<noteq> Err Panic"
  "fst (spec_move db e a K) \<noteq> Err Panic" "fst (spec_smove db a b x K) \<noteq> Err Panic" "fst (spec_lmove db a b fl tol K) \<noteq> Err Panic"
  by (auto simp: spec_copy_def spec_rename_def spec_renamenx_def spec_move_def spec_smove_def spec_lmove_def Let_def quiet_at_key quiets
      quiets(6) [unfolded quiet_def]
      split: option.split avalue.split)

lemma command_quiet:
  assumes "lex_range_ok c"
  shows "fst (spec_command S db c K) \<noteq> Err Panic"
proof (cases c)
  case C_zrangestore
  then show ?thesis using assms rangestore_quiet by simp
qed (use assms in \<open>auto simp: lex_range_ok_def quiet_at_key quiets stores_quiet two_keys_quiet spec_mset_def spec_flushall_def
      spec_flushdb_def spec_swapdb_def\<close>)

section \<open>Batches\<close>

fun request_quiet :: "request \<Rightarrow> bool" where
  "request_quiet (Inl e) = (e \<noteq> Panic)"
| "request_quiet (Inr (db, c)) = lex_range_ok c"

lemma spec_request_quiet: "request_quiet q \<Longrightarrow> fst (spec_request S q K) \<noteq> Err Panic"
  by (cases q rule: request_quiet.cases) (simp_all add: spec_request_def command_quiet)

lemma spec_batch_quiet:
  "list_all request_quiet qs \<Longrightarrow> \<exists>rs. fst (spec_batch S qs K) = Some rs \<and> length rs = length qs"
proof (induction qs arbitrary: K)
  case (Cons q qs)
  obtain r K1 where r: "spec_request S q K = (r, K1)" by fastforce
  with Cons.prems spec_request_quiet [of q S K] have "r \<noteq> Err Panic" by simp
  with r Cons obtain rs where "fst (spec_batch S qs K1) = Some rs" "length rs = length qs" by fastforce
  then show ?case using r \<open>r \<noteq> Err Panic\<close> by (cases "spec_batch S qs K1") auto
qed simp

lemma batch_runs:
  assumes "nif V S I D" "storage_ok S I st" "list_all (request_ranges_ok S) (map (decode_term D) ts)"
    "list_all request_quiet (map (decode_term D) ts)"
  shows "\<exists>rs st'. execute_write_commands D V S I ts st = (Some rs, st') \<and> length rs = length ts \<and> storage_ok S I st' \<and>
    abs_storage V st' = snd (spec_batch S (map (decode_term D) ts) (abs_storage V st))"
proof -
  obtain r st' where e: "execute_write_commands D V S I ts st = (r, st')" by fastforce
  have "storage_ok S I st'" "(r, abs_storage V st') = spec_batch S (map (decode_term D) ts) (abs_storage V st)"
    using nif.batch_refines [OF assms(1-3)] e by simp_all
  with e spec_batch_quiet [OF assms(4), of S "abs_storage V st"] show ?thesis
    by (metis fst_conv length_map snd_conv)
qed

section \<open>Parsed commands\<close>

lemma parse_calm: "yields (calm D) (parse G args)"
  by (auto simp: parse_def named_calm generic_calm split: list.split)

definition from_stream :: "eterm \<Rightarrow> bool" where
  "from_stream t \<longleftrightarrow> (\<exists>db G args c ks. t = E_tuple [E_int db, c] \<and> 0 \<le> db \<and> db < 2 ^ 64 \<and> parse G args = Inr (c, ks))"

definition lex_ok :: "eterm rustler \<Rightarrow> eterm \<Rightarrow> bool" where
  "lex_ok D t = (case decode_term D t of Inl e \<Rightarrow> True | Inr (db, c) \<Rightarrow> lex_range_ok c)"

lemma from_stream_quiet:
  assumes "term_codec D" "from_stream t" "lex_ok D t"
  shows "request_quiet (decode_term D t)"
proof -
  obtain db G args c ks where t: "t = E_tuple [E_int db, c]" "0 \<le> db" "db < 2 ^ 64" "parse G args = Inr (c, ks)"
    using assms(2) by (auto simp: from_stream_def)
  then obtain name as where c: "c = cmd name as" "decode_command D name as \<noteq> Err Panic"
    using parse_calm [of D G args] by (auto simp: yields_def calm_def)
  then have d: "decode_term D t = map_sum id (Pair (word_of_int db)) (decode_command D name as)"
    using term_codec.decode_tuple [OF assms(1) t(2,3)] t(1) by simp
  with c(2) assms(3) show ?thesis by (cases "decode_command D name as") (auto simp: lex_ok_def)
qed


definition word_commands :: "bytes list list" where
  "word_commands =
     [[ascii ''INCRBY'', [110], ascii ''99999999999999999999''], [ascii ''LPOP''],
      [ascii ''ZREMRANGEBYLEX'', [122], ascii ''[a'', ascii ''[b'']]"

definition word_terms :: "eterm list" where
  "word_terms =
     [E_tuple [E_int 0, cmd ''incrby'' [E_bin [110], E_int 99999999999999999999]],
      E_tuple [E_int 0, cmd ''generic'' [binaries [ascii ''LPOP'']]],
      E_tuple [E_int 0, cmd ''zremrangebylex''
        [E_bin [122], E_tuple [E_atom ''included'', E_bin [97]], E_tuple [E_atom ''included'', E_bin [98]]]]]"

lemma word_commands_parsed:
  "map (parse (drop 1)) word_commands =
     map (\<lambda>t. case t of E_tuple [db, c] \<Rightarrow> ok c (extract_affected_keys_for_notification c)) word_terms"
  by (simp add: word_commands_def word_terms_def parse_def parse_named_def ascii_def String_to_integer_def split_sign_def
      is_digit_def digits_value_def Command_Parser.parse_lex_bound_def generic_def extract_affected_keys_for_notification_def
      one_key_def binaries_def)

lemma word_terms_from_stream: "list_all from_stream word_terms"
proof -
  have "from_stream (E_tuple [E_int 0, c])" if "parse G args = Inr (c, ks)" for G args c ks
    using that unfolding from_stream_def by (intro exI [of _ 0]) auto
  then show ?thesis
    using word_commands_parsed by (auto simp: word_terms_def word_commands_def)
qed

lemma word_terms_decoded:
  "map (decode_term erlang) word_terms =
     [Err (Usage ''INCRBY''), Err (Usage ''unknown''), Ok (0, C_zremrangebylex [122] (Included [97]) (Included [98]))]"
  by (simp add: word_terms_def decode_erlang i64_range_def decode_lex_bound_def)


end
