(* ===== verification/Transactions.thy ===== *)
theory Transactions
  imports No_Panic
begin

text \<open>
  The commands arrive in chunks, one call of \<open>handle_commands\<close> each. Whatever the chunks, the storage runs the commands in
  their order, and a transaction reaches it as one batch.
\<close>

section \<open>Calls one after the other\<close>

text \<open>The commands arrive in chunks, one call of \<open>handle_commands\<close> each.\<close>

primrec handle_all ::
  "eterm rustler \<Rightarrow> 'v vec_ops \<Rightarrow> score_ops \<Rightarrow> 'i index_ops \<Rightarrow> replica_command list list \<Rightarrow> ('v, 'i, 'p, 'r) TSProj \<Rightarrow>
     ('v, 'i, 'p::linorder, 'r) proj_run" where
  "handle_all D V S I [] st = Inr (st, [])"
| "handle_all D V S I (cs # css) st =
     and_then (handle_commands D V S I cs st) (\<lambda>(st1, es1).
       and_then (handle_all D V S I css st1) (\<lambda>(st2, es2). Inr (st2, es1 @ es2)))"

text \<open>The same as one sequence, in which the end of a chunk is a step of its own.\<close>

datatype proj_step = Command replica_command | EndOfChunk

definition proj_step ::
  "eterm rustler \<Rightarrow> 'v vec_ops \<Rightarrow> score_ops \<Rightarrow> 'i index_ops \<Rightarrow> proj_step \<Rightarrow> ('v, 'i, 'p, 'r) TSProj \<Rightarrow>
     ('v, 'i, 'p::linorder, 'r) proj_run" where
  "proj_step D V S I x st =
     (case x of
        Command rc \<Rightarrow> process_single_command D V S I rc st
      | EndOfChunk \<Rightarrow> if in_transaction st then Inr (st, []) else flush_tx_buffer D V S I st)"

primrec proj_steps ::
  "eterm rustler \<Rightarrow> 'v vec_ops \<Rightarrow> score_ops \<Rightarrow> 'i index_ops \<Rightarrow> proj_step list \<Rightarrow> ('v, 'i, 'p, 'r) TSProj \<Rightarrow>
     ('v, 'i, 'p::linorder, 'r) proj_run" where
  "proj_steps D V S I [] st = Inr (st, [])"
| "proj_steps D V S I (x # xs) st =
     and_then (proj_step D V S I x st) (\<lambda>(st1, es1).
       and_then (proj_steps D V S I xs st1) (\<lambda>(st2, es2). Inr (st2, es1 @ es2)))"

definition steps_of :: "replica_command list list \<Rightarrow> proj_step list" where
  "steps_of css = concat (map (\<lambda>cs. map Command cs @ [EndOfChunk]) css)"

definition commands_of :: "proj_step list \<Rightarrow> replica_command list" where
  "commands_of xs = List.map_filter (\<lambda>x. case x of Command rc \<Rightarrow> Some rc | EndOfChunk \<Rightarrow> None) xs"

lemma commands_of_simps [simp]:
  "commands_of [] = []" "commands_of (Command rc # xs) = rc # commands_of xs" "commands_of (EndOfChunk # xs) = commands_of xs"
  "commands_of (xs @ ys) = commands_of xs @ commands_of ys" "commands_of (map Command rcs) = rcs"
proof -
  show "commands_of (map Command rcs) = rcs"
    by (induction rcs) (simp_all add: commands_of_def List.map_filter_def)
qed (simp_all add: commands_of_def List.map_filter_def)

lemma commands_of_steps [simp]: "commands_of (steps_of css) = concat css"
  by (induction css) (simp_all add: steps_of_def)

lemma commands_of_split:
  "commands_of xs = as @ rc # bs \<Longrightarrow> \<exists>ys zs. xs = ys @ Command rc # zs \<and> commands_of ys = as \<and> commands_of zs = bs"
proof (induction xs arbitrary: as)
  case (Cons x xs)
  show ?case
  proof (cases x)
    case (Command c)
    show ?thesis
    proof (cases as)
      case Nil
      with Cons.prems Command show ?thesis by - (rule exI [of _ "[]"], rule exI [of _ xs], simp)
    next
      case (Cons a as')
      with Cons.prems Command have "a = c" "commands_of xs = as' @ rc # bs" by simp_all
      with Cons.IH [of as'] obtain ys zs where "xs = ys @ Command rc # zs" "commands_of ys = as'" "commands_of zs = bs" by blast
      with Command Cons \<open>a = c\<close> show ?thesis by - (rule exI [of _ "Command c # ys"], rule exI [of _ zs], simp)
    qed
  next
    case EndOfChunk
    with Cons obtain ys zs where "xs = ys @ Command rc # zs" "commands_of ys = as" "commands_of zs = bs" by auto
    with EndOfChunk show ?thesis by - (rule exI [of _ "EndOfChunk # ys"], rule exI [of _ zs], simp)
  qed
qed simp

lemma run_append:
  "proj_steps D V S I (xs @ ys) st =
     and_then (proj_steps D V S I xs st) (\<lambda>(st1, es1).
       and_then (proj_steps D V S I ys st1) (\<lambda>(st2, es2). Inr (st2, es1 @ es2)))"
proof (induction xs arbitrary: st)
  case Nil
  show ?case by (cases "proj_steps D V S I ys st") auto
next
  case (Cons x xs)
  show ?case
  proof (cases "proj_step D V S I x st")
    case (Inr p)
    obtain st1 es1 where p: "p = (st1, es1)" by fastforce
    show ?thesis
    proof (cases "proj_steps D V S I xs st1")
      case (Inr q)
      obtain st2 es2 where "q = (st2, es2)" by fastforce
      with Inr p \<open>proj_step D V S I x st = Inr p\<close> Cons.IH [of st1] show ?thesis
        by (cases "proj_steps D V S I ys st2") auto
    qed (use p Inr Cons.IH [of st1] in simp)
  qed simp
qed

lemma commands_steps:
  "proj_steps D V S I (map Command rcs) st = process_commands D V S I rcs st"
  by (induction rcs arbitrary: st) (simp_all add: proj_step_def)

lemma handle_steps: "handle_commands D V S I rcs st = proj_steps D V S I (map Command rcs @ [EndOfChunk]) st"
proof (cases "process_commands D V S I rcs st")
  case (Inr p)
  obtain st1 es1 where "p = (st1, es1)" by fastforce
  then show ?thesis using Inr
    by (cases "flush_tx_buffer D V S I st1") (auto simp: handle_commands_def run_append commands_steps proj_step_def)
qed (simp add: handle_commands_def run_append commands_steps)

lemma handle_all_steps: "handle_all D V S I css st = proj_steps D V S I (steps_of css) st"
proof (induction css arbitrary: st)
  case (Cons cs css)
  have "steps_of (cs # css) = (map Command cs @ [EndOfChunk]) @ steps_of css" by (simp add: steps_of_def)
  then show ?case by (simp only: handle_all.simps handle_steps Cons.IH run_append [of _ _ _ _ _ "steps_of css"])
qed (simp add: steps_of_def)

section \<open>What the steps do\<close>

definition batches :: "('p, 'r) proj_effect list \<Rightarrow> eterm list list" where
  "batches es = List.map_filter (\<lambda>e. case e of Tx ts \<Rightarrow> Some ts | Send _ _ _ \<Rightarrow> None) es"

definition converted :: "(int \<times> eterm) list \<Rightarrow> eterm list" where
  "converted cs = List.map_filter (\<lambda>(db, command). convert_command db command) cs"

definition rc_pair :: "replica_command \<Rightarrow> int \<times> eterm" where
  "rc_pair rc = (rc_db rc, rc_command rc)"

definition pending :: "('v, 'i, 'p, 'r) TSProj \<Rightarrow> eterm list" where
  "pending st = converted (rev (tx_buffer st))"

lemma batches_simps [simp]:
  "batches [] = []" "batches (Tx ts # es) = ts # batches es" "batches (Send p r ev # es) = batches es"
  "batches (es @ es') = batches es @ batches es'"
  by (simp_all add: batches_def List.map_filter_def)

lemma converted_append [simp]: "converted (xs @ ys) = converted xs @ converted ys" "converted [] = []"
  by (simp_all add: converted_def List.map_filter_def)

lemma no_batches: "(\<And>e. e \<in> set es \<Longrightarrow> \<exists>p r ev. e = Send p r ev) \<Longrightarrow> batches es = []"
proof (induction es)
  case (Cons e es)
  then obtain p r ev where "e = Send p r ev" by (meson list.set_intros(1))
  with Cons show ?case by simp
qed simp

lemma notify_batches: "batches (notify_watchers st db command ks) = []"
  by (rule no_batches) (auto simp: notify_watchers_def update_to_def split: if_splits eterm.splits list.splits)

lemma sends_batches: "batches (concat (map (\<lambda>(db, command). notify_watchers st db command (f command)) cs)) = []"
  by (induction cs) (auto simp: notify_batches)

lemma put_target_simps [simp]:
  "tx_buffer (put_target s st) = tx_buffer st" "in_transaction (put_target s st) = in_transaction st"
  "ready (put_target s st) = ready st" "write_target (put_target s st) = Some s"
  "write_target (st\<lparr>tx_buffer := b\<rparr>) = write_target st" "write_target (st\<lparr>in_transaction := t\<rparr>) = write_target st"
  "watch (put_target s st) = watch st"
  by (simp_all add: put_target_def write_target_def split: option.split)

lemma flush_empties:
  assumes "flush_tx_buffer D V S I st = Inr (st', es)"
  shows "tx_buffer st' = [] \<and> concat (batches es) = pending st \<and> in_transaction st' = in_transaction st \<and>
    (pending st \<noteq> [] \<longrightarrow> batches es = [pending st])"
  using assms
  by (auto simp: flush_tx_buffer_def Let_def pending_def converted_def [symmetric] sends_batches split: if_splits option.splits prod.splits)

lemma step_batches:
  assumes "proj_step D V S I x st = Inr (st', es)"
  shows "concat (batches es) @ pending st' = pending st @ converted (map rc_pair (commands_of [x]))"
proof (cases x)
  case (Command rc)
  have "pending (buffered rc st) = pending st @ converted [rc_pair rc]"
    by (simp add: buffered_def pending_def rc_pair_def)
  with Command assms show ?thesis
    by (auto simp: proj_step_def process_single_command_def and_then_Inr rc_pair_def pending_def
        split: if_splits dest!: flush_empties)
next
  case EndOfChunk
  with assms show ?thesis by (auto simp: proj_step_def pending_def split: if_splits dest!: flush_empties)
qed

lemma steps_batches:
  "proj_steps D V S I xs st = Inr (st', es) \<Longrightarrow>
     concat (batches es) @ pending st' = pending st @ converted (map rc_pair (commands_of xs))"
proof (induction xs arbitrary: st es)
  case (Cons x xs)
  then obtain st1 es1 es2 where s: "proj_step D V S I x st = Inr (st1, es1)" "proj_steps D V S I xs st1 = Inr (st', es2)"
    "es = es1 @ es2" by (auto simp: and_then_Inr)
  have "commands_of (x # xs) = commands_of [x] @ commands_of xs" by (cases x) simp_all
  then show ?case
    using step_batches [OF s(1)] Cons.IH [OF s(2)] s(3) by simp
qed simp

section \<open>The storage\<close>

lemma execute_append:
  "execute_write_commands D V S I as s = (Some rs, s1) \<Longrightarrow>
     execute_write_commands D V S I (as @ bs) s =
       (case execute_write_commands D V S I bs s1 of (rs2, s2) \<Rightarrow> (map_option ((@) rs) rs2, s2))"
proof (induction as arbitrary: s rs)
  case (Cons a as)
  obtain r s' where a: "execute D V S I s a = (r, s')" by fastforce
  have r: "r \<noteq> Err Panic" using Cons.prems a by (auto split: if_splits)
  then obtain rs' where rs: "execute_write_commands D V S I as s' = (Some rs', s1)" "rs = r # rs'"
    using Cons.prems a by (auto split: prod.splits)
  show ?case using Cons.IH [OF rs(1)] a r rs(2) by (auto split: prod.splits simp: option.map_comp comp_def)
next
  case Nil
  have "map_option ((@) []) r = r" for r :: "unit result list option" by (cases r) simp_all
  with Nil show ?case by (auto simp: option.map_ident split: prod.splits)
qed

lemma execute_prefix:
  assumes "execute_write_commands D V S I (as @ bs) s = (Some rs, s2)"
  shows "\<exists>rs1 s1 rs2. execute_write_commands D V S I as s = (Some rs1, s1) \<and> execute_write_commands D V S I bs s1 = (Some rs2, s2)"
  using assms
proof (induction as arbitrary: s rs)
  case (Cons a as)
  obtain r s' where a: "execute D V S I s a = (r, s')" by fastforce
  have r: "r \<noteq> Err Panic" using Cons.prems a by (auto split: if_splits)
  then obtain rs' where "execute_write_commands D V S I (as @ bs) s' = (Some rs', s2)"
    using Cons.prems a by (auto split: prod.splits)
  with Cons.IH [OF this] show ?case using a r by fastforce
qed simp

lemma flush_runs:
  assumes "write_target st = Some s" "execute_write_commands D V S I (pending st) s = (Some rs, s1)"
  shows "\<exists>st' es. flush_tx_buffer D V S I st = Inr (st', es) \<and> write_target st' = Some s1"
proof (cases "tx_buffer st = []")
  case True
  with assms show ?thesis by (auto simp: flush_tx_buffer_def pending_def)
next
  case False
  with assms show ?thesis
    by (auto simp: flush_tx_buffer_def Let_def pending_def converted_def [symmetric])
qed

lemma step_runs:
  assumes "write_target st = Some s"
    "execute_write_commands D V S I (pending st @ converted (map rc_pair (commands_of [x])) @ later) s = (Some rs, s2)"
  shows "\<exists>st' es s1 rs1. proj_step D V S I x st = Inr (st', es) \<and> write_target st' = Some s1 \<and>
    execute_write_commands D V S I (pending st' @ later) s1 = (Some rs1, s2)"
proof -
  obtain rs0 s0 rs1 where p: "execute_write_commands D V S I (pending st) s = (Some rs0, s0)"
      "execute_write_commands D V S I (converted (map rc_pair (commands_of [x])) @ later) s0 = (Some rs1, s2)"
    using execute_prefix [OF assms(2)] by blast
  obtain st1 es1 where f: "flush_tx_buffer D V S I st = Inr (st1, es1)" "write_target st1 = Some s0"
    using flush_runs [OF assms(1) p(1)] by blast
  show ?thesis
  proof (cases x)
    case EndOfChunk
    then show ?thesis using f p(2) assms flush_empties [OF f(1)] by (auto simp: proj_step_def pending_def)
  next
    case (Command rc)
    let ?b = "buffered rc st"
    have b: "pending ?b = pending st @ converted [rc_pair rc]" "write_target ?b = Some s"
      using assms(1) by (simp_all add: buffered_def pending_def rc_pair_def)
    obtain rsb sb rsc where bx: "execute_write_commands D V S I (pending ?b) s = (Some rsb, sb)"
        "execute_write_commands D V S I later sb = (Some rsc, s2)"
      using execute_prefix [of D V S I "pending ?b" later s rs s2] assms(2) Command b(1) by auto
    obtain st2 es2 where f2: "flush_tx_buffer D V S I ?b = Inr (st2, es2)" "write_target st2 = Some sb"
      using flush_runs [OF b(2) bx(1)] by blast
    show ?thesis
      using Command f f2 p(2) bx(2) b assms flush_empties [OF f(1)] flush_empties [OF f2(1)]
      by (auto simp: proj_step_def process_single_command_def pending_def rc_pair_def)
  qed
qed

lemma steps_run:
  "write_target st = Some s \<Longrightarrow>
     execute_write_commands D V S I (pending st @ converted (map rc_pair (commands_of xs)) @ later) s = (Some rs, s2) \<Longrightarrow>
     \<exists>st' es s1 rs1. proj_steps D V S I xs st = Inr (st', es) \<and> write_target st' = Some s1 \<and>
       execute_write_commands D V S I (pending st' @ later) s1 = (Some rs1, s2)"
proof (induction xs arbitrary: st s rs)
  case (Cons x xs)
  have "commands_of (x # xs) = commands_of [x] @ commands_of xs" by (cases x) simp_all
  with Cons.prems(2) have "execute_write_commands D V S I
      (pending st @ converted (map rc_pair (commands_of [x])) @ converted (map rc_pair (commands_of xs)) @ later) s = (Some rs, s2)"
    by simp
  from step_runs [OF Cons.prems(1) this] obtain st1 es1 s1 rs1 where s1: "proj_step D V S I x st = Inr (st1, es1)"
    "write_target st1 = Some s1"
    "execute_write_commands D V S I (pending st1 @ converted (map rc_pair (commands_of xs)) @ later) s1 = (Some rs1, s2)" by blast
  from Cons.IH [OF s1(2,3)] show ?case using s1(1) by auto
qed auto

text \<open>One call of \<open>handle_commands\<close>, with what comes later still to run.\<close>

lemma chunk_runs:
  fixes st :: "('v, 'i, 'p::linorder, 'r) TSProj"
  assumes "write_target st = Some s"
    "execute_write_commands D V S I (pending st @ converted (map rc_pair rcs) @ later) s = (Some rs, s2)"
  shows "\<exists>st' es s1 rs1. handle_commands D V S I rcs st = Inr (st', es) \<and> write_target st' = Some s1 \<and>
    execute_write_commands D V S I (pending st' @ later) s1 = (Some rs1, s2)"
  using steps_run [of st s D V S I "map Command rcs @ [EndOfChunk]" later rs s2] assms by (simp add: handle_steps)

text \<open>What the commands leave alone.\<close>

definition keeps_rest :: "('v, 'i, 'p::linorder, 'r) TSProj \<Rightarrow> ('v, 'i, 'p, 'r) TSProj \<Rightarrow> bool" where
  "keeps_rest st st' \<longleftrightarrow>
     ready st' = ready st \<and> watch st' = watch st \<and> monitors st' = monitors st \<and>
     (new_ts_storage st' = None \<longleftrightarrow> new_ts_storage st = None) \<and> (ts_storage st' = None \<longleftrightarrow> ts_storage st = None) \<and>
     (new_ts_storage st \<noteq> None \<longrightarrow> ts_storage st' = ts_storage st)"

lemma keeps_rest_refl [simp]: "keeps_rest st st"
  by (simp add: keeps_rest_def)

lemma keeps_rest_trans: "keeps_rest st st1 \<Longrightarrow> keeps_rest st1 st2 \<Longrightarrow> keeps_rest st st2"
  unfolding keeps_rest_def by presburger

lemma keeps_rest_tx [simp]:
  "keeps_rest st (st'\<lparr>tx_buffer := b\<rparr>) = keeps_rest st st'" "keeps_rest st (st'\<lparr>in_transaction := t\<rparr>) = keeps_rest st st'"
  "keeps_rest (st\<lparr>tx_buffer := b\<rparr>) st' = keeps_rest st st'"
  by (simp_all add: keeps_rest_def)

lemma flush_keeps_rest: "flush_tx_buffer D V S I st = Inr (st', es) \<Longrightarrow> keeps_rest st st'"
  by (auto simp: flush_tx_buffer_def Let_def put_target_def write_target_def keeps_rest_def split: if_splits option.splits prod.splits)

text \<open>Whether a transaction is open after some commands.\<close>

fun tx_after :: "replica_command list \<Rightarrow> bool \<Rightarrow> bool" where
  "tx_after [] t = t"
| "tx_after (rc # rcs) t =
     tx_after rcs (if starts_tx (rc_command rc) then True else if ends_tx (rc_command rc) then False else t)"

lemma tx_after_append: "tx_after (xs @ ys) t = tx_after ys (tx_after xs t)"
  by (induction xs arbitrary: t) simp_all

lemma single_keeps_rest:
  assumes "process_single_command D V S I rc st = Inr (st', es)"
  shows "keeps_rest st st' \<and> in_transaction st' = tx_after [rc] (in_transaction st)"
  using assms flush_keeps_rest [of D V S I "buffered rc st"] flush_keeps_rest [of D V S I st] flush_empties [of D V S I st]
  by (auto simp: process_single_command_def and_then_Inr buffered_def split: if_splits)

lemma commands_keep_rest:
  "process_commands D V S I rcs st = Inr (st', es) \<Longrightarrow> keeps_rest st st' \<and> in_transaction st' = tx_after rcs (in_transaction st)"
proof (induction rcs arbitrary: st es)
  case (Cons rc rcs)
  then obtain st1 es1 es2 where "process_single_command D V S I rc st = Inr (st1, es1)"
    "process_commands D V S I rcs st1 = Inr (st', es2)" by (auto simp: and_then_Inr)
  with Cons.IH [of st1 es2] single_keeps_rest [of D V S I rc st st1 es1] show ?case by (auto intro: keeps_rest_trans)
qed simp

lemma chunk_keeps_rest:
  assumes "handle_commands D V S I rcs st = Inr (st', es)"
  shows "keeps_rest st st'" "in_transaction st' = tx_after rcs (in_transaction st)"
proof -
  obtain st1 es1 where p: "process_commands D V S I rcs st = Inr (st1, es1)"
    and f: "st' = st1 \<or> (\<exists>es2. flush_tx_buffer D V S I st1 = Inr (st', es2))"
    using assms by (auto simp: handle_commands_def and_then_Inr split: if_splits)
  then have "keeps_rest st1 st'" "in_transaction st' = in_transaction st1"
    using flush_keeps_rest [of D V S I st1] flush_empties [of D V S I st1] by fastforce+
  with commands_keep_rest [OF p] show "keeps_rest st st'" "in_transaction st' = tx_after rcs (in_transaction st)"
    by (auto intro: keeps_rest_trans)
qed

text \<open>Outside a transaction nothing is left to flush when a chunk has ended.\<close>

lemma chunk_end_empty:
  assumes "handle_commands D V S I cs st = Inr (st', es)" "\<not> in_transaction st'"
  shows "tx_buffer st' = []"
  using assms by (auto simp: handle_commands_def and_then_Inr split: if_splits dest!: flush_empties)

lemma handle_all_empty:
  "handle_all D V S I css st = Inr (st', es) \<Longrightarrow> \<not> in_transaction st \<longrightarrow> tx_buffer st = [] \<Longrightarrow>
     \<not> in_transaction st' \<longrightarrow> tx_buffer st' = []"
proof (induction css arbitrary: st es)
  case (Cons cs css)
  then obtain st1 es1 es2 where "handle_commands D V S I cs st = Inr (st1, es1)" "handle_all D V S I css st1 = Inr (st', es2)"
    by (auto simp: and_then_Inr)
  with Cons.IH [of st1 es2] chunk_end_empty [of D V S I cs st st1 es1] show ?case by blast
qed simp

section \<open>Transactions\<close>

lemma steps_in_tx:
  "in_transaction st \<Longrightarrow> \<forall>rc \<in> set (commands_of xs). \<not> starts_tx (rc_command rc) \<and> \<not> ends_tx (rc_command rc) \<Longrightarrow>
     proj_steps D V S I xs st = Inr (st\<lparr>tx_buffer := rev (map rc_pair (commands_of xs)) @ tx_buffer st\<rparr>, [])"
proof (induction xs arbitrary: st)
  case (Cons x xs)
  then show ?case
    by (cases x) (simp_all add: proj_step_def process_single_command_def buffered_def rc_pair_def)
qed simp

lemma starts_tx_converted:
  assumes "starts_tx (snd p)"
  shows "converted (p # cs) \<noteq> []"
proof -
  obtain db c where p: "p = (db, c)" by fastforce
  with assms obtain v where "c = E_tuple [E_atom ''set'', E_bin tx_key, v]"
    by (auto simp: starts_tx_def split: eterm.splits list.splits)
  with p show ?thesis by (simp add: converted_def convert_command_def List.map_filter_def)
qed

text \<open>
  C6. A transaction of the server, the commands from \<open>SET __vdr_tx\<close> to the next \<open>DEL __vdr_tx\<close>, reaches the storage as exactly one
  batch, whatever the chunks its commands arrive in, and every command before it has reached the storage in earlier
  batches. A batch runs under one lock, so no reader sees the transaction half done.
\<close>

theorem transactions_atomic:
  assumes "handle_all D V S I css st = Inr (st', es)" "concat css = pre @ [b] @ body @ [e] @ post"
    "starts_tx (rc_command b)" "ends_tx (rc_command e)" "\<not> starts_tx (rc_command e)"
    "\<forall>rc \<in> set body. \<not> starts_tx (rc_command rc) \<and> \<not> ends_tx (rc_command rc)"
  shows "\<exists>bs1 bs2. batches es = bs1 @ [converted (map rc_pair (b # body @ [e]))] @ bs2 \<and>
    concat bs1 = pending st @ converted (map rc_pair pre)"
proof -
  have "commands_of (steps_of css) = pre @ b # (body @ e # post)" using assms(2) by simp
  from commands_of_split [OF this] obtain xs ys where
    x: "steps_of css = xs @ Command b # ys" "commands_of xs = pre" "commands_of ys = body @ e # post" by blast
  from commands_of_split [OF x(3)] obtain ms zs where
    y: "ys = ms @ Command e # zs" "commands_of ms = body" "commands_of zs = post" by blast
  have run: "proj_steps D V S I (xs @ Command b # ms @ Command e # zs) st = Inr (st', es)"
    using assms(1) by (simp add: handle_all_steps x(1) y(1))
  then obtain st1 es1 st2 es2 st3 es3 st4 es4 es5 where
    r: "proj_steps D V S I xs st = Inr (st1, es1)" "proj_step D V S I (Command b) st1 = Inr (st2, es2)"
      "proj_steps D V S I ms st2 = Inr (st3, es3)" "proj_step D V S I (Command e) st3 = Inr (st4, es4)"
      "proj_steps D V S I zs st4 = Inr (st', es5)" "es = es1 @ es2 @ es3 @ es4 @ es5"
    by (auto simp: run_append and_then_Inr)
  obtain st2' where f: "flush_tx_buffer D V S I st1 = Inr (st2', es2)"
      "st2 = st2'\<lparr>in_transaction := True, tx_buffer := [rc_pair b]\<rparr>"
    using r(2) assms(3) by (auto simp: proj_step_def process_single_command_def and_then_Inr rc_pair_def)
  have st3: "es3 = []" "st3 = st2\<lparr>tx_buffer := rev (map rc_pair body) @ [rc_pair b]\<rparr>"
    using steps_in_tx [of st2 ms D V S I] r(3) assms(6) y(2) f(2) by auto
  obtain st4' where g: "flush_tx_buffer D V S I (buffered e st3) = Inr (st4', es4)"
    using r(4) assms(4,5) by (auto simp: proj_step_def process_single_command_def and_then_Inr)
  have p: "pending (buffered e st3) = converted (map rc_pair (b # body @ [e]))"
    by (simp add: pending_def buffered_def st3 rc_pair_def)
  have "starts_tx (snd (rc_pair b))" using assms(3) by (simp add: rc_pair_def)
  then have "pending (buffered e st3) \<noteq> []" unfolding p using starts_tx_converted [of "rc_pair b"] by simp
  then have "batches es4 = [converted (map rc_pair (b # body @ [e]))]" using flush_empties [OF g] p by simp
  moreover have "concat (batches (es1 @ es2)) = pending st @ converted (map rc_pair pre)"
    using steps_batches [OF r(1)] flush_empties [OF f(1)] x(2) by simp
  ultimately show ?thesis
    using r(6) st3(1) by - (rule exI [of _ "batches (es1 @ es2)"], rule exI [of _ "batches es5"], simp)
qed

lemma handle_all_runs:
  fixes st :: "('v, 'i, 'p::linorder, 'r) TSProj"
  assumes "write_target st = Some s"
    "execute_write_commands D V S I (pending st @ converted (map rc_pair (concat css))) s = (Some rs, s2)"
  shows "\<exists>st' es. handle_all D V S I css st = Inr (st', es)"
  using steps_run [of st s D V S I "steps_of css" "[]" rs s2] assms by (auto simp: handle_all_steps)

definition replica_command_of :: "int \<Rightarrow> atom \<Rightarrow> eterm list \<Rightarrow> replica_command" where
  "replica_command_of db name args =
     \<lparr>rc_db = db, rc_command = E_tuple (E_atom name # args), rc_raw_command = [], rc_affected_keys = []\<rparr>"

definition example_chunks :: "replica_command list list" where
  "example_chunks =
     [[replica_command_of 0 ''incr'' [E_bin [110]], replica_command_of 0 ''set'' [E_bin tx_key, E_bin [49]]],
      [replica_command_of 0 ''rpush'' [E_bin [108], E_list [E_bin [97]]]],
      [replica_command_of 0 ''del'' [E_list [E_bin [110]]], replica_command_of 0 ''del'' [E_list [E_bin tx_key]],
       replica_command_of 0 ''incr'' [E_bin [110]]]]"

definition example_state :: "(bytes list, ZSetIndexKey list, nat, nat) TSProj" where
  "example_state = initialize_state"

lemma example_chunk_terms:
  "pending example_state @ converted (map rc_pair (concat example_chunks)) =
     [E_tuple [E_int 0, cmd ''incr'' [E_bin [110]]], E_tuple [E_int 0, cmd ''set'' [E_bin tx_key, E_bin [49]]],
      E_tuple [E_int 0, cmd ''rpush'' [E_bin [108], E_list [E_bin [97]]]], E_tuple [E_int 0, cmd ''del'' [E_list [E_bin [110]]]],
      E_tuple [E_int 0, cmd ''del'' [E_list [E_bin tx_key]]], E_tuple [E_int 0, cmd ''incr'' [E_bin [110]]]]"
  by (simp add: example_state_def initialize_state_def pending_def converted_def example_chunks_def replica_command_of_def
      rc_pair_def convert_command_def List.map_filter_def)

lemma example_chunks_decoded:
  "decode_term erlang (E_tuple [E_int 0, cmd ''incr'' [E_bin [110]]]) = Ok (0, C_incr [110])"
  "decode_term erlang (E_tuple [E_int 0, cmd ''set'' [E_bin tx_key, E_bin [49]]]) = Ok (0, C_set tx_key [49])"
  "decode_term erlang (E_tuple [E_int 0, cmd ''rpush'' [E_bin [108], E_list [E_bin [97]]]]) = Ok (0, C_rpush [108] [[97]])"
  "decode_term erlang (E_tuple [E_int 0, cmd ''del'' [E_list [E_bin k]]]) = Ok (0, C_del [k])"
  by (simp_all add: decode_erlang erlang_lists)

lemma example_runs: "\<exists>st' es. handle_all erlang list_vec f64_ops f64_index example_chunks example_state = Inr (st', es)"
proof -
  let ?ts = "pending example_state @ converted (map rc_pair (concat example_chunks))"
  have "list_all (request_ranges_ok f64_ops) (map (decode_term erlang) ?ts)" "list_all request_quiet (map (decode_term erlang) ?ts)"
    unfolding example_chunk_terms by (simp_all add: example_chunks_decoded ranges_ok_def lex_range_ok_def)
  from batch_runs [OF erlang_nif.nif_axioms storage_ok_new this] obtain rs s2
    where "execute_write_commands erlang list_vec f64_ops f64_index ?ts StorageInner_new = (Some rs, s2)" by blast
  moreover have "write_target example_state = Some StorageInner_new"
    by (simp add: example_state_def initialize_state_def write_target_def)
  ultimately show ?thesis using handle_all_runs by blast
qed

theorem transactions_atomic_witness:
  "\<exists>st' es bs1 bs2. handle_all erlang list_vec f64_ops f64_index example_chunks example_state = Inr (st', es) \<and>
     batches es = bs1 @ [converted (map rc_pair (tl (concat (take 2 example_chunks)) @ take 2 (example_chunks ! 2)))] @ bs2"
proof -
  obtain st' es where r: "handle_all erlang list_vec f64_ops f64_index example_chunks example_state = Inr (st', es)"
    using example_runs by blast
  have c: "concat example_chunks =
      [hd (concat example_chunks)] @ [concat example_chunks ! 1] @ [concat example_chunks ! 2, concat example_chunks ! 3] @
      [concat example_chunks ! 4] @ [concat example_chunks ! 5]"
    by (simp add: example_chunks_def)
  have "bin_keys (E_list [E_bin [110]]) = [[110]]" "bin_keys (E_list [E_bin tx_key]) = [tx_key]" "tx_key \<noteq> [110]"
    by (simp_all add: List.map_filter_def tx_key_def ascii_def)
  then show ?thesis
    using transactions_atomic [OF r c] r
    by (auto simp: example_chunks_def replica_command_of_def starts_tx_def ends_tx_def)
qed

end
