(* ===== verification/Replica_Follow.thy ===== *)
theory Replica_Follow
  imports Replica_Process Transactions
begin

text \<open>
  From the bytes of the server to the storage: what the process of theory \<open>Replica_Process\<close> makes of a whole replication.
\<close>

section \<open>The parser of the process\<close>

lemma feed_Inr:
  "replica_feed p d = Inr (raws, p1) \<longleftrightarrow> (\<exists>ping getack. replica_feed_data p d = (Inr (raws, ping, getack), p1))"
proof (cases "replica_feed_data p d")
  case (Pair r p2)
  then show ?thesis by (cases r) (auto simp: replica_feed_def)
qed

lemma command_keeps_streaming: "parse_command st = (r, st1) \<Longrightarrow> rstate st1 = rstate st"
  by (auto simp: parse_command_def Let_def split: if_splits option.splits sum.splits prod.splits dest!: process_elements_buffer)

lemma next_keeps_streaming: "rstate st = Streaming \<Longrightarrow> replica_parse_next st = (r, st1) \<Longrightarrow> rstate st1 = Streaming"
proof (induction st arbitrary: r rule: replica_parse_next.induct)
  case (1 st)
  obtain x st2 where s: "replica_parse_step st = (x, st2)" by fastforce
  then have "rstate st2 = Streaming"
    using 1(2) command_keeps_streaming by (simp add: replica_parse_step_def)
  with 1 s show ?case by (cases x) (auto simp: replica_parse_next.simps [of st])
qed

lemma loop_keeps_streaming: "rstate st = Streaming \<Longrightarrow> replica_feed_loop st = (r, st1) \<Longrightarrow> rstate st1 = Streaming"
proof (induction st arbitrary: r rule: replica_feed_loop.induct)
  case (1 st)
  obtain x st2 where s: "replica_parse_next st = (x, st2)" by fastforce
  note st2 = next_keeps_streaming [OF 1(2) s]
  show ?case
  proof (cases x)
    case (Inr y)
    then show ?thesis using 1 s st2
      by (cases y) (auto simp: replica_feed_loop.simps [of st] split: prod.splits sum.splits)
  qed (use 1 s st2 in \<open>auto simp: replica_feed_loop.simps [of st]\<close>)
qed

lemma feed_keeps_streaming:
  assumes "rstate p = Streaming" "replica_feed_data p d = (r, p1)"
  shows "rstate p1 = Streaming"
proof -
  let ?p = "p\<lparr>ping_received := False, replconf_getack_received := False, rbuffer := rbuffer p @ d\<rparr>"
  obtain x where "replica_feed_loop ?p = (x, p1)"
    using assms(2) by (auto simp: replica_feed_data_def Let_def split: prod.splits sum.splits)
  then show ?thesis using loop_keeps_streaming [of ?p] assms(1) by simp
qed

section \<open>One chunk of data\<close>

definition settled :: "('v, 'i, 'p, 'r) TSProj \<Rightarrow> bool" where
  "settled cb \<longleftrightarrow> (\<not> in_transaction cb \<longrightarrow> tx_buffer cb = [])"

text \<open>The storage that results when what is buffered and what comes later has run.\<close>

definition runs_to where
  "runs_to D V S I cb later s2 \<longleftrightarrow>
     (\<exists>s rs. write_target cb = Some s \<and> execute_write_commands D V S I (pending cb @ later) s = (Some rs, s2))"

lemma start_keeps:
  "new_ts_storage cb \<noteq> None \<Longrightarrow> write_target (fst (handle_streaming_start cb)) = write_target cb"
  "tx_buffer (fst (handle_streaming_start cb)) = tx_buffer cb" "in_transaction (fst (handle_streaming_start cb)) = in_transaction cb"
  "ready (fst (handle_streaming_start cb))" "new_ts_storage (fst (handle_streaming_start cb)) = None"
  by (auto simp: handle_streaming_start_def write_target_def)

lemma settled_start: "settled (fst (handle_streaming_start cb)) = settled cb"
  by (simp add: settled_def start_keeps)

lemma runs_to_start:
  "new_ts_storage cb \<noteq> None \<Longrightarrow> runs_to D V S I (fst (handle_streaming_start cb)) later s2 = runs_to D V S I cb later s2"
  by (simp add: runs_to_def start_keeps pending_def)

lemma map_filter_Some: "List.map_filter Some xs = xs"
  by (simp add: List.map_filter_def)

lemma settled_chunk: "settled cb \<Longrightarrow> handle_commands D V S I [] cb = Inr (cb, [])"
  by (simp add: settled_def handle_commands_def flush_tx_buffer_def)

lemma process_settled:
  fixes cb :: "('v, 'i, 'p::linorder, 'r) TSProj"
  assumes "settled cb"
  shows "process_replica_commands D V S I Some rcs cb = handle_commands D V S I rcs cb"
  using assms by (simp add: process_replica_commands_def map_filter_Some settled_chunk)

lemma chunk_follows:
  fixes cb :: "('v, 'i, 'p::linorder, 'r) TSProj"
  assumes "settled cb" "runs_to D V S I cb (converted (map rc_pair rcs) @ later) s2"
  shows "\<exists>cb1 es. process_replica_commands D V S I Some rcs cb = Inr (cb1, es) \<and> settled cb1 \<and> runs_to D V S I cb1 later s2 \<and>
    keeps_rest cb cb1 \<and> in_transaction cb1 = tx_after rcs (in_transaction cb)"
proof -
  obtain s rs where s: "write_target cb = Some s"
    "execute_write_commands D V S I (pending cb @ converted (map rc_pair rcs) @ later) s = (Some rs, s2)"
    using assms(2) by (auto simp: runs_to_def)
  from chunk_runs [OF s] obtain cb1 es s1 rs1 where h: "handle_commands D V S I rcs cb = Inr (cb1, es)" "write_target cb1 = Some s1"
    "execute_write_commands D V S I (pending cb1 @ later) s1 = (Some rs1, s2)" by blast
  moreover have "settled cb1" using chunk_end_empty [OF h(1)] by (simp add: settled_def)
  ultimately show ?thesis
    using chunk_keeps_rest [OF h(1)] process_settled [OF assms(1), of D V S I rcs] by (auto simp: runs_to_def)
qed

definition starts :: "ReplicaParser \<Rightarrow> ReplicaParser \<Rightarrow> bool" where
  "starts p p1 \<longleftrightarrow> rstate p \<noteq> Streaming \<and> rstate p1 = Streaming"

lemma data_follows:
  fixes st :: "('v, 'i, 'p::linorder, 'r) replica"
  assumes "stream_parser st = Some p" "phase st = Ph_replication" "replica_feed p data = Inr (raws, p1)"
    "Enum_map (convert_raw G) raws = Inr rcs" "settled (callback_state st)"
    "runs_to D V S I (callback_state st) (converted (map rc_pair rcs) @ later) s2"
    "rstate p \<noteq> Streaming \<longrightarrow> new_ts_storage (callback_state st) \<noteq> None"
  shows "\<exists>cb1 es. handle_data D V S I G Some sent data st =
      Inr (Noreply, st\<lparr>stream_parser := Some p1,
        replication_offset := replication_offset st + (if rstate p = Streaming then int (length data) else 0),
        callback_state := cb1\<rparr>, es) \<and>
    settled cb1 \<and> runs_to D V S I cb1 later s2 \<and> in_transaction cb1 = tx_after rcs (in_transaction (callback_state st)) \<and>
    (ready cb1 \<longleftrightarrow> ready (callback_state st) \<or> starts p p1) \<and>
    (new_ts_storage cb1 = None \<longleftrightarrow> new_ts_storage (callback_state st) = None \<or> starts p p1)"
proof -
  let ?cb = "callback_state st"
  let ?started = "if starts p p1 then handle_streaming_start ?cb else (?cb, [])"
  have n: "settled (fst ?started)" "runs_to D V S I (fst ?started) (converted (map rc_pair rcs) @ later) s2"
    "in_transaction (fst ?started) = in_transaction ?cb"
    using assms(5-7) by (auto simp: starts_def settled_start runs_to_start start_keeps)
  from chunk_follows [OF n(1,2)] obtain cb1 es where c: "process_replica_commands D V S I Some rcs (fst ?started) = Inr (cb1, es)"
    "settled cb1" "runs_to D V S I cb1 later s2" "keeps_rest (fst ?started) cb1"
    "in_transaction cb1 = tx_after rcs (in_transaction (fst ?started))" by blast
  obtain ping getack where f: "replica_feed_data p data = (Inr (raws, ping, getack), p1)"
    using assms(3) feed_Inr by blast
  have "ready cb1 = ready (fst ?started)" "(new_ts_storage cb1 = None) = (new_ts_storage (fst ?started) = None)"
    using c(4) by (simp_all add: keeps_rest_def)
  then have "ready cb1 \<longleftrightarrow> ready ?cb \<or> starts p p1" "new_ts_storage cb1 = None \<longleftrightarrow> new_ts_storage ?cb = None \<or> starts p p1"
    by (simp_all add: start_keeps)
  moreover obtain es1 where "handle_data D V S I G Some sent data st =
      Inr (Noreply, st\<lparr>stream_parser := Some p1,
        replication_offset := replication_offset st + (if rstate p = Streaming then int (length data) else 0),
        callback_state := cb1\<rparr>, es1)"
  proof -
    have "replication_offset st + (if rstate p = Streaming then int (length data) else 0) =
        (if rstate p = Streaming then replication_offset st + int (length data) else replication_offset st)" by simp
    moreover have "(if rstate p \<noteq> Streaming \<and> rstate p1 = Streaming then handle_streaming_start ?cb else (?cb, [])) = ?started"
      by (simp add: starts_def)
    ultimately show thesis
      using that c(1) assms(1,2,4) f
      by (simp only: handle_data_def handle_replication_data_def Let_def option.case prod.case sum.case if_True and_then_simps)
        simp
  qed
  moreover have "in_transaction cb1 = tx_after rcs (in_transaction ?cb)" using c(5) n(3) by simp
  ultimately show ?thesis using c(2,3) by - (rule exI [of _ cb1], rule exI [of _ es1], blast)
qed

section \<open>All chunks\<close>

text \<open>The data as long as the process runs and the connection lasts.\<close>

primrec receive where
  "receive D V S I G F sent [] st = Inr (Noreply, st, [])"
| "receive D V S I G F sent (data # chunks) st =
     and_then (handle_data D V S I G F sent data st) (\<lambda>(a, st1, es1).
       if a = Noreply \<and> socket st1
       then and_then (receive D V S I G F sent chunks st1) (\<lambda>(a2, st2, es2). Inr (a2, st2, es1 @ es2))
       else Inr (a, st1, es1))"

lemma Enum_map_append:
  "Enum_map f (xs @ ys) = Inr zs \<longleftrightarrow> (\<exists>as bs. Enum_map f xs = Inr as \<and> Enum_map f ys = Inr bs \<and> zs = as @ bs)"
proof (induction xs arbitrary: zs)
  case (Cons x xs)
  then show ?case by (cases "f x"; cases "Enum_map f xs"; cases "Enum_map f ys") (auto simp: and_then_Inr)
qed simp

lemma feeds_keep_streaming:
  "rstate p = Streaming \<Longrightarrow> feed_all replica_feed p chunks = Inr (raws, p1) \<Longrightarrow> rstate p1 = Streaming"
proof (induction chunks arbitrary: p raws)
  case (Cons data chunks)
  then obtain raws1 p2 raws2 where "replica_feed p data = Inr (raws1, p2)" "feed_all replica_feed p2 chunks = Inr (raws2, p1)"
    by (cases "replica_feed p data") (auto simp: emit_Inr)
  with Cons show ?case using feed_keeps_streaming [of p data] by (auto simp: feed_Inr)
qed simp

text \<open>The bytes that count for the replication offset: the chunks that arrive while the parser is streaming already.\<close>

fun counted :: "ReplicaParser \<Rightarrow> bytes list \<Rightarrow> nat" where
  "counted p [] = 0"
| "counted p (data # chunks) =
     (if rstate p = Streaming then length data else 0) +
     (case replica_feed p data of Inl e \<Rightarrow> 0 | Inr (raws, p1) \<Rightarrow> counted p1 chunks)"

lemma receive_follows:
  fixes st :: "('v, 'i, 'p::linorder, 'r) replica"
  assumes "stream_parser st = Some p" "phase st = Ph_replication" "socket st" "feed_all replica_feed p chunks = Inr (raws, p1)"
    "Enum_map (convert_raw G) raws = Inr rcs" "settled (callback_state st)"
    "runs_to D V S I (callback_state st) (converted (map rc_pair rcs)) s2"
    "rstate p \<noteq> Streaming \<longrightarrow> new_ts_storage (callback_state st) \<noteq> None"
  shows "\<exists>st1 es. receive D V S I G Some sent chunks st = Inr (Noreply, st1, es) \<and> stream_parser st1 = Some p1 \<and>
    phase st1 = Ph_replication \<and> socket st1 \<and> replication_id st1 = replication_id st \<and> replication_offset st1 = replication_offset st + int (counted p chunks) \<and>
    reconnect_enabled st1 = reconnect_enabled st \<and> password st1 = password st \<and>
    settled (callback_state st1) \<and> runs_to D V S I (callback_state st1) [] s2 \<and>
    in_transaction (callback_state st1) = tx_after rcs (in_transaction (callback_state st)) \<and>
    (ready (callback_state st1) \<longleftrightarrow> ready (callback_state st) \<or> starts p p1) \<and>
    (new_ts_storage (callback_state st1) = None \<longleftrightarrow> new_ts_storage (callback_state st) = None \<or> starts p p1)"
  using assms
proof (induction chunks arbitrary: st p raws rcs)
  case Nil
  then show ?case by (auto simp: starts_def)
next
  case (Cons data chunks)
  obtain raws1 p2 raws2 where f: "replica_feed p data = Inr (raws1, p2)" "feed_all replica_feed p2 chunks = Inr (raws2, p1)"
    "raws = raws1 @ raws2"
    using Cons.prems(4) by (cases "replica_feed p data") (auto simp: emit_Inr)
  obtain rcs1 rcs2 where e: "Enum_map (convert_raw G) raws1 = Inr rcs1" "Enum_map (convert_raw G) raws2 = Inr rcs2" "rcs = rcs1 @ rcs2"
    using Cons.prems(5) f(3) by (auto simp: Enum_map_append)
  have r: "runs_to D V S I (callback_state st) (converted (map rc_pair rcs1) @ converted (map rc_pair rcs2)) s2"
    using Cons.prems(7) e(3) by simp
  from data_follows [OF Cons.prems(1,2) f(1) e(1) Cons.prems(6) r Cons.prems(8), of sent] obtain cb1 es
    where h: "handle_data D V S I G Some sent data st =
        Inr (Noreply, st\<lparr>stream_parser := Some p2,
          replication_offset := replication_offset st + (if rstate p = Streaming then int (length data) else 0),
          callback_state := cb1\<rparr>, es)"
      and cb1: "settled cb1" "runs_to D V S I cb1 (converted (map rc_pair rcs2)) s2"
        "in_transaction cb1 = tx_after rcs1 (in_transaction (callback_state st))"
        "ready cb1 \<longleftrightarrow> ready (callback_state st) \<or> starts p p2"
        "new_ts_storage cb1 = None \<longleftrightarrow> new_ts_storage (callback_state st) = None \<or> starts p p2"
    by (elim exE conjE) (rule that)
  let ?st = "st\<lparr>stream_parser := Some p2,
          replication_offset := replication_offset st + (if rstate p = Streaming then int (length data) else 0),
          callback_state := cb1\<rparr>"
  have "rstate p2 \<noteq> Streaming \<Longrightarrow> rstate p \<noteq> Streaming"
    using f(1) feed_keeps_streaming [of p data] by (auto simp: feed_Inr)
  then have n: "rstate p2 \<noteq> Streaming \<longrightarrow> new_ts_storage cb1 \<noteq> None"
    using cb1(5) Cons.prems(8) by (auto simp: starts_def)
  have st: "stream_parser ?st = Some p2" "phase ?st = Ph_replication" "socket ?st" "callback_state ?st = cb1"
    using Cons.prems(2,3) by simp_all
  from Cons.IH [of ?st p2 raws2 rcs2, unfolded st(4), OF st(1-3) f(2) e(2) cb1(1,2) n]
  obtain st1 es1 where r1: "receive D V S I G Some sent chunks ?st = Inr (Noreply, st1, es1)" "stream_parser st1 = Some p1"
    "phase st1 = Ph_replication" "socket st1" "replication_id st1 = replication_id ?st"
    "replication_offset st1 = replication_offset ?st + int (counted p2 chunks)"
    "reconnect_enabled st1 = reconnect_enabled ?st" "password st1 = password ?st" "settled (callback_state st1)"
    "runs_to D V S I (callback_state st1) [] s2"
    "in_transaction (callback_state st1) = tx_after rcs2 (in_transaction cb1)"
    "ready (callback_state st1) \<longleftrightarrow> ready cb1 \<or> starts p2 p1"
    "new_ts_storage (callback_state st1) = None \<longleftrightarrow> new_ts_storage cb1 = None \<or> starts p2 p1" by (elim exE conjE) (rule that)
  have "rstate p2 = Streaming \<Longrightarrow> rstate p1 = Streaming"
    using feeds_keep_streaming f(2) by blast
  then have "starts p p1 \<longleftrightarrow> starts p p2 \<or> starts p2 p1"
    using \<open>rstate p2 \<noteq> Streaming \<Longrightarrow> rstate p \<noteq> Streaming\<close> by (auto simp: starts_def)
  then have "ready (callback_state st1) \<longleftrightarrow> ready (callback_state st) \<or> starts p p1"
    "new_ts_storage (callback_state st1) = None \<longleftrightarrow> new_ts_storage (callback_state st) = None \<or> starts p p1"
    using r1(12,13) cb1(4,5) by simp_all
  moreover have "in_transaction (callback_state st1) = tx_after rcs (in_transaction (callback_state st))"
    using r1(11) cb1(3) e(3) by (simp add: tx_after_append)
  moreover have "replication_id st1 = replication_id st" "reconnect_enabled st1 = reconnect_enabled st" "password st1 = password st"
    using r1(5,7,8) by simp_all
  moreover have "replication_offset st1 = replication_offset st + int (counted p (data # chunks))"
    using r1(6) f(1) by simp
  moreover have "receive D V S I G Some sent (data # chunks) st = Inr (Noreply, st1, es @ es1)"
    using st(3) by (simp only: receive.simps h and_then_simps prod.case r1(1) if_True simp_thms)
  ultimately show ?case using r1(2-4,9,10) by (intro exI conjI)
qed

section \<open>The answer to PSYNC\<close>

definition fullresync_line :: "bytes \<Rightarrow> nat \<Rightarrow> bytes" where
  "fullresync_line repl_id n = ascii ''+FULLRESYNC '' @ repl_id @ 32 # nat_to_string n @ [13, 10]"

definition is_repl_id :: "bytes \<Rightarrow> bool" where
  "is_repl_id repl_id \<longleftrightarrow> 13 \<notin> set repl_id \<and> 32 \<notin> set repl_id"

lemma fullresync_parsed:
  assumes "is_repl_id repl_id"
  shows "parse_psync_response (fullresync_line repl_id n @ r) = Inr (Psync_full repl_id (int n) r)"
proof -
  let ?w = "ascii ''+FULLRESYNC ''" and ?b = "fullresync_line repl_id n @ r"
  let ?ds = "?w @ repl_id @ 32 # nat_to_string n"
  have w: "length ?w = 12" "hd ?w = 43" "?w \<noteq> []" by (simp_all add: ascii_def)
  have b: "?b = ?ds @ [13, 10] @ r" by (simp add: fullresync_line_def)
  have "13 \<notin> set ?ds" using assms digits_newline_free [of n] by (simp add: is_repl_id_def newline_free_def ascii_def)
  then have c: "find_crlf ?b = Some (length ?ds)" unfolding b by (rule find_crlf_at)
  have "hd ?b = 43" using w by (simp add: b)
  then have s: "skip_newlines ?b = ?b" by (cases ?b) (simp_all add: skip_newlines_def)
  have t: "starts_with ?w ?b" unfolding b starts_with_def by simp
  have d: "drop 12 (take (length ?ds) ?b) = repl_id @ 32 # nat_to_string n" "drop (length ?ds + 2) ?b = r"
    unfolding b using w by (simp_all add: numeral_3_eq_3)
  have "dropWhile (\<lambda>c. c \<noteq> 32) (repl_id @ 32 # nat_to_string n) = 32 # nat_to_string n"
    "takeWhile (\<lambda>c. c \<noteq> 32) (repl_id @ 32 # nat_to_string n) = repl_id"
    using assms by (induction repl_id) (auto simp: is_repl_id_def)
  then show ?thesis
    unfolding parse_psync_response_def Let_def s by (simp only: t c d if_True option.case) (simp add: String_to_integer_nat)
qed

lemma buffer_same: "resp_buffer st = [] \<Longrightarrow> st\<lparr>resp_buffer := []\<rparr> = st"
  by (cases st) simp

lemma receive_fullresync:
  fixes st :: "('v, 'i, 'p::linorder, 'r) replica"
  assumes "phase st = Ph_psync" "resp_buffer st = []" "socket st" "is_repl_id repl_id"
  shows "receive D V S I G F sent ((fullresync_line repl_id n @ c) # chunks) st =
    receive D V S I G F sent (if c = [] then chunks else c # chunks) (psync_fullresync repl_id (int n) st\<lparr>ack_timer := True\<rparr>)"
proof -
  let ?st = "psync_fullresync repl_id (int n) st\<lparr>ack_timer := True\<rparr>"
  have r: "handle_response D V S I G F sent (st\<lparr>resp_buffer := resp_buffer st @ fullresync_line repl_id n @ c\<rparr>) =
      (if c = [] then Inr (Noreply, ?st, []) else handle_replication_data D V S I G F sent c ?st)"
    using assms by (simp add: handle_response_def handle_psync_response_def fullresync_parsed psync_completed_def psync_fullresync_def
        buffer_same)
  have ph: "phase ?st = Ph_replication" "socket ?st" using assms(3) by (simp_all add: psync_fullresync_def)
  show ?thesis
  proof (cases "c = []")
    case True
    then have "handle_data D V S I G F sent (fullresync_line repl_id n @ c) st = Inr (Noreply, ?st, [])"
      using r assms(1) by (simp add: handle_data_def)
    then show ?thesis using True ph(2)
      by (cases "receive D V S I G F sent chunks ?st") (auto split: prod.split)
  next
    case False
    then have "handle_data D V S I G F sent (fullresync_line repl_id n @ c) st = handle_data D V S I G F sent c ?st"
      using r assms(1) ph(1) by (simp add: handle_data_def)
    then show ?thesis using False by simp
  qed
qed

section \<open>Following a server\<close>

lemma converted_from_stream:
  "Enum_map (convert_raw G) raws = Inr rcs \<Longrightarrow> list_all from_stream (converted (map rc_pair rcs))"
proof (induction raws arbitrary: rcs)
  case (Cons r raws)
  then obtain rc rcs1 where rc: "convert_raw G r = Inr rc" "Enum_map (convert_raw G) raws = Inr rcs1" "rcs = rc # rcs1"
    by (auto simp: and_then_Inr)
  obtain c ks where c: "parse G (cmd_name r # cmd_args r) = Inr (c, ks)" "rc_pair rc = (uint (cmd_db r), c)"
    using rc(1) by (auto simp: convert_raw_def and_then_Inr rc_pair_def)
  have db: "0 \<le> uint (cmd_db r)" "uint (cmd_db r) < 2 ^ 64" using unsigned_less [of "cmd_db r", where 'a = int] by simp_all
  have "list_all from_stream (converted [rc_pair rc])"
  proof (cases "convert_command (uint (cmd_db r)) c")
    case (Some t)
    then obtain db where "t = E_tuple [E_int db, c]" "0 \<le> db" "db < 2 ^ 64"
      using db by (auto simp: convert_command_def split: eterm.splits list.splits if_splits)
    then have "from_stream t" using c(1) by (auto simp: from_stream_def)
    with Some c(2) show ?thesis by (simp add: converted_def List.map_filter_def)
  qed (use c(2) in \<open>simp add: converted_def List.map_filter_def\<close>)
  then show ?case using rc Cons.IH converted_append(1) [of "[rc_pair rc]" "map rc_pair rcs1"] by simp
qed (simp add: converted_def List.map_filter_def)

text \<open>What the bytes of a replication say: the commands, parsed, and the terms of them that the storage sees.\<close>

definition replicated :: "(bytes \<Rightarrow> bytes) \<Rightarrow> rdb_item list \<Rightarrow> bytes list list \<Rightarrow> replica_command list elixir" where
  "replicated G items css = Enum_map (convert_raw G) (dump_commands items (0, None) @ stream_commands 0 css)"

definition storable :: "score_ops \<Rightarrow> eterm rustler \<Rightarrow> replica_command list \<Rightarrow> bool" where
  "storable S D rcs \<longleftrightarrow>
     list_all (request_ranges_ok S) (map (decode_term D) (converted (map rc_pair rcs))) \<and>
     list_all (lex_ok D) (converted (map rc_pair rcs))"

definition keyspace_of :: "score_ops \<Rightarrow> eterm rustler \<Rightarrow> replica_command list \<Rightarrow> keyspace \<Rightarrow> keyspace" where
  "keyspace_of S D rcs K = snd (spec_batch S (map (decode_term D) (converted (map rc_pair rcs))) K)"

lemma commands_run:
  assumes "term_codec D" "nif V S I D" "storage_ok S I st" "Enum_map (convert_raw G) raws = Inr rcs" "storable S D rcs"
  shows "\<exists>rs st'. execute_write_commands D V S I (converted (map rc_pair rcs)) st = (Some rs, st') \<and> storage_ok S I st' \<and>
    abs_storage V st' = keyspace_of S D rcs (abs_storage V st)"
proof -
  have "list_all request_quiet (map (decode_term D) (converted (map rc_pair rcs)))"
    using from_stream_quiet [OF assms(1)] converted_from_stream [OF assms(4)] assms(5) by (auto simp: list_all_iff storable_def)
  with batch_runs [OF assms(2,3), of "converted (map rc_pair rcs)"] assms(5) show ?thesis
    by (auto simp: storable_def keyspace_of_def)
qed

lemma empty_keyspace: "abs_storage V StorageInner_new = (\<lambda>db key. None)"
  by (simp add: fun_eq_iff abs_storage_def lookup_new)

lemma settled_target: "settled cb \<Longrightarrow> \<not> in_transaction cb \<Longrightarrow> runs_to D V S I cb [] s \<Longrightarrow> new_ts_storage cb = None \<Longrightarrow> ts_storage cb = Some s"
  by (auto simp: settled_def runs_to_def pending_def write_target_def converted_def List.map_filter_def)

text \<open>A process that has caught up: it is streaming, outside a transaction, and serves readers from the storage \<open>s\<close>.\<close>

definition following where
  "following S I st s \<longleftrightarrow>
     streaming st \<and> socket st \<and> ready (callback_state st) \<and> tx_buffer (callback_state st) = [] \<and>
     \<not> in_transaction (callback_state st) \<and> new_ts_storage (callback_state st) = None \<and>
     ts_storage (callback_state st) = Some s \<and> storage_ok S I s"

lemma followingI:
  assumes "streaming st" "socket st" "ready (callback_state st)" "settled (callback_state st)" "\<not> in_transaction (callback_state st)"
    "new_ts_storage (callback_state st) = None" "runs_to D V S I (callback_state st) [] s" "storage_ok S I s"
  shows "following S I st s"
  using assms settled_target [OF assms(4,5,7,6)] by (simp add: following_def settled_def)

definition nonempty :: "bytes \<Rightarrow> bytes list \<Rightarrow> bytes list" where
  "nonempty c chunks = (if c = [] then chunks else c # chunks)"

lemma server_followed:
  fixes st :: "('v, 'i, 'p::linorder, 'r) replica"
  assumes "term_codec D" "nif V S I D"
    "phase st = Ph_psync" "resp_buffer st = []" "socket st" "is_repl_id repl_id"
    "wf_dump magic items checksum" "set newlines \<subseteq> {10, 13}"
    "c @ concat chunks = newlines @ bulk_header (length (enc_dump magic items checksum)) @ enc_dump magic items checksum @
       concat (map enc_command css)"
    "length (c @ concat chunks) < 2 ^ 63"
    "replicated G items css = Inr rcs" "storable S D rcs" "\<not> tx_after rcs False"
  shows "\<exists>st' es s. receive D V S I G Some sent ((fullresync_line repl_id n @ c) # chunks) st = Inr (Noreply, st', es) \<and>
    following S I st' s \<and> replication_id st' = Some repl_id \<and>
    replication_offset st' = int n + int (counted (ReplicaParser_new False) (nonempty c chunks)) \<and>
    reconnect_enabled st' = reconnect_enabled st \<and> password st' = password st \<and> abs_storage V s = keyspace_of S D rcs (\<lambda>db key. None)"
proof -
  let ?st = "psync_fullresync repl_id (int n) st\<lparr>ack_timer := True\<rparr>"
  let ?chunks = "nonempty c chunks"
  have "concat ?chunks = c @ concat chunks" by (simp add: nonempty_def)
  with assms(7-10) feed_replication [of magic items checksum newlines ?chunks css] obtain p
    where f: "feed_all replica_feed (ReplicaParser_new False) ?chunks = Inr (dump_commands items (0, None) @ stream_commands 0 css, p)"
      and p: "rstate p = Streaming" by auto
  obtain rs s where s: "execute_write_commands D V S I (converted (map rc_pair rcs)) StorageInner_new = (Some rs, s)"
    "storage_ok S I s" "abs_storage V s = keyspace_of S D rcs (\<lambda>db key. None)"
    using commands_run [OF assms(1,2) storage_ok_new assms(11) [unfolded replicated_def] assms(12)] by (auto simp: empty_keyspace)
  have cb: "settled (callback_state ?st)" "runs_to D V S I (callback_state ?st) (converted (map rc_pair rcs)) s"
    "new_ts_storage (callback_state ?st) \<noteq> None" "\<not> in_transaction (callback_state ?st)"
    using s(1) by (auto simp: psync_fullresync_def handle_replication_start_def settled_def runs_to_def write_target_def
        pending_def converted_def List.map_filter_def)
  have st: "stream_parser ?st = Some (ReplicaParser_new False)" "phase ?st = Ph_replication" "socket ?st"
    "rstate (ReplicaParser_new False) \<noteq> Streaming"
    using assms(5) by (simp_all add: psync_fullresync_def ReplicaParser_new_def)
  have "starts (ReplicaParser_new False) p" using p st(4) by (simp add: starts_def)
  with receive_follows [OF st(1-3) f assms(11) [unfolded replicated_def] cb(1,2), of sent] cb(3,4) assms(13)
  obtain st1 es where r: "receive D V S I G Some sent ?chunks ?st = Inr (Noreply, st1, es)" "stream_parser st1 = Some p"
    "phase st1 = Ph_replication" "settled (callback_state st1)" "runs_to D V S I (callback_state st1) [] s"
    "socket st1" "replication_id st1 = replication_id ?st" "replication_offset st1 = replication_offset ?st + int (counted (ReplicaParser_new False) ?chunks)"
    "reconnect_enabled st1 = reconnect_enabled ?st" "password st1 = password ?st"
    "\<not> in_transaction (callback_state st1)" "ready (callback_state st1)" "new_ts_storage (callback_state st1) = None"
    by auto
  have "streaming st1" using r(2,3) p by (simp add: streaming_def)
  from followingI [OF this r(6,12,4,11,13,5) s(2)] have "following S I st1 s" .
  moreover have "replication_id st1 = Some repl_id"
    "replication_offset st1 = int n + int (counted (ReplicaParser_new False) ?chunks)"
    "reconnect_enabled st1 = reconnect_enabled st" "password st1 = password st"
    using r(7-10) by (simp_all add: psync_fullresync_def)
  ultimately have "receive D V S I G Some sent ((fullresync_line repl_id n @ c) # chunks) st = Inr (Noreply, st1, es)"
    "following S I st1 s \<and> replication_id st1 = Some repl_id \<and>
     replication_offset st1 = int n + int (counted (ReplicaParser_new False) ?chunks) \<and>
     reconnect_enabled st1 = reconnect_enabled st \<and> password st1 = password st"
    using r(1) receive_fullresync [OF assms(3-6), of D V S I G Some sent n c chunks] by (simp_all add: nonempty_def)
  with s(3) show ?thesis by blast
qed

text \<open>
  C2. The replica follows the server. A process that has asked for a replication gets the line \<open>+FULLRESYNC\<close>, a snapshot and
  commands, in chunks of any size. It neither stops nor disconnects; when all of it has arrived, outside a transaction, it
  is streaming, readers are served from a well-formed storage, and the keyspace of that storage is that of running
  the commands of the dump and then those of the stream, in their order, on the empty keyspace.
\<close>

theorem replica_follows:
  fixes st :: "('v, 'i, 'p::linorder, 'r) replica"
  assumes "term_codec D" "nif V S I D"
    "phase st = Ph_psync" "resp_buffer st = []" "socket st" "is_repl_id repl_id"
    "wf_dump magic items checksum" "set newlines \<subseteq> {10, 13}"
    "c @ concat chunks = newlines @ bulk_header (length (enc_dump magic items checksum)) @ enc_dump magic items checksum @
       concat (map enc_command css)"
    "length (c @ concat chunks) < 2 ^ 63"
    "replicated G items css = Inr rcs" "storable S D rcs" "\<not> tx_after rcs False"
  shows "\<exists>st' es s. receive D V S I G Some sent ((fullresync_line repl_id n @ c) # chunks) st = Inr (Noreply, st', es) \<and>
    following S I st' s \<and> replication_id st' = Some repl_id \<and>
    replication_offset st' = int n + int (counted (ReplicaParser_new False) (nonempty c chunks)) \<and> abs_storage V s = keyspace_of S D rcs (\<lambda>db key. None)"
  using server_followed [OF assms] by blast

text \<open>A process that has sent \<open>PSYNC\<close>, and a server whose snapshot is empty and whose stream counts in database 2.\<close>

definition asking :: "(bytes list, ZSetIndexKey list, nat, nat) replica" where
  "asking = (replica_init None None True 1000 30000)\<lparr>phase := Ph_psync, socket := True\<rparr>"

lemma asking_simps [simp]:
  "phase asking = Ph_psync" "resp_buffer asking = []" "socket asking" "reconnect_enabled asking" "password asking = None"
  "callback_state asking = initialize_state"
  by (simp_all add: asking_def replica_init_def)

definition example_id :: bytes where
  "example_id = ascii ''8371b4fb''"

lemma example_id_ok: "is_repl_id example_id"
  by (simp add: is_repl_id_def example_id_def ascii_def)

definition counter_words :: "bytes list list" where
  "counter_words = [[ascii ''SELECT'', ascii ''2''], [ascii ''INCR'', [107]]]"

definition counter_command :: "int \<Rightarrow> replica_command" where
  "counter_command db =
     \<lparr>rc_db = db, rc_command = cmd ''incr'' [E_bin [107]], rc_raw_command = [ascii ''INCR'', [107]], rc_affected_keys = [[107]]\<rparr>"

definition empty_dump :: bytes where
  "empty_dump = enc_dump example_magic [] (replicate 8 0)"

definition counter_bytes :: bytes where
  "counter_bytes = bulk_header (length empty_dump) @ empty_dump @ concat (map enc_command counter_words)"

lemma empty_dump_wf: "wf_dump example_magic [] (replicate 8 0)"
  using example_wf by (simp add: wf_dump_def enc_dump_def)

lemma counter_bytes_short: "length counter_bytes < 2 ^ 63"
  by (simp add: counter_bytes_def empty_dump_def enc_dump_def example_magic_def ascii_def counter_words_def enc_command_def
      enc_bulk_def bulk_header_def nat_to_string.simps)

lemma counter_converted:
  "Enum_map (convert_raw (drop 1)) [with_args 2 ''INCR'' [[107]]] = Inr [counter_command 2]"
  "Enum_map (convert_raw (drop 1)) [with_args 0 ''INCR'' [[107]]] = Inr [counter_command 0]"
  by (simp_all add: convert_raw_def with_args_def parse_def parse_named_def ascii_def counter_command_def)

lemma counter_stream: "stream_commands 0 counter_words = [with_args 2 ''INCR'' [[107]]]"
proof -
  have "parse_uint 32 [50] = Some 2" by (simp add: parse_uint_def byte_digit_def)
  then show ?thesis by (simp add: counter_words_def ascii_def with_args_def)
qed

lemma counter_decoded:
  assumes "0 \<le> db" "db < 2 ^ 64"
  shows "converted (map rc_pair [counter_command db]) = [E_tuple [E_int db, cmd ''incr'' [E_bin [107]]]]"
    "decode_term erlang (E_tuple [E_int db, cmd ''incr'' [E_bin [107]]]) = Ok (word_of_int db, C_incr [107])"
    "storable f64_ops erlang [counter_command db]" "\<not> tx_after [counter_command db] False"
    "keyspace_of f64_ops erlang [counter_command db] K = snd (at_key (word_of_int db) [107] (spec_counter IncrOverflow 1) K)"
proof -
  show c: "converted (map rc_pair [counter_command db]) = [E_tuple [E_int db, cmd ''incr'' [E_bin [107]]]]"
    by (simp add: converted_def rc_pair_def counter_command_def convert_command_def List.map_filter_def)
  show d: "decode_term erlang (E_tuple [E_int db, cmd ''incr'' [E_bin [107]]]) = Ok (word_of_int db, C_incr [107])"
    using assms by (simp add: decode_erlang)
  show "storable f64_ops erlang [counter_command db]"
    unfolding storable_def c by (simp add: d lex_ok_def ranges_ok_def lex_range_ok_def)
  show "\<not> tx_after [counter_command db] False" by (simp add: counter_command_def starts_tx_def ends_tx_def)
  have "fst (at_key (word_of_int db) [107] (spec_counter IncrOverflow 1) K) \<noteq> Err Panic" by (simp add: quiet_at_key quiets)
  then show "keyspace_of f64_ops erlang [counter_command db] K =
      snd (at_key (word_of_int db) [107] (spec_counter IncrOverflow 1) K)"
    unfolding keyspace_of_def c by (simp add: d spec_request_def split: prod.split)
qed

theorem replica_follows_witness:
  "\<exists>st' es s. receive erlang list_vec f64_ops f64_index (drop 1) Some True
      ((fullresync_line example_id 70 @ []) # map (\<lambda>b. [b]) counter_bytes) asking = Inr (Noreply, st', es) \<and>
    following f64_ops f64_index st' s \<and> abs_storage list_vec s 2 [107] = Some (AString (i64_to_string 1))"
proof -
  have one: "concat (map (\<lambda>b. [b]) bs) = bs" for bs :: bytes by (induction bs) auto
  have c: "[] @ concat (map (\<lambda>b. [b]) counter_bytes) = [] @ bulk_header (length (enc_dump example_magic [] (replicate 8 0))) @
      enc_dump example_magic [] (replicate 8 0) @ concat (map enc_command counter_words)"
    unfolding one by (simp add: counter_bytes_def empty_dump_def)
  have l: "length ([] @ concat (map (\<lambda>b. [b]) counter_bytes)) < 2 ^ 63" unfolding one using counter_bytes_short by simp
  have r: "replicated (drop 1) [] counter_words = Inr [counter_command 2]"
    using counter_converted(1) by (simp add: replicated_def counter_stream)
  have "keyspace_of f64_ops erlang [counter_command 2] (\<lambda>db key. None) 2 [107] = Some (AString (i64_to_string 1))"
    using counter_decoded(5) [of 2 "\<lambda>db key. None"] by (simp add: at_key_def ks_update_apply i64_range_def)
  moreover have "set [] \<subseteq> {10, 13 :: u8}" "storable f64_ops erlang [counter_command 2]" "\<not> tx_after [counter_command 2] False"
    using counter_decoded(3,4) [of 2] by simp_all
  note replica_follows [OF erlang_terms.term_codec_axioms erlang_nif.nif_axioms asking_simps(1-3) example_id_ok empty_dump_wf
      this(1) c l r this(2,3), of True 70]
  ultimately show ?thesis by metis
qed

end
