(* ===== verification/Snapshot.thy ===== *)
theory Snapshot
  imports Replica_Follow
begin

text \<open>
  What a snapshot means: the keyspace its items describe, and that this is the keyspace a replica serves after it. The
  scores of a sorted set travel as decimal text, and arrive unchanged.
\<close>

section \<open>The keyspace of a dump\<close>

fun pairs_of :: "'a list \<Rightarrow> ('a \<times> 'a) list" where
  "pairs_of (a # b # xs) = (a, b) # pairs_of xs"
| "pairs_of xs = []"

definition last_wins :: "(bytes \<times> 'a) list \<Rightarrow> (bytes \<rightharpoonup> 'a)" where
  "last_wins ps = map_of (rev ps)"

definition zset_pairs :: "rdb_value \<Rightarrow> (bytes \<times> f64) list" where
  "zset_pairs v =
     (case v of
        ZSet2V l xs \<Rightarrow> map (\<lambda>(m, s). (string_value m, s)) xs
      | ZSetListpackV s es \<Rightarrow> map (\<lambda>(m, b). (m, binary_to_float_safe b)) (pairs_of (lp_values es))
      | _ \<Rightarrow> [])"

definition hash_pairs :: "rdb_value \<Rightarrow> (bytes \<times> bytes) list" where
  "hash_pairs v =
     (case v of
        HashV l xs \<Rightarrow> map (\<lambda>(f, x). (string_value f, string_value x)) xs
      | Hash2V l xs \<Rightarrow> map (\<lambda>(f, x, e). (string_value f, string_value x)) xs
      | HashListpackV s es \<Rightarrow> pairs_of (lp_values es)
      | _ \<Rightarrow> [])"

fun dump_value :: "rdb_value \<Rightarrow> avalue option" where
  "dump_value (StringV s) = Some (AString (string_value s))"
| "dump_value (ZSet2V l xs) = Some (AZSet (last_wins (zset_pairs (ZSet2V l xs))))"
| "dump_value (HashV l xs) = Some (AHash (last_wins (hash_pairs (HashV l xs))))"
| "dump_value (Quicklist2V l xs) =
     (let vs = concat (map (\<lambda>(c, s, es). lp_values es) xs) in if vs = [] then None else Some (AList vs))"
| "dump_value (HashListpackV s es) = Some (AHash (last_wins (hash_pairs (HashListpackV s es))))"
| "dump_value (Hash2V l xs) = (if xs = [] then None else Some (AHash (last_wins (hash_pairs (Hash2V l xs)))))"
| "dump_value (SetIntsetV s w ns) = Some (ASet (set (map i64_to_string ns)))"
| "dump_value (SetListpackV s es) = Some (ASet (set (lp_values es)))"
| "dump_value (ZSetListpackV s es) = Some (AZSet (last_wins (zset_pairs (ZSetListpackV s es))))"

fun dump_entries :: "rdb_item list \<Rightarrow> u32 \<Rightarrow> ((u64 \<times> bytes) \<times> rdb_value) list" where
  "dump_entries [] db = []"
| "dump_entries (SelectDbI l # items) db = dump_entries items (word_of_nat (len_value l))"
| "dump_entries (PairI k v # items) db = ((ucast db, string_value k), v) # dump_entries items db"
| "dump_entries (i # items) db = dump_entries items db"

definition dump_keyspace :: "rdb_item list \<Rightarrow> keyspace" where
  "dump_keyspace items db key =
     (case map_of (dump_entries items 0) (db, key) of None \<Rightarrow> None | Some v \<Rightarrow> dump_value v)"

definition no_nan :: "rdb_value \<Rightarrow> bool" where
  "no_nan v \<longleftrightarrow> list_all (\<lambda>(m, s). \<not> f64_is_nan s) (zset_pairs v)"

definition proper_dump :: "rdb_item list \<Rightarrow> bool" where
  "proper_dump items \<longleftrightarrow>
     distinct (map fst (dump_entries items 0)) \<and> list_all (\<lambda>((db, key), v). no_nan v \<and> key \<noteq> tx_key) (dump_entries items 0)"

section \<open>Scores as text\<close>

definition score_term :: "f64 \<Rightarrow> eterm" where
  "score_term s =
     (if f64_is_inf s then E_atom (if f64_neg_bit s then ''neg_inf'' else ''pos_inf'') else E_float s)"

lemma finite_score:
  assumes "\<not> f64_is_nan s" "\<not> f64_is_inf s"
  shows "\<exists>d r. is_digit d \<and> f64_to_string s = (if f64_neg_bit s then [45] else []) @ d # r"
    and "f64_mag s < f64_inf_mag"
proof -
  show m: "f64_mag s < f64_inf_mag" using assms by (auto simp: f64_is_nan_def f64_is_inf_def)
  obtain whole fr where t: "f64_to_string s = (if f64_neg_bit s then [45] else []) @ decimal_text whole fr" "whole \<noteq> []"
    "list_all is_digit (whole @ fr)"
    using to_string_decimal [OF m] by blast
  obtain d ds where "whole = d # ds" "is_digit d" using t(2,3) by (cases whole) auto
  then show "\<exists>d r. is_digit d \<and> f64_to_string s = (if f64_neg_bit s then [45] else []) @ d # r"
    using t(1) by (auto simp: decimal_text_def)
qed

lemma infinite_score: "f64_is_inf s \<Longrightarrow> f64_to_string s = (if f64_neg_bit s then [45] else []) @ ascii ''inf''"
  by (simp add: f64_to_string_def f64_is_nan_def f64_is_inf_def Let_def ascii_def)

lemma parse_score:
  assumes "\<not> f64_is_nan s"
  shows "parse_float (f64_to_string s) = Inr (score_term s)"
proof (cases "f64_is_inf s")
  case True
  then show ?thesis by (simp add: infinite_score parse_float_def score_term_def ascii_def)
next
  case False
  obtain d r where "is_digit d" "f64_to_string s = (if f64_neg_bit s then [45] else []) @ d # r"
    using finite_score(1) [OF assms False] by blast
  then have "f64_to_string s \<notin> {ascii ''inf'', ascii ''+inf'', ascii ''-inf'', ascii ''nan''}"
    by (auto simp: ascii_def is_digit_def)
  then show ?thesis using Float_parse_to_string [OF finite_score(2) [OF assms False]] False
    by (simp add: parse_float_def score_term_def)
qed

lemma score_no_option:
  assumes "\<not> f64_is_nan s"
  shows "map_of zadd_words (to_uppercase (f64_to_string s)) = None"
proof (cases "f64_is_inf s")
  case True
  then show ?thesis by (simp add: infinite_score ascii_def zadd_words_def)
next
  case False
  obtain d r where d: "is_digit d" "f64_to_string s = (if f64_neg_bit s then [45] else []) @ d # r"
    using finite_score(1) [OF assms False] by blast
  have "d < 97" "d \<notin> {78, 88, 71, 76, 67, 73, 0xC3, 0xC4, 0xC5, 0xEF}"
    using d(1) by (auto simp: is_digit_def word_le_nat_alt word_less_nat_alt)
  with d(2) show ?thesis by (auto simp: zadd_words_def ascii_def)
qed

context term_codec
begin

lemma decode_score_term: "\<not> f64_is_nan s \<Longrightarrow> decode_score D (score_term s) = Some s"
  using f64_of_mag_parts [of s]
  by (auto simp: decode_score_def score_term_def f64_is_inf_def Let_def)

lemma zadd_members_terms:
  "list_all (\<lambda>(m, s). \<not> f64_is_nan s) ps \<Longrightarrow>
     zadd_members D (E_list (map (\<lambda>(m, s). E_tuple [score_term s, E_bin m]) ps)) = Some (map (\<lambda>(m, s). (s, m)) ps)"
  by (induction ps) (auto simp: zadd_members_def decode_score_term)

end

section \<open>The commands of a value\<close>

lemma last_wins_Nil [simp]: "last_wins [] = Map.empty"
  by (simp add: last_wins_def)

lemma pairs_of_concat: "pairs_of (concat (map (\<lambda>x. [f x, g x]) xs)) = map (\<lambda>x. (f x, g x)) xs"
  by (induction xs) simp_all

lemma parse_pairs_of: "even (length xs) \<Longrightarrow> parse_pairs xs = Inr (pairs_of xs)"
  by (induction xs rule: parse_pairs.induct) simp_all

definition zadd_args :: "(bytes \<times> f64) list \<Rightarrow> bytes list" where
  "zadd_args ps = concat (map (\<lambda>(m, s). [f64_to_string s, m]) ps)"

lemma zadd_parsed:
  assumes "list_all (\<lambda>(m, s). \<not> f64_is_nan s) ps"
  shows "parse_zadd_args (zadd_args ps) = Inr ([], map (\<lambda>(m, s). E_tuple [score_term s, E_bin m]) ps)"
proof -
  have "extract_zadd_options (zadd_args ps) = ([], zadd_args ps)"
    using assms by (cases ps) (auto simp: zadd_args_def score_no_option)
  moreover have "parse_score_member_pairs (zadd_args ps) = Inr (map (\<lambda>(m, s). E_tuple [score_term s, E_bin m]) ps)"
    using assms by (induction ps) (auto simp: zadd_args_def parse_score)
  ultimately show ?thesis by (simp add: parse_zadd_args_def)
qed

lemma listpack_args: "score_member_args es = zadd_args (map (\<lambda>(m, b). (m, binary_to_float_safe b)) (pairs_of es))"
  by (induction es rule: score_member_args.induct) (simp_all add: zadd_args_def)

lemma zadd_fold: "fold (zadd_pair S {}) (map (\<lambda>(m, s). (s, m)) ps) h = h ++ last_wins ps"
proof (induction ps arbitrary: h)
  case (Cons p ps)
  obtain m s where "p = (m, s)" by fastforce
  then have "zadd_pair S {} (s, m) h = h(m \<mapsto> s)"
    by (cases "h m") (simp_all add: zadd_pair_def zadd_writes_def)
  then have "fold (zadd_pair S {}) (map (\<lambda>(m, s). (s, m)) (p # ps)) h = h(m \<mapsto> s) ++ last_wins ps"
    unfolding \<open>p = (m, s)\<close> using Cons.IH [of "h(m \<mapsto> s)"] by (simp only: list.map prod.case fold.simps comp_def)
  also have "\<dots> = h ++ last_wins (p # ps)"
    using \<open>p = (m, s)\<close> by (auto simp: last_wins_def map_add_def fun_eq_iff split: option.split)
  finally show ?case .
qed (simp add: last_wins_def)

text \<open>A command of the stream that the storage decodes to \<open>c\<close>.\<close>

definition becomes :: "eterm rustler \<Rightarrow> (bytes \<Rightarrow> bytes) \<Rightarrow> RawCommand \<Rightarrow> write_command \<Rightarrow> bool" where
  "becomes D G raw c \<longleftrightarrow>
     (\<exists>rc t. convert_raw G raw = Inr rc \<and> converted [rc_pair rc] = [t] \<and> decode_term D t = Ok (ucast (cmd_db raw), c) \<and>
        (starts_tx (rc_command rc) \<longrightarrow> (\<exists>v. c = C_set tx_key v)))"

definition rebuilds :: "eterm rustler \<Rightarrow> score_ops \<Rightarrow> (bytes \<Rightarrow> bytes) \<Rightarrow> RawCommand list \<Rightarrow> write_command list \<Rightarrow> u64 \<Rightarrow> bytes \<Rightarrow> avalue option \<Rightarrow> bool" where
  "rebuilds D S G raws cs d key v \<longleftrightarrow>
     list_all2 (becomes D G) raws cs \<and> (\<forall>raw \<in> set raws. ucast (cmd_db raw) = d) \<and>
     list_all (\<lambda>c. ranges_ok S c \<and> lex_range_ok c \<and> (\<forall>x. c = C_set tx_key x \<longrightarrow> key = tx_key)) cs \<and>
     (\<forall>K. K d key = None \<longrightarrow> (\<exists>rs. spec_batch S (map (\<lambda>c. Ok (d, c)) cs) K = (Some rs, ks_update d key v K)))"

text \<open>The commands of a whole dump, each for its database.\<close>

definition load_entries :: "((u64 \<times> bytes) \<times> rdb_value) list \<Rightarrow> keyspace \<Rightarrow> keyspace" where
  "load_entries es K = fold (\<lambda>((d, key), v). ks_update d key (dump_value v)) es K"

definition tagged :: "eterm rustler \<Rightarrow> (bytes \<Rightarrow> bytes) \<Rightarrow> RawCommand list \<Rightarrow> (u64 \<times> write_command) list \<Rightarrow> bool" where
  "tagged D G raws cs \<longleftrightarrow> list_all2 (\<lambda>raw (d, c). becomes D G raw c \<and> ucast (cmd_db raw) = d) raws cs"

definition harmless :: "score_ops \<Rightarrow> u64 \<times> write_command \<Rightarrow> bool" where
  "harmless S p \<longleftrightarrow> ranges_ok S (snd p) \<and> lex_range_ok (snd p) \<and> (\<forall>x. snd p \<noteq> C_set tx_key x)"

lemma spec_batch_append:
  "spec_batch S qs K = (Some rs, K1) \<Longrightarrow> spec_batch S qs' K1 = (Some rs', K2) \<Longrightarrow> spec_batch S (qs @ qs') K = (Some (rs @ rs'), K2)"
proof (induction qs arbitrary: K rs)
  case (Cons q qs)
  obtain r K' where r: "spec_request S q K = (r, K')" by fastforce
  with Cons.prems(1) obtain rs1 where "r \<noteq> Err Panic" "spec_batch S qs K' = (Some rs1, K1)" "rs = r # rs1"
    by (auto split: if_splits prod.splits)
  with Cons.IH [of K' rs1] Cons.prems(2) r show ?case by simp
qed simp

lemma loaded_keyspace:
  "distinct (map fst es) \<Longrightarrow>
     load_entries es K d key = (case map_of es (d, key) of None \<Rightarrow> K d key | Some v \<Rightarrow> dump_value v)"
proof (induction es arbitrary: K)
  case (Cons e es)
  obtain d' key' v where e: "e = ((d', key'), v)" by (metis prod.exhaust)
  then have "load_entries (e # es) K = load_entries es (ks_update d' key' (dump_value v) K)" by (simp add: load_entries_def)
  moreover have "map_of es (d', key') = None" using Cons.prems e by (simp add: map_of_eq_None_iff)
  ultimately show ?case using Cons e by (auto simp: ks_update_apply split: option.split)
qed (simp add: load_entries_def)

context term_codec
begin

lemma becomesI:
  assumes "parse G (ascii name # args) = Inr (cmd a ts, ks)" "decode_command D a ts = Ok c"
    "convert_command (uint db) (cmd a ts) = Some (E_tuple [E_int (uint db), cmd a ts])"
    "starts_tx (cmd a ts) \<Longrightarrow> \<exists>v. c = C_set tx_key v"
  shows "becomes D G (with_args db name args) c"
proof -
  have "uint db < 2 ^ 64" using unsigned_less [of db, where 'a = int] by simp
  moreover have "(word_of_int (uint db) :: u64) = ucast db" by (rule ucast_eq [symmetric])
  ultimately have "decode_term D (E_tuple [E_int (uint db), cmd a ts]) = Ok (ucast db, c)"
    using decode_tuple [of "uint db" a ts] assms(2) by simp
  then show ?thesis using assms(1,3,4)
    by (simp add: becomes_def convert_raw_def with_args_def rc_pair_def converted_def List.map_filter_def)
qed

lemma becomes_values:
  "becomes D G (with_args db ''SET'' [key, v]) (C_set key v)"
  "becomes D G (with_args db ''SADD'' (key # xs)) (C_sadd key xs)"
  "becomes D G (with_args db ''RPUSH'' (key # xs)) (C_rpush key xs)"
  "even (length xs) \<Longrightarrow> becomes D G (with_args db ''HSET'' (key # xs)) (C_hmset key (pairs_of xs))"
  "list_all (\<lambda>(m, s). \<not> f64_is_nan s) ps \<Longrightarrow>
     becomes D G (with_args db ''ZADD'' (key # zadd_args ps)) (C_zadd key (map (\<lambda>(m, s). (s, m)) ps) [])"
  "becomes D G (with_args db ''PEXPIREAT'' [key, nat_to_string n]) C_expiry"
proof -
  have no_atoms: "dec_atoms D (E_list []) = Some []" using dec_atoms_list [of "[]"] by simp
  note parsed = parse_def parse_named_def ascii_def convert_command_def starts_tx_def
  show "becomes D G (with_args db ''SET'' [key, v]) (C_set key v)"
    by (rule becomesI [where a = "''set''" and ts = "[E_bin key, E_bin v]" and ks = "[key]"])
      (simp_all add: parsed decode_command_def args2_def)
  show "becomes D G (with_args db ''SADD'' (key # xs)) (C_sadd key xs)"
    by (rule becomesI [where a = "''sadd''" and ts = "[E_bin key, binaries xs]" and ks = "[key]"])
      (simp_all add: parsed decode_command_def args2_def)
  show "becomes D G (with_args db ''RPUSH'' (key # xs)) (C_rpush key xs)"
    by (rule becomesI [where a = "''rpush''" and ts = "[E_bin key, binaries xs]" and ks = "[key]"])
      (simp_all add: parsed decode_command_def args2_def)
  show "becomes D G (with_args db ''HSET'' (key # xs)) (C_hmset key (pairs_of xs))" if "even (length xs)"
    by (rule becomesI [where a = "''hmset''" and ts = "[E_bin key, pairs_term (pairs_of xs)]" and ks = "[key]"])
      (simp_all add: parsed parse_pairs_of that decode_command_def args2_def)
  show "becomes D G (with_args db ''ZADD'' (key # zadd_args ps)) (C_zadd key (map (\<lambda>(m, s). (s, m)) ps) [])" if "list_all (\<lambda>(m, s). \<not> f64_is_nan s) ps"
    by (rule becomesI [where a = "''zadd''" and ts = "[E_bin key, E_list (map (\<lambda>(m, s). E_tuple [score_term s, E_bin m]) ps), E_list []]" and ks = "[key]"])
      (simp_all add: parsed zadd_parsed that decode_command_def args1_def zadd_members_terms zadd_options_def no_atoms)
  show "becomes D G (with_args db ''PEXPIREAT'' [key, nat_to_string n]) C_expiry"
    by (rule becomesI [where a = "''pexpireat''" and ts = "[E_bin key, E_int (int n)]" and ks = "[key]"])
      (simp_all add: parsed String_to_integer_nat decode_command_def)
qed

lemma rebuilds_one:
  assumes "becomes D G (with_args db name args) c" "ranges_ok S c" "lex_range_ok c" "\<And>x. c = C_set tx_key x \<Longrightarrow> key = tx_key"
    "\<And>K. K (ucast db) key = None \<Longrightarrow> spec_command S (ucast db) c K = (Ok (), ks_update (ucast db) key v K)"
  shows "rebuilds D S G [with_args db name args] [c] (ucast db) key v"
  using assms by (auto simp: rebuilds_def spec_request_def with_args_def)

lemma value_rebuilt:
  assumes "wf_value v" "no_nan v"
  shows "\<exists>cs. rebuilds D S G (value_commands db key v) cs (ucast db) key (dump_value v)"
proof -
  note spec = ranges_ok_def lex_range_ok_def at_key_def ks_update_apply spec_set_def spec_hmset_def pushed_def spec_zadd_def
    zadd_error_def zadd_fold last_wins_def zset_pairs_def hash_pairs_def
  have none: "rebuilds D S G [] [] (ucast db) key None" by (auto simp: rebuilds_def ks_update_def fun_eq_iff)
  have hash: "rebuilds D S G [with_args db ''HSET'' (key # xs)] [C_hmset key (pairs_of xs)] (ucast db) key
      (Some (AHash (last_wins (pairs_of xs))))" if "even (length xs)" for xs
    by (rule rebuilds_one [OF becomes_values(4) [OF that]]) (simp_all add: spec)
  have zset: "rebuilds D S G [with_args db ''ZADD'' (key # zadd_args ps)] [C_zadd key (map (\<lambda>(m, s). (s, m)) ps) []] (ucast db) key
      (Some (AZSet (last_wins ps)))" if "list_all (\<lambda>(m, s). \<not> f64_is_nan s) ps" for ps
    by (rule rebuilds_one [OF becomes_values(5) [OF that]]) (simp_all add: spec)
  have set: "rebuilds D S G [with_args db ''SADD'' (key # xs)] [C_sadd key xs] (ucast db) key (Some (ASet (set xs)))" for xs
    by (rule rebuilds_one [OF becomes_values(2)]) (simp_all add: spec)
  have list: "rebuilds D S G [with_args db ''RPUSH'' (key # xs)] [C_rpush key xs] (ucast db) key (Some (AList xs))" for xs
    by (rule rebuilds_one [OF becomes_values(3)]) (simp_all add: spec)
  have string: "rebuilds D S G [with_args db ''SET'' [key, x]] [C_set key x] (ucast db) key (Some (AString x))" for x
    by (rule rebuilds_one [OF becomes_values(1)]) (simp_all add: spec)
  show ?thesis
  proof (cases v)
    case (StringV s)
    then show ?thesis using string by auto
  next
    case (ZSet2V l xs)
    moreover have "concat (map (\<lambda>(m, s). [f64_to_string s, string_value m]) xs) = zadd_args (zset_pairs v)"
      unfolding ZSet2V by (induction xs) (auto simp: zset_pairs_def zadd_args_def)
    ultimately show ?thesis using zset [of "zset_pairs v"] assms(2) by (auto simp: no_nan_def)
  next
    case (HashV l xs)
    moreover have "concat (map (\<lambda>(f, x). [string_value f, string_value x]) xs) =
        concat (map (\<lambda>p. [string_value (fst p), string_value (snd p)]) xs)" by (simp add: case_prod_unfold)
    moreover have "even (length (concat (map (\<lambda>p. [f p, g p]) xs)))" for f g :: "rdb_string \<times> rdb_string \<Rightarrow> bytes"
      by (induction xs) simp_all
    ultimately show ?thesis
      using hash [of "concat (map (\<lambda>p. [string_value (fst p), string_value (snd p)]) xs)"]
      by (auto simp: pairs_of_concat hash_pairs_def case_prod_unfold)
  next
    case (Quicklist2V l xs)
    then show ?thesis using none list by (auto simp: Let_def)
  next
    case (HashListpackV s es)
    then show ?thesis using hash [of "lp_values es"] assms(1) by (auto simp: hash_pairs_def lp_values_def)
  next
    case (Hash2V l xs)
    let ?args = "concat (map (\<lambda>p. [string_value (fst p), string_value (fst (snd p))]) xs)"
    have e: "concat (map (\<lambda>(f, x, e). [string_value f, string_value x]) xs) = ?args" by (simp add: case_prod_unfold)
    have "even (length (concat (map (\<lambda>p. [f p, g p]) xs)))" for f g :: "rdb_string \<times> rdb_string \<times> u64 \<Rightarrow> bytes"
      by (induction xs) simp_all
    then have "rebuilds D S G [with_args db ''HSET'' (key # ?args)] [C_hmset key (pairs_of ?args)] (ucast db) key
        (Some (AHash (last_wins (pairs_of ?args))))" by (rule hash)
    moreover have "?args = [] \<longleftrightarrow> xs = []" by (cases xs) auto
    moreover have "pairs_of ?args = hash_pairs v" by (simp add: pairs_of_concat Hash2V hash_pairs_def case_prod_unfold)
    ultimately show ?thesis using none unfolding Hash2V value_commands.simps e Let_def dump_value.simps
      by (cases "xs = []") auto
  next
    case (SetIntsetV s w ns)
    then show ?thesis using set [of "map i64_to_string ns"] by auto
  next
    case (SetListpackV s es)
    then show ?thesis using set by auto
  next
    case (ZSetListpackV s es)
    then show ?thesis using zset [of "zset_pairs v"] assms(2) by (auto simp: no_nan_def listpack_args zset_pairs_def)
  qed
qed

lemma tagged_append: "tagged D G as cs \<Longrightarrow> tagged D G bs ds \<Longrightarrow> tagged D G (as @ bs) (cs @ ds)"
  by (simp add: tagged_def list_all2_appendI)

lemma tagged_value: "rebuilds D S G raws cs d key v \<Longrightarrow> tagged D G raws (map (Pair d) cs)"
  by (auto simp: rebuilds_def tagged_def list_all2_conv_all_nth)

lemma items_rebuilt:
  assumes "list_all wf_item items" "list_all (\<lambda>((d, key), v). no_nan v \<and> key \<noteq> tx_key) (dump_entries items db)"
    "distinct (map fst (dump_entries items db))" "\<forall>(d, key) \<in> set (map fst (dump_entries items db)). K d key = None"
  shows "\<exists>cs rs. tagged D G (dump_commands items (db, ex)) cs \<and> list_all (harmless S) cs \<and>
    spec_batch S (map Inr cs) K = (Some rs, load_entries (dump_entries items db) K)"
  using assms
proof (induction items arbitrary: db ex K)
  case Nil
  then show ?case by (simp add: tagged_def load_entries_def)
next
  case (Cons i items)
  show ?case
  proof (cases i)
    case (PairI k v)
    let ?key = "string_value k" and ?K = "ks_update (ucast db) (string_value k) (dump_value v) K"
    obtain cs where cs: "rebuilds D S G (value_commands db ?key v) cs (ucast db) ?key (dump_value v)"
      using value_rebuilt [of v S G db ?key] Cons.prems(1,2) PairI by auto
    have "K (ucast db) ?key = None" using Cons.prems(4) PairI by simp
    then obtain rs where rs: "spec_batch S (map (\<lambda>c. Ok (ucast db, c)) cs) K = (Some rs, ?K)" using cs by (auto simp: rebuilds_def)
    let ?ex = "case ex of None \<Rightarrow> [] | Some ms \<Rightarrow> [with_args db ''PEXPIREAT'' [?key, nat_to_string (unat ms)]]"
    let ?es = "case ex of None \<Rightarrow> [] | Some ms \<Rightarrow> [(ucast db, C_expiry)]"
    have "tagged D G ?ex ?es" using becomes_values(6) by (auto simp: tagged_def with_args_def split: option.split)
    then have t: "tagged D G (value_commands db ?key v @ ?ex) (map (Pair (ucast db)) cs @ ?es)"
      using tagged_append [OF tagged_value [OF cs]] by simp
    have h: "list_all (harmless S) (map (Pair (ucast db)) cs @ ?es)"
      using cs Cons.prems(2) PairI
      by (auto simp: rebuilds_def harmless_def list_all_iff ranges_ok_def lex_range_ok_def split: option.split)
    have "spec_batch S (map Inr (map (Pair (ucast db)) cs)) K = (Some rs, ?K)" using rs by (simp add: comp_def)
    moreover have "\<exists>rs'. spec_batch S (map Inr ?es) ?K = (Some rs', ?K)" by (auto simp: spec_request_def split: option.split)
    ultimately obtain rs1 where b: "spec_batch S (map Inr (map (Pair (ucast db)) cs @ ?es)) K = (Some rs1, ?K)"
      using spec_batch_append by (metis map_append)
    have "\<forall>(d, key) \<in> set (map fst (dump_entries items db)). ?K d key = None"
      using Cons.prems(3,4) PairI by (force simp: ks_update_apply)
    with Cons.IH [of db ?K None] Cons.prems(1-3) PairI obtain cs2 rs2 where
      c2: "tagged D G (dump_commands items (db, None)) cs2" "list_all (harmless S) cs2"
        "spec_batch S (map Inr cs2) ?K = (Some rs2, load_entries (dump_entries items db) ?K)" by auto
    have "dump_commands (i # items) (db, ex) = (value_commands db ?key v @ ?ex) @ dump_commands items (db, None)"
      using PairI by simp
    moreover have "load_entries (dump_entries (i # items) db) K = load_entries (dump_entries items db) ?K"
      using PairI by (simp add: load_entries_def)
    ultimately show ?thesis
      using tagged_append [OF t c2(1)] h c2(2) spec_batch_append [OF b c2(3)]
      by - (rule exI [of _ "(map (Pair (ucast db)) cs @ ?es) @ cs2"], rule exI [of _ "rs1 @ rs2"], simp)
  qed (use Cons in auto)
qed

lemma tagged_converts:
  "tagged D G raws cs \<Longrightarrow> list_all (harmless S) cs \<Longrightarrow>
     \<exists>rcs. Enum_map (convert_raw G) raws = Inr rcs \<and> map (decode_term D) (converted (map rc_pair rcs)) = map Inr cs \<and>
       (\<forall>rc \<in> set rcs. \<not> starts_tx (rc_command rc))"
proof (induction raws arbitrary: cs)
  case (Cons raw raws)
  then obtain d c cs1 where cs: "cs = (d, c) # cs1" "becomes D G raw c" "ucast (cmd_db raw) = d" "tagged D G raws cs1"
    by (cases cs) (auto simp: tagged_def)
  with Cons obtain rcs where "Enum_map (convert_raw G) raws = Inr rcs" "map (decode_term D) (converted (map rc_pair rcs)) = map Inr cs1"
    "\<forall>rc \<in> set rcs. \<not> starts_tx (rc_command rc)" by fastforce
  moreover obtain rc t where "convert_raw G raw = Inr rc" "converted [rc_pair rc] = [t]" "decode_term D t = Ok (d, c)"
    "\<not> starts_tx (rc_command rc)"
    using cs Cons.prems(2) by (auto simp: becomes_def harmless_def)
  ultimately show ?case using cs(1) converted_append(1) [of "[rc_pair rc]" "map rc_pair rcs"]
    by - (rule exI [of _ "rc # rcs"], simp)
qed (simp add: tagged_def converted_def List.map_filter_def)

end

lemma tx_after_plain: "\<forall>rc \<in> set rcs. \<not> starts_tx (rc_command rc) \<Longrightarrow> \<not> tx_after rcs False"
  by (induction rcs) simp_all

lemma dump_replicated:
  assumes "term_codec D" "list_all wf_item items" "proper_dump items"
  shows "\<exists>rcs. replicated G items [] = Inr rcs \<and> storable S D rcs \<and> \<not> tx_after rcs False \<and>
    keyspace_of S D rcs (\<lambda>db key. None) = dump_keyspace items"
proof -
  have d: "distinct (map fst (dump_entries items 0))"
    "list_all (\<lambda>((db, key), v). no_nan v \<and> key \<noteq> tx_key) (dump_entries items 0)"
    using assms(3) by (simp_all add: proper_dump_def)
  have "\<forall>(d, key) \<in> set (map fst (dump_entries items 0)). (\<lambda>db key. None) d key = None" by simp
  from term_codec.items_rebuilt [OF assms(1,2) d(2,1) this] obtain cs rs where cs: "tagged D G (dump_commands items (0, None)) cs"
    "list_all (harmless S) cs" "spec_batch S (map Inr cs) (\<lambda>db key. None) = (Some rs, load_entries (dump_entries items 0) (\<lambda>db key. None))"
    by blast
  from term_codec.tagged_converts [OF assms(1) cs(1,2)] obtain rcs where
    rcs: "Enum_map (convert_raw G) (dump_commands items (0, None)) = Inr rcs"
      "map (decode_term D) (converted (map rc_pair rcs)) = map Inr cs" "\<forall>rc \<in> set rcs. \<not> starts_tx (rc_command rc)" by blast
  have "list_all (lex_ok D) (converted (map rc_pair rcs))"
    unfolding list_all_length
  proof safe
    fix n
    assume "n < length (converted (map rc_pair rcs))"
    moreover have "length (converted (map rc_pair rcs)) = length cs" using arg_cong [OF rcs(2), of length] by simp
    ultimately have "decode_term D (converted (map rc_pair rcs) ! n) = Inr (cs ! n)" "harmless S (cs ! n)"
      using arg_cong [OF rcs(2), of "\<lambda>xs. xs ! n"] cs(2) by (simp_all add: list_all_length)
    then show "lex_ok D (converted (map rc_pair rcs) ! n)" by (simp add: lex_ok_def harmless_def case_prod_unfold)
  qed
  moreover have "list_all (request_ranges_ok S) (map Inr cs)"
    using cs(2) by (auto simp: list_all_iff harmless_def)
  ultimately have "storable S D rcs" using rcs(2) by (simp add: storable_def)
  moreover have "keyspace_of S D rcs (\<lambda>db key. None) = dump_keyspace items"
    using cs(3) loaded_keyspace [OF d(1), of "\<lambda>db key. None"] rcs(2)
    by (auto simp: keyspace_of_def dump_keyspace_def fun_eq_iff split: option.split)
  ultimately show ?thesis using rcs(1) tx_after_plain [OF rcs(3)] by (auto simp: replicated_def)
qed

text \<open>
  C3. A snapshot is loaded. After \<open>+FULLRESYNC\<close> and a dump, in chunks of any size, the process serves readers exactly the keyspace
  the dump describes: every string, list, set, hash and sorted set in its database, with the scores bit for bit, although they
  travelled as decimal text; and nothing else, whatever it served before.
\<close>

theorem snapshot_loaded:
  fixes st :: "('v, 'i, 'p::linorder, 'r) replica"
  assumes "term_codec D" "nif V S I D" "phase st = Ph_psync" "resp_buffer st = []" "socket st" "is_repl_id repl_id"
    "wf_dump magic items checksum" "set newlines \<subseteq> {10, 13}" "proper_dump items"
    "c @ concat chunks = newlines @ bulk_header (length (enc_dump magic items checksum)) @ enc_dump magic items checksum"
    "length (c @ concat chunks) < 2 ^ 63"
  shows "\<exists>st' es s. receive D V S I G Some sent ((fullresync_line repl_id n @ c) # chunks) st = Inr (Noreply, st', es) \<and>
    following S I st' s \<and> abs_storage V s = dump_keyspace items"
proof -
  have "list_all wf_item items" using assms(7) by (simp add: wf_dump_def)
  from dump_replicated [OF assms(1) this assms(9), of G S] obtain rcs where
    rcs: "replicated G items [] = Inr rcs" "storable S D rcs" "\<not> tx_after rcs False"
      "keyspace_of S D rcs (\<lambda>db key. None) = dump_keyspace items" by blast
  have c: "c @ concat chunks = newlines @ bulk_header (length (enc_dump magic items checksum)) @ enc_dump magic items checksum @
      concat (map enc_command [])" using assms(10) by simp
  show ?thesis
    using server_followed [OF assms(1-8) c assms(11) rcs(1-3), of sent n] unfolding rcs(4) by blast
qed

theorem snapshot_loaded_witness:
  "\<exists>st' es s. receive erlang list_vec f64_ops f64_index (drop 1) Some True
      ((fullresync_line example_id 70 @ []) #
       map (\<lambda>b. [b]) (bulk_header (length (enc_dump example_magic example_items (replicate 8 0))) @
         enc_dump example_magic example_items (replicate 8 0))) asking = Inr (Noreply, st', es) \<and>
    abs_storage list_vec s 3 [107] = Some (AString [45, 51, 48, 48]) \<and> following f64_ops f64_index st' s"
proof -
  let ?d = "enc_dump example_magic example_items (replicate 8 0)"
  have one: "concat (map (\<lambda>b. [b]) bs) = bs" for bs :: bytes by (induction bs) auto
  have c: "[] @ concat (map (\<lambda>b. [b]) (bulk_header (length ?d) @ ?d)) = [] @ bulk_header (length ?d) @ ?d"
    unfolding one by simp
  have l: "length ([] @ concat (map (\<lambda>b. [b]) (bulk_header (length ?d) @ ?d))) < 2 ^ 63"
    unfolding one
    by (simp add: enc_dump_def example_items_def enc_intset_def enc_item_def example_magic_def ascii_def bulk_header_def nat_to_string.simps)
  have e: "dump_entries example_items 0 =
      [((3, [107]), StringV (Int16 (-300))), ((3, [104]), HashV (Len6 1) [(Plain (Len14 1) [102], Plain (Len6 2) [118, 119])]),
       ((3, [115]), SetIntsetV (Plain (Len6 10) (enc_intset 2 [-5])) 2 [-5])]"
    by (simp add: example_items_def)
  have "proper_dump example_items" unfolding proper_dump_def e by (simp add: no_nan_def zset_pairs_def tx_key_def ascii_def)
  moreover have "i64_to_string (-300) = [45, 51, 48, 48]" by code_simp
  then have "dump_keyspace example_items 3 [107] = Some (AString [45, 51, 48, 48])" by (simp add: dump_keyspace_def e)
  moreover have "set [] \<subseteq> {10, 13 :: u8}" by simp
  ultimately show ?thesis
    using snapshot_loaded [OF erlang_terms.term_codec_axioms erlang_nif.nif_axioms asking_simps(1-3) example_id_ok example_wf _ _ c l,
        of "drop 1" True 70] by metis
qed

end
