(* ===== verification/Replica_Resync.thy ===== *)
theory Replica_Resync
  imports Replica_Follow
begin

text \<open>
  Connections that break: how the process comes back, and what a partial resynchronisation (\<open>+CONTINUE\<close>) leaves in the
  storage. The server is taken at its word: it may answer \<open>PSYNC\<close> with \<open>+CONTINUE\<close> and send its stream on from there.
\<close>

section \<open>Reconnecting\<close>

primrec run_events where
  "run_events D V S I G F [] st = Inr (Noreply, st, [])"
| "run_events D V S I G F (e # events) st =
     and_then (handle_event D V S I G F e st) (\<lambda>(a, st1, es1).
       if a = Noreply
       then and_then (run_events D V S I G F events st1) (\<lambda>(a2, st2, es2). Inr (a2, st2, es1 @ es2))
       else Inr (a, st1, es1))"

text \<open>The connection is lost; the process connects again, without a password, and the server accepts what it says.\<close>

definition reconnection :: "('p, 'r) replica_event list" where
  "reconnection =
     [On_closed, On_reconnect_timeout True True, On_data True (ascii ''+PONG'' @ [13, 10]), On_data True (ascii ''+OK'' @ [13, 10]),
      On_data True (ascii ''+OK'' @ [13, 10])]"

lemma simple_responses:
  "parse_simple_response (ascii ''+PONG'' @ [13, 10]) = Resp_ok (ascii ''PONG'') []"
  "parse_simple_response (ascii ''+OK'' @ [13, 10]) = Resp_ok (ascii ''OK'') []"
  by (simp_all add: parse_simple_response_def ascii_def skip_newlines_def)

definition psync_command :: "bytes \<Rightarrow> int \<Rightarrow> bytes" where
  "psync_command repl_id offset = enc_command [ascii ''PSYNC'', repl_id, i64_to_string offset]"

lemma reconnects:
  fixes st :: "('v, 'i, 'p::linorder, 'r) replica"
  assumes "reconnect_enabled st" "password st = None" "replication_id st = Some repl_id"
  shows "\<exists>st1 es. run_events D V S I G F reconnection st = Inr (Noreply, st1, es) \<and> phase st1 = Ph_psync \<and> socket st1 \<and>
    resp_buffer st1 = [] \<and> callback_state st1 = callback_state st \<and> saved_replication_id st1 = Some repl_id \<and>
    saved_replication_offset st1 = replication_offset st \<and> last es = Socket_send (psync_command repl_id (replication_offset st)) \<and>
    reconnect_enabled st1 \<and> password st1 = None"
  using assms
  by (simp add: reconnection_def handle_disconnect_def schedule_reconnect_def Let_def handle_reconnect_timeout_def handle_connect_def
      connect_directly_def proceed_after_connect_def send_ping_def transmit_def handle_data_def handle_response_def
      handle_simple_response_def simple_responses after_send_def send_replconf_listening_port_def send_replconf_capa_def
      send_psync_def psync_command_def)

section \<open>A partial resynchronisation\<close>

definition continue_line :: bytes where
  "continue_line = ascii ''+CONTINUE'' @ [13, 10]"

lemma continue_parsed: "parse_psync_response (continue_line @ r) = Inr (Psync_continue r)"
proof -
  let ?b = "continue_line @ r"
  have "find_crlf (ascii ''+CONTINUE'' @ [13, 10] @ r) = Some (length (ascii ''+CONTINUE''))"
    by (rule find_crlf_at) (simp add: ascii_def)
  then have "find_crlf ?b = Some 9" "drop 11 ?b = r" by (simp_all add: continue_line_def ascii_def)
  moreover have "skip_newlines ?b = ?b" "\<not> starts_with (ascii ''+FULLRESYNC '') ?b" "starts_with (ascii ''+CONTINUE'') ?b"
    by (simp_all add: continue_line_def ascii_def skip_newlines_def starts_with_def)
  ultimately show ?thesis by (simp add: parse_psync_response_def)
qed

lemma receive_continue:
  fixes st :: "('v, 'i, 'p::linorder, 'r) replica"
  assumes "phase st = Ph_psync" "resp_buffer st = []" "socket st"
  shows "receive D V S I G F sent ((continue_line @ c) # chunks) st =
    receive D V S I G F sent (if c = [] then chunks else c # chunks) (psync_continue st\<lparr>ack_timer := True\<rparr>)"
proof -
  let ?st = "psync_continue st\<lparr>ack_timer := True\<rparr>"
  have r: "handle_response D V S I G F sent (st\<lparr>resp_buffer := resp_buffer st @ continue_line @ c\<rparr>) =
      (if c = [] then Inr (Noreply, ?st, []) else handle_replication_data D V S I G F sent c ?st)"
    using assms by (simp add: handle_response_def handle_psync_response_def continue_parsed psync_completed_def psync_continue_def
        buffer_same)
  have ph: "phase ?st = Ph_replication" "socket ?st" using assms(3) by (simp_all add: psync_continue_def)
  show ?thesis
  proof (cases "c = []")
    case True
    then have "handle_data D V S I G F sent (continue_line @ c) st = Inr (Noreply, ?st, [])"
      using r assms(1) by (simp add: handle_data_def)
    then show ?thesis using True ph(2)
      by (cases "receive D V S I G F sent chunks ?st") (auto split: prod.split)
  next
    case False
    then have "handle_data D V S I G F sent (continue_line @ c) st = handle_data D V S I G F sent c ?st"
      using r assms(1) ph(1) by (simp add: handle_data_def)
    then show ?thesis using False by simp
  qed
qed

lemma feed_streamed:
  assumes "concat chunks = newlines @ concat (map enc_command css)" "set newlines \<subseteq> {10, 13}" "length (concat chunks) < 2 ^ 63"
  shows "\<exists>p. feed_all replica_feed (ReplicaParser_new True) chunks = Inr (stream_commands 0 css, p) \<and> rstate p = Streaming"
proof -
  let ?new = "ReplicaParser_new True" and ?cs = "concat (map enc_command css)"
  have "skip_newlines newlines = []" using assms(2) by (auto simp: skip_newlines_def)
  then have "replica_run (append_stream ?new (newlines @ ?cs)) = replica_run (append_stream ?new ?cs)"
    using skip_run [of "?new\<lparr>rbuffer := newlines\<rparr>" ?cs] by (simp add: append_stream_def ReplicaParser_new_def)
  moreover have "length ?cs < 2 ^ 63" using assms(1,3) by simp
  then obtain p where "replica_run (append_stream ?new ?cs) = Inr (stream_commands 0 css, p)" "rstate p = Streaming"
    using run_commands [of "append_stream ?new ?cs" css] by (auto simp: append_stream_def ReplicaParser_new_def)
  moreover have "replica_good ?new (concat chunks)" using assms(3) by (simp add: replica_good_def ReplicaParser_new_def)
  then have "without_flags (feed_all replica_feed ?new chunks) = replica_run (append_stream ?new (concat chunks))"
    by (rule replica_chunks) (simp_all add: new_stream_waits)
  ultimately show ?thesis using assms(1) by (cases "feed_all replica_feed ?new chunks") auto
qed

lemma resync_followed:
  fixes st :: "('v, 'i, 'p::linorder, 'r) replica"
  assumes "term_codec D" "nif V S I D" "following S I st s" "reconnect_enabled st" "password st = None"
    "replication_id st = Some repl_id"
    "c @ concat chunks = newlines @ concat (map enc_command css)" "set newlines \<subseteq> {10, 13}" "length (c @ concat chunks) < 2 ^ 63"
    "Enum_map (convert_raw G) (stream_commands 0 css) = Inr rcs" "storable S D rcs" "\<not> tx_after rcs False"
  shows "\<exists>st1 es1 st2 es2 s2. run_events D V S I G Some reconnection st = Inr (Noreply, st1, es1) \<and>
    last es1 = Socket_send (psync_command repl_id (replication_offset st)) \<and>
    receive D V S I G Some sent ((continue_line @ c) # chunks) st1 = Inr (Noreply, st2, es2) \<and>
    following S I st2 s2 \<and> abs_storage V s2 = keyspace_of S D rcs (abs_storage V s)"
proof -
  have st: "ts_storage (callback_state st) = Some s" "new_ts_storage (callback_state st) = None" "tx_buffer (callback_state st) = []"
    "\<not> in_transaction (callback_state st)" "ready (callback_state st)" "storage_ok S I s"
    using assms(3) by (simp_all add: following_def)
  from reconnects [OF assms(4-6), of D V S I G Some] obtain st1 es1 where r1:
    "run_events D V S I G Some reconnection st = Inr (Noreply, st1, es1)" "phase st1 = Ph_psync" "socket st1" "resp_buffer st1 = []"
    "callback_state st1 = callback_state st" "last es1 = Socket_send (psync_command repl_id (replication_offset st))"
    by (elim exE conjE) (rule that)
  let ?st = "psync_continue st1\<lparr>ack_timer := True\<rparr>"
  let ?chunks = "if c = [] then chunks else c # chunks"
  have "concat ?chunks = c @ concat chunks" by simp
  with assms(7-9) feed_streamed [of ?chunks newlines css] obtain p
    where f: "feed_all replica_feed (ReplicaParser_new True) ?chunks = Inr (stream_commands 0 css, p)" "rstate p = Streaming" by auto
  obtain rs s2 where s2: "execute_write_commands D V S I (converted (map rc_pair rcs)) s = (Some rs, s2)" "storage_ok S I s2"
    "abs_storage V s2 = keyspace_of S D rcs (abs_storage V s)"
    using commands_run [OF assms(1,2) st(6) assms(10,11)] by blast
  have cb: "stream_parser ?st = Some (ReplicaParser_new True)" "phase ?st = Ph_replication" "socket ?st"
    "callback_state ?st = callback_state st" "rstate (ReplicaParser_new True) = Streaming"
    using r1(3,5) by (simp_all add: psync_continue_def ReplicaParser_new_def)
  have "settled (callback_state ?st)" "runs_to D V S I (callback_state ?st) (converted (map rc_pair rcs)) s2"
    using cb(4) st(1-4) s2(1)
    by (auto simp: settled_def runs_to_def write_target_def pending_def converted_def List.map_filter_def)
  from receive_follows [OF cb(1-3) f(1) assms(10) this, of sent] cb(4,5) st f(2) assms(12)
  obtain st2 es2 where r2: "receive D V S I G Some sent ?chunks ?st = Inr (Noreply, st2, es2)" "stream_parser st2 = Some p"
    "phase st2 = Ph_replication" "settled (callback_state st2)" "runs_to D V S I (callback_state st2) [] s2"
    "socket st2" "\<not> in_transaction (callback_state st2)" "ready (callback_state st2)" "new_ts_storage (callback_state st2) = None"
    by (auto simp: starts_def)
  have "streaming st2" using r2(2,3) f(2) by (simp add: streaming_def)
  from followingI [OF this r2(6,8,4,7,9,5) s2(2)] have "following S I st2 s2" .
  moreover have "receive D V S I G Some sent ((continue_line @ c) # chunks) st1 = Inr (Noreply, st2, es2)"
    using receive_continue [OF r1(2,4,3)] r2(1) by simp
  ultimately show ?thesis using r1(1,6) s2(3) by blast
qed

text \<open>
  C11. The process comes back. When the connection is lost it reconnects, asks the server to resume at the offset it has
  counted, and after \<open>+CONTINUE\<close> follows the stream from there: the keyspace readers see is the one it had, changed by
  the commands that come, up to the database. That starts at 0, whatever database was selected when the connection broke.
\<close>

theorem resync_resumes:
  fixes st :: "('v, 'i, 'p::linorder, 'r) replica"
  assumes "term_codec D" "nif V S I D" "following S I st s" "reconnect_enabled st" "password st = None"
    "replication_id st = Some repl_id"
    "c @ concat chunks = newlines @ concat (map enc_command css)" "set newlines \<subseteq> {10, 13}" "length (c @ concat chunks) < 2 ^ 63"
    "Enum_map (convert_raw G) (stream_commands 0 css) = Inr rcs" "storable S D rcs" "\<not> tx_after rcs False"
  shows "\<exists>st1 es1 st2 es2 s2. run_events D V S I G Some reconnection st = Inr (Noreply, st1, es1) \<and>
    last es1 = Socket_send (psync_command repl_id (replication_offset st)) \<and>
    receive D V S I G Some sent ((continue_line @ c) # chunks) st1 = Inr (Noreply, st2, es2) \<and>
    following S I st2 s2 \<and> abs_storage V s2 = keyspace_of S D rcs (abs_storage V s)"
  using resync_followed [OF assms] by blast

text \<open>A process that serves the empty storage.\<close>

definition caught_up :: "(bytes list, ZSetIndexKey list, nat, nat) replica" where
  "caught_up = asking\<lparr>phase := Ph_replication, stream_parser := Some (ReplicaParser_new True), replication_id := Some example_id,
     replication_offset := 70, callback_state := initialize_state\<lparr>ready := True\<rparr>\<rparr>"

lemma caught_up_simps [simp]:
  "stream_parser caught_up = Some (ReplicaParser_new True)" "replication_id caught_up = Some example_id"
  "replication_offset caught_up = 70" "reconnect_enabled caught_up" "password caught_up = None"
  by (simp_all add: caught_up_def)

lemma caught_up_following: "following f64_ops f64_index caught_up StorageInner_new"
  by (simp add: following_def caught_up_def streaming_def ReplicaParser_new_def initialize_state_def storage_ok_new)

theorem resync_resumes_witness:
  "\<exists>st1 es1 st2 es2 s2. run_events erlang list_vec f64_ops f64_index (drop 1) Some reconnection caught_up = Inr (Noreply, st1, es1) \<and>
     last es1 = Socket_send (psync_command example_id 70) \<and>
     receive erlang list_vec f64_ops f64_index (drop 1) Some True [continue_line @ enc_command [ascii ''INCR'', [107]]] st1 =
       Inr (Noreply, st2, es2) \<and> following f64_ops f64_index st2 s2 \<and> abs_storage list_vec s2 0 [107] = Some (AString (i64_to_string 1))"
proof -
  let ?c = "enc_command [ascii ''INCR'', [107]]"
  have c: "?c @ concat [] = [] @ concat (map enc_command [[ascii ''INCR'', [107]]])" "set [] \<subseteq> {10, 13 :: u8}" by simp_all
  have l: "length (?c @ concat []) < 2 ^ 63"
    by (simp add: ascii_def enc_command_def enc_bulk_def bulk_header_def nat_to_string.simps)
  have r: "Enum_map (convert_raw (drop 1)) (stream_commands 0 [[ascii ''INCR'', [107]]]) = Inr [counter_command 0]"
    using counter_converted(2) by (simp add: with_args_def ascii_def)
  have o: "storable f64_ops erlang [counter_command 0]" "\<not> tx_after [counter_command 0] False" using counter_decoded(3,4) [of 0] by simp_all
  have "keyspace_of f64_ops erlang [counter_command 0]
        (abs_storage list_vec (StorageInner_new :: (bytes list, ZSetIndexKey list) StorageInner)) 0 [107] =
      Some (AString (i64_to_string 1))"
    using counter_decoded(5) [of 0] by (simp add: empty_keyspace at_key_def ks_update_apply i64_range_def)
  then have k: "F = keyspace_of f64_ops erlang [counter_command 0]
      (abs_storage list_vec (StorageInner_new :: (bytes list, ZSetIndexKey list) StorageInner)) \<Longrightarrow>
      F 0 [107] = Some (AString (i64_to_string 1))" for F :: keyspace by simp
  from resync_resumes [OF erlang_terms.term_codec_axioms erlang_nif.nif_axioms caught_up_following caught_up_simps(4,5,2)
      c l r o, of True]
  show ?thesis unfolding caught_up_simps(3) by (elim exE conjE) (intro exI conjI, assumption+, erule k)
qed

section \<open>What a partial resynchronisation misses\<close>

lemma data_streams:
  fixes st :: "('v, 'i, 'p::linorder, 'r) replica"
  assumes "handle_data D V S I G F sent data st = Inr (a, st1, es)" "streaming st"
  shows "keeps_rest (callback_state st) (callback_state st1) \<and> (phase st1 = Ph_replication \<longrightarrow> streaming st1) \<and>
    (phase st1 \<noteq> Ph_replication \<longrightarrow> \<not> socket st1)"
proof -
  obtain p where p: "phase st = Ph_replication" "stream_parser st = Some p" "rstate p = Streaming"
    using assms(2) by (auto simp: streaming_def split: option.splits)
  obtain r p1 where f: "replica_feed_data p data = (r, p1)" by fastforce
  note p1 = feed_keeps_streaming [OF p(3) f]
  show ?thesis
  proof (cases r)
    case (Inl e)
    then show ?thesis using assms(1) p f
      by (cases e) (auto simp: handle_data_def handle_replication_data_def handle_disconnect_def schedule_reconnect_def Let_def
          split: if_splits)
  next
    case (Inr x)
    obtain raws ping getack where x: "x = (raws, ping, getack)" by (metis prod_cases3)
    obtain rcs cb es1 where "Enum_map (convert_raw G) raws = Inr rcs"
      "process_replica_commands D V S I F rcs (callback_state st) = Inr (cb, es1)"
      "st1 = st\<lparr>stream_parser := Some p1, replication_offset := replication_offset st + int (length data), callback_state := cb\<rparr>"
      using assms(1) p p1 f Inr x
      by (auto simp: handle_data_def handle_replication_data_def Let_def and_then_Inr)
    moreover from this(2) have "keeps_rest (callback_state st) cb"
      by (auto simp: process_replica_commands_def Let_def dest: chunk_keeps_rest(1) split: if_splits)
    ultimately show ?thesis using p p1 by (simp add: streaming_def)
  qed
qed

lemma receive_streams:
  fixes st :: "('v, 'i, 'p::linorder, 'r) replica"
  shows "receive D V S I G F sent chunks st = Inr (a, st1, es) \<Longrightarrow> streaming st \<Longrightarrow>
    keeps_rest (callback_state st) (callback_state st1) \<and> (phase st1 = Ph_replication \<longrightarrow> streaming st1)"
proof (induction chunks arbitrary: st es)
  case (Cons data chunks)
  then obtain b st2 es2 where h: "handle_data D V S I G F sent data st = Inr (b, st2, es2)" by (auto simp: and_then_Inr)
  note k = data_streams [OF h Cons.prems(2)]
  show ?case
  proof (cases "b = Noreply \<and> socket st2")
    case True
    then obtain es3 where "receive D V S I G F sent chunks st2 = Inr (a, st1, es3)"
      using Cons.prems(1) h by (auto simp: and_then_Inr)
    with Cons.IH [of st2 es3] k True show ?thesis by (auto intro: keeps_rest_trans)
  next
    case False
    then show ?thesis using Cons.prems(1) h k by auto
  qed
qed (auto simp: streaming_def)



lemma feed_bad_start:
  assumes "skip_newlines data = b" "b \<noteq> []" "b ! 0 \<noteq> 42"
  shows "fst (replica_feed_data (ReplicaParser_new True) data) = Inl (Failed ''expected_array'')"
  using assms
  by (simp add: replica_feed_data_def Let_def ReplicaParser_new_def replica_feed_loop.simps replica_parse_next.simps
      replica_parse_step_def parse_command_def)



text \<open>
  C14. Commands can be applied twice. When the commands that follow a snapshot arrive in the chunk that ends it, none of their bytes
  count: after a lost connection the process asks the server to resume where the snapshot was taken, and a server that
  does so sends them again. The storage then is that of running the commands twice.
\<close>

theorem commands_applied_twice:
  fixes st :: "('v, 'i, 'p::linorder, 'r) replica"
  assumes "term_codec D" "nif V S I D" "phase st = Ph_psync" "resp_buffer st = []" "socket st" "is_repl_id repl_id"
    "reconnect_enabled st" "password st = None" "wf_dump magic items checksum"
    "c = bulk_header (length (enc_dump magic items checksum)) @ enc_dump magic items checksum @ concat (map enc_command css)"
    "length c < 2 ^ 63" "replicated G items css = Inr rcs" "storable S D rcs" "\<not> tx_after rcs False"
    "Enum_map (convert_raw G) (stream_commands 0 css) = Inr again" "storable S D again" "\<not> tx_after again False"
  shows "\<exists>st1 es1 st2 es2 st3 es3 s. receive D V S I G Some sent [fullresync_line repl_id n @ c] st = Inr (Noreply, st1, es1) \<and>
    run_events D V S I G Some reconnection st1 = Inr (Noreply, st2, es2) \<and>
    last es2 = Socket_send (psync_command repl_id (int n)) \<and>
    receive D V S I G Some sent [continue_line @ concat (map enc_command css)] st2 = Inr (Noreply, st3, es3) \<and>
    following S I st3 s \<and> abs_storage V s = keyspace_of S D again (keyspace_of S D rcs (\<lambda>db key. None))"
proof -
  have c: "c @ concat [] = [] @ bulk_header (length (enc_dump magic items checksum)) @ enc_dump magic items checksum @
      concat (map enc_command css)" "length (c @ concat []) < 2 ^ 63" using assms(10,11) by simp_all
  have "c \<noteq> []" using assms(10) by (simp add: bulk_header_def)
  then have "counted (ReplicaParser_new False) (nonempty c []) = 0"
    by (simp add: nonempty_def ReplicaParser_new_def split: sum.split prod.split)
  then obtain st1 es1 s where r1: "receive D V S I G Some sent [fullresync_line repl_id n @ c] st = Inr (Noreply, st1, es1)"
    "following S I st1 s" "replication_id st1 = Some repl_id" "replication_offset st1 = int n" "reconnect_enabled st1"
    "password st1 = None" "abs_storage V s = keyspace_of S D rcs (\<lambda>db key. None)"
    using server_followed [OF assms(1-6,9) _ c assms(12-14), of sent n] assms(7,8) by auto
  have "concat (map enc_command css) @ concat [] = [] @ concat (map enc_command css)"
    "length (concat (map enc_command css) @ concat []) < 2 ^ 63" using assms(10,11) by simp_all
  from resync_followed [OF assms(1,2) r1(2,5,6,3) this(1) _ this(2) assms(15-17), of sent]
  show ?thesis using r1(1,4,7) by auto
qed

theorem commands_applied_twice_witness:
  "\<exists>st1 es1 st2 es2 st3 es3 s.
     receive erlang list_vec f64_ops f64_index (drop 1) Some True [fullresync_line example_id 70 @ counter_bytes] asking = Inr (Noreply, st1, es1) \<and>
     run_events erlang list_vec f64_ops f64_index (drop 1) Some reconnection st1 = Inr (Noreply, st2, es2) \<and>
     last es2 = Socket_send (psync_command example_id 70) \<and>
     receive erlang list_vec f64_ops f64_index (drop 1) Some True [continue_line @ concat (map enc_command counter_words)] st2 =
       Inr (Noreply, st3, es3) \<and>
     following f64_ops f64_index st3 s \<and> abs_storage list_vec s 2 [107] = Some (AString (i64_to_string 2))"
proof -
  have c: "counter_bytes = bulk_header (length (enc_dump example_magic [] (replicate 8 0))) @ enc_dump example_magic [] (replicate 8 0) @
      concat (map enc_command counter_words)" by (simp add: counter_bytes_def empty_dump_def)
  have r: "replicated (drop 1) [] counter_words = Inr [counter_command 2]"
    "Enum_map (convert_raw (drop 1)) (stream_commands 0 counter_words) = Inr [counter_command 2]"
    using counter_converted(1) by (simp_all add: replicated_def counter_stream)
  have o: "storable f64_ops erlang [counter_command 2]" "\<not> tx_after [counter_command 2] False" using counter_decoded(3,4) [of 2] by simp_all
  have "parse_i64 (i64_to_string 1) = Some 1" by (rule parse_i64_to_string) (simp add: i64_range_def)
  then have "keyspace_of f64_ops erlang [counter_command 2] (keyspace_of f64_ops erlang [counter_command 2] (\<lambda>db key. None)) 2 [107] =
      Some (AString (i64_to_string 2))"
    using counter_decoded(5) [of 2] by (simp add: at_key_def ks_update_apply i64_range_def)
  moreover note commands_applied_twice [OF erlang_terms.term_codec_axioms erlang_nif.nif_axioms asking_simps(1-3) example_id_ok
      asking_simps(4,5) empty_dump_wf c counter_bytes_short r(1) o r(2) o, of True 70]
  ultimately show ?thesis by (simp only: of_nat_numeral) metis
qed

end
