(* ===== verification/Replica_Invariant.thy ===== *)
theory Replica_Invariant
  imports Replica_Resync
begin

text \<open>
  What holds of the process at all times, whatever the server, the network and the watchers do. In particular there always is
  a storage for the readers, and there is one to load into whenever a snapshot may still arrive, so that the storage
  NIF is never called without one.
\<close>

definition replica_ok :: "('v, 'i, 'p, 'r) replica \<Rightarrow> bool" where
  "replica_ok st \<longleftrightarrow>
     ts_storage (callback_state st) \<noteq> None \<and> settled (callback_state st) \<and>
     (socket st \<longleftrightarrow> phase st \<noteq> Ph_init) \<and> (stream_parser st \<noteq> None \<longleftrightarrow> phase st = Ph_replication) \<and>
     (reconnect_timer st \<longrightarrow> phase st = Ph_init) \<and>
     (\<forall>p. stream_parser st = Some p \<longrightarrow> rstate p \<noteq> Streaming \<longrightarrow> new_ts_storage (callback_state st) \<noteq> None) \<and>
     (reconnect_delay_ms st \<le> max_reconnect_delay_ms st \<longrightarrow> current_reconnect_delay_ms st \<le> max_reconnect_delay_ms st)"

text \<open>The states of the process, from its first attempt to connect on.\<close>

inductive replica_reaches ::
  "eterm rustler \<Rightarrow> 'v vec_ops \<Rightarrow> score_ops \<Rightarrow> 'i index_ops \<Rightarrow> (bytes \<Rightarrow> bytes) \<Rightarrow> (replica_command \<Rightarrow> replica_command option) \<Rightarrow>
     ('v, 'i, 'p::linorder, 'r) replica \<Rightarrow> bool" for D V S I G F where
  first_connect: "handle_connect reached sent (replica_init user pass auto delay max_delay) = (Noreply, st, es) \<Longrightarrow>
     replica_reaches D V S I G F st"
| event: "replica_reaches D V S I G F st \<Longrightarrow> enabled e st \<Longrightarrow> handle_event D V S I G F e st = Inr (Noreply, st', es) \<Longrightarrow>
     replica_reaches D V S I G F st'"

section \<open>The events\<close>

lemma process_keeps:
  fixes cb :: "('v, 'i, 'p::linorder, 'r) TSProj"
  assumes "process_replica_commands D V S I F rcs cb = Inr (cb1, es)" "settled cb"
  shows "settled cb1 \<and> keeps_rest cb cb1"
  using assms chunk_end_empty [of D V S I _ cb cb1 es] chunk_keeps_rest(1) [of D V S I _ cb cb1 es]
  by (auto simp: process_replica_commands_def Let_def settled_def split: if_splits)

lemma connect_ok:
  assumes "replica_ok st" "phase st = Ph_init" "handle_connect reached sent st = (Noreply, st1, es)"
  shows "replica_ok st1"
  using assms
  by (auto simp: handle_connect_def connect_directly_def proceed_after_connect_def send_auth_def send_ping_def transmit_def
      schedule_reconnect_def Let_def replica_ok_def min_def split: if_splits option.splits)

lemma disconnect_ok: "replica_ok st \<Longrightarrow> handle_disconnect st = (Noreply, st1, es) \<Longrightarrow> replica_ok st1"
  by (auto simp: handle_disconnect_def schedule_reconnect_def Let_def replica_ok_def min_def split: if_splits)

lemma disconnect_action: "handle_disconnect st = (a, st1, es) \<Longrightarrow> a \<noteq> Reconnect"
  by (auto simp: handle_disconnect_def schedule_reconnect_def Let_def split: if_splits)

lemma replication_data_ok:
  fixes st :: "('v, 'i, 'p::linorder, 'r) replica"
  assumes "replica_ok st" "handle_replication_data D V S I G F sent data st = Inr (a, st1, es)"
  shows "replica_ok st1"
proof -
  obtain p where p: "stream_parser st = Some p" using assms(2) by (auto simp: handle_replication_data_def split: option.splits)
  obtain r p1 where f: "replica_feed_data p data = (r, p1)" by fastforce
  show ?thesis
  proof (cases r)
    case (Inl e)
    then show ?thesis using assms p f by (cases e) (simp_all add: handle_replication_data_def)
  next
    case (Inr x)
    obtain raws ping getack where x: "x = (raws, ping, getack)" by (metis prod_cases3)
    let ?cb = "callback_state st"
    let ?started = "if rstate p \<noteq> Streaming \<and> rstate p1 = Streaming then handle_streaming_start ?cb else (?cb, [])"
    obtain rcs cb1 es1 where c: "process_replica_commands D V S I F rcs (fst ?started) = Inr (cb1, es1)"
      "callback_state st1 = cb1" "stream_parser st1 = Some p1" "socket st1 = socket st" "phase st1 = phase st"
      "reconnect_timer st1 = reconnect_timer st" "reconnect_delay_ms st1 = reconnect_delay_ms st"
      "max_reconnect_delay_ms st1 = max_reconnect_delay_ms st" "current_reconnect_delay_ms st1 = current_reconnect_delay_ms st"
      using assms(2) p f Inr x by (auto simp: handle_replication_data_def Let_def and_then_Inr)
    have ok: "settled ?cb" "ts_storage ?cb \<noteq> None" "rstate p \<noteq> Streaming \<longrightarrow> new_ts_storage ?cb \<noteq> None"
      using assms(1) p by (auto simp: replica_ok_def)
    have s: "settled (fst ?started)" "ts_storage (fst ?started) \<noteq> None" "rstate p1 \<noteq> Streaming \<longrightarrow> new_ts_storage (fst ?started) \<noteq> None"
      using ok feed_keeps_streaming [OF _ f] by (auto simp: settled_start) (auto simp: handle_streaming_start_def)
    have "settled cb1" "keeps_rest (fst ?started) cb1" using process_keeps [OF c(1) s(1)] by simp_all
    with s(2,3) have "ts_storage cb1 \<noteq> None" "rstate p1 \<noteq> Streaming \<longrightarrow> new_ts_storage cb1 \<noteq> None"
      by (auto simp: keeps_rest_def)
    with \<open>settled cb1\<close> show ?thesis using assms(1) p c(2-9) unfolding replica_ok_def by auto
  qed
qed

lemma response_ok:
  fixes st :: "('v, 'i, 'p::linorder, 'r) replica"
  assumes "replica_ok st" "phase st \<noteq> Ph_replication" "phase st \<noteq> Ph_init"
    "handle_response D V S I G F sent st = Inr (a, st1, es)"
  shows "replica_ok st1"
proof (cases "phase st = Ph_psync")
  case True
  have full: "replica_ok (psync_fullresync i n (st\<lparr>resp_buffer := b\<rparr>)\<lparr>ack_timer := True\<rparr>)" for i n b
    using assms(1,3) by (simp add: replica_ok_def psync_fullresync_def handle_replication_start_def settled_def)
  have cont: "replica_ok (psync_continue (st\<lparr>resp_buffer := b\<rparr>)\<lparr>ack_timer := True\<rparr>)" for b
    using assms(1,3) by (simp add: replica_ok_def psync_continue_def ReplicaParser_new_def)
  have buf: "replica_ok (s\<lparr>resp_buffer := b\<rparr>) = replica_ok s" for s :: "('v, 'i, 'p, 'r) replica" and b
    by (simp add: replica_ok_def)
  have completed: "psync_completed D V S I G F sent s = Inr (a, st1, es) \<Longrightarrow> replica_ok (s\<lparr>ack_timer := True\<rparr>) \<Longrightarrow> replica_ok st1" for s
    using replication_data_ok [of "s\<lparr>ack_timer := True, resp_buffer := []\<rparr>"] buf [of "[]" "s\<lparr>ack_timer := True\<rparr>"]
    by (auto simp: psync_completed_def Let_def split: if_splits)
  obtain response where "parse_psync_response (resp_buffer st) = Inr response"
    using assms(4) True by (auto simp: handle_response_def handle_psync_response_def and_then_Inr)
  then show ?thesis
    using assms(1,4) True completed full cont
    by (cases response) (auto simp: handle_response_def handle_psync_response_def)
next
  case False
  then show ?thesis
    using assms
    by (cases "phase st")
      (auto simp: handle_response_def handle_simple_response_def after_send_def send_ping_def send_replconf_listening_port_def
        send_replconf_capa_def send_psync_def transmit_def Let_def replica_ok_def split: resp_response.splits option.splits if_splits)
qed

lemma data_ok:
  fixes st :: "('v, 'i, 'p::linorder, 'r) replica"
  assumes "replica_ok st" "socket st" "handle_data D V S I G F sent data st = Inr (Noreply, st1, es)"
  shows "replica_ok st1"
proof -
  let ?st = "st\<lparr>resp_buffer := resp_buffer st @ data\<rparr>"
  have b: "replica_ok ?st" using assms(1) by (simp add: replica_ok_def)
  have ph: "phase st \<noteq> Ph_init" using assms(1,2) by (simp add: replica_ok_def)
  obtain a st2 es2 where h:
    "(if phase st = Ph_replication then handle_replication_data D V S I G F sent data st else handle_response D V S I G F sent ?st) =
       Inr (a, st2, es2)"
    "(if a = Reconnect then (case handle_disconnect st2 of (a2, st2, es3) \<Rightarrow> (a2, st2, es2 @ es3)) else (a, st2, es2)) =
       (Noreply, st1, es)"
    using assms(3) by (auto simp: handle_data_def and_then_Inr)
  have "replica_ok st2"
  proof (cases "phase st = Ph_replication")
    case True
    then show ?thesis using h(1) replication_data_ok [OF assms(1)] by simp
  next
    case False
    then show ?thesis using h(1) response_ok [OF b, of D V S I G F sent a st2 es2] ph by simp
  qed
  then show ?thesis using h(2) disconnect_ok by (auto split: if_splits prod.splits)
qed

lemma unwatched_keeps:
  "unwatched cb pid w = Inr (r, cb1) \<Longrightarrow> ts_storage cb1 = ts_storage cb \<and> new_ts_storage cb1 = new_ts_storage cb \<and>
     tx_buffer cb1 = tx_buffer cb \<and> in_transaction cb1 = in_transaction cb"
  by (cases w; rename_tac x; case_tac x) (auto simp: unwatched_def split: if_splits)

lemma call_keeps:
  "handle_call m cb = Inr (r, cb1) \<Longrightarrow> ts_storage cb1 = ts_storage cb \<and> new_ts_storage cb1 = new_ts_storage cb \<and>
     tx_buffer cb1 = tx_buffer cb \<and> in_transaction cb1 = in_transaction cb"
  by (cases "(m, cb)" rule: handle_call.cases)
    (auto simp: put_watch_and_monitor_def split: sum.splits if_splits dest!: unwatched_keeps)

lemma event_ok:
  fixes st :: "('v, 'i, 'p::linorder, 'r) replica"
  assumes "replica_ok st" "enabled e st" "handle_event D V S I G F e st = Inr (Noreply, st1, es)"
  shows "replica_ok st1"
proof (cases e)
  case (On_connect a b)
  then show ?thesis using assms by (simp add: enabled_def)
next
  case (On_data sent data)
  then show ?thesis using assms data_ok by (auto simp: enabled_def)
next
  case On_closed
  then show ?thesis using assms disconnect_ok by auto
next
  case (On_reconnect_timeout a b)
  show ?thesis
  proof (cases "reconnect_timer st")
    case True
    then have "replica_ok (st\<lparr>reconnect_timer := False\<rparr>)" "phase (st\<lparr>reconnect_timer := False\<rparr>) = Ph_init"
      using assms(1) by (auto simp: replica_ok_def)
    moreover have "handle_connect a b (st\<lparr>reconnect_timer := False\<rparr>) = (Noreply, st1, es)"
      using assms(3) True On_reconnect_timeout by (simp add: handle_reconnect_timeout_def)
    ultimately show ?thesis by (rule connect_ok)
  qed (use assms On_reconnect_timeout in \<open>simp add: handle_reconnect_timeout_def\<close>)
next
  case (On_periodic_ack b)
  then show ?thesis using assms by (auto simp: handle_periodic_ack_def replica_ok_def)
next
  case (On_call m)
  then show ?thesis using assms call_keeps [of m "callback_state st"]
    by (auto simp: handle_callback_call_def and_then_Inr replica_ok_def settled_def split: if_splits)
next
  case (On_down pid)
  then show ?thesis using assms
    by (auto simp: handle_info_down_def handle_down_def and_then_Inr replica_ok_def settled_def)
qed

text \<open>
  C5. The process is consistent in every state it can reach: readers always have a storage; while a snapshot can still arrive there
  is one to load it into; outside a transaction nothing is left unwritten between two messages; it has a parser
  exactly while it replicates and a socket exactly while it is connecting, negotiating or replicating; a timer to reconnect
  runs only without a connection, and its delay never passes the bound.
\<close>

theorem replica_consistent:
  assumes "replica_reaches D V S I G F st"
  shows "replica_ok st"
  using assms
proof induction
  case (first_connect reached sent user pass auto delay max_delay st es)
  have "replica_ok (replica_init user pass auto delay max_delay)" "phase (replica_init user pass auto delay max_delay) = Ph_init"
    by (simp_all add: replica_init_def replica_ok_def initialize_state_def settled_def)
  with first_connect show ?case using connect_ok by blast
qed (rule event_ok)

theorem replica_consistent_witness:
  "\<exists>st :: (bytes list, ZSetIndexKey list, nat, nat) replica.
     replica_reaches erlang list_vec f64_ops f64_index (drop 1) Some st \<and> phase st = Ph_ping \<and> replica_ok st"
proof -
  let ?st = "replica_init None None True 1000 30000 :: (bytes list, ZSetIndexKey list, nat, nat) replica"
  let ?st1 = "?st\<lparr>socket := True, phase := Ph_ping\<rparr>"
  have "handle_connect True True (replica_init None None True 1000 30000) =
      (Noreply, ?st1, [Socket_send (enc_command [ascii ''PING''])])"
    by (simp add: handle_connect_def connect_directly_def proceed_after_connect_def send_ping_def transmit_def replica_init_def)
  then have "replica_reaches erlang list_vec f64_ops f64_index (drop 1) Some ?st1" by (rule first_connect)
  moreover have "phase ?st1 = Ph_ping" by simp
  ultimately show ?thesis using replica_consistent by blast
qed

end
