(* ===== verification/Spec2Isabelle.thy ===== *)
theory Spec2Isabelle
  imports Lua Notifications Snapshot Replica_Invariant
begin

text \<open>
  This development verifies veidrodelis, a library that keeps a local, read-only copy of the data of a Valkey/Redis
  server: its core in Rust, and the Elixir processes that follow the replication stream of the server, hand every write,
  in batches, to the storage NIF, and tell the processes that watch a key about it; readers ask the same storage.

  \<^bold>\<open>The parts\<close> (under src/native/vdr\_ts\_nif/src):

  \<^item> storage/types.rs, mod.rs, bytes.rs, zset\_index.rs: the values a key can hold, the map of databases, the
    key iteration commands, the keys of a sorted set's index (theories \<open>Storage\<close>, \<open>ZSet_Index\<close>,
    \<open>ZSet_Core\<close>);
  \<^item> storage/strings.rs, hashes.rs, sets.rs, lists.rs, zsets.rs: the commands, one function each (theories
    \<open>Strings\<close>, \<open>Hashes\<close>, \<open>Sets\<close>, \<open>Lists\<close>, \<open>ZSets\<close> and \<open>ZSet_Stores\<close>, a definition per function under its name);
  \<^item> write\_commands.rs and the transaction of lib.rs: a handler per write command, their dispatch and a
    batch under one lock (theory \<open>Handlers\<close>; \<open>Commands\<close> holds the decoded commands and their specification);
  \<^item> read\_commands.rs and the read transaction of lib.rs: a handler per read command, which encodes the answer, and a batch
    of reads under one lock (theory \<open>Reads\<close>);
  \<^item> storage/lua.rs and the Lua NIFs of lib.rs: the functions a read script calls, the transaction that runs a script and the
    conversion of its result (theory \<open>Lua\<close>; the interpreter is an argument);
  \<^item> lib.rs: the prefix watch tree that tells which clients to notify of a key (theory \<open>Watch\<close>);
  \<^item> under src/native/vdr\_redis\_nif/src, rdb.rs: the parser of a snapshot (an RDB dump), a state machine that is fed
    chunks and returns the commands that rebuild the data (theories \<open>Wire\<close>, \<open>LZF\<close>, \<open>RDB_Load\<close> and \<open>RDB\<close>), and
    replica.rs: the parser of the replication stream, the snapshot followed by commands (theory \<open>Replica\<close>);
  \<^item> under src/lib/veidrodelis, redis\_stream/command\_parser.ex: the words of a command become the tuple the storage takes
    (theory \<open>Command_Parser\<close>; \<open>Elixir_Lib\<close> has what the Elixir code uses of its library);
  \<^item> redis\_stream/replica.ex: the process that connects, negotiates, receives, counts the offset and reconnects (theory
    \<open>Replica_Process\<close>);
  \<^item> ts\_proj.ex: the projection, which buffers commands and transactions, writes them in batches, keeps the storage that is
    being loaded apart from the one that is read, and notifies watchers (theory \<open>Projection\<close>);
  \<^item> ts/watch.ex: the registry of watchers, on top of the prefix watch tree (theory \<open>Watch_Registry\<close>).

  \<^bold>\<open>State and operations.\<close> The storage is the record \<open>StorageInner\<close>, a sorted association list of databases,
  each a sorted association list from keys to \<open>StorageValue\<close>; \<open>BTree\<close> models the standard ordered map and
  set. A command takes the storage and returns a result and the new storage; an error is \<open>Err\<close> with a
  constructor per message, a panic is \<open>Err Panic\<close>. \<open>Rust_Int\<close> and \<open>F64\<close> model the checked integer operations,
  the decimal texts and the binary64 arithmetic the commands use. The crates the storage is built on are not
  part of the repository: the persistent vector (im), the ordered set with positions (indexset), the order of
  floats (ordered-float), the random source (rand) and the Erlang terms (rustler) are record arguments \<open>V\<close>, \<open>I\<close>,
  \<open>S\<close>, \<open>R\<close>, \<open>D\<close> (decoding) and \<open>E\<close> (encoding) of the definitions, and the locales \<open>im_vector\<close>, \<open>index_set\<close>, \<open>score_order\<close>, \<open>rand_source\<close> and
  \<open>rustler_codec\<close> state what their documentation promises; each is interpreted on a reference implementation
  (\<open>Externals\<close>, \<open>ZSet_Index\<close>, \<open>Handlers\<close>). \<open>term_codec\<close> (\<open>Command_Parser\<close>) extends \<open>rustler_codec\<close> with what is promised of
  the terms the command parser builds.

  The state of the process is the record \<open>replica\<close>, which holds the projection (the record \<open>TSProj\<close>), the parser of the
  stream and the \<open>watch_registry\<close>; a handler takes the state and returns what the process does next, the new state
  and its effects (messages, bytes sent, batches), or the exception it raises (\<open>Inl\<close>). \<open>handle_event\<close> is one step of it. Whether a
  connection or a message succeeds comes with the event. Two functions are arguments: \<open>G\<close>, which drops the first
  character of a string (\<open>String.slice\<close>, which depends on Unicode tables), and \<open>F\<close>, the filter of commands a user may install.

  \<^bold>\<open>Specification.\<close> \<open>abs_storage\<close> maps a storage to its keyspace: a partial function from database and key to a
  string, a set, a sequence, a map, or a map from members to scores. Every write command has a
  specification, a function of the keyspace alone, and an interpretation of the locale \<open>key_command\<close> or
  \<open>keyspace_command\<close> shows that the command implements it and keeps the invariant \<open>storage_ok\<close> (maps sorted,
  and the index of a sorted set holding exactly its entries in order). \<open>Cursor\<close> states what the four
  iteration commands of each kind have in common. For the parsers, \<open>RDB_Format\<close> and \<open>RDB_Values\<close> define the encodings a
  dump may use and show that the loaders read each of them back; the locale \<open>incremental\<close> (\<open>Incremental\<close>) states when a
  parser fed in chunks does not depend on the chunks, and \<open>RDB_Dump\<close> and \<open>Replica_Stream\<close> interpret it on the two
  parsers. For the process, the specification is the keyspace again: \<open>keyspace_of\<close> runs the commands of a stream on
  it, \<open>dump_keyspace\<close> is what a snapshot describes, and \<open>following\<close> says that the process streams and serves a storage.
  For the registry it is who watches what (\<open>registry_spec\<close>).

  \<^bold>\<open>What the theorems show.\<close> In this theory: batches implement the specification, so that two storages with
  the same keyspace stay equal, and answer every batch of reads the same, without a panic; the index and the
  entries of every sorted set of a reachable storage agree; a command changes only the keys it names, and nothing when it fails, the moves and stores excepted; paging
  through the keys is complete; index keys are totally ordered. In the component theories: what each group of
  commands computes, in terms of the readers, and that the iteration commands page through hashes, sets and
  sorted sets completely. For the processes: from the bytes of the server, in chunks of any size, to the keyspace that is read
  (\<open>Replica_Follow\<close>), the meaning of a snapshot (\<open>Snapshot\<close>, which needs that the decimal text of a number reads back as
  it, \<open>F64_Text\<close>), transactions as one batch each (\<open>Transactions\<close>), no panic on anything the parser builds
  (\<open>No_Panic\<close>, on top of \<open>Parsed_Commands\<close>), the lookups of the registry after any calls (\<open>Watch_Registry\<close>), a message to every
  watcher of a changed key (\<open>Notifications\<close>), an invariant of all reachable states (\<open>Replica_Invariant\<close>), and what a
  broken connection leaves (\<open>Replica_Resync\<close>): the stream resumes, but a snapshot that was not finished is never
  loaded, an incomplete command is lost, and commands that came with the end of a snapshot are run twice. Some theorems record behaviour that differs from the server's: the clamped ranges,
  a destination that is also a source, moves to a key of another type, inverted ranges. For the parsers: a dump and a
  whole replication stream are read back exactly, in any chunks; every feed ends, in a number of steps linear in its
  bytes; and two encodings of a dump that are not read as they should. For the scripts: a script that returns the
  result of one function gives what the read command gives, the empty list excepted, and the conversion of a result
  ends unless a table contains itself.

  \<^bold>\<open>Bounds and fuel.\<close> The paging client \<open>scan\<close> has a fuel argument, the number of pages it may still ask for;
  the theorems show that the number of elements is enough. The depth of \<open>lua_value_to_term\<close> is the stack its recursion
  may use; \<open>conversion_ends\<close> says how deep it must be. Loops of the source are structural recursions,
  but for the state machines, whose \<open>termination\<close> proofs weigh the buffer and the state.
  Counts and lengths are natural numbers; the one addition of the source that can pass 64 bits
  (\<open>setrange\<close>) is written with its wrap-around, as are the sums of lengths the parsers read from their input
  (\<open>usize_add\<close>); the round trips assume that a dump is shorter than \<open>2 ^ 64\<close> bytes and a stream than \<open>2 ^ 63\<close>, the most a
  buffer can hold. Score ranges are assumed not to be inverted
  (\<open>ranges_ok\<close>): what indexset returns for an inverted range is not documented.

  \<^bold>\<open>Not modelled.\<close> The interpreter of Lua (mlua), of which the theory \<open>Lua\<close> keeps what the source uses: values, a
  heap of tables without metatables, and a function that runs scripts; logging; the registration of the NIFs; of the
  Elixir application, the discovery of a server by sentinels, sockets and TLS, the registry of instances that the public
  API looks up, supervision, \<open>post_handle\<close> of the command filter, the end of a process, and the benchmark.
\<close>

section \<open>The storage as a whole\<close>

abbreviation all_ok :: "score_ops \<Rightarrow> 't rustler \<Rightarrow> 't list \<Rightarrow> bool" where
  "all_ok S D ts \<equiv> list_all (request_ranges_ok S) (map (decode_term D) ts)"

text \<open>
  C1. A batch of terms implements its specification: the results, one per term up to a panic, and the
  keyspace it leaves are those of the abstract keyspace operations the terms decode to, and the invariant is kept.
\<close>

theorem batch_implements_spec:
  assumes "nif V S I D" "storage_ok S I st" "all_ok S D ts"
  shows "storage_ok S I (snd (execute_write_commands D V S I ts st)) \<and>
    fst (execute_write_commands D V S I ts st) = fst (spec_batch S (map (decode_term D) ts) (abs_storage V st)) \<and>
    abs_storage V (snd (execute_write_commands D V S I ts st)) =
      snd (spec_batch S (map (decode_term D) ts) (abs_storage V st))"
  using nif.batch_refines [OF assms] by (metis fst_map_prod snd_map_prod id_apply)

definition term_of :: "int \<Rightarrow> atom \<Rightarrow> eterm list \<Rightarrow> eterm" where
  "term_of db name args = E_tuple [E_int db, E_tuple (E_atom name # args)]"

definition example_terms :: "eterm list" where
  "example_terms =
     [term_of 0 ''rpush'' [E_bin [108], E_list [E_bin [100]]], term_of 1 ''incrby'' [E_bin [110], E_int 7],
      term_of 0 ''sadd'' [E_bin [108], E_list [E_bin [97]]], term_of 0 ''incrby'' [E_bin [110], E_atom ''x'']]"

lemma example_decoded:
  "map (decode_term erlang) example_terms =
     [Ok (0, C_rpush [108] [[100]]), Ok (1, C_incrby [110] 7), Ok (0, C_sadd [108] [[97]]), Err (Usage ''INCRBY'')]"
  by code_simp

theorem batch_implements_spec_witness:
  "fst (execute_write_commands erlang list_vec f64_ops f64_index example_terms sample) =
     Some [Ok (), Ok (), Err WrongType, Err (Usage ''INCRBY'')]"
proof -
  have "abs_storage list_vec sample 1 [110] = None"
    by (simp add: abs_storage_def lookup_def sample_def bm_get_def)
  then show ?thesis
    using batch_implements_spec [OF erlang_nif.nif_axioms sample_ok, of example_terms]
    by (simp add: example_decoded ranges_ok_def spec_request_def at_key_def ks_update_apply i64_range_def)
qed

text \<open>
  C4. In every storage the NIFs can produce, the two structures of a sorted set agree: the entries are sorted by
  member, the index by score and then member, and they hold the same members with the same scores.
\<close>

theorem reachable_consistent:
  assumes "nif V S I D" "reachable D V S I st" "lookup st db key = Some (ZSet z)"
  shows "sorted_wrt (<) (map fst (entries z)) \<and> sorted_wrt (\<lambda>a b. key_cmp S a b = Some Less) (ix_iter I (index z)) \<and>
    set (ix_iter I (index z)) = {Key s x | x s. bm_get (entries z) x = Some s}"
proof -
  have ok: "zset_ok S I z"
    using value_ok_lookup [OF nif.reachable_ok [OF assms(1,2)] assms(3)] by simp
  have "set (ix_iter I (index z)) = {Key s x | x s. bm_get (entries z) x = Some s}"
    using index_set.index_mem_iff [OF _ ok] assms(1) by (auto simp: nif_def backend_def)
  then show ?thesis using ok by (simp add: zset_ok_def index_ok_def bm_sorted_def)
qed

lemma abs_zset_lookup: "abs_storage V st db k = Some (AZSet m) \<Longrightarrow> \<exists>z. lookup st db k = Some (ZSet z)"
  by (cases "lookup st db k") (auto simp: abs_storage_def elim: abs_value.elims)

definition zadd_term :: eterm where
  "zadd_term = term_of 0 ''zadd''
     [E_bin [122], E_list [E_tuple [E_float f64_one, E_bin [97]], E_tuple [E_float f64_zero, E_bin [98]]], E_list []]"

lemma zadd_term_decoded:
  "decode_term erlang zadd_term = Ok (0, C_zadd [122] [(f64_one, [97]), (f64_zero, [98])] [])"
  by code_simp

lemma example_reachable:
  "\<exists>st z. reachable erlang list_vec f64_ops f64_index st \<and> lookup st 0 [122] = Some (ZSet z)"
proof -
  define st where "st = snd (execute_write_commands erlang list_vec f64_ops f64_index [zadd_term] StorageInner_new)"
  have ok: "all_ok f64_ops erlang [zadd_term]" by (simp add: zadd_term_decoded ranges_ok_def)
  have e: "abs_storage list_vec st =
      snd (spec_batch f64_ops (map (decode_term erlang) [zadd_term])
        (abs_storage list_vec (StorageInner_new :: (bytes list, ZSetIndexKey list) StorageInner)))"
    unfolding st_def
    using arg_cong [OF conjunct2 [OF erlang_nif.batch_refines [OF storage_ok_new ok]], of snd]
    by (simp only: snd_map_prod)
  have "\<exists>m. abs_storage list_vec st 0 [122] = Some (AZSet m)"
    unfolding e list.map zadd_term_decoded spec_batch.simps spec_request_def sum.case prod.case spec_command.simps
    by (simp add: at_key_def spec_zadd_def zadd_error_def abs_storage_def lookup_new ks_update_apply)
  then obtain z where "lookup st 0 [122] = Some (ZSet z)" using abs_zset_lookup by blast
  moreover have "reachable erlang list_vec f64_ops f64_index st"
    unfolding st_def by (rule reachable.tx [OF reachable.create ok])
  ultimately show ?thesis by blast
qed

theorem reachable_consistent_witness:
  "\<exists>st z. reachable erlang list_vec f64_ops f64_index st \<and> lookup st 0 [122] = Some (ZSet z) \<and>
     set (ix_iter f64_index (index z)) = {Key s x | x s. bm_get (entries z) x = Some s}"
  using example_reachable reachable_consistent [OF erlang_nif.nif_axioms] by blast

text \<open>
  C10. Two storages that hold the same keyspace, on different vectors and indexes and with any internal
  differences, return the same results for a batch and hold the same keyspace afterwards.
\<close>

theorem replicas_converge:
  assumes "nif V S I D" "nif V' S I' D" "storage_ok S I st" "storage_ok S I' st'"
    "abs_storage V st = abs_storage V' st'" "all_ok S D ts"
  shows "fst (execute_write_commands D V S I ts st) = fst (execute_write_commands D V' S I' ts st') \<and>
    abs_storage V (snd (execute_write_commands D V S I ts st)) =
      abs_storage V' (snd (execute_write_commands D V' S I' ts st'))"
proof -
  have "map_prod id (abs_storage V) (execute_write_commands D V S I ts st) =
      map_prod id (abs_storage V') (execute_write_commands D V' S I' ts st')"
    using nif.batch_refines [OF assms(1,3,6)] nif.batch_refines [OF assms(2,4,6)] assms(5) by simp
  then show ?thesis by (metis fst_map_prod snd_map_prod id_apply)
qed

theorem replicas_converge_witness:
  "abs_storage list_vec (snd (execute_write_commands erlang list_vec f64_ops f64_index example_terms sample)) =
   abs_storage list_vec (snd (execute_write_commands erlang list_vec f64_ops f64_index example_terms (put_db sample 5 [])))"
proof -
  have ok: "storage_ok f64_ops f64_index (put_db sample 5 [])"
    by (intro storage_ok_put_db sample_ok db_ok_Nil)
  have "abs_storage list_vec sample = abs_storage list_vec (put_db sample 5 [])"
    by (auto simp: fun_eq_iff abs_storage_def lookup_put_db) (simp add: lookup_def sample_def bm_get_def)
  from replicas_converge [OF erlang_nif.nif_axioms erlang_nif.nif_axioms sample_ok ok this, of example_terms]
  show ?thesis by (simp add: example_decoded ranges_ok_def)
qed

text \<open>
  C22. A command changes no key outside the keys it names.
\<close>

theorem command_frame:
  assumes "nif V S I D" "storage_ok S I st" "decode_term D t = Ok (db, c)" "ranges_ok S c" "(db', key) \<notin> writes db c"
  shows "abs_storage V (snd (execute D V S I st t)) db' key = abs_storage V st db' key"
  using nif.execute_step(2) [OF assms(1,2), of t] spec_command_frame [OF assms(5), of S "abs_storage V st"] assms(3,4)
  by (simp add: spec_request_def)

definition lmove_term :: eterm where
  "lmove_term = term_of 0 ''lmove'' [E_bin [108], E_bin [107], E_atom ''left'', E_atom ''left'']"

lemma lmove_term_decoded: "decode_term erlang lmove_term = Ok (0, C_lmove [108] [107] True True)"
  by code_simp

theorem command_frame_witness:
  "abs_storage list_vec (snd (execute erlang list_vec f64_ops f64_index sample lmove_term)) 0 [122] =
   abs_storage list_vec sample 0 [122]"
  using command_frame [OF erlang_nif.nif_axioms sample_ok lmove_term_decoded, of 0 "[122]"]
  by (simp add: ranges_ok_def)

text \<open>
  C23. A command that fails leaves the keyspace as it was, unless it is one of the moves and stores, which change it
  in two steps; a term that does not decode leaves it as it was, too.
\<close>

theorem errors_change_nothing:
  assumes "nif V S I D" "storage_ok S I st" "request_ranges_ok S (decode_term D t)"
    "\<forall>db c. decode_term D t = Ok (db, c) \<longrightarrow> \<not> two_steps c" "fst (execute D V S I st t) = Err e"
  shows "abs_storage V (snd (execute D V S I st t)) = abs_storage V st"
proof (cases "decode_term D t")
  case (Inl x)
  then show ?thesis using nif.execute_step(2) [OF assms(1-3)] by (simp add: spec_request_def)
next
  case (Inr dc)
  obtain db c where dc: "dc = (db, c)" by fastforce
  have "command_ok S c"
    using rustler_codec.decoded_request_ok [OF _ assms(3)] assms(1) by (simp add: nif_def Inr dc)
  then show ?thesis
    using nif.execute_step(2) [OF assms(1-3)] spec_command_errors [of c S db "abs_storage V st" e] assms(4,5)
    by (simp add: Inr dc spec_request_def)
qed

definition hset_term :: eterm where
  "hset_term = term_of 0 ''hset'' [E_bin [108], E_bin [102], E_bin [118]]"

lemma hset_term_decoded: "decode_term erlang hset_term = Ok (0, C_hset [108] [102] [118])"
  by code_simp

lemma hset_term_fails: "fst (execute erlang list_vec f64_ops f64_index sample hset_term) = Err WrongType"
  by (simp add: execute_decodes hset_term_decoded run_request_def hset_def)

theorem errors_change_nothing_witness:
  "abs_storage list_vec (snd (execute erlang list_vec f64_ops f64_index sample hset_term)) =
   abs_storage list_vec sample"
  by (rule errors_change_nothing [OF erlang_nif.nif_axioms sample_ok _ _ hset_term_fails])
    (simp_all add: hset_term_decoded ranges_ok_def two_steps_def)


definition example_reads :: "eterm list" where
  "example_reads =
     [E_tuple [E_atom ''get'', E_bin [110]], E_tuple [E_atom ''zrange'', E_bin [122], E_int 0, E_int (- 1), E_atom ''true''],
      E_tuple [E_atom ''zrangebyscore'', E_bin [122], E_float f64_zero, E_float f64_one, E_atom ''false''],
      E_tuple [E_atom ''srandmember'', E_bin [115], E_int 2]]"

lemma example_reads_ok: "list_all (read_ok f64_ops erlang) example_reads"
  by (simp add: example_reads_def read_ok_def read_args_ok_def erlang_defs)


section \<open>Keys and index keys\<close>

text \<open>
  C31. A client that pages through the keys of a database, any positive number at a time, sees every key exactly
  once and then stops; as many further pages as there are keys are enough.
\<close>

theorem key_paging:
  assumes "storage_ok S I st" "0 < n" "length (db_entry st db) \<le> fuel"
  shows "distinct (scan (\<lambda>k. next_cmd st db k n) (\<lambda>k. k) fuel (first st db n)) \<and>
    set (scan (\<lambda>k. next_cmd st db k n) (\<lambda>k. k) fuel (first st db n)) = {k. lookup st db k \<noteq> None}"
proof -
  have "set (map fst (db_entry st db)) = {k. lookup st db k \<noteq> None}"
    by (auto simp: lookup_entry bm_get_def map_of_eq_None_iff simp del: not_None_eq)
  then show ?thesis
    using key_cursor.scan_complete [of S I st n db fuel] key_cursor.items_distinct [of S I st db] assms by simp
qed

theorem key_paging_witness:
  "set (scan (\<lambda>k. next_cmd sample 0 k 2) (\<lambda>k. k) 6 (first sample 0 2)) = {k. lookup sample 0 k \<noteq> None}"
  using key_paging [OF sample_ok, of 2 0 6] by (simp add: sample_db_def)

text \<open>
  C29. Comparing a stored key with any key never reaches \<open>unreachable!()\<close>; equality agrees with the order, swapping
  the operands flips the comparison, and the order is transitive on stored keys.
\<close>

theorem index_keys_total:
  assumes "score_order S" "is_stored a" "is_stored b" "is_stored c"
  shows "key_cmp S a x \<noteq> None \<and> key_cmp S x a \<noteq> None \<and> key_eq S a x = Some (key_cmp S a x = Some Equal) \<and>
    key_cmp S x a = map_option flip_ord (key_cmp S a x) \<and>
    (key_cmp S a b = Some Less \<and> key_cmp S b c = Some Less \<longrightarrow> key_cmp S a c = Some Less)"
  using key_cmp_stored [OF assms(2), of S x] key_eq_cmp [OF assms(2), of S x]
    score_order.key_cmp_flip [OF assms(1), of x a] score_order.key_less_trans [OF assms] by blast

theorem index_keys_total_witness:
  "key_cmp f64_ops (Key f64_zero [98]) (Key f64_one [99]) = Some Less"
  using index_keys_total [OF f64.score_order_axioms, of "Key f64_zero [98]" "Key f64_one [97]" "Key f64_one [99]" "MinScoreKey f64_zero"]
  by simp

end
